(* ===== verification/Prelude.thy ===== *)
theory Prelude
  imports Main
begin

text \<open>
  What the components share: panics as \<open>None\<close>, sequencing over lists that stops at the
  first failure, decimal printing (Rust's \<open>{}\<close> of an integer), joining of strings, and
  ordered maps (\<open>BTreeMap\<close>) as association lists sorted by key, behind the interface
  locale \<open>ordered_map\<close>.
\<close>

section \<open>Panics and failing traversals\<close>

text \<open>
  A Rust expression that may panic has type \<open>'a option\<close> in the model: \<open>None\<close> is the panic.
  A function that returns \<open>Result\<close> has a sum type, with \<open>Inl\<close> for the error.
\<close>

fun mapM_opt :: "('a \<Rightarrow> 'b option) \<Rightarrow> 'a list \<Rightarrow> 'b list option" where
  "mapM_opt f [] = Some []"
| "mapM_opt f (x # xs) =
     (case f x of
        None \<Rightarrow> None
      | Some y \<Rightarrow> (case mapM_opt f xs of None \<Rightarrow> None | Some ys \<Rightarrow> Some (y # ys)))"

lemma mapM_opt_cong [fundef_cong]:
  "xs = ys \<Longrightarrow> (\<And>x. x \<in> set ys \<Longrightarrow> f x = g x) \<Longrightarrow> mapM_opt f xs = mapM_opt g ys"
proof (induction xs arbitrary: ys)
  case Nil
  then show ?case by simp
next
  case (Cons x xs)
  have "mapM_opt f xs = mapM_opt g xs"
    using Cons.prems by (intro Cons.IH) auto
  moreover have "f x = g x" using Cons.prems by auto
  ultimately show ?case using Cons.prems(1) by (auto split: option.splits)
qed

lemma mapM_opt_map: "mapM_opt f (map g xs) = mapM_opt (\<lambda>x. f (g x)) xs"
  by (induction xs) (auto split: option.splits)

lemma mapM_opt_Some_iff:
  "mapM_opt f xs = Some ys \<longleftrightarrow> list_all2 (\<lambda>x y. f x = Some y) xs ys"
proof (induction xs arbitrary: ys)
  case Nil
  then show ?case by auto
next
  case IH: (Cons x xs)
  show ?case
  proof (cases ys)
    case Nil
    then show ?thesis by (auto split: option.splits)
  next
    case (Cons y ys')
    have "(mapM_opt f xs = Some ys') = list_all2 (\<lambda>x y. f x = Some y) xs ys'"
      by (rule IH.IH)
    then show ?thesis using Cons by (auto split: option.splits)
  qed
qed

lemma mapM_opt_length: "mapM_opt f xs = Some ys \<Longrightarrow> length ys = length xs"
  by (auto simp: mapM_opt_Some_iff dest: list_all2_lengthD)

lemma mapM_opt_total:
  "(\<And>x. x \<in> set xs \<Longrightarrow> \<exists>y. f x = Some y) \<Longrightarrow> \<exists>ys. mapM_opt f xs = Some ys"
  by (induction xs) (fastforce split: option.splits)+

lemma mapM_opt_SomeD:
  assumes "mapM_opt f xs = Some ys" and "x \<in> set xs"
  shows "\<exists>y \<in> set ys. f x = Some y"
  using assms
  by (induction xs arbitrary: ys) (auto split: option.splits)

lemma mapM_opt_SomeD2:
  assumes "mapM_opt f xs = Some ys" and "y \<in> set ys"
  shows "\<exists>x \<in> set xs. f x = Some y"
  using assms
  by (induction xs arbitrary: ys) (auto split: option.splits)

lemma mapM_opt_Some_map: "mapM_opt (\<lambda>x. Some (f x)) xs = Some (map f xs)"
  by (induction xs) auto

fun fold_opt :: "('a \<Rightarrow> 'b \<Rightarrow> 'a option) \<Rightarrow> 'a \<Rightarrow> 'b list \<Rightarrow> 'a option" where
  "fold_opt f a [] = Some a"
| "fold_opt f a (x # xs) = Option.bind (f a x) (\<lambda>a. fold_opt f a xs)"

lemma fold_opt_append:
  "fold_opt f a (xs @ ys) = Option.bind (fold_opt f a xs) (\<lambda>a. fold_opt f a ys)"
  by (induction xs arbitrary: a) (auto split: bind_splits)

declare Option.bind_cong [fundef_cong]

text \<open>\<open>Iterator::any\<close> and \<open>filter\<close> with a test that can panic; \<open>any\<close> stops at the first success.\<close>

fun any_opt :: "('a \<Rightarrow> bool option) \<Rightarrow> 'a list \<Rightarrow> bool option" where
  "any_opt f [] = Some False"
| "any_opt f (x # xs) =
     (case f x of None \<Rightarrow> None | Some True \<Rightarrow> Some True | Some False \<Rightarrow> any_opt f xs)"

fun filter_opt :: "('a \<Rightarrow> bool option) \<Rightarrow> 'a list \<Rightarrow> 'a list option" where
  "filter_opt f [] = Some []"
| "filter_opt f (x # xs) =
     (case f x of
        None \<Rightarrow> None
      | Some b \<Rightarrow> map_option (\<lambda>ys. if b then x # ys else ys) (filter_opt f xs))"

lemma any_opt_Some:
  "(\<And>x. x \<in> set xs \<Longrightarrow> f x = Some (P x)) \<Longrightarrow> any_opt f xs = Some (\<exists>x\<in>set xs. P x)"
  by (induction xs) (auto split: bool.splits)

lemma any_opt_False:
  "any_opt f xs = Some False \<longleftrightarrow> (\<forall>x\<in>set xs. f x = Some False)"
  by (induction xs) (auto split: option.splits bool.splits)

lemma any_opt_True: "any_opt f xs = Some True \<Longrightarrow> \<exists>x\<in>set xs. f x = Some True"
  by (induction xs) (auto split: option.splits bool.splits)

lemma filter_opt_Some:
  "(\<And>x. x \<in> set xs \<Longrightarrow> f x = Some (P x)) \<Longrightarrow> filter_opt f xs = Some (filter P xs)"
  by (induction xs) auto

lemma filter_opt_mem:
  "filter_opt f xs = Some ys \<Longrightarrow> x \<in> set ys \<longleftrightarrow> x \<in> set xs \<and> f x = Some True"
  by (induction xs arbitrary: ys) (auto split: option.splits if_splits)

lemma filter_opt_total: "filter_opt f xs = Some ys \<Longrightarrow> x \<in> set xs \<Longrightarrow> \<exists>b. f x = Some b"
  by (induction xs arbitrary: ys) (auto split: option.splits)

text \<open>Subtraction of unsigned numbers and indexing, which panic out of range.\<close>

definition nat_minus :: "nat \<Rightarrow> nat \<Rightarrow> nat option" where
  "nat_minus a b = (if b \<le> a then Some (a - b) else None)"

definition nth_opt :: "'a list \<Rightarrow> nat \<Rightarrow> 'a option" where
  "nth_opt xs i = (if i < length xs then Some (xs ! i) else None)"

text \<open>\<open>Iterator::find_map\<close> and \<open>Option::or_else\<close>.\<close>

fun find_map :: "('a \<Rightarrow> 'b option) \<Rightarrow> 'a list \<Rightarrow> 'b option" where
  "find_map f [] = None"
| "find_map f (x # xs) = (case f x of None \<Rightarrow> find_map f xs | Some y \<Rightarrow> Some y)"

lemma find_map_cong [fundef_cong]:
  "xs = ys \<Longrightarrow> (\<And>x. x \<in> set ys \<Longrightarrow> f x = g x) \<Longrightarrow> find_map f xs = find_map g ys"
  by (induction xs arbitrary: ys) (auto split: option.splits)

definition or_else :: "'a option \<Rightarrow> 'a option \<Rightarrow> 'a option" where
  "or_else a b = (case a of None \<Rightarrow> b | Some x \<Rightarrow> Some x)"

text \<open>The \<open>?\<close> operator on a \<open>Result\<close>, and traversals that stop at the first error.\<close>

definition res_bind :: "'e + 'a \<Rightarrow> ('a \<Rightarrow> 'e + 'b) \<Rightarrow> 'e + 'b" where
  "res_bind r f = (case r of Inl e \<Rightarrow> Inl e | Inr x \<Rightarrow> f x)"

lemma res_bind_simps [simp]: "res_bind (Inl e) f = Inl e" "res_bind (Inr x) f = f x"
  by (simp_all add: res_bind_def)

lemma res_bind_cong [fundef_cong]:
  "r = r' \<Longrightarrow> (\<And>x. r' = Inr x \<Longrightarrow> f x = g x) \<Longrightarrow> res_bind r f = res_bind r' g"
  by (simp add: res_bind_def split: sum.split)

lemma res_bind_Inr: "res_bind r f = Inr y \<longleftrightarrow> (\<exists>x. r = Inr x \<and> f x = Inr y)"
  by (simp add: res_bind_def split: sum.split)

fun mapM_res :: "('a \<Rightarrow> 'e + 'b) \<Rightarrow> 'a list \<Rightarrow> 'e + 'b list" where
  "mapM_res f [] = Inr []"
| "mapM_res f (x # xs) = res_bind (f x) (\<lambda>y. res_bind (mapM_res f xs) (\<lambda>ys. Inr (y # ys)))"

lemma mapM_res_cong [fundef_cong]:
  "xs = ys \<Longrightarrow> (\<And>x. x \<in> set ys \<Longrightarrow> f x = g x) \<Longrightarrow> mapM_res f xs = mapM_res g ys"
  by (induction xs arbitrary: ys) (auto simp: res_bind_def split: sum.split)

lemma mapM_res_Inr: "mapM_res f xs = Inr ys \<longleftrightarrow> list_all2 (\<lambda>x y. f x = Inr y) xs ys"
proof (induction xs arbitrary: ys)
  case (Cons x xs)
  then show ?case by (cases ys) (auto simp: res_bind_Inr)
qed (auto simp: list_all2_Nil)

text \<open>The same with a state that every step passes on.\<close>

fun mapS_res :: "('a \<Rightarrow> 's \<Rightarrow> 'e + 'b \<times> 's) \<Rightarrow> 'a list \<Rightarrow> 's \<Rightarrow> 'e + 'b list \<times> 's" where
  "mapS_res f [] s = Inr ([], s)"
| "mapS_res f (x # xs) s =
     res_bind (f x s) (\<lambda>(y, s). res_bind (mapS_res f xs s) (\<lambda>(ys, s). Inr (y # ys, s)))"

lemma mapS_res_cong [fundef_cong]:
  "xs = ys \<Longrightarrow> s = t \<Longrightarrow> (\<And>x s. x \<in> set ys \<Longrightarrow> f x s = g x s) \<Longrightarrow> mapS_res f xs s = mapS_res g ys t"
  by (induction xs arbitrary: ys s t) (auto simp: res_bind_def split: sum.split)

text \<open>What holds of every step that succeeds, whatever the state, holds of the results in order.\<close>

lemma mapS_res_all2:
  assumes "mapS_res f xs s = Inr (ys, s')" and "\<And>x y s s'. x \<in> set xs \<Longrightarrow> f x s = Inr (y, s') \<Longrightarrow> P x y"
  shows "list_all2 P xs ys"
  using assms
proof (induction xs arbitrary: s ys)
  case (Cons x xs)
  then obtain y s1 ys' where "f x s = Inr (y, s1)" "mapS_res f xs s1 = Inr (ys', s')" "ys = y # ys'"
    by (auto simp: res_bind_Inr)
  then show ?case using Cons.IH [of s1 ys'] Cons.prems(2) by auto
qed simp

section \<open>Decimal printing\<close>

definition digit_char :: "nat \<Rightarrow> char" where
  "digit_char d = char_of (48 + d)"

definition char_digit :: "char \<Rightarrow> nat" where
  "char_digit c = of_char c - 48"

fun show_nat :: "nat \<Rightarrow> string" where
  "show_nat n =
     (if n < 10 then [digit_char n] else show_nat (n div 10) @ [digit_char (n mod 10)])"

declare show_nat.simps [simp del]

definition show_int :: "int \<Rightarrow> string" where
  "show_int i = (if i < 0 then CHR ''-'' # show_nat (nat (- i)) else show_nat (nat i))"

definition read_nat :: "string \<Rightarrow> nat" where
  "read_nat s = foldl (\<lambda>n c. n * 10 + char_digit c) 0 s"

definition is_digit_char :: "char \<Rightarrow> bool" where
  "is_digit_char c \<longleftrightarrow> 48 \<le> (of_char c :: nat) \<and> (of_char c :: nat) \<le> 57"

lemma of_char_digit_char [simp]: "d < 10 \<Longrightarrow> of_char (digit_char d) = 48 + d"
  by (simp add: digit_char_def)

lemma char_digit_digit_char [simp]: "d < 10 \<Longrightarrow> char_digit (digit_char d) = d"
  by (simp add: char_digit_def)

lemma show_nat_digits: "c \<in> set (show_nat n) \<Longrightarrow> is_digit_char c"
proof (induction n rule: show_nat.induct)
  case (1 n)
  then show ?case
    by (subst (asm) show_nat.simps) (auto simp: is_digit_char_def split: if_splits)
qed

lemma show_nat_not_Nil [simp]: "show_nat n \<noteq> []"
  by (subst show_nat.simps) simp

lemma read_show_nat [simp]: "read_nat (show_nat n) = n"
proof (induction n rule: show_nat.induct)
  case (1 n)
  show ?case
  proof (cases "n < 10")
    case True
    then show ?thesis by (simp add: show_nat.simps read_nat_def)
  next
    case False
    with 1 have "read_nat (show_nat (n div 10)) = n div 10" by simp
    then have "read_nat (show_nat n) = n div 10 * 10 + n mod 10"
      using False by (subst show_nat.simps) (simp add: read_nat_def)
    then show ?thesis by simp
  qed
qed

lemma show_nat_inject [simp]: "show_nat m = show_nat n \<longleftrightarrow> m = n"
  by (metis read_show_nat)

section \<open>Joining strings\<close>

fun join_strs :: "string \<Rightarrow> string list \<Rightarrow> string" where
  "join_strs sep [] = ''''"
| "join_strs sep [s] = s"
| "join_strs sep (s # t # ss) = s @ sep @ join_strs sep (t # ss)"

section \<open>Ordered maps\<close>

text \<open>
  \<open>BTreeMap\<close>: the entries in increasing order of the keys. Iteration is over the list, equality
  of maps is equality of lists.
\<close>

type_synonym ('k, 'v) btree_map = "('k \<times> 'v) list"

fun bt_insert :: "'k::linorder \<Rightarrow> 'v \<Rightarrow> ('k, 'v) btree_map \<Rightarrow> ('k, 'v) btree_map" where
  "bt_insert k v [] = [(k, v)]"
| "bt_insert k v ((k', v') # m) =
     (if k < k' then (k, v) # (k', v') # m
      else if k = k' then (k, v) # m
      else (k', v') # bt_insert k v m)"

fun bt_get :: "('k, 'v) btree_map \<Rightarrow> 'k \<Rightarrow> 'v option" where
  "bt_get [] k = None"
| "bt_get ((k', v) # m) k = (if k = k' then Some v else bt_get m k)"

definition bt_wf :: "('k::linorder, 'v) btree_map \<Rightarrow> bool" where
  "bt_wf m \<longleftrightarrow> sorted_wrt (<) (map fst m)"

lemma bt_get_eq_map_of: "bt_get m = map_of m"
proof
  fix k
  show "bt_get m k = map_of m k" by (induction m) auto
qed

lemma bt_get_insert: "bt_get (bt_insert k v m) = (bt_get m)(k \<mapsto> v)"
proof
  fix j
  show "bt_get (bt_insert k v m) j = ((bt_get m)(k \<mapsto> v)) j"
    by (induction k v m rule: bt_insert.induct) auto
qed

lemma bt_keys_insert: "fst ` set (bt_insert k v m) = insert k (fst ` set m)"
  by (induction k v m rule: bt_insert.induct) auto

lemma bt_wf_insert: "bt_wf m \<Longrightarrow> bt_wf (bt_insert k v m)"
proof (induction k v m rule: bt_insert.induct)
  case (1 k v)
  then show ?case by (simp add: bt_wf_def)
next
  case (2 k v k' v' m)
  have "x \<in> set (map fst (bt_insert k v m)) \<Longrightarrow> x = k \<or> x \<in> set (map fst m)" for x
    using bt_keys_insert [of k v m] by auto
  with 2 show ?case by (fastforce simp: bt_wf_def)
qed

lemma bt_get_mem: "bt_wf m \<Longrightarrow> (k, v) \<in> set m \<longleftrightarrow> bt_get m k = Some v"
proof -
  assume "bt_wf m"
  then have "distinct (map fst m)"
    by (simp add: bt_wf_def strict_sorted_iff)
  then show ?thesis by (simp add: bt_get_eq_map_of)
qed

locale ordered_map =
  fixes empty :: "'m"
    and insert_entry :: "'k \<Rightarrow> 'v \<Rightarrow> 'm \<Rightarrow> 'm"
    and get :: "'m \<Rightarrow> 'k \<Rightarrow> 'v option"
    and entries :: "'m \<Rightarrow> ('k \<times> 'v) list"
    and wf :: "'m \<Rightarrow> bool"
  assumes get_empty: "get empty = (\<lambda>_. None)"
    and get_insert: "get (insert_entry k v m) = (get m)(k \<mapsto> v)"
    and wf_empty: "wf empty"
    and wf_insert: "wf m \<Longrightarrow> wf (insert_entry k v m)"
    and entries_get: "wf m \<Longrightarrow> (k, v) \<in> set (entries m) \<longleftrightarrow> get m k = Some v"
    and entries_distinct: "wf m \<Longrightarrow> distinct (map fst (entries m))"
begin

lemma get_insert_same: "get (insert_entry k v m) k = Some v"
  by (simp add: get_insert)

lemma get_insert_other: "j \<noteq> k \<Longrightarrow> get (insert_entry k v m) j = get m j"
  by (simp add: get_insert)

lemma dom_insert: "dom (get (insert_entry k v m)) = insert k (dom (get m))"
  by (simp add: get_insert)

lemma finite_dom: "wf m \<Longrightarrow> finite (dom (get m))"
proof -
  assume w: "wf m"
  have "dom (get m) \<subseteq> fst ` set (entries m)"
    by (fastforce simp: entries_get [OF w, symmetric] intro: rev_image_eqI)
  then show ?thesis by (rule finite_subset) simp
qed

lemma insert_if_vacant_le:
  "get m k = None \<Longrightarrow> get m \<subseteq>\<^sub>m get (insert_entry k v m)"
  by (auto simp: map_le_def get_insert)

end

interpretation bt: ordered_map "[]" bt_insert bt_get "\<lambda>m. m" bt_wf
proof
  show "bt_get [] = (\<lambda>_. None)" by (simp add: fun_eq_iff)
  show "bt_wf []" by (simp add: bt_wf_def)
next
  fix k v m
  show "bt_get (bt_insert k v m) = (bt_get m)(k \<mapsto> v)" by (rule bt_get_insert)
  show "bt_wf m \<Longrightarrow> bt_wf (bt_insert k v m)" by (rule bt_wf_insert)
  show "bt_wf m \<Longrightarrow> ((k, v) \<in> set m) = (bt_get m k = Some v)" by (rule bt_get_mem)
  show "bt_wf m \<Longrightarrow> distinct (map fst m)"
    by (simp add: bt_wf_def strict_sorted_iff)
qed

end
