(* ===== verification/Common.thy ===== *)
theory Common
  imports Prelude
begin

text \<open>
  spade-common: identifiers and paths (\<open>name.rs\<close>), unique names (\<open>NameID\<close>), source
  locations (\<open>location_info.rs\<close>) and the id trackers (\<open>id_tracker.rs\<close>).

  \<open>Loc<T>\<close> compares, orders and hashes by its \<open>inner\<close> value only, so where the code only
  compares located values the model carries the value alone; a location is kept where the code
  reports it in an error. \<open>NameID\<close> compares by its number only: \<open>nid_eq\<close>, and maps keyed by
  \<open>NameID\<close> are keyed by the number. Ids are \<open>u64\<close> in the code and \<open>nat\<close> here: 2^64 ids are
  never drawn.
\<close>

section \<open>Locations\<close>

record loc =
  span_start :: nat
  span_end :: nat
  file_id :: nat

definition loc_nowhere :: loc where
  "loc_nowhere = \<lparr>span_start = 0, span_end = 0, file_id = 0\<rparr>"

section \<open>Paths and names\<close>

type_synonym ident = string
type_synonym path = "ident list"

definition path_push_ident :: "path \<Rightarrow> ident \<Rightarrow> path" where
  "path_push_ident p i = p @ [i]"

definition path_pop :: "path \<Rightarrow> path option" where
  "path_pop p = (if p = [] then None else Some (butlast p))"

fun path_join :: "path \<Rightarrow> path \<Rightarrow> path" where
  "path_join p [] = p"
| "path_join p (i # other) = path_join (path_push_ident p i) other"

definition path_lib_relative :: "path \<Rightarrow> path option" where
  "path_lib_relative p =
     (case p of [] \<Rightarrow> None | i # rest \<Rightarrow> if i = ''lib'' then Some rest else None)"

definition path_tail :: "path \<Rightarrow> ident option" where
  "path_tail p = (if p = [] then None else Some (last p))"

definition path_prelude :: "path \<Rightarrow> path option" where
  "path_prelude p = (if p = [] then None else Some (take (length p - 1) p))"

definition show_path :: "path \<Rightarrow> string" where
  "show_path p = join_strs ''::'' p"

lemma path_join_append: "path_join p q = p @ q"
  by (induction p q rule: path_join.induct) (auto simp: path_push_ident_def)

lemma path_prelude_tail:
  "path_prelude p = Some q \<Longrightarrow> path_tail p = Some i \<Longrightarrow> path_push_ident q i = p"
proof -
  assume "path_prelude p = Some q" and "path_tail p = Some i"
  then have "p \<noteq> []" and "q = butlast p" and "i = last p"
    by (auto simp: path_prelude_def path_tail_def butlast_conv_take split: if_splits)
  then show ?thesis by (simp add: path_push_ident_def)
qed

datatype name_id = NameID (nid_num: nat) (nid_path: path)

definition nid_eq :: "name_id \<Rightarrow> name_id \<Rightarrow> bool" where
  "nid_eq a b \<longleftrightarrow> nid_num a = nid_num b"

definition show_name_id :: "name_id \<Rightarrow> string" where
  "show_name_id n = show_path (nid_path n)"

section \<open>Id trackers\<close>

record id_tracker =
  next_id :: nat

definition tracker_new :: id_tracker where
  "tracker_new = \<lparr>next_id = 0\<rparr>"

definition tracker_new_at :: "nat \<Rightarrow> id_tracker" where
  "tracker_new_at i = \<lparr>next_id = i\<rparr>"

definition tracker_next :: "id_tracker \<Rightarrow> nat \<times> id_tracker" where
  "tracker_next t = (next_id t, t\<lparr>next_id := next_id t + 1\<rparr>)"

definition tracker_peek :: "id_tracker \<Rightarrow> nat" where
  "tracker_peek t = next_id t"

text \<open>
  What the clients of a tracker rely on: an id drawn is the one announced by \<open>peek\<close>, and the
  next one is larger, so that ids drawn from one tracker never repeat.
\<close>

locale id_source =
  fixes draw :: "'t \<Rightarrow> nat \<times> 't"
    and upcoming :: "'t \<Rightarrow> nat"
  assumes draw_upcoming: "draw t = (i, t') \<Longrightarrow> i = upcoming t"
    and draw_advances: "draw t = (i, t') \<Longrightarrow> upcoming t' = Suc i"
begin

lemma draw_below: "draw t = (i, t') \<Longrightarrow> i < upcoming t'"
  by (simp add: draw_advances)

lemma draw_mono: "draw t = (i, t') \<Longrightarrow> upcoming t < upcoming t'"
  using draw_upcoming draw_advances by fastforce

lemma draw_fresh: "draw t = (i, t') \<Longrightarrow> j < upcoming t \<Longrightarrow> i \<noteq> j"
  using draw_upcoming by fastforce

lemma draw_twice_distinct: "draw t = (i, t') \<Longrightarrow> draw t' = (j, t'') \<Longrightarrow> i < j"
  using draw_upcoming draw_advances by fastforce

end

interpretation tracker: id_source tracker_next tracker_peek
  by unfold_locales (auto simp: tracker_next_def tracker_peek_def)

end
