(* ===== verification/WL_Range.thy ===== *)
theory WL_Range
  imports Common
begin

text \<open>
  spade-wordlength-inference, \<open>range.rs\<close>: integer ranges, their arithmetic, the word length of a
  range, and the evaluation of an equation by interval arithmetic (\<open>evaluate_ia\<close>). The
  equations are those of \<open>inferer.rs\<close>; \<open>eval_eq\<close> gives them a meaning on integers, against which
  the interval evaluation is proved sound.
\<close>

section \<open>Ranges\<close>

record range =
  lo :: int
  hi :: int

definition range_new :: "int \<Rightarrow> int \<Rightarrow> range" where
  "range_new a b = \<lparr>lo = min a b, hi = max a b\<rparr>"

definition range_add :: "range \<Rightarrow> range \<Rightarrow> range" where
  "range_add a b = range_new (lo a + lo b) (hi a + hi b)"

definition range_sub :: "range \<Rightarrow> range \<Rightarrow> range" where
  "range_sub a b =
     range_new
       (min (min (min (lo a - hi b) (lo a - lo b)) (lo a - hi b)) (lo a - lo b))
       (max (max (max (hi a - hi b) (hi a - lo b)) (lo a - hi b)) (lo a - lo b))"

definition range_neg :: "range \<Rightarrow> range" where
  "range_neg a = range_new (- hi a) (- lo a)"

definition range_mul :: "range \<Rightarrow> range \<Rightarrow> range" where
  "range_mul a b =
     range_new
       (min (min (min (lo a * hi b) (lo a * lo b)) (hi a * hi b)) (hi a * lo b))
       (max (max (max (lo a * hi b) (lo a * lo b)) (hi a * hi b)) (hi a * lo b))"

definition range_union :: "range \<Rightarrow> range \<Rightarrow> range" where
  "range_union a b = range_new (min (lo a) (lo b)) (max (hi a) (hi b))"

definition range_subset :: "range \<Rightarrow> range \<Rightarrow> range" where
  "range_subset a b = range_new (max (lo a) (lo b)) (min (hi a) (hi b))"

definition range_zero :: range where
  "range_zero = range_new 0 0"

text \<open>The loop \<open>for i in 1..2048\<close> of \<open>to_wordlength\<close>, from \<open>i\<close> on.\<close>

function to_wordlength_from :: "nat \<Rightarrow> range \<Rightarrow> nat option" where
  "to_wordlength_from i r =
     (if i < 2048
      then (if \<bar>hi r\<bar> < 2 ^ i \<and> \<bar>lo r\<bar> < 2 ^ i + 1 then Some (i + 1)
            else to_wordlength_from (i + 1) r)
      else None)"
  by pat_completeness auto
termination
  by (relation "measure (\<lambda>(i, r). 2048 - i)") auto

declare to_wordlength_from.simps [simp del]

definition to_wordlength :: "range \<Rightarrow> nat option" where
  "to_wordlength r = to_wordlength_from 1 r"

definition range_bit_manip :: "range \<Rightarrow> range option" where
  "range_bit_manip r =
     map_option
       (\<lambda>wl. let bound = 2 ^ (wl - 1); a = - bound; b = bound - 1
             in range_new (min a b) (max a b))
       (to_wordlength r)"

section \<open>What a range contains\<close>

definition in_range :: "int \<Rightarrow> range \<Rightarrow> bool" where
  "in_range v r \<longleftrightarrow> lo r \<le> v \<and> v \<le> hi r"

definition range_wf :: "range \<Rightarrow> bool" where
  "range_wf r \<longleftrightarrow> lo r \<le> hi r"

named_theorems range_ops

lemmas range_op_defs [range_ops] =
  range_new_def range_add_def range_sub_def range_neg_def range_union_def range_subset_def
  range_zero_def in_range_def range_wf_def

lemma range_new_wf [simp, intro]: "range_wf (range_new a b)"
  by (simp add: range_ops)

lemma range_ops_wf [simp, intro]:
  "range_wf (range_add a b)" "range_wf (range_sub a b)" "range_wf (range_neg a)"
  "range_wf (range_mul a b)" "range_wf (range_union a b)" "range_wf (range_subset a b)"
  by (simp_all add: range_add_def range_sub_def range_neg_def range_mul_def range_union_def
      range_subset_def)

lemma in_range_new: "in_range v (range_new a b) \<longleftrightarrow> min a b \<le> v \<and> v \<le> max a b"
  by (simp add: range_ops)

lemma in_range_add: "in_range x a \<Longrightarrow> in_range y b \<Longrightarrow> in_range (x + y) (range_add a b)"
  by (auto simp: range_ops)

lemma in_range_sub: "in_range x a \<Longrightarrow> in_range y b \<Longrightarrow> in_range (x - y) (range_sub a b)"
  by (auto simp: range_ops)

lemma in_range_neg: "in_range x a \<Longrightarrow> in_range (- x) (range_neg a)"
  by (auto simp: range_ops)

lemma in_range_union1: "in_range x a \<Longrightarrow> in_range x (range_union a b)"
  by (auto simp: range_ops)

lemma in_range_union2: "in_range x b \<Longrightarrow> in_range x (range_union a b)"
  by (auto simp: range_ops)

lemma in_range_subset: "in_range x a \<Longrightarrow> in_range x b \<Longrightarrow> in_range x (range_subset a b)"
  by (auto simp: range_ops)

lemma mult_between:
  fixes l h x y :: int
  assumes "l \<le> x" and "x \<le> h"
  shows "min (l * y) (h * y) \<le> x * y \<and> x * y \<le> max (l * y) (h * y)"
proof (cases "0 \<le> y")
  case True
  with assms have "l * y \<le> x * y" and "x * y \<le> h * y"
    by (simp_all add: mult_right_mono)
  then show ?thesis by auto
next
  case False
  with assms have "h * y \<le> x * y" and "x * y \<le> l * y"
    by (simp_all add: mult_right_mono_neg)
  then show ?thesis by auto
qed

lemma in_range_mul:
  assumes "in_range x a" and "in_range y b"
  shows "in_range (x * y) (range_mul a b)"
proof -
  have xy: "min (lo a * y) (hi a * y) \<le> x * y" "x * y \<le> max (lo a * y) (hi a * y)"
    using mult_between [of "lo a" x "hi a" y] assms by (auto simp: in_range_def)
  have l: "min (lo a * lo b) (lo a * hi b) \<le> lo a * y" "lo a * y \<le> max (lo a * lo b) (lo a * hi b)"
    using mult_between [of "lo b" y "hi b" "lo a"] assms by (auto simp: in_range_def mult.commute)
  have h: "min (hi a * lo b) (hi a * hi b) \<le> hi a * y" "hi a * y \<le> max (hi a * lo b) (hi a * hi b)"
    using mult_between [of "lo b" y "hi b" "hi a"] assms by (auto simp: in_range_def mult.commute)
  define m where "m = min (min (min (lo a * hi b) (lo a * lo b)) (hi a * hi b)) (hi a * lo b)"
  define M where "M = max (max (max (lo a * hi b) (lo a * lo b)) (hi a * hi b)) (hi a * lo b)"
  have "m \<le> lo a * y" and "m \<le> hi a * y"
    using l(1) h(1) unfolding m_def by (auto simp: min_le_iff_disj)
  then have low: "m \<le> x * y" using xy(1) by (auto simp: min_le_iff_disj)
  have "lo a * y \<le> M" and "hi a * y \<le> M"
    using l(2) h(2) unfolding M_def by (auto simp: le_max_iff_disj)
  then have high: "x * y \<le> M" using xy(2) by (auto simp: le_max_iff_disj)
  show ?thesis
    unfolding range_mul_def in_range_new m_def [symmetric] M_def [symmetric]
    using low high by (simp add: min_le_iff_disj le_max_iff_disj)
qed

section \<open>The word length of a range\<close>

text \<open>A value fits a signed word of \<open>w\<close> bits.\<close>

definition fits_signed :: "nat \<Rightarrow> int \<Rightarrow> bool" where
  "fits_signed w v \<longleftrightarrow> - (2 ^ (w - 1)) \<le> v \<and> v \<le> 2 ^ (w - 1) - 1"

lemma to_wordlength_from_Some:
  "to_wordlength_from i r = Some w \<Longrightarrow>
     i < w \<and> w \<le> 2048 \<and> \<bar>hi r\<bar> < 2 ^ (w - 1) \<and> \<bar>lo r\<bar> \<le> 2 ^ (w - 1) \<and>
     (\<forall>j. i \<le> j \<and> j < w - 1 \<longrightarrow> \<not> (\<bar>hi r\<bar> < 2 ^ j \<and> \<bar>lo r\<bar> \<le> 2 ^ j))"
proof (induction i r rule: to_wordlength_from.induct)
  case (1 i r)
  show ?case
  proof (cases "\<bar>hi r\<bar> < 2 ^ i \<and> \<bar>lo r\<bar> < 2 ^ i + 1")
    case True
    with "1.prems" show ?thesis
      by (subst (asm) to_wordlength_from.simps) (auto split: if_splits)
  next
    case False
    with "1.prems" have i: "i < 2048" and rec: "to_wordlength_from (i + 1) r = Some w"
      by (subst (asm) to_wordlength_from.simps; auto split: if_splits)+
    note IH = "1.IH" [OF i False rec]
    have "\<not> (\<bar>hi r\<bar> < 2 ^ j \<and> \<bar>lo r\<bar> \<le> 2 ^ j)" if "i \<le> j" "j < w - 1" for j
    proof (cases "j = i")
      case True
      then show ?thesis using False by auto
    next
      case False
      then show ?thesis using IH that by auto
    qed
    then show ?thesis using IH by auto
  qed
qed

lemma to_wordlength_bounds:
  assumes "to_wordlength r = Some w"
  shows "2 \<le> w" and "w \<le> 2048" and "\<bar>hi r\<bar> < 2 ^ (w - 1)" and "\<bar>lo r\<bar> \<le> 2 ^ (w - 1)"
  using to_wordlength_from_Some [of 1 r w] assms by (auto simp: to_wordlength_def)

lemma to_wordlength_fits:
  assumes "to_wordlength r = Some w" and "in_range v r"
  shows "fits_signed w v"
  using to_wordlength_bounds [OF assms(1)] assms(2)
  by (auto simp: fits_signed_def in_range_def abs_le_iff)

lemma to_wordlength_least:
  assumes "to_wordlength r = Some w" and "2 \<le> u" and "u < w"
  shows "\<not> (\<bar>hi r\<bar> < 2 ^ (u - 1) \<and> \<bar>lo r\<bar> \<le> 2 ^ (u - 1))"
proof -
  have "1 \<le> u - 1" and "u - 1 < w - 1" using assms(2,3) by simp_all
  then show ?thesis
    using to_wordlength_from_Some [OF assms(1) [unfolded to_wordlength_def]] by blast
qed

lemma to_wordlength_from_total:
  assumes "i \<le> k" and "k < 2048" and "\<bar>hi r\<bar> < 2 ^ k" and "\<bar>lo r\<bar> \<le> 2 ^ k"
  shows "\<exists>w. to_wordlength_from i r = Some w \<and> w \<le> k + 1"
  using assms
proof (induction "k - i" arbitrary: i)
  case 0
  then show ?case by (subst to_wordlength_from.simps) auto
next
  case (Suc n)
  then have "\<exists>w. to_wordlength_from (i + 1) r = Some w \<and> w \<le> k + 1"
    by (intro Suc.hyps) auto
  with Suc show ?case by (subst to_wordlength_from.simps) auto
qed

lemma to_wordlength_total:
  assumes "1 \<le> k" and "k < 2048" and "\<bar>hi r\<bar> < 2 ^ k" and "\<bar>lo r\<bar> \<le> 2 ^ k"
  shows "\<exists>w. to_wordlength r = Some w \<and> w \<le> k + 1"
  unfolding to_wordlength_def using assms by (rule to_wordlength_from_total)

lemma to_wordlength_eqI:
  assumes "w \<le> 2046" and "\<bar>hi r\<bar> < 2 ^ (w + 1)" and "\<bar>lo r\<bar> \<le> 2 ^ (w + 1)"
    and "w = 0 \<or> 2 ^ w \<le> \<bar>hi r\<bar> \<or> 2 ^ w < \<bar>lo r\<bar>"
  shows "to_wordlength r = Some (w + 2)"
proof -
  obtain u where u: "to_wordlength r = Some u" and "u \<le> (w + 1) + 1"
    using to_wordlength_total [of "w + 1" r] assms(1-3) by auto
  moreover have "\<not> u < w + 2"
  proof
    assume "u < w + 2"
    then have le: "(2::int) ^ (u - 1) \<le> 2 ^ w" by (intro power_increasing) auto
    show False
    proof (cases "w = 0")
      case True
      then show ?thesis using to_wordlength_bounds(1) [OF u] \<open>u < w + 2\<close> by simp
    next
      case False
      then show ?thesis using to_wordlength_bounds(3,4) [OF u] assms(4) le by linarith
    qed
  qed
  ultimately show ?thesis by simp
qed

lemma in_range_bit_manip:
  assumes "range_bit_manip r = Some r'"
  shows "\<exists>w. to_wordlength r = Some w \<and> (\<forall>v. in_range v r' \<longleftrightarrow> fits_signed w v)"
  using assms
  by (auto simp: range_bit_manip_def Let_def in_range_new fits_signed_def min_def max_def)

lemma range_bit_manip_wf: "range_bit_manip r = Some r' \<Longrightarrow> range_wf r'"
  by (auto simp: range_bit_manip_def Let_def)

lemma range_bit_manip_covers:
  "range_bit_manip r = Some r' \<Longrightarrow> in_range v r \<Longrightarrow> in_range v r'"
  using in_range_bit_manip to_wordlength_fits by blast

section \<open>Equations and interval evaluation\<close>

type_synonym var = nat

datatype equation =
    V var
  | Constant range
  | Add equation equation
  | Sub equation equation
  | Mul equation equation
  | BitManpi equation
  | Neg equation
  | BitManipMax equation equation
  | Union equation equation

text \<open>
  \<open>known: &BTreeMap<Var, Range>\<close> is read with \<open>bt_get\<close>. The helper \<open>both\<close> is the pattern
  \<open>match (x, y) { (Some(a), Some(b)) => .., _ => None }\<close> of the evaluators.
\<close>

type_synonym known = "(var, range) btree_map"

definition both :: "'a option \<Rightarrow> 'b option \<Rightarrow> ('a \<Rightarrow> 'b \<Rightarrow> 'c) \<Rightarrow> 'c option" where
  "both x y f = (case (x, y) of (Some a, Some b) \<Rightarrow> Some (f a b) | _ \<Rightarrow> None)"

lemma both_Some [simp]:
  "both x y f = Some c \<longleftrightarrow> (\<exists>a b. x = Some a \<and> y = Some b \<and> c = f a b)"
  by (auto simp: both_def split: option.splits)

fun evaluate_ia :: "equation \<Rightarrow> known \<Rightarrow> range option" where
  "evaluate_ia (V x) known = bt_get known x"
| "evaluate_ia (Constant r) known = Some r"
| "evaluate_ia (Add a b) known = both (evaluate_ia a known) (evaluate_ia b known) range_add"
| "evaluate_ia (Sub a b) known = both (evaluate_ia a known) (evaluate_ia b known) range_sub"
| "evaluate_ia (Mul a b) known = both (evaluate_ia a known) (evaluate_ia b known) range_mul"
| "evaluate_ia (BitManpi a) known = Option.bind (evaluate_ia a known) range_bit_manip"
| "evaluate_ia (Neg a) known = map_option range_neg (evaluate_ia a known)"
| "evaluate_ia (BitManipMax a b) known =
     both (Option.bind (evaluate_ia a known) range_bit_manip)
          (Option.bind (evaluate_ia b known) range_bit_manip) range_union"
| "evaluate_ia (Union a b) known = both (evaluate_ia a known) (evaluate_ia b known) range_union"

section \<open>The meaning of an equation\<close>

text \<open>
  The values an equation can take when its variables have the values \<open>\<rho>\<close>. \<open>BitManpi\<close> comes from a
  bitwise negation or an arithmetic shift to the right of a two's complement value,
  \<open>BitManipMax\<close> from a bitwise operation of two of them, \<open>Union\<close> from a choice. Shifts to the
  left truncate to the word length of the operand and are covered by
  \<open>range_bit_manip_word\<close> below.
\<close>

inductive eval_eq :: "(var \<Rightarrow> int) \<Rightarrow> equation \<Rightarrow> int \<Rightarrow> bool" for \<rho> where
  eval_V: "eval_eq \<rho> (V x) (\<rho> x)"
| eval_Constant: "lo r \<le> c \<Longrightarrow> c \<le> hi r \<Longrightarrow> eval_eq \<rho> (Constant r) c"
| eval_Add: "eval_eq \<rho> a x \<Longrightarrow> eval_eq \<rho> b y \<Longrightarrow> eval_eq \<rho> (Add a b) (x + y)"
| eval_Sub: "eval_eq \<rho> a x \<Longrightarrow> eval_eq \<rho> b y \<Longrightarrow> eval_eq \<rho> (Sub a b) (x - y)"
| eval_Mul: "eval_eq \<rho> a x \<Longrightarrow> eval_eq \<rho> b y \<Longrightarrow> eval_eq \<rho> (Mul a b) (x * y)"
| eval_Not: "eval_eq \<rho> a x \<Longrightarrow> eval_eq \<rho> (BitManpi a) (not x)"
| eval_Shr: "eval_eq \<rho> a x \<Longrightarrow> eval_eq \<rho> (BitManpi a) (drop_bit k x)"
| eval_Neg: "eval_eq \<rho> a x \<Longrightarrow> eval_eq \<rho> (Neg a) (- x)"
| eval_And: "eval_eq \<rho> a x \<Longrightarrow> eval_eq \<rho> b y \<Longrightarrow> eval_eq \<rho> (BitManipMax a b) (and x y)"
| eval_Or: "eval_eq \<rho> a x \<Longrightarrow> eval_eq \<rho> b y \<Longrightarrow> eval_eq \<rho> (BitManipMax a b) (or x y)"
| eval_Xor: "eval_eq \<rho> a x \<Longrightarrow> eval_eq \<rho> b y \<Longrightarrow> eval_eq \<rho> (BitManipMax a b) (xor x y)"
| eval_UnionL: "eval_eq \<rho> a x \<Longrightarrow> eval_eq \<rho> (Union a b) x"
| eval_UnionR: "eval_eq \<rho> b x \<Longrightarrow> eval_eq \<rho> (Union a b) x"

inductive_cases eval_eq_cases:
  "eval_eq \<rho> (V x) v" "eval_eq \<rho> (Constant r) v" "eval_eq \<rho> (Add a b) v"
  "eval_eq \<rho> (Sub a b) v" "eval_eq \<rho> (Mul a b) v" "eval_eq \<rho> (BitManpi a) v"
  "eval_eq \<rho> (Neg a) v" "eval_eq \<rho> (BitManipMax a b) v" "eval_eq \<rho> (Union a b) v"

subsection \<open>Bitwise operations stay within a word\<close>

lemma fits_signed_iff:
  assumes "1 \<le> w"
  shows "fits_signed w v \<longleftrightarrow> signed_take_bit (w - 1) v = v"
  using signed_take_bit_int_eq_self_iff [of "w - 1" v] by (auto simp: fits_signed_def)

lemma fits_signed_mono: "fits_signed w v \<Longrightarrow> w \<le> u \<Longrightarrow> fits_signed u v"
proof -
  assume v: "fits_signed w v" and "w \<le> u"
  then have "(2::int) ^ (w - 1) \<le> 2 ^ (u - 1)" by (intro power_increasing) auto
  with v show ?thesis unfolding fits_signed_def by linarith
qed

lemma fits_signed_not: "1 \<le> w \<Longrightarrow> fits_signed w v \<Longrightarrow> fits_signed w (not v)"
  by (auto simp: fits_signed_def not_int_def)

lemma fits_signed_drop_bit:
  assumes "1 \<le> w" and "fits_signed w v"
  shows "fits_signed w (drop_bit k v)"
proof -
  have "(2::int) ^ k \<ge> 1" by simp
  moreover have "- (2 ^ (w - 1)) \<le> v" and "v \<le> 2 ^ (w - 1) - 1"
    using assms(2) by (auto simp: fits_signed_def)
  moreover have "- (2 ^ (w - 1)) \<le> v div 2 ^ k"
  proof (cases "0 \<le> v")
    case True
    then have "0 \<le> v div 2 ^ k" by (simp add: pos_imp_zdiv_nonneg_iff)
    moreover have "- (2 ^ (w - 1)) \<le> (0::int)" by simp
    ultimately show ?thesis by linarith
  next
    case False
    then have "v \<le> v div 2 ^ k"
      by (smt (verit) calculation(1) div_by_1 zdiv_mono2_neg)
    then show ?thesis using calculation by linarith
  qed
  moreover have "v div 2 ^ k \<le> max 0 v"
  proof (cases "0 \<le> v")
    case True
    then show ?thesis using zdiv_mono2 [of v 1 "2 ^ k"] by simp
  next
    case False
    then show ?thesis by (simp add: div_neg_pos_less0 less_imp_le)
  qed
  moreover have "(0::int) \<le> 2 ^ (w - 1) - 1" by simp
  ultimately show ?thesis by (simp add: fits_signed_def drop_bit_eq_div)
qed

lemma signed_take_bit_bitwise:
  fixes x y :: int
  shows "signed_take_bit n (and x y) = and (signed_take_bit n x) (signed_take_bit n y)"
    and "signed_take_bit n (or x y) = or (signed_take_bit n x) (signed_take_bit n y)"
    and "signed_take_bit n (xor x y) = xor (signed_take_bit n x) (signed_take_bit n y)"
  by (rule bit_eqI; auto simp: bit_simps)+

lemma fits_signed_bitwise:
  assumes "1 \<le> w" and "fits_signed w x" and "fits_signed w y"
  shows "fits_signed w (and x y)" and "fits_signed w (or x y)" and "fits_signed w (xor x y)"
  using assms
  by (simp_all add: fits_signed_iff signed_take_bit_bitwise)

text \<open>Whatever is truncated to the word length of a range is in its \<open>bit_manip\<close> range.\<close>

lemma range_bit_manip_word:
  assumes "range_bit_manip r = Some r'" and "to_wordlength r = Some w"
  shows "in_range (signed_take_bit (w - 1) x) r'"
proof -
  have "fits_signed w (signed_take_bit (w - 1) x)"
    using to_wordlength_bounds(1) [OF assms(2)] by (simp add: fits_signed_iff)
  then show ?thesis using in_range_bit_manip [OF assms(1)] assms(2) by auto
qed

lemma range_bit_manip_fits:
  assumes "range_bit_manip r = Some r'" and "in_range v r"
  shows "\<exists>w. 2 \<le> w \<and> fits_signed w v \<and> (\<forall>u. in_range u r' \<longleftrightarrow> fits_signed w u)"
  using in_range_bit_manip [OF assms(1)] to_wordlength_fits [OF _ assms(2)]
    to_wordlength_bounds(1) by blast

lemma bit_manip_either:
  assumes "range_bit_manip ra = Some a" and "range_bit_manip rb = Some b"
    and "in_range x ra" and "in_range y rb"
    and op: "\<And>w. 1 \<le> w \<Longrightarrow> fits_signed w x \<Longrightarrow> fits_signed w y \<Longrightarrow> fits_signed w z"
  shows "in_range z a \<or> in_range z b"
proof -
  obtain u where u: "2 \<le> u" "fits_signed u x" "\<And>v. in_range v a \<longleftrightarrow> fits_signed u v"
    using range_bit_manip_fits [OF assms(1,3)] by blast
  obtain w where w: "2 \<le> w" "fits_signed w y" "\<And>v. in_range v b \<longleftrightarrow> fits_signed w v"
    using range_bit_manip_fits [OF assms(2,4)] by blast
  have "fits_signed (max u w) z"
    using u(1,2) w(2) by (intro op) (auto intro: fits_signed_mono)
  then show ?thesis
    using u(3) w(3) by (cases "u \<le> w") (auto simp: max_def split: if_splits)
qed

lemma range_union_bit_manip:
  assumes "range_bit_manip ra = Some a" and "range_bit_manip rb = Some b"
    and "in_range x ra" and "in_range y rb"
    and "\<And>w. 1 \<le> w \<Longrightarrow> fits_signed w x \<Longrightarrow> fits_signed w y \<Longrightarrow> fits_signed w z"
  shows "in_range z (range_union a b)"
  using bit_manip_either [OF assms] in_range_union1 in_range_union2 by blast

text \<open>
  The contract of an evaluator, which returns the range of an equation, nothing while a variable
  of it is not known, or panics: on the equations it supports, the range contains every value of
  the equation whose variables lie in the known ranges, and once it returns a range, knowing the
  ranges of more variables does not change it.
\<close>

definition known_holds :: "(var \<Rightarrow> int) \<Rightarrow> known \<Rightarrow> bool" where
  "known_holds \<rho> known \<longleftrightarrow> (\<forall>x r. bt_get known x = Some r \<longrightarrow> in_range (\<rho> x) r)"

lemma known_holdsD: "known_holds \<rho> known \<Longrightarrow> bt_get known x = Some r \<Longrightarrow> in_range (\<rho> x) r"
  by (simp add: known_holds_def)

locale wl_evaluator =
  fixes evaluate :: "equation \<Rightarrow> known \<Rightarrow> range option option"
    and supported :: "equation \<Rightarrow> bool"
  assumes evaluate_sound:
    "supported e \<Longrightarrow> known_holds \<rho> known \<Longrightarrow> evaluate e known = Some (Some r) \<Longrightarrow> eval_eq \<rho> e v \<Longrightarrow>
       in_range v r"
    and evaluate_extend:
    "evaluate e known = Some (Some r) \<Longrightarrow> bt_get known \<subseteq>\<^sub>m bt_get known' \<Longrightarrow>
       evaluate e known' = Some (Some r)"

lemma evaluate_ia_in_range:
  assumes "known_holds \<rho> known"
  shows "eval_eq \<rho> e v \<Longrightarrow> evaluate_ia e known = Some r \<Longrightarrow> in_range v r"
proof (induction arbitrary: r rule: eval_eq.induct)
  case (eval_V x)
  then show ?case using assms by (auto dest: known_holdsD)
next
  case (eval_Constant c r')
  then show ?case by (simp add: in_range_def)
next
  case (eval_Not a x)
  then show ?case
    by (fastforce simp: bind_eq_Some_conv dest!: range_bit_manip_fits intro: fits_signed_not)
next
  case (eval_Shr a x k)
  then show ?case
    by (fastforce simp: bind_eq_Some_conv dest!: range_bit_manip_fits intro: fits_signed_drop_bit)
next
  case (eval_And a x b y)
  then show ?case
    by (auto simp: bind_eq_Some_conv intro: range_union_bit_manip fits_signed_bitwise)
next
  case (eval_Or a x b y)
  then show ?case
    by (auto simp: bind_eq_Some_conv intro: range_union_bit_manip fits_signed_bitwise)
next
  case (eval_Xor a x b y)
  then show ?case
    by (auto simp: bind_eq_Some_conv intro: range_union_bit_manip fits_signed_bitwise)
qed (auto intro: in_range_add in_range_sub in_range_mul in_range_neg in_range_union1
    in_range_union2)

text \<open>An evaluation looks at the variables of the equation only, and needs all of them.\<close>

fun eq_vars :: "equation \<Rightarrow> var set" where
  "eq_vars (V x) = {x}"
| "eq_vars (Constant r) = {}"
| "eq_vars (Add a b) = eq_vars a \<union> eq_vars b"
| "eq_vars (Sub a b) = eq_vars a \<union> eq_vars b"
| "eq_vars (Mul a b) = eq_vars a \<union> eq_vars b"
| "eq_vars (BitManpi a) = eq_vars a"
| "eq_vars (Neg a) = eq_vars a"
| "eq_vars (BitManipMax a b) = eq_vars a \<union> eq_vars b"
| "eq_vars (Union a b) = eq_vars a \<union> eq_vars b"

definition agree_on :: "var set \<Rightarrow> known \<Rightarrow> known \<Rightarrow> bool" where
  "agree_on xs known known' \<longleftrightarrow> (\<forall>x\<in>xs. bt_get known x = bt_get known' x)"

lemma agree_on_Un [simp]:
  "agree_on (xs \<union> ys) known known' \<longleftrightarrow> agree_on xs known known' \<and> agree_on ys known known'"
  by (auto simp: agree_on_def)

lemma agree_on_insert [simp]:
  "agree_on (insert x xs) known known' \<longleftrightarrow>
     bt_get known x = bt_get known' x \<and> agree_on xs known known'"
  by (auto simp: agree_on_def)

lemma agree_on_extend:
  "xs \<subseteq> dom (bt_get known) \<Longrightarrow> bt_get known \<subseteq>\<^sub>m bt_get known' \<Longrightarrow> agree_on xs known' known"
  unfolding agree_on_def map_le_def by (metis subsetD)

lemma evaluate_ia_agree:
  "agree_on (eq_vars e) known known' \<Longrightarrow> evaluate_ia e known = evaluate_ia e known'"
  by (induction e) auto

lemma evaluate_ia_vars: "evaluate_ia e known = Some r \<Longrightarrow> eq_vars e \<subseteq> dom (bt_get known)"
  by (induction e arbitrary: r) (auto simp: bind_eq_Some_conv simp del: domIff; blast)+

lemma evaluate_ia_extend:
  assumes "bt_get known \<subseteq>\<^sub>m bt_get known'" and "evaluate_ia e known = Some r"
  shows "evaluate_ia e known' = Some r"
  using evaluate_ia_agree [OF agree_on_extend [OF evaluate_ia_vars [OF assms(2)] assms(1)]] assms(2)
  by simp

interpretation ia: wl_evaluator "\<lambda>e known. Some (evaluate_ia e known)" "\<lambda>_. True"
  by unfold_locales (auto intro: evaluate_ia_in_range evaluate_ia_extend)

end
