(* ===== verification/WL_Affine.thy ===== *)
theory WL_Affine
  imports Complex_Main WL_Range
begin

text \<open>
  spade-wordlength-inference, \<open>affine.rs\<close>: affine forms over noise variables with rational
  coefficients, and the evaluation of an equation by affine arithmetic. \<open>BigRational\<close> is \<open>rat\<close>.
  \<open>unwrap\<close> on a missing \<open>bit_manip\<close> range is the panic \<open>None\<close>. The evaluation is proved sound on
  equations without a product; \<open>aa_mul_value\<close> says when a product is sound, and
  \<open>aa_mul_misses\<close> that it is not always.
\<close>

section \<open>Affine forms\<close>

datatype affine_var = Var var | Gen nat | Const

text \<open>The derived order: by constructor, then by field.\<close>

fun affine_var_rank :: "affine_var \<Rightarrow> nat \<times> nat" where
  "affine_var_rank (Var x) = (0, x)"
| "affine_var_rank (Gen g) = (1, g)"
| "affine_var_rank Const = (2, 0)"

instantiation affine_var :: linorder
begin

definition less_eq_affine_var :: "affine_var \<Rightarrow> affine_var \<Rightarrow> bool" where
  "a \<le> b \<longleftrightarrow> fst (affine_var_rank a) < fst (affine_var_rank b) \<or>
     fst (affine_var_rank a) = fst (affine_var_rank b) \<and>
     snd (affine_var_rank a) \<le> snd (affine_var_rank b)"

definition less_affine_var :: "affine_var \<Rightarrow> affine_var \<Rightarrow> bool" where
  "a < b \<longleftrightarrow> fst (affine_var_rank a) < fst (affine_var_rank b) \<or>
     fst (affine_var_rank a) = fst (affine_var_rank b) \<and>
     snd (affine_var_rank a) < snd (affine_var_rank b)"

instance
proof
  fix a b c :: affine_var
  show "(a < b) = (a \<le> b \<and> \<not> b \<le> a)"
    by (auto simp: less_affine_var_def less_eq_affine_var_def)
  show "a \<le> a" by (simp add: less_eq_affine_var_def)
  show "a \<le> b \<Longrightarrow> b \<le> c \<Longrightarrow> a \<le> c" by (auto simp: less_eq_affine_var_def)
  show "a \<le> b \<Longrightarrow> b \<le> a \<Longrightarrow> a = b"
    by (cases a; cases b) (auto simp: less_eq_affine_var_def)
  show "a \<le> b \<or> b \<le> a" by (auto simp: less_eq_affine_var_def)
qed

end

type_synonym aa_form = "(affine_var, rat) btree_map"

record rad_and_mid =
  rm_rad :: rat
  rm_mid :: rat

definition range_helper :: "range \<Rightarrow> rad_and_mid" where
  "range_helper r =
     (let mid = of_int (hi r + lo r) / 2;
          rad = max (mid - of_int (lo r)) (of_int (hi r) - mid)
      in \<lparr>rm_rad = rad, rm_mid = mid\<rparr>)"

definition rat_to_integer :: "rat \<Rightarrow> int" where
  "rat_to_integer q = (if 0 \<le> q then \<lfloor>q\<rfloor> else \<lceil>q\<rceil>)"

definition aa_new_var :: "id_tracker \<Rightarrow> affine_var \<times> id_tracker" where
  "aa_new_var t = (let (i, t') = tracker_next t in (Gen i, t'))"

definition aa_from_range :: "id_tracker \<Rightarrow> range \<Rightarrow> aa_form \<times> id_tracker" where
  "aa_from_range t r =
     (let h = range_helper r; (new_var, t') = aa_new_var t
      in (bt_insert new_var (rm_rad h) (bt_insert Const (rm_mid h) []), t'))"

definition aa_from_var :: "var \<Rightarrow> range \<Rightarrow> aa_form" where
  "aa_from_var x r =
     (let h = range_helper r
      in bt_insert (Var x) (rm_rad h) (bt_insert Const (rm_mid h) []))"

definition aa_rad :: "aa_form \<Rightarrow> rat" where
  "aa_rad f = sum_list (map (\<lambda>(v, x). if v = Const then 0 else \<bar>x\<bar>) f)"

fun aa_mid :: "aa_form \<Rightarrow> rat" where
  "aa_mid [] = 0"
| "aa_mid ((v, x) # f) = (if v = Const then x else aa_mid f)"

definition aa_vars :: "aa_form \<Rightarrow> affine_var list" where
  "aa_vars f = map fst f"

definition aa_coeff :: "aa_form \<Rightarrow> affine_var \<Rightarrow> rat" where
  "aa_coeff f v = (case bt_get f v of None \<Rightarrow> 0 | Some x \<Rightarrow> x)"

definition aa_affine ::
  "id_tracker \<Rightarrow> aa_form \<Rightarrow> aa_form \<Rightarrow> rat \<Rightarrow> rat \<Rightarrow> rat \<Rightarrow> rat \<Rightarrow> aa_form \<times> id_tracker" where
  "aa_affine t x y \<alpha> \<beta> \<gamma> \<delta> =
     (let z = fold (\<lambda>i z. bt_insert i
                  (\<alpha> * aa_coeff x i + \<beta> * aa_coeff y i + (if i = Const then \<gamma> else 0)) z)
                (sorted_list_of_set (set (aa_vars x) \<union> set (aa_vars y))) [];
          (d, t') = aa_new_var t
      in (bt_insert d \<delta> z, t'))"

definition aa_range :: "aa_form \<Rightarrow> range" where
  "aa_range f = range_new (rat_to_integer (aa_mid f - aa_rad f)) (rat_to_integer (aa_mid f + aa_rad f))"

definition aa_bit_manip :: "id_tracker \<Rightarrow> aa_form \<Rightarrow> (aa_form \<times> id_tracker) option" where
  "aa_bit_manip t f = map_option (aa_from_range t) (range_bit_manip (aa_range f))"

definition aa_mul :: "id_tracker \<Rightarrow> aa_form \<Rightarrow> aa_form \<Rightarrow> aa_form \<times> id_tracker" where
  "aa_mul t x y =
     (let x0 = aa_mid x; y0 = aa_mid y;
          p = range_helper (range_mul (range_new \<lceil>x0\<rceil> \<lceil>x0\<rceil>) (range_new \<lceil>y0\<rceil> \<lceil>y0\<rceil>));
          \<gamma> = - rm_mid p;
          \<delta> = aa_rad x * aa_rad y + rm_rad p
      in aa_affine t x y y0 x0 \<gamma> \<delta>)"

definition aa_add :: "aa_form \<Rightarrow> aa_form \<Rightarrow> aa_form" where
  "aa_add x y =
     fold (\<lambda>(v, c) out. bt_insert v (case bt_get out v of None \<Rightarrow> c | Some d \<Rightarrow> d + c) out) y x"

definition aa_union :: "id_tracker \<Rightarrow> aa_form \<Rightarrow> aa_form \<Rightarrow> aa_form \<times> id_tracker" where
  "aa_union t x y = aa_from_range t (range_union (aa_range x) (aa_range y))"

definition aa_neg :: "aa_form \<Rightarrow> aa_form" where
  "aa_neg f = map (\<lambda>(v, s). (v, - s)) f"

definition lift_form :: "'a \<times> 't \<Rightarrow> 'a option \<times> 't" where
  "lift_form p = (Some (fst p), snd p)"

text \<open>
  \<open>both_forms\<close> is \<open>match (x, y) { (Some(a), Some(b)) => .., _ => None }\<close> where the first branch
  moves the tracker.
\<close>

definition both_forms ::
  "'a option \<Rightarrow> 'b option \<Rightarrow> 't \<Rightarrow> ('a \<Rightarrow> 'b \<Rightarrow> ('c option \<times> 't) option) \<Rightarrow>
     ('c option \<times> 't) option" where
  "both_forms x y t f =
     (case x of
        None \<Rightarrow> Some (None, t)
      | Some a \<Rightarrow> (case y of None \<Rightarrow> Some (None, t) | Some b \<Rightarrow> f a b))"

lemma both_forms_Some [simp]:
  "both_forms x y t f = Some (Some c, t') \<longleftrightarrow>
     (\<exists>a b. x = Some a \<and> y = Some b \<and> f a b = Some (Some c, t'))"
  by (auto simp: both_forms_def split: option.splits)

text \<open>
  \<open>evaluate_aa\<close>: the outer option is the panic, the inner one the code's \<open>Option<AAForm>\<close>; both
  operands are always evaluated, the left one first, and share the tracker.
\<close>

fun evaluate_aa :: "equation \<Rightarrow> known \<Rightarrow> id_tracker \<Rightarrow> (aa_form option \<times> id_tracker) option" where
  "evaluate_aa (V x) known t = Some (map_option (aa_from_var x) (bt_get known x), t)"
| "evaluate_aa (Constant r) known t = Some (lift_form (aa_from_range t r))"
| "evaluate_aa (Add a b) known t =
     Option.bind (evaluate_aa a known t) (\<lambda>(fa, t1).
     Option.bind (evaluate_aa b known t1) (\<lambda>(fb, t2).
       Some (both fa fb aa_add, t2)))"
| "evaluate_aa (Sub a b) known t =
     Option.bind (evaluate_aa a known t) (\<lambda>(fa, t1).
     Option.bind (evaluate_aa b known t1) (\<lambda>(fb, t2).
       Some (both fa fb (\<lambda>f g. aa_add f (aa_neg g)), t2)))"
| "evaluate_aa (Mul a b) known t =
     Option.bind (evaluate_aa a known t) (\<lambda>(fa, t1).
     Option.bind (evaluate_aa b known t1) (\<lambda>(fb, t2).
       both_forms fa fb t2 (\<lambda>f g. Some (lift_form (aa_mul t2 f g)))))"
| "evaluate_aa (Neg a) known t =
     Option.bind (evaluate_aa a known t) (\<lambda>(fa, t1). Some (map_option aa_neg fa, t1))"
| "evaluate_aa (BitManpi a) known t =
     Option.bind (evaluate_aa a known t) (\<lambda>(fa, t1).
       (case fa of
          None \<Rightarrow> Some (None, t1)
        | Some f \<Rightarrow> map_option lift_form (aa_bit_manip t1 f)))"
| "evaluate_aa (BitManipMax a b) known t =
     Option.bind (evaluate_aa a known t) (\<lambda>(fa, t1).
     Option.bind (evaluate_aa b known t1) (\<lambda>(fb, t2).
       both_forms fa fb t2 (\<lambda>f g.
            Option.bind (aa_bit_manip t2 g) (\<lambda>(g', t3).
            Option.bind (aa_bit_manip t3 f) (\<lambda>(f', t4).
              Some (lift_form (aa_union t4 f' g')))))))"
| "evaluate_aa (Union a b) known t =
     Option.bind (evaluate_aa a known t) (\<lambda>(fa, t1).
     Option.bind (evaluate_aa b known t1) (\<lambda>(fb, t2).
       both_forms fa fb t2 (\<lambda>f g. Some (lift_form (aa_union t2 f g)))))"

definition evaluate_aa_and_simplify_to_range :: "equation \<Rightarrow> known \<Rightarrow> range option option" where
  "evaluate_aa_and_simplify_to_range e known =
     map_option
       (\<lambda>(f, _). map_option
          (\<lambda>f. range_new \<lfloor>aa_mid f - aa_rad f\<rfloor> \<lceil>aa_mid f + aa_rad f\<rceil>) f)
       (evaluate_aa e known tracker_new)"

section \<open>The value of a form\<close>

text \<open>
  A noise assignment \<open>\<epsilon>\<close> gives each noise variable a value between -1 and 1; the constant term
  has the factor 1.
\<close>

definition noise :: "(affine_var \<Rightarrow> rat) \<Rightarrow> affine_var \<Rightarrow> rat" where
  "noise \<epsilon> v = (if v = Const then 1 else \<epsilon> v)"

definition noise_ok :: "(affine_var \<Rightarrow> rat) \<Rightarrow> bool" where
  "noise_ok \<epsilon> \<longleftrightarrow> (\<forall>v. \<bar>\<epsilon> v\<bar> \<le> 1)"

definition aa_val :: "(affine_var \<Rightarrow> rat) \<Rightarrow> aa_form \<Rightarrow> rat" where
  "aa_val \<epsilon> f = sum_list (map (\<lambda>(v, c). c * noise \<epsilon> v) f)"

lemma aa_val_simps [simp]:
  "aa_val \<epsilon> [] = 0"
  "aa_val \<epsilon> ((v, c) # f) = c * noise \<epsilon> v + aa_val \<epsilon> f"
  by (simp_all add: aa_val_def)

lemma aa_coeff_simps [simp]:
  "aa_coeff [] v = 0"
  "aa_coeff ((w, c) # f) v = (if v = w then c else aa_coeff f v)"
  by (simp_all add: aa_coeff_def)

lemma aa_coeff_notin: "v \<notin> fst ` set f \<Longrightarrow> aa_coeff f v = 0"
  by (induction f) (auto simp: image_iff)

lemma aa_coeff_insert [simp]:
  "aa_coeff (bt_insert w c f) v = (if v = w then c else aa_coeff f v)"
  by (simp add: aa_coeff_def bt_get_insert)

lemma aa_val_insert:
  "bt_wf f \<Longrightarrow> aa_val \<epsilon> (bt_insert v c f) = aa_val \<epsilon> f + (c - aa_coeff f v) * noise \<epsilon> v"
proof (induction v c f rule: bt_insert.induct)
  case (1 v c)
  then show ?case by simp
next
  case (2 v c w d f)
  have f: "bt_wf f" and w: "\<And>u. u \<in> fst ` set f \<Longrightarrow> w < u"
    using "2.prems" by (auto simp: bt_wf_def)
  have "v \<notin> fst ` set f" if "v < w" using w [of v] that less_asym by blast
  then show ?case using "2.IH" f by (auto simp: aa_coeff_notin algebra_simps)
qed

lemma aa_val_sum:
  assumes "bt_wf f" and "finite S" and "fst ` set f \<subseteq> S"
  shows "aa_val \<epsilon> f = (\<Sum>v \<in> S. aa_coeff f v * noise \<epsilon> v)"
  using assms(1,3)
proof (induction f)
  case Nil
  then show ?case by simp
next
  case (Cons p f)
  obtain w c where p: "p = (w, c)" by (cases p)
  have f: "bt_wf f" and w: "w \<notin> fst ` set f" and S: "w \<in> S" "fst ` set f \<subseteq> S"
    using Cons.prems by (auto simp: bt_wf_def p)
  have "(\<Sum>v \<in> S. aa_coeff (p # f) v * noise \<epsilon> v)
      = c * noise \<epsilon> w + (\<Sum>v \<in> S - {w}. aa_coeff f v * noise \<epsilon> v)"
    using S(1) assms(2) by (simp add: p sum.remove [of S w])
  also have "(\<Sum>v \<in> S - {w}. aa_coeff f v * noise \<epsilon> v) = (\<Sum>v \<in> S. aa_coeff f v * noise \<epsilon> v)"
    using S(1) assms(2) w by (simp add: sum.remove [of S w] aa_coeff_notin)
  finally show ?case using Cons.IH [OF f S(2)] by (simp add: p)
qed

lemma aa_mid_coeff: "aa_mid f = aa_coeff f Const"
  by (induction f rule: aa_mid.induct) auto

lemma aa_val_near_mid:
  assumes "bt_wf f" and "noise_ok \<epsilon>"
  shows "\<bar>aa_val \<epsilon> f - aa_mid f\<bar> \<le> aa_rad f"
  using assms(1)
proof (induction f)
  case Nil
  then show ?case by (simp add: aa_rad_def)
next
  case (Cons p f)
  obtain w c where p: "p = (w, c)" by (cases p)
  have f: "bt_wf f" and w: "w \<notin> fst ` set f" using Cons.prems by (auto simp: bt_wf_def p)
  note IH = Cons.IH [OF f]
  show ?case
  proof (cases "w = Const")
    case True
    then have "aa_mid f = 0" using w by (simp add: aa_mid_coeff aa_coeff_notin)
    then show ?thesis using IH True by (simp add: p aa_rad_def noise_def)
  next
    case False
    have "\<bar>c * noise \<epsilon> w\<bar> \<le> \<bar>c\<bar>"
      using assms(2) False mult_left_mono [of "\<bar>\<epsilon> w\<bar>" 1 "\<bar>c\<bar>"]
      by (simp add: noise_def noise_ok_def abs_mult)
    then show ?thesis using IH False by (simp add: p aa_rad_def)
  qed
qed

section \<open>The operations on values\<close>

lemma bt_insert_pair: "a \<noteq> b \<Longrightarrow> bt_wf (bt_insert a x (bt_insert b y []))"
  by (intro bt_wf_insert) (simp add: bt_wf_def)

lemma aa_val_pair:
  "v \<noteq> Const \<Longrightarrow> aa_val \<epsilon> (bt_insert v r (bt_insert Const m [])) = m + r * \<epsilon> v"
  by (auto simp: noise_def)

lemma aa_val_neg: "aa_val \<epsilon> (aa_neg f) = - aa_val \<epsilon> f"
  by (induction f) (auto simp: aa_neg_def)

lemma aa_keys_neg: "map fst (aa_neg f) = map fst f"
  by (induction f) (auto simp: aa_neg_def)

lemma aa_neg_wf: "bt_wf f \<Longrightarrow> bt_wf (aa_neg f)"
  by (simp add: bt_wf_def aa_keys_neg)

lemma aa_add_props:
  "bt_wf x \<Longrightarrow> bt_wf (aa_add x y) \<and> aa_val \<epsilon> (aa_add x y) = aa_val \<epsilon> x + aa_val \<epsilon> y \<and>
     fst ` set (aa_add x y) = fst ` set x \<union> fst ` set y"
proof (induction y arbitrary: x)
  case Nil
  then show ?case by (simp add: aa_add_def)
next
  case (Cons p y)
  obtain v c where p: "p = (v, c)" by (cases p)
  define x' where "x' = bt_insert v (case bt_get x v of None \<Rightarrow> c | Some d \<Rightarrow> d + c) x"
  have x': "bt_wf x'" unfolding x'_def using Cons.prems by (rule bt_wf_insert)
  have "aa_val \<epsilon> x' = aa_val \<epsilon> x + c * noise \<epsilon> v"
    using Cons.prems unfolding x'_def
    by (auto simp: aa_val_insert aa_coeff_def split: option.splits)
  moreover have "fst ` set x' = insert v (fst ` set x)"
    unfolding x'_def by (rule bt_keys_insert)
  moreover have "aa_add x (p # y) = aa_add x' y"
    by (simp add: aa_add_def p x'_def)
  ultimately show ?case using Cons.IH [OF x'] by (simp add: p)
qed

lemma fold_insert_props:
  assumes "distinct is" and "bt_wf z" and "fst ` set z \<inter> set is = {}"
  shows "bt_wf (fold (\<lambda>i. bt_insert i (h i)) is z) \<and>
    aa_val \<epsilon> (fold (\<lambda>i. bt_insert i (h i)) is z) = aa_val \<epsilon> z + (\<Sum>i\<leftarrow>is. h i * noise \<epsilon> i) \<and>
    fst ` set (fold (\<lambda>i. bt_insert i (h i)) is z) = fst ` set z \<union> set is"
  using assms
proof (induction "is" arbitrary: z)
  case Nil
  then show ?case by simp
next
  case (Cons i "is")
  let ?z = "bt_insert i (h i) z"
  have "bt_wf ?z" using Cons.prems(2) by (rule bt_wf_insert)
  moreover have "fst ` set ?z \<inter> set is = {}"
    using Cons.prems by (auto simp: bt_keys_insert)
  moreover have "aa_val \<epsilon> ?z = aa_val \<epsilon> z + h i * noise \<epsilon> i"
    using Cons.prems by (auto simp: aa_val_insert aa_coeff_notin)
  ultimately show ?case using Cons.IH [of ?z] Cons.prems(1)
    by (simp add: bt_keys_insert)
qed

lemma aa_affine_props:
  assumes "bt_wf x" and "bt_wf y" and "Const \<in> fst ` set x"
    and fresh: "\<And>g. Gen g \<in> fst ` set x \<union> fst ` set y \<Longrightarrow> g < next_id t"
    and af: "aa_affine t x y \<alpha> \<beta> \<gamma> \<delta> = (z, t')"
  shows "bt_wf z"
    and "aa_val \<epsilon> z = \<alpha> * aa_val \<epsilon> x + \<beta> * aa_val \<epsilon> y + \<gamma> + \<delta> * \<epsilon> (Gen (next_id t))"
    and "fst ` set z = fst ` set x \<union> fst ` set y \<union> {Gen (next_id t)}"
    and "next_id t' = Suc (next_id t)"
proof -
  define S where "S = fst ` set x \<union> fst ` set y"
  define h where "h = (\<lambda>i. \<alpha> * aa_coeff x i + \<beta> * aa_coeff y i + (if i = Const then \<gamma> else 0))"
  define w where "w = fold (\<lambda>i. bt_insert i (h i)) (sorted_list_of_set S) []"
  have fin: "finite S" by (simp add: S_def)
  have z: "z = bt_insert (Gen (next_id t)) \<delta> w"
    using af unfolding aa_affine_def aa_new_var_def tracker_next_def aa_vars_def set_map
      S_def [symmetric] h_def [symmetric] w_def
    by (simp add: Let_def h_def)
  have w: "bt_wf w" "aa_val \<epsilon> w = (\<Sum>i\<leftarrow>sorted_list_of_set S. h i * noise \<epsilon> i)" "fst ` set w = S"
    using fold_insert_props [of "sorted_list_of_set S" "[]" h \<epsilon>] fin
    by (simp_all add: w_def bt_wf_def)
  have "(\<Sum>i\<leftarrow>sorted_list_of_set S. h i * noise \<epsilon> i) = (\<Sum>i \<in> S. h i * noise \<epsilon> i)"
    using fin by (simp add: sum_list_distinct_conv_sum_set)
  also have "\<dots> = (\<Sum>i \<in> S. \<alpha> * (aa_coeff x i * noise \<epsilon> i) + \<beta> * (aa_coeff y i * noise \<epsilon> i)
      + (if i = Const then \<gamma> else 0))"
    by (intro sum.cong) (auto simp: h_def noise_def algebra_simps)
  also have "\<dots> = \<alpha> * aa_val \<epsilon> x + \<beta> * aa_val \<epsilon> y + \<gamma>"
    using assms(1-3) fin
    by (simp add: sum.distrib sum_distrib_left [symmetric] S_def
        aa_val_sum [of x "fst ` set x \<union> fst ` set y"] aa_val_sum [of y "fst ` set x \<union> fst ` set y"])
  finally have val: "aa_val \<epsilon> w = \<alpha> * aa_val \<epsilon> x + \<beta> * aa_val \<epsilon> y + \<gamma>" by (simp add: w(2))
  have "Gen (next_id t) \<notin> S" using fresh unfolding S_def by blast
  then have new: "aa_coeff w (Gen (next_id t)) = 0" using w(3) by (simp add: aa_coeff_notin)
  show "bt_wf z" unfolding z using w(1) by (rule bt_wf_insert)
  show "aa_val \<epsilon> z = \<alpha> * aa_val \<epsilon> x + \<beta> * aa_val \<epsilon> y + \<gamma> + \<delta> * \<epsilon> (Gen (next_id t))"
    using w(1) val new by (simp add: z aa_val_insert noise_def)
  show "fst ` set z = fst ` set x \<union> fst ` set y \<union> {Gen (next_id t)}"
    using w(3) by (auto simp: z bt_keys_insert S_def)
  show "next_id t' = Suc (next_id t)"
    using af by (auto simp: aa_affine_def aa_new_var_def tracker_next_def Let_def)
qed

section \<open>A product\<close>

text \<open>
  The product of two forms differs from the affine combination by at most the product of the
  radii when the midpoints are integers; \<open>gamma\<close> is computed from the midpoints rounded up.
\<close>

lemma range_helper_point: "range_helper (range_new i i) = \<lparr>rm_rad = 0, rm_mid = of_int i\<rparr>"
  by (simp add: range_helper_def range_new_def Let_def)

lemma aa_mul_product_range:
  "range_helper (range_mul (range_new i i) (range_new j j)) = \<lparr>rm_rad = 0, rm_mid = of_int (i * j)\<rparr>"
proof -
  have "range_mul (range_new i i) (range_new j j) = range_new (i * j) (i * j)"
    by (simp add: range_mul_def range_new_def)
  then show ?thesis by (simp add: range_helper_point)
qed

lemma aa_mul_affine:
  "aa_mul t x y =
     aa_affine t x y (aa_mid y) (aa_mid x) (- of_int (\<lceil>aa_mid x\<rceil> * \<lceil>aa_mid y\<rceil>)) (aa_rad x * aa_rad y)"
  by (simp add: aa_mul_def Let_def aa_mul_product_range)

lemma aa_mul_value:
  assumes x: "bt_wf x" "Const \<in> fst ` set x" and y: "bt_wf y"
    and fresh: "\<And>g. Gen g \<in> fst ` set x \<union> fst ` set y \<Longrightarrow> g < next_id t"
    and ints: "aa_mid x \<in> \<int>" "aa_mid y \<in> \<int>"
    and mul: "aa_mul t x y = (z, t')" and ok: "noise_ok \<epsilon>"
  shows "\<exists>q. \<bar>q\<bar> \<le> 1 \<and> aa_val (\<epsilon>(Gen (next_id t) := q)) z = aa_val \<epsilon> x * aa_val \<epsilon> y"
proof -
  define d where "d = (aa_val \<epsilon> x - aa_mid x) * (aa_val \<epsilon> y - aa_mid y)"
  define R where "R = aa_rad x * aa_rad y"
  have "\<bar>d\<bar> \<le> R"
    unfolding d_def R_def abs_mult
    using aa_val_near_mid [OF x(1) ok] aa_val_near_mid [OF y ok] by (intro mult_mono) auto
  define q where "q = (if R = 0 then 0 else d / R)"
  have q: "\<bar>q\<bar> \<le> 1" "R * q = d"
    using \<open>\<bar>d\<bar> \<le> R\<close> by (auto simp: q_def divide_le_eq)
  let ?e = "\<epsilon>(Gen (next_id t) := q)"
  have keep: "aa_val ?e f = aa_val \<epsilon> f" if "Gen (next_id t) \<notin> fst ` set f" for f
    using that by (induction f) (auto simp: noise_def)
  have "aa_val ?e z = aa_mid y * aa_val ?e x + aa_mid x * aa_val ?e y
      - of_int (\<lceil>aa_mid x\<rceil> * \<lceil>aa_mid y\<rceil>) + R * q"
    using aa_affine_props(2) [OF x(1) y x(2) fresh mul [unfolded aa_mul_affine], of ?e]
    by (simp add: R_def)
  also have "of_int (\<lceil>aa_mid x\<rceil> * \<lceil>aa_mid y\<rceil>) = aa_mid x * aa_mid y"
    using ints by (auto elim!: Ints_cases)
  also have "aa_val ?e x = aa_val \<epsilon> x" using fresh by (intro keep) blast
  also have "aa_val ?e y = aa_val \<epsilon> y" using fresh by (intro keep) blast
  finally have "aa_val ?e z = aa_val \<epsilon> x * aa_val \<epsilon> y"
    by (simp add: q(2) d_def algebra_simps fun_upd_def)
  then show ?thesis using q(1) by blast
qed

section \<open>Soundness of the evaluation\<close>

text \<open>A form is well formed below \<open>n\<close> when it has a constant term and its generated noise
  variables are below \<open>n\<close>; a noise assignment explains the known ranges when it gives each
  variable its value.\<close>

definition aa_ok :: "nat \<Rightarrow> aa_form \<Rightarrow> bool" where
  "aa_ok n f \<longleftrightarrow> bt_wf f \<and> Const \<in> fst ` set f \<and> (\<forall>g. Gen g \<in> fst ` set f \<longrightarrow> g < n)"

definition explains :: "(affine_var \<Rightarrow> rat) \<Rightarrow> (var \<Rightarrow> int) \<Rightarrow> known \<Rightarrow> bool" where
  "explains \<epsilon> \<rho> known \<longleftrightarrow>
     (\<forall>x r. bt_get known x = Some r \<longrightarrow>
        rm_mid (range_helper r) + rm_rad (range_helper r) * \<epsilon> (Var x) = of_int (\<rho> x))"

definition same_below :: "nat \<Rightarrow> (affine_var \<Rightarrow> rat) \<Rightarrow> (affine_var \<Rightarrow> rat) \<Rightarrow> bool" where
  "same_below n \<epsilon> \<epsilon>' \<longleftrightarrow> (\<forall>v. (\<forall>g. v = Gen g \<longrightarrow> g < n) \<longrightarrow> \<epsilon>' v = \<epsilon> v)"

lemma same_below_refl [simp]: "same_below n \<epsilon> \<epsilon>"
  by (simp add: same_below_def)

lemma same_below_trans:
  "same_below m \<epsilon> \<epsilon>' \<Longrightarrow> same_below n \<epsilon>' \<epsilon>'' \<Longrightarrow> m \<le> n \<Longrightarrow> same_below m \<epsilon> \<epsilon>''"
  unfolding same_below_def by (metis less_le_trans)

lemma same_below_gen: "n \<le> g \<Longrightarrow> same_below n \<epsilon> (\<epsilon>(Gen g := q))"
  by (auto simp: same_below_def)

lemma same_below_explains: "same_below n \<epsilon> \<epsilon>' \<Longrightarrow> explains \<epsilon> \<rho> known \<Longrightarrow> explains \<epsilon>' \<rho> known"
  by (simp add: same_below_def explains_def)

lemma same_below_val:
  assumes "same_below n \<epsilon> \<epsilon>'" and "aa_ok n f"
  shows "aa_val \<epsilon>' f = aa_val \<epsilon> f"
proof -
  have "\<And>v. v \<in> fst ` set f \<Longrightarrow> noise \<epsilon>' v = noise \<epsilon> v"
    using assms unfolding same_below_def aa_ok_def noise_def by (metis (no_types))
  then show ?thesis by (induction f) auto
qed

lemma aa_ok_mono: "aa_ok m f \<Longrightarrow> m \<le> n \<Longrightarrow> aa_ok n f"
  unfolding aa_ok_def by fastforce

lemma aa_ok_add: "aa_ok n f \<Longrightarrow> aa_ok n g \<Longrightarrow> aa_ok n (aa_add f g)"
  using aa_add_props [of f g] by (auto simp: aa_ok_def)

lemma aa_ok_neg: "aa_ok n f \<Longrightarrow> aa_ok n (aa_neg f)"
proof -
  have "fst ` set (aa_neg f) = fst ` set f"
    using aa_keys_neg [of f] by (metis list.set_map)
  then show "aa_ok n f \<Longrightarrow> aa_ok n (aa_neg f)" by (simp add: aa_ok_def aa_neg_wf)
qed

lemma range_helper_noise:
  assumes "in_range v r"
  shows "\<exists>q. \<bar>q\<bar> \<le> 1 \<and> rm_mid (range_helper r) + rm_rad (range_helper r) * q = of_int v"
proof -
  define m where "m = rm_mid (range_helper r)"
  define R where "R = rm_rad (range_helper r)"
  have lo: "of_int (lo r) \<le> (of_int v :: rat)" and hi: "(of_int v :: rat) \<le> of_int (hi r)"
    using assms by (simp_all add: in_range_def)
  have "m - R \<le> of_int (lo r)" and "of_int (hi r) \<le> m + R"
    by (simp_all add: m_def R_def range_helper_def Let_def)
  then have d: "\<bar>of_int v - m\<bar> \<le> R" using lo hi by linarith
  define q where "q = (if R = 0 then 0 else (of_int v - m) / R)"
  have "\<bar>q\<bar> \<le> 1" and "m + R * q = of_int v"
    using d by (auto simp: q_def divide_le_eq)
  then show ?thesis unfolding m_def R_def by blast
qed

lemma explains_exists:
  assumes "known_holds \<rho> known"
  shows "\<exists>\<epsilon>. noise_ok \<epsilon> \<and> explains \<epsilon> \<rho> known"
proof -
  have "\<forall>x. \<exists>q. \<bar>q\<bar> \<le> 1 \<and> (\<forall>r. bt_get known x = Some r \<longrightarrow>
      rm_mid (range_helper r) + rm_rad (range_helper r) * q = of_int (\<rho> x))"
  proof
    fix x
    show "\<exists>q. \<bar>q\<bar> \<le> 1 \<and> (\<forall>r. bt_get known x = Some r \<longrightarrow>
      rm_mid (range_helper r) + rm_rad (range_helper r) * q = of_int (\<rho> x))"
      using range_helper_noise known_holdsD [OF assms, of x]
      by (cases "bt_get known x") (auto intro: exI [of _ 0])
  qed
  then obtain q where q: "\<And>x. \<bar>q x\<bar> \<le> (1::rat)" "\<And>x r. bt_get known x = Some r \<Longrightarrow>
      rm_mid (range_helper r) + rm_rad (range_helper r) * q x = of_int (\<rho> x)"
    by metis
  define \<epsilon> where "\<epsilon> = (\<lambda>v. case v of Var x \<Rightarrow> q x | _ \<Rightarrow> 0)"
  have "noise_ok \<epsilon>" using q(1) by (auto simp: noise_ok_def \<epsilon>_def split: affine_var.splits)
  moreover have "explains \<epsilon> \<rho> known" using q(2) by (simp add: explains_def \<epsilon>_def)
  ultimately show ?thesis by blast
qed

lemma aa_from_range_ok:
  assumes fr: "aa_from_range t r = (f, t')" and "in_range v r" and "noise_ok \<epsilon>"
  shows "aa_ok (next_id t') f \<and> next_id t' = Suc (next_id t) \<and>
    (\<exists>\<epsilon>'. noise_ok \<epsilon>' \<and> same_below (next_id t) \<epsilon> \<epsilon>' \<and> aa_val \<epsilon>' f = of_int v)"
proof -
  obtain q where q: "\<bar>q\<bar> \<le> 1" "rm_mid (range_helper r) + rm_rad (range_helper r) * q = of_int v"
    using range_helper_noise [OF assms(2)] by blast
  have f: "f = bt_insert (Gen (next_id t)) (rm_rad (range_helper r))
      (bt_insert Const (rm_mid (range_helper r)) [])" and t': "next_id t' = Suc (next_id t)"
    using fr by (auto simp: aa_from_range_def aa_new_var_def tracker_next_def Let_def)
  have "aa_ok (next_id t') f"
    unfolding aa_ok_def f t' using bt_insert_pair [of "Gen (next_id t)" Const]
    by (auto simp: bt_keys_insert)
  moreover have "aa_val (\<epsilon>(Gen (next_id t) := q)) f = of_int v"
    unfolding f using q(2) by (simp del: bt_insert.simps add: aa_val_pair)
  moreover have "noise_ok (\<epsilon>(Gen (next_id t) := q))" using q(1) assms(3) by (simp add: noise_ok_def)
  ultimately show ?thesis using same_below_gen t' by blast
qed

lemma aa_from_var_ok:
  assumes "bt_get known x = Some r" and "explains \<epsilon> \<rho> known"
  shows "aa_ok n (aa_from_var x r) \<and> aa_val \<epsilon> (aa_from_var x r) = of_int (\<rho> x)"
proof -
  have "aa_val \<epsilon> (aa_from_var x r) = of_int (\<rho> x)"
    using assms by (simp del: bt_insert.simps add: aa_from_var_def Let_def aa_val_pair explains_def)
  moreover have "aa_ok n (aa_from_var x r)"
    unfolding aa_ok_def aa_from_var_def Let_def using bt_insert_pair [of "Var x" Const]
    by (auto simp: bt_keys_insert)
  ultimately show ?thesis by blast
qed

text \<open>Truncation towards zero loses no integer.\<close>

lemma rat_to_integer_low: "q \<le> of_int v \<Longrightarrow> rat_to_integer q \<le> v"
  by (auto simp: rat_to_integer_def ceiling_le_iff intro: order_trans [OF of_int_floor_le] floor_le_iff [THEN iffD2])

lemma rat_to_integer_high: "of_int v \<le> q \<Longrightarrow> v \<le> rat_to_integer q"
  by (auto simp: rat_to_integer_def le_floor_iff le_ceiling_iff)

lemma aa_range_covers:
  assumes "bt_wf f" and "noise_ok \<epsilon>" and "aa_val \<epsilon> f = of_int v"
  shows "in_range v (aa_range f)"
proof -
  have "aa_mid f - aa_rad f \<le> of_int v" and "of_int v \<le> aa_mid f + aa_rad f"
    using aa_val_near_mid [OF assms(1,2)] assms(3) by linarith+
  then have "rat_to_integer (aa_mid f - aa_rad f) \<le> v" and "v \<le> rat_to_integer (aa_mid f + aa_rad f)"
    by (auto intro: rat_to_integer_low rat_to_integer_high)
  then show ?thesis by (simp add: aa_range_def in_range_new min_le_iff_disj le_max_iff_disj)
qed

fun mul_free :: "equation \<Rightarrow> bool" where
  "mul_free (V x) \<longleftrightarrow> True"
| "mul_free (Constant r) \<longleftrightarrow> True"
| "mul_free (Add a b) \<longleftrightarrow> mul_free a \<and> mul_free b"
| "mul_free (Sub a b) \<longleftrightarrow> mul_free a \<and> mul_free b"
| "mul_free (Mul a b) \<longleftrightarrow> False"
| "mul_free (BitManpi a) \<longleftrightarrow> mul_free a"
| "mul_free (Neg a) \<longleftrightarrow> mul_free a"
| "mul_free (BitManipMax a b) \<longleftrightarrow> mul_free a \<and> mul_free b"
| "mul_free (Union a b) \<longleftrightarrow> mul_free a \<and> mul_free b"

definition aa_result ::
  "id_tracker \<Rightarrow> id_tracker \<Rightarrow> (affine_var \<Rightarrow> rat) \<Rightarrow> aa_form \<Rightarrow> int \<Rightarrow> bool" where
  "aa_result t t' \<epsilon> f v \<longleftrightarrow>
     aa_ok (next_id t') f \<and> next_id t \<le> next_id t' \<and>
     (\<exists>\<epsilon>'. noise_ok \<epsilon>' \<and> same_below (next_id t) \<epsilon> \<epsilon>' \<and> aa_val \<epsilon>' f = of_int v)"

lemma aa_resultI:
  "aa_ok (next_id t') f \<Longrightarrow> next_id t \<le> next_id t' \<Longrightarrow> noise_ok \<epsilon>' \<Longrightarrow>
     same_below (next_id t) \<epsilon> \<epsilon>' \<Longrightarrow> aa_val \<epsilon>' f = of_int v \<Longrightarrow> aa_result t t' \<epsilon> f v"
  by (auto simp: aa_result_def)

lemma aa_result_range:
  "aa_result t t' \<epsilon> f v \<Longrightarrow> in_range v (aa_range f)"
  by (auto simp: aa_result_def aa_ok_def intro: aa_range_covers)

lemma aa_result_from_range:
  "aa_from_range t r = (f, t') \<Longrightarrow> in_range v r \<Longrightarrow> noise_ok \<epsilon> \<Longrightarrow> aa_result t t' \<epsilon> f v"
  using aa_from_range_ok by (fastforce intro: aa_resultI)

text \<open>An opaque result drawn after other results hides how it was computed.\<close>

lemma aa_result_opaque:
  assumes "aa_from_range t1 r = (f, t')" and "in_range v r" and "noise_ok \<epsilon>"
    and "next_id t \<le> next_id t1"
  shows "aa_result t t' \<epsilon> f v"
proof -
  obtain \<epsilon>' where "aa_ok (next_id t') f" "next_id t' = Suc (next_id t1)"
    and "noise_ok \<epsilon>'" "same_below (next_id t1) \<epsilon> \<epsilon>'" "aa_val \<epsilon>' f = of_int v"
    using aa_from_range_ok [OF assms(1-3)] by blast
  moreover have "same_below (next_id t) \<epsilon> \<epsilon>'"
    using calculation(4) assms(4) unfolding same_below_def by (meson less_le_trans)
  ultimately show ?thesis using assms(4) by (auto intro: aa_resultI)
qed

text \<open>Two results computed one after the other hold under one noise assignment.\<close>

lemma aa_result_pair:
  assumes a: "aa_result t t1 \<epsilon> fa x"
    and b: "\<And>\<epsilon>'. noise_ok \<epsilon>' \<Longrightarrow> same_below (next_id t) \<epsilon> \<epsilon>' \<Longrightarrow> aa_result t1 t2 \<epsilon>' fb y"
  shows "\<exists>\<epsilon>'. noise_ok \<epsilon>' \<and> same_below (next_id t) \<epsilon> \<epsilon>' \<and>
    aa_ok (next_id t2) fa \<and> aa_ok (next_id t2) fb \<and> next_id t \<le> next_id t2 \<and>
    aa_val \<epsilon>' fa = of_int x \<and> aa_val \<epsilon>' fb = of_int y"
proof -
  obtain \<epsilon>1 where e1: "noise_ok \<epsilon>1" "same_below (next_id t) \<epsilon> \<epsilon>1" "aa_val \<epsilon>1 fa = of_int x"
    and fa: "aa_ok (next_id t1) fa" "next_id t \<le> next_id t1"
    using a by (auto simp: aa_result_def)
  obtain \<epsilon>2 where e2: "noise_ok \<epsilon>2" "same_below (next_id t1) \<epsilon>1 \<epsilon>2" "aa_val \<epsilon>2 fb = of_int y"
    and fb: "aa_ok (next_id t2) fb" "next_id t1 \<le> next_id t2"
    using b [OF e1(1,2)] by (auto simp: aa_result_def)
  have "aa_val \<epsilon>2 fa = of_int x" using same_below_val [OF e2(2) fa(1)] e1(3) by simp
  moreover have "same_below (next_id t) \<epsilon> \<epsilon>2"
    using e1(2) e2(2) fa(2) by (rule same_below_trans)
  moreover have "aa_ok (next_id t2) fa" using fa(1) fb(2) by (rule aa_ok_mono)
  ultimately show ?thesis using e2(1,3) fb fa(2) by (meson le_trans)
qed

lemma aa_result_add:
  assumes "aa_result t t1 \<epsilon> fa x"
    and "\<And>\<epsilon>'. noise_ok \<epsilon>' \<Longrightarrow> same_below (next_id t) \<epsilon> \<epsilon>' \<Longrightarrow> aa_result t1 t2 \<epsilon>' fb y"
  shows "aa_result t t2 \<epsilon> (aa_add fa fb) (x + y)"
    and "aa_result t t2 \<epsilon> (aa_add fa (aa_neg fb)) (x - y)"
proof -
  obtain \<epsilon>' where *: "noise_ok \<epsilon>'" "same_below (next_id t) \<epsilon> \<epsilon>'"
    "aa_ok (next_id t2) fa" "aa_ok (next_id t2) fb" "next_id t \<le> next_id t2"
    "aa_val \<epsilon>' fa = of_int x" "aa_val \<epsilon>' fb = of_int y"
    using aa_result_pair [OF assms] by blast
  then show "aa_result t t2 \<epsilon> (aa_add fa fb) (x + y)"
    using aa_add_props [of fa fb \<epsilon>']
    by (intro aa_resultI [of t2 _ t \<epsilon>'] aa_ok_add) (auto simp: aa_ok_def)
  show "aa_result t t2 \<epsilon> (aa_add fa (aa_neg fb)) (x - y)"
    using * aa_add_props [of fa "aa_neg fb" \<epsilon>']
    by (intro aa_resultI [of t2 _ t \<epsilon>'] aa_ok_add aa_ok_neg) (auto simp: aa_val_neg aa_ok_def)
qed

lemma aa_result_neg: "aa_result t t' \<epsilon> f x \<Longrightarrow> aa_result t t' \<epsilon> (aa_neg f) (- x)"
  by (auto simp: aa_result_def aa_val_neg aa_ok_neg)

lemma aa_result_bit_manip:
  assumes "aa_result t t1 \<epsilon> fa x" and "aa_bit_manip t1 fa = Some (f, t')"
    and op: "\<And>w. 1 \<le> w \<Longrightarrow> fits_signed w x \<Longrightarrow> fits_signed w z" and "noise_ok \<epsilon>"
  shows "aa_result t t' \<epsilon> f z"
proof -
  obtain r' where r': "range_bit_manip (aa_range fa) = Some r'" "aa_from_range t1 r' = (f, t')"
    using assms(2) by (auto simp: aa_bit_manip_def)
  obtain w where "2 \<le> w" "fits_signed w x" "\<And>u. in_range u r' \<longleftrightarrow> fits_signed w u"
    using range_bit_manip_fits [OF r'(1) aa_result_range [OF assms(1)]] by blast
  then have "in_range z r'" using op by auto
  then show ?thesis
    using r'(2) assms(1,4) by (intro aa_result_opaque [of t1 r']) (auto simp: aa_result_def)
qed

lemma aa_result_union:
  assumes "in_range v (aa_range f) \<or> in_range v (aa_range g)" and "aa_union t1 f g = (h, t')"
    and "noise_ok \<epsilon>" and "next_id t \<le> next_id t1"
  shows "aa_result t t' \<epsilon> h v"
  using assms
  by (auto simp: aa_union_def intro!: aa_result_opaque intro: in_range_union1 in_range_union2)

lemma aa_result_bit_manip_max:
  assumes f: "aa_result t t1 \<epsilon> f x"
    and g: "\<And>\<epsilon>'. noise_ok \<epsilon>' \<Longrightarrow> same_below (next_id t) \<epsilon> \<epsilon>' \<Longrightarrow> aa_result t1 t2 \<epsilon>' g y"
    and g': "aa_bit_manip t2 g = Some (g', t3)" and f': "aa_bit_manip t3 f = Some (f', t4)"
    and u: "aa_union t4 f' g' = (h, t5)" and ok: "noise_ok \<epsilon>"
    and op: "\<And>w. 1 \<le> w \<Longrightarrow> fits_signed w x \<Longrightarrow> fits_signed w y \<Longrightarrow> fits_signed w z"
  shows "aa_result t t5 \<epsilon> h z"
proof -
  obtain rg where rg: "range_bit_manip (aa_range g) = Some rg" "aa_from_range t2 rg = (g', t3)"
    using g' by (auto simp: aa_bit_manip_def)
  obtain rf where rf: "range_bit_manip (aa_range f) = Some rf" "aa_from_range t3 rf = (f', t4)"
    using f' by (auto simp: aa_bit_manip_def)
  obtain \<epsilon>' where e: "noise_ok \<epsilon>'" "aa_ok (next_id t2) f" "aa_ok (next_id t2) g"
    "next_id t \<le> next_id t2" "aa_val \<epsilon>' f = of_int x" "aa_val \<epsilon>' g = of_int y"
    using aa_result_pair [OF f g] by blast
  have t3: "next_id t2 \<le> next_id t3" "next_id t3 \<le> next_id t4"
    using rg(2) rf(2) by (auto simp: aa_from_range_def aa_new_var_def tracker_next_def Let_def)
  have "in_range x (aa_range f)" and "in_range y (aa_range g)"
    using e by (auto simp: aa_ok_def intro: aa_range_covers)
  then have "in_range z rf \<or> in_range z rg"
    using rf(1) rg(1) op by (intro bit_manip_either)
  then have "in_range z (aa_range f') \<or> in_range z (aa_range g')"
    using aa_result_from_range [OF rf(2) _ ok] aa_result_from_range [OF rg(2) _ ok]
      aa_result_range by blast
  then show ?thesis using u ok e(4) t3 by (intro aa_result_union [of z f' g' t4]) auto
qed

lemma evaluate_aa_tracker:
  "evaluate_aa e known t = Some (f, t') \<Longrightarrow> next_id t \<le> next_id t'"
proof (induction e arbitrary: t f t')
  case (BitManpi e)
  then show ?case
    by (fastforce simp: aa_bit_manip_def aa_from_range_def aa_new_var_def tracker_next_def Let_def
        bind_eq_Some_conv lift_form_def split: option.splits dest!: BitManpi.IH)
qed (fastforce simp: both_forms_def aa_from_range_def aa_new_var_def tracker_next_def Let_def aa_bit_manip_def
    aa_union_def aa_mul_def aa_affine_def bind_eq_Some_conv lift_form_def split: option.splits prod.splits
    dest: le_trans)+

lemma evaluate_aa_bit_manip_max:
  assumes ev: "evaluate_aa (BitManipMax a b) known t = Some (Some h, t5)"
    and a: "\<And>t f t' \<epsilon>. evaluate_aa a known t = Some (Some f, t') \<Longrightarrow> noise_ok \<epsilon> \<Longrightarrow>
      explains \<epsilon> \<rho> known \<Longrightarrow> aa_result t t' \<epsilon> f x"
    and b: "\<And>t f t' \<epsilon>. evaluate_aa b known t = Some (Some f, t') \<Longrightarrow> noise_ok \<epsilon> \<Longrightarrow>
      explains \<epsilon> \<rho> known \<Longrightarrow> aa_result t t' \<epsilon> f y"
    and ok: "noise_ok \<epsilon>" "explains \<epsilon> \<rho> known"
    and op: "\<And>w. 1 \<le> w \<Longrightarrow> fits_signed w x \<Longrightarrow> fits_signed w y \<Longrightarrow> fits_signed w z"
  shows "aa_result t t5 \<epsilon> h z"
proof -
  obtain f t1 g t2 where f: "evaluate_aa a known t = Some (Some f, t1)"
    and g: "evaluate_aa b known t1 = Some (Some g, t2)"
    and r: "Option.bind (aa_bit_manip t2 g) (\<lambda>(g', t3).
            Option.bind (aa_bit_manip t3 f) (\<lambda>(f', t4).
              Some (lift_form (aa_union t4 f' g')))) = Some (Some h, t5)"
    using ev by (auto simp: bind_eq_Some_conv lift_form_def split: option.splits)
  then obtain g' t3 f' t4 where m: "aa_bit_manip t2 g = Some (g', t3)"
    "aa_bit_manip t3 f = Some (f', t4)" "aa_union t4 f' g' = (h, t5)"
    by (auto simp: bind_eq_Some_conv lift_form_def split: prod.split_asm)
  show ?thesis
    by (rule aa_result_bit_manip_max [OF a [OF f ok] b [OF g _ same_below_explains] m ok(1) op])
       (use ok in auto)
qed

text \<open>The evaluation of a product-free equation, by induction on the value it can take.\<close>

lemma evaluate_aa_result:
  "eval_eq \<rho> e v \<Longrightarrow> mul_free e \<Longrightarrow> evaluate_aa e known t = Some (Some f, t') \<Longrightarrow>
     noise_ok \<epsilon> \<Longrightarrow> explains \<epsilon> \<rho> known \<Longrightarrow> aa_result t t' \<epsilon> f v"
proof (induction arbitrary: t f t' \<epsilon> rule: eval_eq.induct)
  case (eval_V x)
  then show ?case using aa_from_var_ok by (auto intro: aa_resultI)
next
  case (eval_Constant r c)
  then show ?case
    by (auto simp: lift_form_def in_range_def intro!: aa_result_from_range)
next
  case (eval_Add a x b y)
  from eval_Add.prems show ?case
    by (auto simp: bind_eq_Some_conv lift_form_def intro!: aa_result_add(1) intro: eval_Add.IH same_below_explains)
next
  case (eval_Sub a x b y)
  from eval_Sub.prems show ?case
    by (auto simp: bind_eq_Some_conv lift_form_def intro!: aa_result_add(2) intro: eval_Sub.IH same_below_explains)
next
  case (eval_Mul a x b y)
  then show ?case by simp
next
  case (eval_Not a x)
  then show ?case
    by (fastforce simp: bind_eq_Some_conv lift_form_def split: option.splits
        intro: aa_result_bit_manip fits_signed_not)
next
  case (eval_Shr a x k)
  then show ?case
    by (fastforce simp: bind_eq_Some_conv lift_form_def split: option.splits
        intro: aa_result_bit_manip fits_signed_drop_bit)
next
  case (eval_Neg a x)
  then show ?case by (auto simp: bind_eq_Some_conv lift_form_def intro: aa_result_neg)
next
  case (eval_And a x b y)
  show ?case
    using eval_And.prems fits_signed_bitwise(1)
    by (intro evaluate_aa_bit_manip_max [OF eval_And.prems(2) eval_And.IH]) auto
next
  case (eval_Or a x b y)
  show ?case
    using eval_Or.prems fits_signed_bitwise(2)
    by (intro evaluate_aa_bit_manip_max [OF eval_Or.prems(2) eval_Or.IH]) auto
next
  case (eval_Xor a x b y)
  show ?case
    using eval_Xor.prems fits_signed_bitwise(3)
    by (intro evaluate_aa_bit_manip_max [OF eval_Xor.prems(2) eval_Xor.IH]) auto
next
  case (eval_UnionL a x b)
  then obtain fa t1 fb t2 where ab: "evaluate_aa a known t = Some (Some fa, t1)"
    "evaluate_aa b known t1 = Some (Some fb, t2)" "aa_union t2 fa fb = (f, t')"
    by (auto simp: bind_eq_Some_conv lift_form_def split: option.split_asm)
  then have "in_range x (aa_range fa)"
    using eval_UnionL by (intro aa_result_range [of t t1 \<epsilon>] eval_UnionL.IH) auto
  then show ?case
    using ab(3) eval_UnionL.prems evaluate_aa_tracker [OF ab(1)] evaluate_aa_tracker [OF ab(2)]
    by (intro aa_result_union [of _ fa fb t2]) auto
next
  case (eval_UnionR b x a)
  then obtain fa t1 fb t2 where ab: "evaluate_aa a known t = Some (Some fa, t1)"
    "evaluate_aa b known t1 = Some (Some fb, t2)" "aa_union t2 fa fb = (f, t')"
    by (auto simp: bind_eq_Some_conv lift_form_def split: option.split_asm)
  then have "in_range x (aa_range fb)"
    using eval_UnionR by (intro aa_result_range [of t1 t2 \<epsilon>] eval_UnionR.IH) auto
  then show ?case
    using ab(3) eval_UnionR.prems evaluate_aa_tracker [OF ab(1)] evaluate_aa_tracker [OF ab(2)]
    by (intro aa_result_union [of _ fa fb t2]) auto
qed

lemma evaluate_aa_in_range:
  assumes "mul_free e" and "known_holds \<rho> known"
    and "evaluate_aa_and_simplify_to_range e known = Some (Some r)" and "eval_eq \<rho> e v"
  shows "in_range v r"
proof -
  obtain f t' where f: "evaluate_aa e known tracker_new = Some (Some f, t')"
    and r: "r = range_new \<lfloor>aa_mid f - aa_rad f\<rfloor> \<lceil>aa_mid f + aa_rad f\<rceil>"
    using assms(3) by (auto simp: evaluate_aa_and_simplify_to_range_def)
  obtain \<epsilon> where e: "noise_ok \<epsilon>" "explains \<epsilon> \<rho> known"
    using explains_exists [OF assms(2)] by blast
  obtain \<epsilon>' where e': "noise_ok \<epsilon>'" "aa_val \<epsilon>' f = of_int v" "bt_wf f"
    using evaluate_aa_result [OF assms(4,1) f e] by (auto simp: aa_result_def aa_ok_def)
  have "aa_mid f - aa_rad f \<le> of_int v" and "of_int v \<le> aa_mid f + aa_rad f"
    using aa_val_near_mid [OF e'(3,1)] e'(2) by linarith+
  then have "\<lfloor>aa_mid f - aa_rad f\<rfloor> \<le> v" and "v \<le> \<lceil>aa_mid f + aa_rad f\<rceil>"
    by (simp_all add: floor_le_iff le_ceiling_iff)
  then show ?thesis by (simp add: r in_range_new min_le_iff_disj le_max_iff_disj)
qed

text \<open>The affine evaluator, with a panic read as "no range".\<close>

lemma evaluate_aa_agree:
  "agree_on (eq_vars e) known known' \<Longrightarrow> evaluate_aa e known t = evaluate_aa e known' t"
  by (induction e arbitrary: t) auto

lemma evaluate_aa_vars:
  "evaluate_aa e known t = Some (Some f, t') \<Longrightarrow> eq_vars e \<subseteq> dom (bt_get known)"
proof (induction e arbitrary: t f t')
  case (BitManpi a)
  then show ?case
    by (auto simp: bind_eq_Some_conv simp del: domIff split: option.splits; blast)
qed (auto simp: bind_eq_Some_conv simp del: domIff; blast)+

lemma simplify_to_range_agree:
  "agree_on (eq_vars e) known known' \<Longrightarrow>
     evaluate_aa_and_simplify_to_range e known = evaluate_aa_and_simplify_to_range e known'"
  using evaluate_aa_agree by (simp add: evaluate_aa_and_simplify_to_range_def)

lemma simplify_to_range_vars:
  "evaluate_aa_and_simplify_to_range e known = Some (Some r) \<Longrightarrow> eq_vars e \<subseteq> dom (bt_get known)"
  by (auto simp: evaluate_aa_and_simplify_to_range_def simp del: domIff dest!: evaluate_aa_vars)

lemma simplify_to_range_extend:
  assumes "evaluate_aa_and_simplify_to_range e known = Some (Some r)"
    and "bt_get known \<subseteq>\<^sub>m bt_get known'"
  shows "evaluate_aa_and_simplify_to_range e known' = Some (Some r)"
  using simplify_to_range_agree [OF agree_on_extend [OF simplify_to_range_vars [OF assms(1)] assms(2)]]
    assms(1) by simp

interpretation aa: wl_evaluator evaluate_aa_and_simplify_to_range mul_free
  by unfold_locales
    (auto intro: evaluate_aa_in_range simplify_to_range_extend)

text \<open>
  The product rounds both midpoints up before it subtracts their product. With a half-integral
  midpoint the result misses values: for \<open>x\<close> in 0 to 1 and \<open>y\<close> in 0 to 4 the range of \<open>x * y\<close> is
  given as -3 to 3, three bits, where 1 * 4 needs four.
\<close>

lemma aa_mul_misses:
  "evaluate_aa_and_simplify_to_range
     (Mul (Constant (range_new 0 1)) (Constant (range_new 0 4))) [] = Some (Some (range_new (-3) 3))"
proof -
  let ?f = "[(Gen 0, 1 / 2), (Const, 1 / 2)] :: aa_form"
  let ?g = "[(Gen (Suc 0), 2), (Const, 2)] :: aa_form"
  let ?t = "\<lambda>i. \<lparr>next_id = i\<rparr>"
  have keys: "sorted_list_of_set (set (aa_vars ?f) \<union> set (aa_vars ?g)) = [Gen 0, Gen (Suc 0), Const]"
    by (rule sorted_list_of_set_unique [THEN iffD1])
      (auto simp: aa_vars_def less_eq_affine_var_def less_affine_var_def card_insert_if)
  have f: "aa_from_range (?t 0) (range_new 0 1) = (?f, ?t 1)"
    and g: "aa_from_range (?t 1) (range_new 0 4) = (?g, ?t 2)"
    by (simp_all add: aa_from_range_def aa_new_var_def tracker_next_def range_helper_def
        range_new_def less_affine_var_def Let_def)
  have half: "\<lceil>1 / 2 :: rat\<rceil> = 1"
    by (rule ceiling_unique) auto
  have "aa_mul (?t 2) ?f ?g =
      ([(Gen 0, 1), (Gen (Suc 0), 1), (Gen 2, 1), (Const, 0)], ?t 3)"
    unfolding aa_mul_def aa_affine_def keys
    by (simp add: half aa_rad_def aa_coeff_def range_helper_def range_mul_def range_new_def Let_def
        less_affine_var_def aa_new_var_def tracker_next_def)
  then show ?thesis
    using f g by (simp add: evaluate_aa_and_simplify_to_range_def lift_form_def
        tracker_new_def both_forms_def aa_rad_def)
qed

lemma aa_mul_misses_value:
  "eval_eq \<rho> (Mul (Constant (range_new 0 1)) (Constant (range_new 0 4))) 4"
proof -
  have "eval_eq \<rho> (Mul (Constant (range_new 0 1)) (Constant (range_new 0 4))) (1 * 4)"
    by (rule eval_eq.intros; rule eval_eq.intros) (simp_all add: range_new_def)
  then show ?thesis by simp
qed

end
