(* ===== verification/WL_Infer.thy ===== *)
theory WL_Infer
  imports WL_Affine
begin

text \<open>
  spade-wordlength-inference, \<open>inferer.rs\<close> (\<open>Inferer::infer\<close>) and \<open>lib.rs\<close>
  (\<open>infer_and_check\<close>): the ranges of the variables are found by passes over the equations, with
  interval arithmetic, affine arithmetic or both, and the word lengths are compared with those of
  the type checker. The lemmas on the passes are proved once for every evaluator that satisfies
  the contract \<open>wl_evaluator\<close>.
\<close>

section \<open>Solving the equations\<close>

datatype infer_method = IA | AA | AAIA

record wordlength_mismatch =
  typechecked :: nat
  inferred :: nat
  inferred_at :: loc

type_synonym locs = "(var, loc) btree_map"

definition evaluate_method :: "infer_method \<Rightarrow> equation \<Rightarrow> known \<Rightarrow> range option option" where
  "evaluate_method m body known =
     (case m of
        IA \<Rightarrow> Some (evaluate_ia body known)
      | AA \<Rightarrow> evaluate_aa_and_simplify_to_range body known
      | AAIA \<Rightarrow>
          map_option
            (\<lambda>aa. case (evaluate_ia body known, aa) of
                (Some a, Some b) \<Rightarrow> Some (range_subset a b)
              | (Some a, None) \<Rightarrow> Some a
              | (None, Some a) \<Rightarrow> Some a
              | (None, None) \<Rightarrow> None)
            (evaluate_aa_and_simplify_to_range body known))"

definition loc_of :: "locs \<Rightarrow> var \<Rightarrow> loc" where
  "loc_of locs x = (case bt_get locs x of None \<Rightarrow> loc_nowhere | Some l \<Rightarrow> l)"

text \<open>The body of the inner loop. The outer option is the panic of the evaluation.\<close>

definition infer_equation ::
  "(equation \<Rightarrow> known \<Rightarrow> range option option) \<Rightarrow> locs \<Rightarrow> var \<times> equation \<Rightarrow> known \<Rightarrow>
     (wordlength_mismatch + known) option" where
  "infer_equation evaluate locs eqn known =
     (case evaluate (snd eqn) known of
        None \<Rightarrow> None
      | Some None \<Rightarrow> Some (Inr known)
      | Some (Some infer) \<Rightarrow>
          (case bt_get known (fst eqn) of
             None \<Rightarrow> Some (Inr (bt_insert (fst eqn) infer known))
           | Some old \<Rightarrow>
               (case (to_wordlength old, to_wordlength infer) of
                  (Some typecheck_wl, Some infer_wl) \<Rightarrow>
                    if typecheck_wl < infer_wl
                    then Some (Inl \<lparr>typechecked = typecheck_wl, inferred = infer_wl,
                                    inferred_at = loc_of locs (fst eqn)\<rparr>)
                    else Some (Inr known)
                | _ \<Rightarrow> Some (Inr known))))"

fun infer_pass ::
  "(equation \<Rightarrow> known \<Rightarrow> range option option) \<Rightarrow> locs \<Rightarrow> (var \<times> equation) list \<Rightarrow> known \<Rightarrow>
     (wordlength_mismatch + known) option" where
  "infer_pass evaluate locs [] known = Some (Inr known)"
| "infer_pass evaluate locs (eqn # eqns) known =
     (case infer_equation evaluate locs eqn known of
        Some (Inr known') \<Rightarrow> infer_pass evaluate locs eqns known'
      | r \<Rightarrow> r)"

fun infer_passes ::
  "(equation \<Rightarrow> known \<Rightarrow> range option option) \<Rightarrow> locs \<Rightarrow> (var \<times> equation) list \<Rightarrow> nat \<Rightarrow> known \<Rightarrow>
     (wordlength_mismatch + known) option" where
  "infer_passes evaluate locs equations 0 known = Some (Inr known)"
| "infer_passes evaluate locs equations (Suc n) known_at_start =
     (case infer_pass evaluate locs equations known_at_start of
        Some (Inr known) \<Rightarrow>
          if known_at_start = known then Some (Inr known)
          else infer_passes evaluate locs equations n known
      | r \<Rightarrow> r)"

definition infer ::
  "infer_method \<Rightarrow> (var \<times> equation) list \<Rightarrow> known \<Rightarrow> locs \<Rightarrow> (wordlength_mismatch + known) option" where
  "infer m equations known locs =
     infer_passes (evaluate_method m) locs equations (length equations) known"

section \<open>The check against the type checker\<close>

text \<open>
  The type of a mapped size, as far as the check looks at it: a known integer, another known type,
  or an unknown one.
\<close>

datatype size_type = SizeInteger nat | SizeNamed | SizeUnknown | SizeOther

definition max_u32 :: nat where
  "max_u32 = 2 ^ 32 - 1"

definition initial_known_entry :: "size_type \<times> var \<Rightarrow> known \<Rightarrow> known option" where
  "initial_known_entry tv known =
     (case fst tv of
        SizeInteger sz \<Rightarrow>
          if sz < 2 ^ 128 \<and> sz - 1 \<le> max_u32
          then let bound = 2 ^ (sz - 1)
               in Some (bt_insert (snd tv) (range_new (1 - bound) (bound - 2)) known)
          else None
      | SizeNamed \<Rightarrow> None
      | SizeUnknown \<Rightarrow> Some known
      | SizeOther \<Rightarrow> None)"

fun initial_known :: "(size_type \<times> var) list \<Rightarrow> known \<Rightarrow> known option" where
  "initial_known [] known = Some known"
| "initial_known (tv # mappings) known =
     Option.bind (initial_known_entry tv known) (initial_known mappings)"

text \<open>
  The comparison with the types. The unification that follows it in the code is of an integer with
  an equal one and changes nothing.
\<close>

fun check_mappings ::
  "(size_type \<times> var) list \<Rightarrow> known \<Rightarrow> locs \<Rightarrow> (wordlength_mismatch + unit) option" where
  "check_mappings [] known locs = Some (Inr ())"
| "check_mappings ((ty, var) # mappings) known locs =
     (case Option.bind (bt_get known var) to_wordlength of
        None \<Rightarrow> check_mappings mappings known locs
      | Some inferred_wl \<Rightarrow>
          (case ty of
             SizeInteger typechecker_wl \<Rightarrow>
               if max_u32 < typechecker_wl then None
               else if typechecker_wl \<noteq> inferred_wl
               then Some (Inl \<lparr>typechecked = typechecker_wl, inferred = inferred_wl,
                               inferred_at = loc_of locs var\<rparr>)
               else check_mappings mappings known locs
           | _ \<Rightarrow> check_mappings mappings known locs))"

definition infer_and_check ::
  "infer_method \<Rightarrow> (var \<times> equation) list \<Rightarrow> (size_type \<times> var) list \<Rightarrow> locs \<Rightarrow>
     (wordlength_mismatch + unit) option" where
  "infer_and_check m equations mappings locs =
     Option.bind (initial_known mappings []) (\<lambda>known.
     Option.bind (infer m equations known locs) (\<lambda>r.
       case r of
         Inl e \<Rightarrow> Some (Inl e)
       | Inr known \<Rightarrow> check_mappings mappings known locs))"

section \<open>Passes, for every evaluator\<close>

lemma bt_insert_neq: "bt_get m k = None \<Longrightarrow> bt_insert k v m \<noteq> m"
  by (metis bt_get_insert fun_upd_same option.distinct(1))

text \<open>The outcome of one equation, the shape in which the lemmas below use it.\<close>

definition covers_wl :: "range \<Rightarrow> range \<Rightarrow> bool" where
  "covers_wl old r \<longleftrightarrow>
     (\<forall>t i. to_wordlength old = Some t \<longrightarrow> to_wordlength r = Some i \<longrightarrow> i \<le> t)"

lemma covers_wl_refl [simp]: "covers_wl r r"
  by (simp add: covers_wl_def)

lemma infer_equation_Inr:
  "infer_equation ev locs eqn known = Some (Inr known') \<longleftrightarrow>
     (\<exists>r. ev (snd eqn) known = Some (Some r) \<and> bt_get known (fst eqn) = None \<and>
            known' = bt_insert (fst eqn) r known) \<or>
     known' = known \<and>
       (ev (snd eqn) known = Some None \<or>
        (\<exists>r old. ev (snd eqn) known = Some (Some r) \<and> bt_get known (fst eqn) = Some old \<and>
           covers_wl old r))"
  by (auto simp: infer_equation_def covers_wl_def split: option.splits)

lemma infer_equation_Inl:
  "infer_equation ev locs eqn known = Some (Inl e) \<longleftrightarrow>
     (\<exists>r old t i. ev (snd eqn) known = Some (Some r) \<and> bt_get known (fst eqn) = Some old \<and>
        to_wordlength old = Some t \<and> to_wordlength r = Some i \<and> t < i \<and>
        e = \<lparr>typechecked = t, inferred = i, inferred_at = loc_of locs (fst eqn)\<rparr>)"
  by (auto simp: infer_equation_def split: option.splits)

lemma infer_equation_grows:
  "infer_equation ev locs eqn known = Some (Inr known') \<Longrightarrow> bt_get known \<subseteq>\<^sub>m bt_get known'"
  by (auto simp: infer_equation_Inr intro: bt.insert_if_vacant_le)

lemma infer_equation_dom:
  "infer_equation ev locs eqn known = Some (Inr known') \<Longrightarrow>
     dom (bt_get known') \<subseteq> insert (fst eqn) (dom (bt_get known))"
  by (auto simp: infer_equation_Inr bt_get_insert split: if_splits)

lemma infer_pass_Cons:
  "infer_pass ev locs (eqn # eqns) known = Some (Inr known') \<longleftrightarrow>
     (\<exists>k. infer_equation ev locs eqn known = Some (Inr k) \<and>
          infer_pass ev locs eqns k = Some (Inr known'))"
  by (auto split: option.splits sum.splits)

declare infer_pass.simps(2) [simp del]

lemma infer_pass_grows:
  "infer_pass ev locs eqns known = Some (Inr known') \<Longrightarrow> bt_get known \<subseteq>\<^sub>m bt_get known'"
proof (induction eqns arbitrary: known)
  case (Cons eqn eqns)
  then obtain k where "infer_equation ev locs eqn known = Some (Inr k)"
    and "infer_pass ev locs eqns k = Some (Inr known')"
    by (auto simp: infer_pass_Cons)
  with Cons.IH show ?case
    by (blast intro: map_le_trans [OF infer_equation_grows])
qed simp

lemma infer_pass_dom:
  "infer_pass ev locs eqns known = Some (Inr known') \<Longrightarrow>
     dom (bt_get known') \<subseteq> fst ` set eqns \<union> dom (bt_get known)"
proof (induction eqns arbitrary: known)
  case (Cons eqn eqns)
  then obtain k where k: "infer_equation ev locs eqn known = Some (Inr k)"
    and "infer_pass ev locs eqns k = Some (Inr known')"
    by (auto simp: infer_pass_Cons)
  from this(2) have "dom (bt_get known') \<subseteq> fst ` set eqns \<union> dom (bt_get k)"
    by (rule Cons.IH)
  with infer_equation_dom [OF k] show ?case
    unfolding list.set image_insert by blast
qed simp

lemma infer_pass_error:
  "infer_pass ev locs eqns known = Some (Inl e) \<Longrightarrow>
     \<exists>eqn\<in>set eqns. \<exists>k. bt_get known \<subseteq>\<^sub>m bt_get k \<and> infer_equation ev locs eqn k = Some (Inl e)"
proof (induction eqns arbitrary: known)
  case (Cons eqn eqns)
  then consider "infer_equation ev locs eqn known = Some (Inl e)"
    | k where "infer_equation ev locs eqn known = Some (Inr k)"
        "infer_pass ev locs eqns k = Some (Inl e)"
    by (auto simp: infer_pass.simps(2) split: option.splits sum.splits)
  then show ?case
  proof cases
    case 1
    then show ?thesis by (auto intro: map_le_refl)
  next
    case 2
    then show ?thesis
      using Cons.IH [OF 2(2)] infer_equation_grows [OF 2(1)]
      by (meson list.set_intros(2) map_le_trans)
  qed
qed simp

lemma infer_passes_Suc:
  "infer_passes ev locs eqns (Suc n) known = Some (Inr known') \<longleftrightarrow>
     (\<exists>k. infer_pass ev locs eqns known = Some (Inr k) \<and>
          (if known = k then known' = k else infer_passes ev locs eqns n k = Some (Inr known')))"
  by (auto split: option.splits sum.splits if_splits)

lemma infer_passes_Suc_error:
  "infer_passes ev locs eqns (Suc n) known = Some (Inl e) \<longleftrightarrow>
     infer_pass ev locs eqns known = Some (Inl e) \<or>
     (\<exists>k. infer_pass ev locs eqns known = Some (Inr k) \<and> known \<noteq> k \<and>
          infer_passes ev locs eqns n k = Some (Inl e))"
  by (auto split: option.splits sum.splits if_splits)

declare infer_passes.simps(2) [simp del]

lemma infer_passes_error:
  "infer_passes ev locs eqns n known = Some (Inl e) \<Longrightarrow>
     \<exists>eqn\<in>set eqns. \<exists>k. bt_get known \<subseteq>\<^sub>m bt_get k \<and> infer_equation ev locs eqn k = Some (Inl e)"
proof (induction n arbitrary: known)
  case (Suc n)
  from Suc.prems show ?case
    unfolding infer_passes_Suc_error
    using Suc.IH infer_pass_grows [of ev locs eqns known] infer_pass_error [of ev locs eqns known e]
    by (meson map_le_trans)
qed simp

lemma infer_passes_grows:
  "infer_passes ev locs eqns n known = Some (Inr known') \<Longrightarrow> bt_get known \<subseteq>\<^sub>m bt_get known'"
proof (induction n arbitrary: known)
  case (Suc n)
  then obtain k where "infer_pass ev locs eqns known = Some (Inr k)"
    and "known' = k \<or> infer_passes ev locs eqns n k = Some (Inr known')"
    unfolding infer_passes_Suc by (auto split: if_splits)
  with Suc.IH show ?case
    by (blast intro: infer_pass_grows map_le_trans [OF infer_pass_grows])
qed simp

lemma infer_equation_new:
  "infer_equation ev locs eqn known = Some (Inr known') \<Longrightarrow> known' \<noteq> known \<Longrightarrow>
     fst eqn \<in> dom (bt_get known') - dom (bt_get known)"
  by (auto simp: infer_equation_Inr bt_get_insert dom_def)

lemma infer_pass_new:
  "infer_pass ev locs eqns known = Some (Inr known') \<Longrightarrow> known' \<noteq> known \<Longrightarrow>
     \<exists>eqn\<in>set eqns. fst eqn \<in> dom (bt_get known') - dom (bt_get known)"
proof (induction eqns arbitrary: known)
  case (Cons eqn eqns)
  then obtain k where k: "infer_equation ev locs eqn known = Some (Inr k)"
    and k': "infer_pass ev locs eqns k = Some (Inr known')"
    by (auto simp: infer_pass_Cons)
  show ?case
  proof (cases "k = known")
    case True
    with Cons.IH [OF k'] Cons.prems(2) show ?thesis by auto
  next
    case False
    then have "fst eqn \<in> dom (bt_get k) - dom (bt_get known)"
      by (rule infer_equation_new [OF k])
    then show ?thesis
      using map_le_implies_dom_le [OF infer_pass_grows [OF k']] by (auto simp del: domIff)
  qed
qed simp

context wl_evaluator
begin

text \<open>
  What could be evaluated when a pass began is known when it has ended, with at least the word
  length of the evaluation.
\<close>

definition settled :: "(var \<times> equation) list \<Rightarrow> known \<Rightarrow> known \<Rightarrow> bool" where
  "settled eqns k known \<longleftrightarrow>
     (\<forall>eqn\<in>set eqns. \<forall>r. evaluate (snd eqn) k = Some (Some r) \<longrightarrow>
        (\<exists>old. bt_get known (fst eqn) = Some old \<and> covers_wl old r))"

lemma infer_pass_settled:
  "infer_pass evaluate locs eqns known = Some (Inr known') \<Longrightarrow> settled eqns known known'"
proof (induction eqns arbitrary: known)
  case (Cons e eqns)
  then obtain k where k: "infer_equation evaluate locs e known = Some (Inr k)"
    and k': "infer_pass evaluate locs eqns k = Some (Inr known')"
    by (auto simp: infer_pass_Cons)
  have "settled eqns known known'"
    using Cons.IH [OF k'] evaluate_extend [OF _ infer_equation_grows [OF k]]
    unfolding settled_def by blast
  moreover have "\<exists>old. bt_get known' (fst e) = Some old \<and> covers_wl old r"
    if "evaluate (snd e) known = Some (Some r)" for r
  proof -
    have "\<exists>old. bt_get k (fst e) = Some old \<and> covers_wl old r"
      using k that unfolding infer_equation_Inr
      by (elim disjE exE conjE) (simp_all add: bt_get_insert)
    then show ?thesis
      using infer_pass_grows [OF k'] by (metis domI map_le_def)
  qed
  ultimately show ?case by (simp add: settled_def)
qed (simp add: settled_def)

text \<open>
  With one equation per variable and no variable known at the start, every range is the value of
  the equation of its variable.
\<close>

definition exact :: "(var \<times> equation) list \<Rightarrow> known \<Rightarrow> bool" where
  "exact eqns known \<longleftrightarrow>
     (\<forall>eqn\<in>set eqns. \<forall>r. bt_get known (fst eqn) = Some r \<longrightarrow>
        evaluate (snd eqn) known = Some (Some r))"

lemma infer_equation_exact:
  assumes "infer_equation evaluate locs eqn known = Some (Inr known')" and "eqn \<in> set all"
    and "distinct (map fst all)" and "exact all known"
  shows "exact all known'"
  unfolding exact_def
proof (intro ballI allI impI)
  fix e r
  assume e: "e \<in> set all" and r: "bt_get known' (fst e) = Some r"
  note grows = infer_equation_grows [OF assms(1)]
  show "evaluate (snd e) known' = Some (Some r)"
  proof (cases "bt_get known (fst e)")
    case None
    with r assms(1) have "fst e = fst eqn" and v: "evaluate (snd eqn) known = Some (Some r)"
      by (auto simp: infer_equation_Inr bt_get_insert split: if_splits)
    then have "e = eqn" using e assms(2,3) by (metis eq_key_imp_eq_value prod.collapse)
    then show ?thesis using evaluate_extend [OF v grows] by simp
  next
    case (Some r')
    with r grows have "r' = r" by (metis domI map_le_def option.inject)
    then show ?thesis
      using assms(4) e Some evaluate_extend [OF _ grows] by (auto simp: exact_def)
  qed
qed

lemma infer_pass_exact:
  assumes "infer_pass evaluate locs eqns known = Some (Inr known')" and "set eqns \<subseteq> set all"
    and "distinct (map fst all)" and "exact all known"
  shows "exact all known'"
  using assms(1,2,4)
proof (induction eqns arbitrary: known)
  case (Cons e eqns)
  then obtain k where k: "infer_equation evaluate locs e known = Some (Inr k)"
    and k': "infer_pass evaluate locs eqns k = Some (Inr known')"
    by (auto simp: infer_pass_Cons)
  have "exact all k"
    using infer_equation_exact [OF k _ assms(3)] Cons.prems by simp
  with Cons.IH [OF k'] Cons.prems(2) show ?case by simp
qed simp

text \<open>As many passes as there are variables left to find are enough.\<close>

lemma infer_passes_settled:
  assumes "infer_passes evaluate locs eqns n known = Some (Inr known')"
    and "card (fst ` set eqns - dom (bt_get known)) < n \<or>
         card (fst ` set eqns - dom (bt_get known)) = n \<and> distinct (map fst eqns) \<and> exact eqns known"
  shows "settled eqns known' known'"
  using assms
proof (induction n arbitrary: known)
  case 0
  then have "fst ` set eqns \<subseteq> dom (bt_get known)" and "known' = known" and "exact eqns known"
    by auto
  then show ?case
    unfolding settled_def exact_def
    by (metis covers_wl_refl domD imageI option.inject subsetD)
next
  case (Suc n)
  then obtain k where k: "infer_pass evaluate locs eqns known = Some (Inr k)"
    and k': "if known = k then known' = k else infer_passes evaluate locs eqns n k = Some (Inr known')"
    by (auto simp: infer_passes_Suc)
  let ?left = "\<lambda>known. fst ` set eqns - dom (bt_get known)"
  show ?case
  proof (cases "known = k")
    case True
    then show ?thesis using infer_pass_settled [OF k] k' by simp
  next
    case False
    have "?left k \<subset> ?left known"
      using infer_pass_new [OF k] False map_le_implies_dom_le [OF infer_pass_grows [OF k]] by blast
    then have less: "card (?left k) < card (?left known)"
      by (intro psubset_card_mono) simp_all
    have "card (?left k) < n \<or> card (?left k) = n \<and> distinct (map fst eqns) \<and> exact eqns k"
    proof (cases "card (?left known) < Suc n")
      case True
      with less show ?thesis by linarith
    next
      case False
      with Suc.prems(2) have "distinct (map fst eqns)" "exact eqns known" "card (?left known) = Suc n"
        by auto
      with less infer_pass_exact [OF k subset_refl] show ?thesis by linarith
    qed
    with Suc.IH [of k] k' False show ?thesis by simp
  qed
qed

lemma infer_passes_all_settled:
  assumes "infer_passes evaluate locs eqns (length eqns) known = Some (Inr known')"
  shows "settled eqns known' known'"
proof (rule infer_passes_settled [OF assms])
  let ?left = "fst ` set eqns - dom (bt_get known)"
  have le: "card ?left \<le> card (fst ` set eqns)" "card (fst ` set eqns) \<le> length eqns"
    using card_length [of "map fst eqns"] by (auto intro: card_mono)
  have "distinct (map fst eqns) \<and> exact eqns known" if eq: "card ?left = length eqns"
  proof
    from eq le show "distinct (map fst eqns)" by (intro card_distinct) simp
    have "card ?left = card (fst ` set eqns)" using eq le by linarith
    then have "?left = fst ` set eqns"
      by (intro card_subset_eq) auto
    then have "fst ` set eqns \<inter> dom (bt_get known) = {}" by blast
    then show "exact eqns known" by (fastforce simp: exact_def)
  qed
  then show "card ?left < length eqns \<or>
      card ?left = length eqns \<and> distinct (map fst eqns) \<and> exact eqns known"
    using le by linarith
qed

lemma infer_equation_sound:
  assumes "infer_equation evaluate locs eqn known = Some (Inr known')" and "known_holds \<rho> known"
    and "supported (snd eqn)" and "eval_eq \<rho> (snd eqn) (\<rho> (fst eqn))"
  shows "known_holds \<rho> known'"
proof -
  have "in_range (\<rho> (fst eqn)) r" if "evaluate (snd eqn) known = Some (Some r)" for r
    by (rule evaluate_sound [OF assms(3,2) that assms(4)])
  with assms(1,2) show ?thesis
    unfolding infer_equation_Inr known_holds_def
    by (elim disjE exE conjE) (simp_all add: bt_get_insert)
qed

lemma infer_pass_sound:
  assumes "infer_pass evaluate locs eqns known = Some (Inr known')" and "known_holds \<rho> known"
    and "\<And>eqn. eqn \<in> set eqns \<Longrightarrow> supported (snd eqn) \<and> eval_eq \<rho> (snd eqn) (\<rho> (fst eqn))"
  shows "known_holds \<rho> known'"
  using assms
proof (induction eqns arbitrary: known)
  case (Cons eqn eqns)
  then obtain k where k: "infer_equation evaluate locs eqn known = Some (Inr k)"
    and k': "infer_pass evaluate locs eqns k = Some (Inr known')"
    by (auto simp: infer_pass_Cons)
  have "supported (snd eqn) \<and> eval_eq \<rho> (snd eqn) (\<rho> (fst eqn))"
    by (rule Cons.prems(3)) simp
  then have "known_holds \<rho> k"
    using infer_equation_sound [OF k Cons.prems(2)] by blast
  then show ?case by (rule Cons.IH [OF k']) (rule Cons.prems(3), simp)
qed simp

lemma infer_passes_sound:
  assumes "infer_passes evaluate locs eqns n known = Some (Inr known')" and "known_holds \<rho> known"
    and "\<And>eqn. eqn \<in> set eqns \<Longrightarrow> supported (snd eqn) \<and> eval_eq \<rho> (snd eqn) (\<rho> (fst eqn))"
  shows "known_holds \<rho> known'"
  using assms(1,2)
proof (induction n arbitrary: known)
  case (Suc n)
  then obtain k where k: "infer_pass evaluate locs eqns known = Some (Inr k)"
    and k': "if known = k then known' = k else infer_passes evaluate locs eqns n k = Some (Inr known')"
    by (auto simp: infer_passes_Suc)
  have "known_holds \<rho> k" by (rule infer_pass_sound [OF k Suc.prems(2) assms(3)])
  with k' Suc.IH [of k] show ?case by (simp split: if_splits)
qed simp

end

section \<open>The methods as evaluators\<close>

definition method_supports :: "infer_method \<Rightarrow> equation \<Rightarrow> bool" where
  "method_supports m e \<longleftrightarrow> m = IA \<or> mul_free e"

lemma evaluate_method_sound:
  assumes "method_supports m e" and "known_holds \<rho> known"
    and "evaluate_method m e known = Some (Some r)" and "eval_eq \<rho> e v"
  shows "in_range v r"
  using assms(1,3) evaluate_ia_in_range [OF assms(2,4)] evaluate_aa_in_range [OF _ assms(2) _ assms(4)]
  by (auto simp: evaluate_method_def method_supports_def intro: in_range_subset
      split: infer_method.splits option.splits)

lemma evaluate_method_agree:
  "agree_on (eq_vars e) known known' \<Longrightarrow> evaluate_method m e known = evaluate_method m e known'"
  by (simp add: evaluate_method_def evaluate_ia_agree [of e known known']
      simplify_to_range_agree [of e known known'] split: infer_method.splits)

lemma evaluate_method_vars:
  "evaluate_method m e known = Some (Some r) \<Longrightarrow> eq_vars e \<subseteq> dom (bt_get known)"
  by (auto simp: evaluate_method_def simp del: domIff
      dest!: evaluate_ia_vars simplify_to_range_vars split: infer_method.splits option.splits)

lemma evaluate_method_extend:
  assumes "evaluate_method m e known = Some (Some r)" and "bt_get known \<subseteq>\<^sub>m bt_get known'"
  shows "evaluate_method m e known' = Some (Some r)"
  using evaluate_method_agree [OF agree_on_extend [OF evaluate_method_vars [OF assms(1)] assms(2)]]
    assms(1) by simp

interpretation wl: wl_evaluator "evaluate_method m" "method_supports m" for m
  by unfold_locales (auto intro: evaluate_method_sound evaluate_method_extend)

section \<open>What inference guarantees\<close>


text \<open>
  C38: Completeness: one pass per equation is enough, in whatever order the equations are given. Every
  equation that can be evaluated from the ranges found has its variable among them, with at least
  as many bits as the equation needs.
\<close>

theorem infer_complete:
  assumes "infer m equations known locs = Some (Inr known')" and "(x, e) \<in> set equations"
    and "evaluate_method m e known' = Some (Some r)"
  shows "\<exists>r'. bt_get known' x = Some r' \<and> covers_wl r' r"
  using wl.infer_passes_all_settled [OF assms(1) [unfolded infer_def]] assms(2,3)
  unfolding wl.settled_def by force

text \<open>The known ranges are kept and only variables of equations are added.\<close>

theorem infer_extends:
  assumes "infer m equations known locs = Some (Inr known')" and "bt_get known x = Some r"
  shows "bt_get known' x = Some r"
  using infer_passes_grows [OF assms(1) [unfolded infer_def]] assms(2)
  by (metis domI map_le_def)

text \<open>
  An error is reported only for a variable whose range, known or found earlier, has fewer bits than
  the range one of its equations evaluates to, and reports these two word lengths.
\<close>

theorem infer_error:
  assumes "infer m equations known locs = Some (Inl err)"
  shows "\<exists>(x, e)\<in>set equations. \<exists>k r old.
           bt_get known \<subseteq>\<^sub>m bt_get k \<and> bt_get k x = Some old \<and>
           evaluate_method m e k = Some (Some r) \<and>
           to_wordlength old = Some (typechecked err) \<and> to_wordlength r = Some (inferred err) \<and>
           typechecked err < inferred err \<and> inferred_at err = loc_of locs x"
proof -
  obtain x e k where xe: "(x, e) \<in> set equations" and k: "bt_get known \<subseteq>\<^sub>m bt_get k"
    and "infer_equation (evaluate_method m) locs (x, e) k = Some (Inl err)"
    using infer_passes_error [OF assms [unfolded infer_def]] by auto
  then obtain r old where "bt_get k x = Some old" "evaluate_method m e k = Some (Some r)"
    "to_wordlength old = Some (typechecked err)" "to_wordlength r = Some (inferred err)"
    "typechecked err < inferred err" "inferred_at err = loc_of locs x"
    by (auto simp: infer_equation_Inl)
  with xe k show ?thesis by blast
qed

section \<open>What the check guarantees\<close>

definition size_range :: "nat \<Rightarrow> range" where
  "size_range n = range_new (1 - 2 ^ (n - 1)) (2 ^ (n - 1) - 2)"

lemma size_range_wordlength:
  assumes "2 \<le> n" and "n \<le> 2048"
  shows "\<exists>w. to_wordlength (size_range n) = Some w"
proof -
  have "(2::int) ^ 1 \<le> 2 ^ (n - 1)" using assms(1) by (intro power_increasing) auto
  then have "\<exists>w. to_wordlength (size_range n) = Some w \<and> w \<le> (n - 1) + 1"
    using assms by (intro to_wordlength_total) (auto simp: size_range_def range_new_def)
  then show ?thesis by blast
qed

lemma initial_known_get:
  assumes "initial_known mappings known = Some known'" and "distinct (map snd mappings)"
    and "(SizeInteger n, x) \<in> set mappings"
  shows "bt_get known' x = Some (size_range n)"
proof -
  have keep: "bt_get k' x = bt_get k x"
    if "initial_known ms k = Some k'" and "x \<notin> snd ` set ms" for ms k k'
    using that
  proof (induction ms arbitrary: k)
    case (Cons tv ms)
    then obtain k1 where k1: "initial_known_entry tv k = Some k1" "initial_known ms k1 = Some k'"
      by (auto simp: bind_eq_Some_conv)
    have "bt_get k1 x = bt_get k x"
      using k1(1) Cons.prems(2)
      by (auto simp: initial_known_entry_def bt_get_insert Let_def
          split: size_type.splits if_splits)
    with Cons.IH [OF k1(2)] Cons.prems(2) show ?case by simp
  qed simp
  show ?thesis using assms
  proof (induction mappings arbitrary: known)
    case (Cons tv ms)
    then obtain k1 where k1: "initial_known_entry tv known = Some k1" "initial_known ms k1 = Some known'"
      by (auto simp: bind_eq_Some_conv)
    show ?case
    proof (cases "tv = (SizeInteger n, x)")
      case True
      then have "x \<notin> snd ` set ms" using Cons.prems(2) by auto
      with keep [OF k1(2)] True k1(1) show ?thesis
        by (auto simp: initial_known_entry_def bt_get_insert size_range_def Let_def split: if_splits)
    next
      case False
      with Cons.IH [OF k1(2)] Cons.prems(2,3) show ?thesis by auto
    qed
  qed simp
qed

lemma check_mappings_ok:
  "check_mappings mappings known locs = Some (Inr ()) \<Longrightarrow> (SizeInteger n, x) \<in> set mappings \<Longrightarrow>
     bt_get known x = Some r \<Longrightarrow> to_wordlength r = Some w \<Longrightarrow> w = n"
  by (induction mappings known locs rule: check_mappings.induct)
    (auto split: option.splits size_type.splits if_splits)


lemma size_range_misses:
  assumes "2 \<le> n"
  shows "fits_signed n (2 ^ (n - 1) - 1)" and "\<not> in_range (2 ^ (n - 1) - 1) (size_range n)"
    and "fits_signed n (- (2 ^ (n - 1)))" and "\<not> in_range (- (2 ^ (n - 1))) (size_range n)"
proof -
  have "(2::int) ^ 1 \<le> 2 ^ (n - 1)" using assms by (intro power_increasing) auto
  then show "fits_signed n (2 ^ (n - 1) - 1)" "\<not> in_range (2 ^ (n - 1) - 1) (size_range n)"
    "fits_signed n (- (2 ^ (n - 1)))" "\<not> in_range (- (2 ^ (n - 1))) (size_range n)"
    by (auto simp: fits_signed_def in_range_def size_range_def range_new_def)
qed

lemmas infer_run =
  infer_and_check_def initial_known_entry_def max_u32_def infer_def infer_passes.simps
  infer_pass.simps infer_equation_def evaluate_method_def loc_of_def both_def

text \<open>
  The ranges of the types leave out the least and the greatest value of each: a product of two
  8 bit integers is accepted as a 15 bit integer, in which -128 * -128 does not fit.
\<close>

theorem square_of_int8_accepted:
  "infer_and_check IA [(1, Mul (V 0) (V 0))] [(SizeInteger 8, 0), (SizeInteger 15, 1)] [] =
     Some (Inr ()) \<and>
   fits_signed 8 (-128) \<and> eval_eq (\<lambda>_. -128) (Mul (V 0) (V 0)) 16384 \<and> \<not> fits_signed 15 16384"
proof -
  have "range_mul (range_new (-127) 126) (range_new (-127) 126) = range_new (-16002) 16129"
    by (simp add: range_mul_def range_new_def)
  moreover have "to_wordlength (range_new (-127) 126) = Some 8"
    and "to_wordlength (range_new (-16383) 16382) = Some 15"
    and "to_wordlength (range_new (-16002) 16129) = Some 15"
    using to_wordlength_eqI [of 6 "range_new (-127) 126"]
      to_wordlength_eqI [of 13 "range_new (-16383) 16382"]
      to_wordlength_eqI [of 13 "range_new (-16002) 16129"]
    by (simp_all add: range_new_def)
  ultimately have "infer_and_check IA [(1, Mul (V 0) (V 0))] [(SizeInteger 8, 0), (SizeInteger 15, 1)] [] =
     Some (Inr ())"
    by (simp add: infer_run)
  moreover have "eval_eq (\<lambda>_. -128) (Mul (V 0) (V 0)) (-128 * -128)"
    by (intro eval_Mul) (metis eval_V)+
  ultimately show ?thesis by (simp add: fits_signed_def)
qed

text \<open>
  The first equation of a variable decides its range, and a later one is only compared by word
  length: \<open>x\<close> is 10 or 15, which have the same word length, \<open>y = x + 1\<close> gets five bits, and 16
  needs six.
\<close>

theorem first_equation_decides:
  "infer IA [(0, Constant (range_new 10 10)), (0, Constant (range_new 15 15)),
      (1, Add (V 0) (Constant (range_new 1 1)))] [] [] =
     Some (Inr [(0, range_new 10 10), (1, range_new 11 11)]) \<and>
   to_wordlength (range_new 11 11) = Some 5 \<and> \<not> fits_signed 5 (15 + 1)"
proof -
  have add: "range_add (range_new 10 10) (range_new 1 1) = range_new 11 11"
    by (simp add: range_add_def range_new_def)
  have wl: "to_wordlength (range_new 10 10) = Some 5" "to_wordlength (range_new 15 15) = Some 5"
    "to_wordlength (range_new 11 11) = Some 5"
    using to_wordlength_eqI [of 3 "range_new 10 10"] to_wordlength_eqI [of 3 "range_new 15 15"]
      to_wordlength_eqI [of 3 "range_new 11 11"]
    by (simp_all add: range_new_def)
  have "infer IA [(0, Constant (range_new 10 10)), (0, Constant (range_new 15 15)),
      (1, Add (V 0) (Constant (range_new 1 1)))] [] [] =
     Some (Inr [(0, range_new 10 10), (1, range_new 11 11)])"
    by (simp add: infer_run add wl)
  with wl show ?thesis by (simp add: fits_signed_def)
qed

text \<open>An integer of one bit never passes: its range is taken to have two.\<close>

lemma int1_rejected:
  "infer_and_check IA [] [(SizeInteger 1, 0)] [] =
     Some (Inl \<lparr>typechecked = 1, inferred = 2, inferred_at = loc_nowhere\<rparr>)"
  using to_wordlength_eqI [of 0 "range_new 0 (-1)"]
  by (simp add: infer_run Let_def range_new_def)

section \<open>Examples\<close>

text \<open>The sum of two variables of eight bits, in nine bits.\<close>

definition sum_known :: known where
  "sum_known = [(0, range_new (-127) 126), (1, range_new (-255) 254)]"

lemma sum_known_get:
  "bt_get sum_known 0 = Some (range_new (-127) 126)"
  "bt_get sum_known 1 = Some (range_new (-255) 254)"
  "bt_get sum_known x = Some r \<Longrightarrow>
     x = 0 \<and> r = range_new (-127) 126 \<or> x = 1 \<and> r = range_new (-255) 254"
  by (auto simp: sum_known_def split: if_splits)

lemma sum_wordlengths:
  "to_wordlength (range_new (-127) 126) = Some 8" "to_wordlength (range_new (-255) 254) = Some 9"
  "to_wordlength (range_new (-254) 252) = Some 9"
  using to_wordlength_eqI [of 6 "range_new (-127) 126"] to_wordlength_eqI [of 7 "range_new (-255) 254"]
    to_wordlength_eqI [of 7 "range_new (-254) 252"]
  by (simp_all add: range_new_def)

lemma sum_evaluates:
  "evaluate_method IA (Add (V 0) (V 0)) sum_known = Some (Some (range_new (-254) 252))"
  by (simp add: infer_run sum_known_def range_add_def range_new_def)

lemma sum_infers: "infer IA [(1, Add (V 0) (V 0))] sum_known [] = Some (Inr sum_known)"
  using sum_evaluates by (simp add: infer_run sum_known_def sum_wordlengths)

lemma sum_holds: "known_holds (\<lambda>x. if x = 0 then 10 else 20) sum_known"
  by (auto simp: known_holds_def in_range_def range_new_def dest!: sum_known_get(3))

lemma sum_value: "eval_eq (\<lambda>x. if x = 0 then 10 else 20) (Add (V 0) (V 0)) 20"
  using eval_Add [OF eval_V eval_V, of "\<lambda>x. if x = 0 then 10 else 20" 0 0] by simp


theorem infer_complete_witness: "\<exists>r'. bt_get sum_known 1 = Some r' \<and> covers_wl r' (range_new (-254) 252)"
  by (rule infer_complete [OF sum_infers _ sum_evaluates]) simp

theorem infer_extends_witness: "bt_get sum_known 0 = Some (range_new (-127) 126)"
  by (rule infer_extends [OF sum_infers sum_known_get(1)])

lemma sum_checked:
  "infer_and_check IA [(1, Add (V 0) (V 0))] [(SizeInteger 8, 0), (SizeInteger 9, 1)] [] = Some (Inr ())"
  "initial_known [(SizeInteger 8, 0), (SizeInteger 9, 1)] [] = Some sum_known"
proof -
  show k: "initial_known [(SizeInteger 8, 0), (SizeInteger 9, 1)] [] = Some sum_known"
    by (simp add: infer_run Let_def sum_known_def)
  show "infer_and_check IA [(1, Add (V 0) (V 0))] [(SizeInteger 8, 0), (SizeInteger 9, 1)] [] = Some (Inr ())"
    using k sum_infers
    by (simp add: infer_and_check_def sum_known_get(1) sum_known_get(2) [simplified] sum_wordlengths max_u32_def)
qed


lemma narrow_rejected:
  "infer IA [(0, Constant (range_new (-127) 126))] [(0, range_new 10 10)] [] =
     Some (Inl \<lparr>typechecked = 5, inferred = 8, inferred_at = loc_nowhere\<rparr>)"
  using to_wordlength_eqI [of 3 "range_new 10 10"] sum_wordlengths(1)
  by (simp add: infer_run range_new_def)

theorem infer_error_witness:
  "\<exists>(x, e)\<in>set [(0, Constant (range_new (-127) 126))]. \<exists>k r old.
     bt_get [(0, range_new 10 10)] \<subseteq>\<^sub>m bt_get k \<and> bt_get k x = Some old \<and>
     evaluate_method IA e k = Some (Some r) \<and>
     to_wordlength old = Some 5 \<and> to_wordlength r = Some 8 \<and> (5 :: nat) < 8 \<and> loc_nowhere = loc_of [] x"
  using infer_error [OF narrow_rejected] by simp

end
