(* ===== verification/Mir_Types.thy ===== *)
theory Mir_Types
  imports Common
begin

text \<open>
  spade-mir, \<open>types.rs\<close> and \<open>enum_util.rs\<close>: the types of the intermediate representation and
  the number of bits of their forward and backward parts. \<open>BigUint\<close> is \<open>nat\<close>. The tag size
  \<open>(n as f32).log2().ceil()\<close> is the exact ceiling of the logarithm: 32 bit floats compute it
  exactly for enums of up to 2^20 variants, and -inf, for no variants, converts to 0.
\<close>

section \<open>The size of a tag\<close>

fun tag_size :: "nat \<Rightarrow> nat" where
  "tag_size n = (if n \<le> 1 then 0 else Suc (tag_size ((n + 1) div 2)))"

declare tag_size.simps [simp del]

lemma tag_size_small [simp]: "tag_size 0 = 0" "tag_size (Suc 0) = 0"
  by (simp_all add: tag_size.simps)

lemma tag_size_enough: "n \<le> 2 ^ tag_size n"
proof (induction n rule: tag_size.induct)
  case (1 n)
  show ?case
  proof (cases "n \<le> 1")
    case False
    then have "(n + 1) div 2 \<le> 2 ^ tag_size ((n + 1) div 2)" by (rule 1)
    then have "n \<le> 2 * 2 ^ tag_size ((n + 1) div 2)" by linarith
    then show ?thesis using False by (simp add: tag_size.simps [of n])
  qed (simp add: tag_size.simps)
qed

lemma tag_size_least: "2 \<le> n \<Longrightarrow> 2 ^ (tag_size n - 1) < n"
proof (induction n rule: tag_size.induct)
  case (1 n)
  show ?case
  proof (cases "2 \<le> (n + 1) div 2")
    case True
    then have "2 ^ (tag_size ((n + 1) div 2) - 1) < (n + 1) div 2" using 1 by simp
    moreover have "1 \<le> tag_size ((n + 1) div 2)" using True by (simp add: tag_size.simps)
    then have "(2::nat) ^ tag_size ((n + 1) div 2) = 2 * 2 ^ (tag_size ((n + 1) div 2) - 1)"
      by (metis One_nat_def Suc_le_D diff_Suc_1 power_Suc)
    ultimately show ?thesis using "1.prems" by (simp add: tag_size.simps [of n])
  next
    case False
    with "1.prems" have "n = 2" by linarith
    then show ?thesis by (simp add: tag_size.simps)
  qed
qed

lemma tag_fits: "i < n \<Longrightarrow> i < 2 ^ tag_size n"
  using tag_size_enough [of n] by linarith

section \<open>Types\<close>

datatype mir_type =
    Ty_Int nat
  | Ty_UInt nat
  | Ty_Bool
  | Ty_Void
  | Ty_Tuple "mir_type list"
  | Ty_Struct "(string \<times> mir_type) list"
  | Ty_Array mir_type nat
  | Ty_Memory mir_type nat
  | Ty_Enum "mir_type list list"
  | Ty_Backward mir_type
  | Ty_InOut mir_type

fun max_list :: "nat list \<Rightarrow> nat option" where
  "max_list [] = None"
| "max_list (x # xs) = Some (case max_list xs of None \<Rightarrow> x | Some m \<Rightarrow> max x m)"

fun ty_size :: "mir_type \<Rightarrow> nat" where
  "ty_size (Ty_Int len) = len"
| "ty_size (Ty_UInt len) = len"
| "ty_size Ty_Bool = 1"
| "ty_size Ty_Void = 0"
| "ty_size (Ty_Tuple inner) = sum_list (map ty_size inner)"
| "ty_size (Ty_Struct inner) = sum_list (map (\<lambda>(_, t). ty_size t) inner)"
| "ty_size (Ty_Enum inner) =
     tag_size (length inner) +
     (case max_list (map (\<lambda>m. sum_list (map ty_size m)) inner) of None \<Rightarrow> 0 | Some n \<Rightarrow> n)"
| "ty_size (Ty_Array inner len) = ty_size inner * len"
| "ty_size (Ty_Memory inner len) = ty_size inner * len"
| "ty_size (Ty_Backward inner) = 0"
| "ty_size (Ty_InOut inner) = ty_size inner"

text \<open>\<open>None\<close> is the \<open>unreachable!\<close> of an enum or a memory with backward wires in it.\<close>

fun backward_size :: "mir_type \<Rightarrow> nat option" where
  "backward_size (Ty_Backward inner) = Some (ty_size inner)"
| "backward_size (Ty_Int len) = Some 0"
| "backward_size (Ty_UInt len) = Some 0"
| "backward_size Ty_Bool = Some 0"
| "backward_size Ty_Void = Some 0"
| "backward_size (Ty_Array inner len) = map_option (\<lambda>n. n * len) (backward_size inner)"
| "backward_size (Ty_Enum inner) =
     (if list_all (\<lambda>v. list_all (\<lambda>i. backward_size i = Some 0) v) inner then Some 0 else None)"
| "backward_size (Ty_Memory inner len) =
     (if backward_size inner = Some 0 then Some 0 else None)"
| "backward_size (Ty_Tuple inner) = map_option sum_list (mapM_opt backward_size inner)"
| "backward_size (Ty_Struct inner) = map_option sum_list (mapM_opt (\<lambda>(_, t). backward_size t) inner)"
| "backward_size (Ty_InOut inner) = Some 0"

definition assume_enum :: "mir_type \<Rightarrow> mir_type list list option" where
  "assume_enum ty = (case ty of Ty_Enum inner \<Rightarrow> Some inner | _ \<Rightarrow> None)"

fun show_mir_type :: "mir_type \<Rightarrow> string" where
  "show_mir_type (Ty_Int v) = ''int<'' @ show_nat v @ ''>''"
| "show_mir_type (Ty_UInt v) = ''uint<'' @ show_nat v @ ''>''"
| "show_mir_type Ty_Bool = ''bool''"
| "show_mir_type Ty_Void = ''void''"
| "show_mir_type (Ty_Tuple inner) =
     ''('' @ join_strs '', '' (map show_mir_type inner) @ '')''"
| "show_mir_type (Ty_Struct inner) =
     ''{'' @ join_strs '', '' (map (\<lambda>(n, t). n @ '': '' @ show_mir_type t) inner) @ ''}''"
| "show_mir_type (Ty_Array inner len) =
     ''['' @ show_mir_type inner @ ''; '' @ show_nat len @ '']''"
| "show_mir_type (Ty_Memory inner len) =
     ''Memory['' @ show_mir_type inner @ ''; '' @ show_nat len @ '']''"
| "show_mir_type (Ty_Enum inner) =
     ''enum '' @ join_strs '', ''
       (map (\<lambda>v. ''option ['' @ join_strs '', '' (map show_mir_type v) @ '']'') inner)"
| "show_mir_type (Ty_Backward inner) = ''&mut ('' @ show_mir_type inner @ '')''"
| "show_mir_type (Ty_InOut inner) = ''inout<'' @ show_mir_type inner @ ''>''"

section \<open>Sizes\<close>

lemma max_list_le: "x \<in> set xs \<Longrightarrow> \<exists>m. max_list xs = Some m \<and> x \<le> m"
  by (induction xs) (auto split: option.splits)

lemma max_list_mem: "max_list xs = Some m \<Longrightarrow> m \<in> set xs"
  by (induction xs arbitrary: m) (auto split: option.splits simp: max_def)

text \<open>The payload of every variant fits beside the tag.\<close>

lemma variant_fits:
  assumes "v \<in> set variants"
  shows "tag_size (length variants) + sum_list (map ty_size v) \<le> ty_size (Ty_Enum variants)"
  using max_list_le [of "sum_list (map ty_size v)" "map (\<lambda>m. sum_list (map ty_size m)) variants"]
    assms by (auto split: option.splits)

end
