(* ===== verification/Mir.thy ===== *)
theory Mir
  imports Mir_Types
begin

text \<open>
  spade-mir, \<open>lib.rs\<close> and \<open>unit_name.rs\<close>: value names, operators, statements and entities, with
  their equality and their text. The derived equalities skip the source of a name and of a unit and
  the location of an instance, and locations compare equal: \<open>stmt_norm\<close> and \<open>op_norm\<close> erase these
  fields, and the equality of the code is the equality of the erased values. A map keyed by
  \<open>ValueName\<close> is keyed by \<open>vn_key\<close>. \<open>Debug\<close> of a type (in \<open>IndexTuple\<close>) is written for field names
  without characters to escape.
\<close>

section \<open>Names\<close>

datatype const_value = CV_Int int | CV_Bool bool | CV_HighImp

definition show_bool_text :: "bool \<Rightarrow> string" where
  "show_bool_text b = (if b then ''true'' else ''false'')"

fun show_const_value :: "const_value \<Rightarrow> string" where
  "show_const_value (CV_Int v) = show_int v"
| "show_const_value (CV_Bool v) = show_bool_text v"
| "show_const_value CV_HighImp = ''HIGHIMP''"

datatype name_source = NS_Name name_id | NS_Expr nat

datatype value_name = VN_Named nat string name_source | VN_Expr nat

type_synonym vkey = "nat \<times> string + nat"

definition vn_key :: "value_name \<Rightarrow> vkey" where
  "vn_key n = (case n of VN_Named i s _ \<Rightarrow> Inl (i, s) | VN_Expr i \<Rightarrow> Inr i)"

definition vn_eq :: "value_name \<Rightarrow> value_name \<Rightarrow> bool" where
  "vn_eq a b \<longleftrightarrow> vn_key a = vn_key b"

definition source_of :: "value_name \<Rightarrow> name_source" where
  "source_of n = (case n of VN_Named _ _ src \<Rightarrow> src | VN_Expr i \<Rightarrow> NS_Expr i)"

datatype verilog_name_source =
  ForwardName name_id | BackwardName name_id | ForwardExpr nat | BackwardExpr nat

definition verilog_name_source_fwd :: "value_name \<Rightarrow> verilog_name_source" where
  "verilog_name_source_fwd n =
     (case n of
        VN_Named _ _ (NS_Name x) \<Rightarrow> ForwardName x
      | VN_Named _ _ (NS_Expr i) \<Rightarrow> ForwardExpr i
      | VN_Expr i \<Rightarrow> ForwardExpr i)"

definition verilog_name_source_back :: "value_name \<Rightarrow> verilog_name_source" where
  "verilog_name_source_back n =
     (case n of
        VN_Named _ _ (NS_Name x) \<Rightarrow> BackwardName x
      | VN_Named _ _ (NS_Expr i) \<Rightarrow> BackwardExpr i
      | VN_Expr i \<Rightarrow> BackwardExpr i)"

definition show_value_name :: "value_name \<Rightarrow> string" where
  "show_value_name n =
     (case n of
        VN_Named i s _ \<Rightarrow> if i = 0 \<and> s \<noteq> ''new'' then s else s @ ''_n'' @ show_nat i
      | VN_Expr i \<Rightarrow> ''e'' @ show_nat i)"

datatype unit_name_kind = UK_Unescaped string | UK_Escaped string "string list"

record unit_name =
  un_kind :: unit_name_kind
  un_source :: name_id

definition unit_name_eq :: "unit_name \<Rightarrow> unit_name \<Rightarrow> bool" where
  "unit_name_eq a b \<longleftrightarrow> un_kind a = un_kind b"

definition as_verilog :: "unit_name \<Rightarrow> string" where
  "as_verilog n =
     (case un_kind n of
        UK_Unescaped name \<Rightarrow> name
      | UK_Escaped name _ \<Rightarrow> [CHR 0x5C] @ name @ '' '')"

definition without_escapes :: "unit_name \<Rightarrow> string" where
  "without_escapes n = (case un_kind n of UK_Unescaped s \<Rightarrow> s | UK_Escaped name _ \<Rightarrow> name)"

record param_name =
  pn_name :: string
  pn_no_mangle :: "loc option"

section \<open>Operators and statements\<close>

text \<open>
  The operators without fields form a type of their own, \<open>plain_operator\<close>; the abbreviations
  below give them the names of the code's variants.
\<close>

datatype (plugins only: code size) plain_operator =
    P_Add
  | P_UnsignedAdd
  | P_Sub
  | P_UnsignedSub
  | P_Mul
  | P_UnsignedMul
  | P_Div
  | P_UnsignedDiv
  | P_Mod
  | P_UnsignedMod
  | P_Eq
  | P_NotEq
  | P_Gt
  | P_UnsignedGt
  | P_Lt
  | P_UnsignedLt
  | P_Ge
  | P_UnsignedGe
  | P_Le
  | P_UnsignedLe
  | P_LeftShift
  | P_RightShift
  | P_ArithmeticRightShift
  | P_LogicalAnd
  | P_LogicalOr
  | P_LogicalXor
  | P_LogicalNot
  | P_BitwiseAnd
  | P_BitwiseOr
  | P_BitwiseXor
  | P_ReduceAnd
  | P_ReduceOr
  | P_ReduceXor
  | P_USub
  | P_Not
  | P_ReadPort
  | P_BitwiseNot
  | P_Bitreverse
  | P_DivPow2
  | P_Truncate
  | P_Concat
  | P_Select
  | P_Match
  | P_ConstructArray
  | P_IndexArray
  | P_IndexMemory
  | P_ConstructTuple
  | P_FlipPort
  | P_ReadMutWires
  | P_Alias
  | P_Nop

datatype (plugins only: code size) operator =
    Op_Plain plain_operator
  | Op_Gray2Bin nat
  | Op_SignExtend (extra_bits: nat) (operand_size: nat)
  | Op_ZeroExtend nat
  | Op_DeclClockedMemory (write_ports: nat) (addr_w: nat) (inner_w: nat) (elems: nat)
      (mem_initial: "statement list list option")
  | Op_RangeIndexArray (range_start: nat) (end_exclusive: nat)
  | Op_RangeIndexBits (range_start: nat) (end_exclusive: nat)
  | Op_ConstructEnum (ce_variant: nat) (variant_count: nat)
  | Op_IsEnumVariant (iev_variant: nat) (enum_type: mir_type)
  | Op_EnumMember (enum_type: mir_type) (em_variant: nat) (member_index: nat)
  | Op_IndexTuple nat "mir_type list"
  | Op_Instance unit_name "param_name list" "loc option"
  and binding =
    Binding (b_name: value_name) (b_operator: operator) (b_operands: "value_name list")
      (b_ty: mir_type) (b_loc: "loc option")
  and register =
    Register (r_name: value_name) (r_ty: mir_type) (r_clock: value_name)
      (r_reset: "(value_name \<times> value_name) option") (r_initial: "statement list option")
      (r_value: value_name) (r_loc: "loc option") (r_traced: "value_name option")
  and statement =
    St_Binding binding
  | St_Register register
  | St_Constant nat mir_type const_value
  | St_Assert value_name
  | St_Set (set_target: value_name) (set_value: value_name)
  | St_WalTrace (wt_name: value_name) (wt_val: value_name) (wt_suffix: string) (wt_ty: mir_type)

abbreviation "Op_Add \<equiv> Op_Plain P_Add"
abbreviation "Op_UnsignedAdd \<equiv> Op_Plain P_UnsignedAdd"
abbreviation "Op_Sub \<equiv> Op_Plain P_Sub"
abbreviation "Op_UnsignedSub \<equiv> Op_Plain P_UnsignedSub"
abbreviation "Op_Mul \<equiv> Op_Plain P_Mul"
abbreviation "Op_UnsignedMul \<equiv> Op_Plain P_UnsignedMul"
abbreviation "Op_Div \<equiv> Op_Plain P_Div"
abbreviation "Op_UnsignedDiv \<equiv> Op_Plain P_UnsignedDiv"
abbreviation "Op_Mod \<equiv> Op_Plain P_Mod"
abbreviation "Op_UnsignedMod \<equiv> Op_Plain P_UnsignedMod"
abbreviation "Op_Eq \<equiv> Op_Plain P_Eq"
abbreviation "Op_NotEq \<equiv> Op_Plain P_NotEq"
abbreviation "Op_Gt \<equiv> Op_Plain P_Gt"
abbreviation "Op_UnsignedGt \<equiv> Op_Plain P_UnsignedGt"
abbreviation "Op_Lt \<equiv> Op_Plain P_Lt"
abbreviation "Op_UnsignedLt \<equiv> Op_Plain P_UnsignedLt"
abbreviation "Op_Ge \<equiv> Op_Plain P_Ge"
abbreviation "Op_UnsignedGe \<equiv> Op_Plain P_UnsignedGe"
abbreviation "Op_Le \<equiv> Op_Plain P_Le"
abbreviation "Op_UnsignedLe \<equiv> Op_Plain P_UnsignedLe"
abbreviation "Op_LeftShift \<equiv> Op_Plain P_LeftShift"
abbreviation "Op_RightShift \<equiv> Op_Plain P_RightShift"
abbreviation "Op_ArithmeticRightShift \<equiv> Op_Plain P_ArithmeticRightShift"
abbreviation "Op_LogicalAnd \<equiv> Op_Plain P_LogicalAnd"
abbreviation "Op_LogicalOr \<equiv> Op_Plain P_LogicalOr"
abbreviation "Op_LogicalXor \<equiv> Op_Plain P_LogicalXor"
abbreviation "Op_LogicalNot \<equiv> Op_Plain P_LogicalNot"
abbreviation "Op_BitwiseAnd \<equiv> Op_Plain P_BitwiseAnd"
abbreviation "Op_BitwiseOr \<equiv> Op_Plain P_BitwiseOr"
abbreviation "Op_BitwiseXor \<equiv> Op_Plain P_BitwiseXor"
abbreviation "Op_ReduceAnd \<equiv> Op_Plain P_ReduceAnd"
abbreviation "Op_ReduceOr \<equiv> Op_Plain P_ReduceOr"
abbreviation "Op_ReduceXor \<equiv> Op_Plain P_ReduceXor"
abbreviation "Op_USub \<equiv> Op_Plain P_USub"
abbreviation "Op_Not \<equiv> Op_Plain P_Not"
abbreviation "Op_ReadPort \<equiv> Op_Plain P_ReadPort"
abbreviation "Op_BitwiseNot \<equiv> Op_Plain P_BitwiseNot"
abbreviation "Op_Bitreverse \<equiv> Op_Plain P_Bitreverse"
abbreviation "Op_DivPow2 \<equiv> Op_Plain P_DivPow2"
abbreviation "Op_Truncate \<equiv> Op_Plain P_Truncate"
abbreviation "Op_Concat \<equiv> Op_Plain P_Concat"
abbreviation "Op_Select \<equiv> Op_Plain P_Select"
abbreviation "Op_Match \<equiv> Op_Plain P_Match"
abbreviation "Op_ConstructArray \<equiv> Op_Plain P_ConstructArray"
abbreviation "Op_IndexArray \<equiv> Op_Plain P_IndexArray"
abbreviation "Op_IndexMemory \<equiv> Op_Plain P_IndexMemory"
abbreviation "Op_ConstructTuple \<equiv> Op_Plain P_ConstructTuple"
abbreviation "Op_FlipPort \<equiv> Op_Plain P_FlipPort"
abbreviation "Op_ReadMutWires \<equiv> Op_Plain P_ReadMutWires"
abbreviation "Op_Alias \<equiv> Op_Plain P_Alias"
abbreviation "Op_Nop \<equiv> Op_Plain P_Nop"

record mir_input =
  in_name :: string
  in_val_name :: value_name
  in_ty :: mir_type
  in_no_mangle :: "loc option"

record entity =
  ent_name :: unit_name
  ent_inputs :: "mir_input list"
  ent_output :: value_name
  ent_output_type :: mir_type
  ent_statements :: "statement list"

section \<open>Equality\<close>

definition vn_norm :: "value_name \<Rightarrow> value_name" where
  "vn_norm n = (case n of VN_Named i s _ \<Rightarrow> VN_Named i s (NS_Expr 0) | VN_Expr i \<Rightarrow> VN_Expr i)"

definition loc_norm :: "loc option \<Rightarrow> loc option" where
  "loc_norm l = map_option (\<lambda>_. loc_nowhere) l"

definition unit_name_norm :: "unit_name \<Rightarrow> unit_name" where
  "unit_name_norm n = n\<lparr>un_source := NameID 0 []\<rparr>"

definition param_norm :: "param_name \<Rightarrow> param_name" where
  "param_norm p = p\<lparr>pn_no_mangle := loc_norm (pn_no_mangle p)\<rparr>"

fun op_norm :: "operator \<Rightarrow> operator"
  and binding_norm :: "binding \<Rightarrow> binding"
  and register_norm :: "register \<Rightarrow> register"
  and stmt_norm :: "statement \<Rightarrow> statement" where
  "op_norm (Op_DeclClockedMemory wp aw iw el initial) =
     Op_DeclClockedMemory wp aw iw el (map_option (map (map stmt_norm)) initial)"
| "op_norm (Op_Instance name params l) =
     Op_Instance (unit_name_norm name) (map param_norm params) None"
| "op_norm oper = oper"
| "binding_norm (Binding name oper operands ty l) =
     Binding (vn_norm name) (op_norm oper) (map vn_norm operands) ty (loc_norm l)"
| "register_norm (Register name ty clock reset initial val l traced) =
     Register (vn_norm name) ty (vn_norm clock) (map_option (map_prod vn_norm vn_norm) reset)
       (map_option (map stmt_norm) initial) (vn_norm val) (loc_norm l) (map_option vn_norm traced)"
| "stmt_norm (St_Binding b) = St_Binding (binding_norm b)"
| "stmt_norm (St_Register r) = St_Register (register_norm r)"
| "stmt_norm (St_Constant i ty v) = St_Constant i ty v"
| "stmt_norm (St_Assert n) = St_Assert (vn_norm n)"
| "stmt_norm (St_Set target val) = St_Set (vn_norm target) (vn_norm val)"
| "stmt_norm (St_WalTrace name val suffix ty) = St_WalTrace (vn_norm name) (vn_norm val) suffix ty"

definition op_eq :: "operator \<Rightarrow> operator \<Rightarrow> bool" where
  "op_eq a b \<longleftrightarrow> op_norm a = op_norm b"

definition stmts_eq :: "statement list \<Rightarrow> statement list \<Rightarrow> bool" where
  "stmts_eq a b \<longleftrightarrow> map stmt_norm a = map stmt_norm b"

lemma vn_norm_key: "vn_norm a = vn_norm b \<longleftrightarrow> vn_key a = vn_key b"
  by (cases a; cases b) (auto simp: vn_norm_def vn_key_def)

section \<open>Text\<close>

fun dbg_mir_type :: "mir_type \<Rightarrow> string" where
  "dbg_mir_type (Ty_Int v) = ''Int('' @ show_nat v @ '')''"
| "dbg_mir_type (Ty_UInt v) = ''UInt('' @ show_nat v @ '')''"
| "dbg_mir_type Ty_Bool = ''Bool''"
| "dbg_mir_type Ty_Void = ''Void''"
| "dbg_mir_type (Ty_Tuple inner) =
     ''Tuple(['' @ join_strs '', '' (map dbg_mir_type inner) @ ''])''"
| "dbg_mir_type (Ty_Struct inner) =
     ''Struct(['' @ join_strs '', ''
       (map (\<lambda>(n, t). ''('' @ [CHR 0x22] @ n @ [CHR 0x22] @ '', '' @ dbg_mir_type t @ '')'') inner) @ ''])''"
| "dbg_mir_type (Ty_Array inner len) =
     ''Array { inner: '' @ dbg_mir_type inner @ '', length: '' @ show_nat len @ '' }''"
| "dbg_mir_type (Ty_Memory inner len) =
     ''Memory { inner: '' @ dbg_mir_type inner @ '', length: '' @ show_nat len @ '' }''"
| "dbg_mir_type (Ty_Enum inner) =
     ''Enum(['' @ join_strs '', ''
       (map (\<lambda>v. ''['' @ join_strs '', '' (map dbg_mir_type v) @ '']'') inner) @ ''])''"
| "dbg_mir_type (Ty_Backward inner) = ''Backward('' @ dbg_mir_type inner @ '')''"
| "dbg_mir_type (Ty_InOut inner) = ''InOut('' @ dbg_mir_type inner @ '')''"

fun show_plain_operator :: "plain_operator \<Rightarrow> string" where
  "show_plain_operator P_Add = ''Add''"
| "show_plain_operator P_UnsignedAdd = ''UnsignedAdd''"
| "show_plain_operator P_Sub = ''Sub''"
| "show_plain_operator P_UnsignedSub = ''UnsignedSub''"
| "show_plain_operator P_Mul = ''Mul''"
| "show_plain_operator P_UnsignedMul = ''UnsignedMul''"
| "show_plain_operator P_Div = ''Div''"
| "show_plain_operator P_UnsignedDiv = ''UnsignedDiv''"
| "show_plain_operator P_Mod = ''Mod''"
| "show_plain_operator P_UnsignedMod = ''UnsignedMod''"
| "show_plain_operator P_Eq = ''Eq''"
| "show_plain_operator P_NotEq = ''NotEq''"
| "show_plain_operator P_Gt = ''Gt''"
| "show_plain_operator P_UnsignedGt = ''UnsignedGt''"
| "show_plain_operator P_Lt = ''Lt''"
| "show_plain_operator P_UnsignedLt = ''UnsignedLt''"
| "show_plain_operator P_Ge = ''Ge''"
| "show_plain_operator P_UnsignedGe = ''UnsignedGe''"
| "show_plain_operator P_Le = ''Le''"
| "show_plain_operator P_UnsignedLe = ''UnsignedLe''"
| "show_plain_operator P_LeftShift = ''LeftShift''"
| "show_plain_operator P_RightShift = ''RightShift''"
| "show_plain_operator P_ArithmeticRightShift = ''ArithmeticRightShift''"
| "show_plain_operator P_LogicalAnd = ''LogicalAnd''"
| "show_plain_operator P_LogicalOr = ''LogicalOr''"
| "show_plain_operator P_LogicalXor = ''LogicalXor''"
| "show_plain_operator P_LogicalNot = ''LogicalNot''"
| "show_plain_operator P_BitwiseAnd = ''BitwiseAnd''"
| "show_plain_operator P_BitwiseOr = ''BitwiseOr''"
| "show_plain_operator P_BitwiseXor = ''BitwiseXor''"
| "show_plain_operator P_ReduceAnd = ''ReduceAnd''"
| "show_plain_operator P_ReduceOr = ''ReduceOr''"
| "show_plain_operator P_ReduceXor = ''ReduceXor''"
| "show_plain_operator P_USub = ''USub''"
| "show_plain_operator P_Not = ''Not''"
| "show_plain_operator P_ReadPort = ''ReadPort''"
| "show_plain_operator P_BitwiseNot = ''BitwiseNot''"
| "show_plain_operator P_Bitreverse = ''Bitreverse''"
| "show_plain_operator P_DivPow2 = ''DivPow2''"
| "show_plain_operator P_Truncate = ''Truncate''"
| "show_plain_operator P_Concat = ''Concat''"
| "show_plain_operator P_Select = ''Select''"
| "show_plain_operator P_Match = ''Match''"
| "show_plain_operator P_ConstructArray = ''ConstructArray''"
| "show_plain_operator P_IndexArray = ''IndexArray''"
| "show_plain_operator P_IndexMemory = ''IndexMemory''"
| "show_plain_operator P_ConstructTuple = ''ConstructTuple''"
| "show_plain_operator P_FlipPort = ''FlipPort''"
| "show_plain_operator P_ReadMutWires = ''ReadMutWires''"
| "show_plain_operator P_Alias = ''Alias''"
| "show_plain_operator P_Nop = ''Nop''"

fun show_operator :: "operator \<Rightarrow> string"
  and show_binding :: "binding \<Rightarrow> string"
  and show_register :: "register \<Rightarrow> string"
  and show_statement :: "statement \<Rightarrow> string" where
  "show_operator (Op_Plain p) = show_plain_operator p"
| "show_operator (Op_Gray2Bin n) = ''Gray2Bin('' @ show_nat n @ '')''"
| "show_operator (Op_SignExtend e n) =
     ''SignExtend('' @ show_nat e @ '', '' @ show_nat n @ '')''"
| "show_operator (Op_ZeroExtend e) = ''ZeroExtend('' @ show_nat e @ '')''"
| "show_operator (Op_ConstructEnum v n) =
     ''ConstructEnum('' @ show_nat v @ '', '' @ show_nat n @ '')''"
| "show_operator (Op_IsEnumVariant v ty) = ''IsEnumVariant('' @ show_nat v @ '')''"
| "show_operator (Op_EnumMember ty v i) =
     ''EnumMember('' @ show_nat v @ '' '' @ show_nat i @ '')''"
| "show_operator (Op_DeclClockedMemory wp aw iw el initial) =
     ''DeclClockedMemory('' @ show_nat wp @ '', '' @ show_nat aw @ '', '' @ show_nat iw @ '', '' @
       show_nat el @
       (case initial of
          None \<Rightarrow> []
        | Some vals \<Rightarrow>
            '', ['' @ join_strs '', ''
              (map (\<lambda>v. ''['' @ join_strs '', '' (map show_statement v) @ '']'') vals) @ '']'') @
     '')''"
| "show_operator (Op_IndexTuple i tys) =
     ''IndexTuple('' @ show_nat i @ '', ['' @ join_strs '', '' (map dbg_mir_type tys) @ ''])''"
| "show_operator (Op_RangeIndexArray s e) =
     ''RangeIndexArray('' @ show_nat s @ '', '' @ show_nat e @ '')''"
| "show_operator (Op_RangeIndexBits s e) =
     ''RangeIndexBits('' @ show_nat s @ '', '' @ show_nat e @ '')''"
| "show_operator (Op_Instance name params l) = ''Instance('' @ as_verilog name @ '')''"
| "show_binding (Binding name oper operands ty l) =
     ''let '' @ show_value_name name @ '': '' @ show_mir_type ty @ '' = '' @ show_operator oper @
     ''('' @ join_strs '', '' (map show_value_name operands) @ '')''"
| "show_register (Register name ty clock reset initial val l traced) =
     ''reg('' @ show_value_name clock @ '') '' @ show_value_name name @ '': '' @ show_mir_type ty @
     (case reset of
        None \<Rightarrow> []
      | Some (trig, v) \<Rightarrow> ''('' @ show_value_name trig @ '', '' @ show_value_name v @ '')'') @
     (case initial of
        None \<Rightarrow> []
      | Some i \<Rightarrow> ''initial('' @ join_strs ''; '' (map show_statement i) @ '')'') @
     '' = '' @ show_value_name val"
| "show_statement (St_Binding b) = show_binding b"
| "show_statement (St_Register r) = show_register r"
| "show_statement (St_Constant i ty v) =
     ''const e'' @ show_nat i @ '': '' @ show_mir_type ty @ '' = '' @ show_const_value v"
| "show_statement (St_Assert v) = ''assert '' @ show_value_name v"
| "show_statement (St_Set target v) =
     ''set '' @ show_value_name target @ '' = '' @ show_value_name v"
| "show_statement (St_WalTrace name v suffix ty) =
     ''wal_trace('' @ show_value_name name @ '', '' @ show_value_name v @ '', '' @ suffix @ '')''"

definition show_mir_input :: "mir_input \<Rightarrow> string" where
  "show_mir_input i =
     ''('' @ (case in_no_mangle i of None \<Rightarrow> [] | Some _ \<Rightarrow> ''#[no_mangle]'') @ in_name i @ '', '' @
     show_value_name (in_val_name i) @ '', '' @ show_mir_type (in_ty i) @ '')''"

definition show_entity :: "entity \<Rightarrow> string" where
  "show_entity e =
     ''entity '' @ as_verilog (ent_name e) @ ''('' @
     join_strs '', '' (map show_mir_input (ent_inputs e)) @ '') -> '' @
     show_mir_type (ent_output_type e) @ '' {'' @ [CHR 0x0A] @
     concat (map (\<lambda>s. [CHR 0x09] @ show_statement s @ [CHR 0x0A]) (ent_statements e)) @
     ''} => '' @ show_value_name (ent_output e)"

end
