(* ===== verification/Mir_Eval.thy ===== *)
theory Mir_Eval
  imports Mir
begin

text \<open>
  spade-mir, \<open>eval.rs\<close>: compile-time values, their bits, and the evaluation of a list of
  statements (the initial value of a register or memory). Every panic is \<open>None\<close>: \<open>todo!()\<close>, an
  unknown name, a value of the wrong kind, the underflow of a \<open>BigUint\<close>, and, for \<open>u64\<close>, an
  overflowing addition or shift amount as a build with overflow checks reports it; a \<open>u64\<close> shift
  drops the bits shifted out.
\<close>

section \<open>Values\<close>

datatype mir_value =
    Val_Bit bool
  | Val_Int (int_size: nat) (int_val: int)
  | Val_UInt (uint_size: nat) (uint_val: nat)
  | Val_Concat "mir_value list"
  | Val_Undef nat

definition assume_int :: "mir_value \<Rightarrow> int option" where
  "assume_int v = (case v of Val_Int _ i \<Rightarrow> Some i | _ \<Rightarrow> None)"

definition assume_uint :: "mir_value \<Rightarrow> nat option" where
  "assume_uint v = (case v of Val_UInt _ i \<Rightarrow> Some i | _ \<Rightarrow> None)"

text \<open>Rust's \<open>{:b}\<close>.\<close>

fun show_bin :: "nat \<Rightarrow> string" where
  "show_bin n =
     (if n < 2 then (if n = 0 then ''0'' else ''1'')
      else show_bin (n div 2) @ (if n mod 2 = 0 then ''0'' else ''1''))"

declare show_bin.simps [simp del]

definition pad_bin :: "nat \<Rightarrow> nat \<Rightarrow> string option" where
  "pad_bin sz v =
     (let val_str = show_bin v
      in if sz < length val_str then None
         else Some (replicate (sz - length val_str) (CHR ''0'') @ val_str))"

text \<open>\<open>val & mask\<close> of a negative value: its two's complement.\<close>

definition twos_complement :: "nat \<Rightarrow> int \<Rightarrow> nat" where
  "twos_complement sz v = nat (v mod 2 ^ sz)"

fun as_string :: "mir_value \<Rightarrow> string option" where
  "as_string (Val_Bit b) = Some (if b then ''1'' else ''0'')"
| "as_string (Val_Int sz v) =
     (if v \<ge> 0 then pad_bin sz (nat v) else Some (show_bin (twos_complement sz v)))"
| "as_string (Val_UInt sz v) = pad_bin sz v"
| "as_string (Val_Concat inner) = map_option concat (mapM_opt as_string inner)"
| "as_string (Val_Undef sz) = Some (replicate sz (CHR ''X''))"

fun val_width :: "mir_value \<Rightarrow> nat" where
  "val_width (Val_Bit b) = 1"
| "val_width (Val_Int sz v) = sz"
| "val_width (Val_UInt sz v) = sz"
| "val_width (Val_Concat inner) = sum_list (map val_width inner)"
| "val_width (Val_Undef sz) = sz"

definition to_u64 :: "nat \<Rightarrow> nat option" where
  "to_u64 n = (if n < 2 ^ 64 then Some n else None)"

definition u64_shl :: "nat \<Rightarrow> nat \<Rightarrow> nat option" where
  "u64_shl a k = (if k < 64 then Some (a * 2 ^ k mod 2 ^ 64) else None)"

definition u64_add :: "nat \<Rightarrow> nat \<Rightarrow> nat option" where
  "u64_add a b = to_u64 (a + b)"

text \<open>One step of the loop of \<open>as_u64\<close>: the accumulator, the width and the value of the next part.\<close>

definition u64_append :: "nat \<Rightarrow> nat \<times> nat \<Rightarrow> nat option" where
  "u64_append current next =
     Option.bind (to_u64 (fst next)) (\<lambda>w.
     Option.bind (u64_shl current w) (\<lambda>shifted. u64_add shifted (snd next)))"

definition chunk_append :: "nat \<Rightarrow> nat \<times> nat \<Rightarrow> nat option" where
  "chunk_append current next =
     map_option (\<lambda>w. current * 2 ^ w + snd next) (to_u64 (fst next))"

fun as_u64 :: "mir_value \<Rightarrow> nat option" where
  "as_u64 (Val_Bit b) = Some (if b then 1 else 0)"
| "as_u64 (Val_Int sz v) = to_u64 (if v \<ge> 0 then nat v else twos_complement sz v)"
| "as_u64 (Val_UInt sz v) = to_u64 v"
| "as_u64 (Val_Concat inner) =
     Option.bind (mapM_opt (\<lambda>v. map_option (Pair (val_width v)) (as_u64 v)) inner)
       (fold_opt u64_append 0)"
| "as_u64 (Val_Undef sz) = Some 0"

fun as_u32_chunks :: "mir_value \<Rightarrow> nat option" where
  "as_u32_chunks (Val_Bit b) = Some (if b then 1 else 0)"
| "as_u32_chunks (Val_Int sz v) = Some (if v \<ge> 0 then nat v else twos_complement sz v)"
| "as_u32_chunks (Val_UInt sz v) = Some v"
| "as_u32_chunks (Val_Concat inner) =
     Option.bind (mapM_opt (\<lambda>v. map_option (Pair (val_width v)) (as_u64 v)) inner)
       (fold_opt chunk_append 0)"
| "as_u32_chunks (Val_Undef sz) = Some 0"

fun show_mir_value :: "mir_value \<Rightarrow> string" where
  "show_mir_value (Val_Bit b) = ''bit('' @ (if b then ''1'' else ''0'') @ '')''"
| "show_mir_value (Val_Int sz v) = ''int<'' @ show_nat sz @ ''>('' @ show_int v @ '')''"
| "show_mir_value (Val_UInt sz v) = ''uint<'' @ show_nat sz @ ''>('' @ show_nat v @ '')''"
| "show_mir_value (Val_Concat inner) =
     ''concat(['' @ join_strs '', '' (map show_mir_value inner) @ ''])''"
| "show_mir_value (Val_Undef sz) = ''X''"

section \<open>Evaluation\<close>

record eval_state =
  name_vals :: "vkey \<rightharpoonup> mir_value"
  name_types :: "vkey \<rightharpoonup> mir_type"
  last_value :: "mir_value option"

definition eval_init :: eval_state where
  "eval_init = \<lparr>name_vals = (\<lambda>_. None), name_types = (\<lambda>_. None), last_value = None\<rparr>"

text \<open>\<open>name_vals[&ops[i]]\<close>.\<close>

definition operand :: "eval_state \<Rightarrow> value_name list \<Rightarrow> nat \<Rightarrow> mir_value option" where
  "operand st ops i = (if i < length ops then name_vals st (vn_key (ops ! i)) else None)"

definition eval_int2 ::
  "eval_state \<Rightarrow> value_name list \<Rightarrow> mir_type \<Rightarrow> (int \<Rightarrow> int \<Rightarrow> int) \<Rightarrow> mir_value option" where
  "eval_int2 st ops ty f =
     Option.bind (Option.bind (operand st ops 0) assume_int) (\<lambda>a.
     Option.bind (Option.bind (operand st ops 1) assume_int) (\<lambda>b.
       Some (Val_Int (ty_size ty) (f a b))))"

definition eval_uint2 ::
  "eval_state \<Rightarrow> value_name list \<Rightarrow> mir_type \<Rightarrow> (nat \<Rightarrow> nat \<Rightarrow> nat option) \<Rightarrow> mir_value option" where
  "eval_uint2 st ops ty f =
     Option.bind (Option.bind (operand st ops 0) assume_uint) (\<lambda>a.
     Option.bind (Option.bind (operand st ops 1) assume_uint) (\<lambda>b.
       map_option (Val_UInt (ty_size ty)) (f a b)))"

definition operand_vals :: "eval_state \<Rightarrow> value_name list \<Rightarrow> mir_value list option" where
  "operand_vals st ops = mapM_opt (\<lambda>op. name_vals st (vn_key op)) ops"

definition eval_construct_enum ::
  "eval_state \<Rightarrow> value_name list \<Rightarrow> mir_type \<Rightarrow> nat \<Rightarrow> nat \<Rightarrow> mir_value option" where
  "eval_construct_enum st ops ty variant n =
     (let tag = tag_size n;
          tag_vals = (if n = 1 then [] else [Val_UInt tag variant])
      in Option.bind (operand_vals st ops) (\<lambda>payload.
         Option.bind (mapM_opt (\<lambda>op. name_types st (vn_key op)) ops) (\<lambda>tys.
           let member_size = sum_list (map ty_size tys)
           in if ty_size ty < tag + member_size then None
              else let padding = ty_size ty - tag - member_size
                   in Some (Val_Concat (tag_vals @ payload @
                        (if padding \<noteq> 0 then [Val_Undef padding] else []))))))"

definition eval_operator ::
  "eval_state \<Rightarrow> operator \<Rightarrow> value_name list \<Rightarrow> mir_type \<Rightarrow> mir_value option" where
  "eval_operator st oper ops ty =
     (case oper of
        Op_Plain p \<Rightarrow>
          if p = P_Add then eval_int2 st ops ty (+)
          else if p = P_UnsignedAdd then eval_uint2 st ops ty (\<lambda>a b. Some (a + b))
          else if p = P_Sub then eval_int2 st ops ty (-)
          else if p = P_UnsignedSub
          then eval_uint2 st ops ty (\<lambda>a b. if a < b then None else Some (a - b))
          else if p = P_USub
          then map_option (\<lambda>a. Val_Int (ty_size ty) (- a)) (Option.bind (operand st ops 0) assume_int)
          else if p = P_ConstructArray
          then map_option Val_Concat (operand_vals st (rev ops))
          else if p = P_ConstructTuple then map_option Val_Concat (operand_vals st ops)
          else if p = P_Alias then operand st ops 0
          else None
      | Op_ConstructEnum variant n \<Rightarrow> eval_construct_enum st ops ty variant n
      | _ \<Rightarrow> None)"

definition eval_statement :: "eval_state \<Rightarrow> statement \<Rightarrow> eval_state option" where
  "eval_statement st stmt =
     (case stmt of
        St_Binding (Binding name oper ops ty _) \<Rightarrow>
          (let st = st\<lparr>name_types := (name_types st)(vn_key name \<mapsto> ty)\<rparr>
           in map_option
                (\<lambda>v. st\<lparr>name_vals := (name_vals st)(vn_key name \<mapsto> v), last_value := Some v\<rparr>)
                (eval_operator st oper ops ty))
      | St_Constant i ty val \<Rightarrow>
          map_option
            (\<lambda>v. st\<lparr>name_types := (name_types st)(Inr i \<mapsto> ty),
                     name_vals := (name_vals st)(Inr i \<mapsto> v), last_value := Some v\<rparr>)
            (case val of
               CV_Int n \<Rightarrow> Some (Val_Int (ty_size ty) n)
             | CV_Bool b \<Rightarrow> Some (Val_Bit b)
             | CV_HighImp \<Rightarrow> None)
      | _ \<Rightarrow> None)"

definition eval_statements :: "statement list \<Rightarrow> mir_value option" where
  "eval_statements stmts = Option.bind (fold_opt eval_statement eval_init stmts) last_value"

section \<open>Bits\<close>

definition bit_char :: "char \<Rightarrow> nat" where
  "bit_char c = (if c = CHR ''1'' then 1 else 0)"

definition bin_step :: "nat \<Rightarrow> char \<Rightarrow> nat" where
  "bin_step a c = 2 * a + bit_char c"

definition read_bin :: "string \<Rightarrow> nat" where
  "read_bin s = foldl bin_step 0 s"

lemma foldl_bits: "foldl bin_step a s = a * 2 ^ length s + read_bin s"
proof (induction s arbitrary: a)
  case (Cons c s)
  have "read_bin (c # s) = bin_step 0 c * 2 ^ length s + read_bin s"
    using Cons [of "bin_step 0 c"] by (simp add: read_bin_def)
  moreover have "foldl bin_step a (c # s) = bin_step a c * 2 ^ length s + read_bin s"
    by (simp only: foldl.simps Cons)
  ultimately show ?case
    by (simp add: bin_step_def [of a c] bin_step_def [of 0 c] algebra_simps)
qed (simp add: read_bin_def)

lemma read_bin_append: "read_bin (s @ t) = read_bin s * 2 ^ length t + read_bin t"
proof -
  have "read_bin (s @ t) = foldl bin_step (read_bin s) t" by (simp add: read_bin_def)
  then show ?thesis by (simp add: foldl_bits)
qed

lemma read_bin_Nil [simp]: "read_bin [] = 0"
  by (simp add: read_bin_def)

lemma read_bin_single [simp]: "read_bin [c] = bit_char c"
  by (simp add: read_bin_def bin_step_def)

lemma bit_char_simps [simp]:
  "bit_char (CHR ''0'') = 0" "bit_char (CHR ''1'') = 1" "bit_char (CHR ''X'') = 0"
  by (simp_all add: bit_char_def)

lemma read_bin_replicate: "bit_char c = 0 \<Longrightarrow> read_bin (replicate n c) = 0"
  by (induction n) (use read_bin_append [of "[c]"] in \<open>simp_all\<close>)

lemma show_bin_step: "2 \<le> n \<Longrightarrow> show_bin n = show_bin (n div 2) @ (if n mod 2 = 0 then ''0'' else ''1'')"
  by (subst show_bin.simps) simp

lemma show_bin_small [simp]: "show_bin 0 = ''0''" "show_bin (Suc 0) = ''1''"
  by (subst show_bin.simps, simp)+

lemma read_show_bin [simp]: "read_bin (show_bin n) = n"
proof (induction n rule: less_induct)
  case (less n)
  show ?case
  proof (cases "2 \<le> n")
    case True
    then have "read_bin (show_bin n) = n div 2 * 2 + (if n mod 2 = 0 then 0 else 1)"
      using less [of "n div 2"] by (simp add: show_bin_step read_bin_append)
    then show ?thesis by presburger
  next
    case False
    then have "n = 0 \<or> n = Suc 0" by linarith
    then show ?thesis by auto
  qed
qed

lemma show_bin_length: "length (show_bin n) \<le> k \<longleftrightarrow> 1 \<le> k \<and> n < 2 ^ k"
proof (induction n arbitrary: k rule: less_induct)
  case (less n)
  show ?case
  proof (cases "2 \<le> n")
    case True
    show ?thesis
    proof (cases k)
      case 0
      with True show ?thesis by (simp add: show_bin_step)
    next
      case (Suc m)
      have "n div 2 < 2 ^ m \<longleftrightarrow> n < 2 ^ k" using Suc by auto
      moreover have "m = 0 \<Longrightarrow> \<not> n < 2 ^ k" using Suc True by simp
      moreover have "length (show_bin n) \<le> k \<longleftrightarrow> length (show_bin (n div 2)) \<le> m"
        using True Suc by (simp add: show_bin_step)
      moreover have "length (show_bin (n div 2)) \<le> m \<longleftrightarrow> 1 \<le> m \<and> n div 2 < 2 ^ m"
        by (rule less) (use True in simp)
      ultimately show ?thesis using Suc by (metis One_nat_def Suc_le_eq le_add1 neq0_conv plus_1_eq_Suc)
    qed
  next
    case False
    then have n: "n = 0 \<or> n = Suc 0" by linarith
    have "Suc 0 < 2 ^ k" if "1 \<le> k"
      using power_increasing [OF that, of "2::nat"] by simp
    with n show ?thesis by (cases k) auto
  qed
qed

lemma show_bin_chars: "set (show_bin n) \<subseteq> {CHR ''0'', CHR ''1''}"
proof (induction n rule: less_induct)
  case (less n)
  show ?case
  proof (cases "2 \<le> n")
    case True
    then show ?thesis using less [of "n div 2"] by (auto simp: show_bin_step)
  next
    case False
    then have "n = 0 \<or> n = Suc 0" by linarith
    then show ?thesis by auto
  qed
qed

text \<open>Values within their width; negative ones within the signed range.\<close>

fun val_ok :: "mir_value \<Rightarrow> bool" where
  "val_ok (Val_Bit b) = True"
| "val_ok (Val_Int sz v) = (1 \<le> sz \<and> - (2 ^ sz) \<le> 2 * v \<and> v < 2 ^ sz)"
| "val_ok (Val_UInt sz v) = (1 \<le> sz \<and> v < 2 ^ sz)"
| "val_ok (Val_Concat inner) = list_all val_ok inner"
| "val_ok (Val_Undef sz) = True"

text \<open>The number the bits of a value stand for, an undefined bit read as 0.\<close>

fun val_bits :: "mir_value \<Rightarrow> nat" where
  "val_bits (Val_Bit b) = (if b then 1 else 0)"
| "val_bits (Val_Int sz v) = twos_complement sz v"
| "val_bits (Val_UInt sz v) = v"
| "val_bits (Val_Concat inner) =
     foldl (\<lambda>a (w, b). a * 2 ^ w + b) 0 (map (\<lambda>v. (val_width v, val_bits v)) inner)"
| "val_bits (Val_Undef sz) = 0"

lemma twos_complement_nonneg: "0 \<le> v \<Longrightarrow> v < 2 ^ sz \<Longrightarrow> twos_complement sz v = nat v"
  by (simp add: twos_complement_def)

lemma twos_complement_bound: "twos_complement sz v < 2 ^ sz"
proof -
  have "v mod 2 ^ sz < 2 ^ sz" by simp
  then show ?thesis by (simp add: twos_complement_def nat_less_iff)
qed

lemma twos_complement_negative:
  assumes "v < 0" and "- (2 ^ sz) \<le> 2 * v"
  shows "2 ^ (sz - 1) \<le> twos_complement sz v"
proof (cases sz)
  case (Suc m)
  have "(v + 2 ^ sz) mod 2 ^ sz = v + 2 ^ sz"
    using assms by (intro mod_pos_pos_trivial) auto
  then have "v mod 2 ^ sz = v + 2 ^ sz" by simp
  moreover have "(2::int) ^ m \<le> v + 2 ^ sz" using assms Suc by simp
  ultimately show ?thesis using Suc by (simp add: twos_complement_def nat_le_iff le_nat_iff)
qed (use assms in simp)

definition append_bits :: "nat \<Rightarrow> mir_value list \<Rightarrow> nat" where
  "append_bits a inner =
     foldl (\<lambda>a (w, b). a * 2 ^ w + b) a (map (\<lambda>v. (val_width v, val_bits v)) inner)"

lemma append_bits_simps [simp]:
  "append_bits a [] = a"
  "append_bits a (v # inner) = append_bits (a * 2 ^ val_width v + val_bits v) inner"
  by (simp_all add: append_bits_def)

lemma val_bits_Concat: "val_bits (Val_Concat inner) = append_bits 0 inner"
  by (simp add: append_bits_def)

declare val_bits.simps(4) [simp del]

lemma append_bits_bound:
  "(\<And>v. v \<in> set inner \<Longrightarrow> val_bits v < 2 ^ val_width v) \<Longrightarrow> a < 2 ^ k \<Longrightarrow>
     append_bits a inner < 2 ^ (k + sum_list (map val_width inner))"
proof (induction inner arbitrary: a k)
  case (Cons v inner)
  have "val_bits v < 2 ^ val_width v" using Cons.prems by simp
  then have "a * 2 ^ val_width v + val_bits v < (a + 1) * 2 ^ val_width v" by simp
  also have "\<dots> \<le> 2 ^ k * 2 ^ val_width v" using Cons.prems by (intro mult_right_mono) auto
  finally have "a * 2 ^ val_width v + val_bits v < 2 ^ (k + val_width v)" by (simp add: power_add)
  from Cons.IH [OF _ this] Cons.prems(1) show ?case by (simp add: add.assoc)
qed simp

lemma val_bits_bound: "val_ok v \<Longrightarrow> val_bits v < 2 ^ val_width v"
proof (induction v)
  case (Val_Concat inner)
  have "append_bits 0 inner < 2 ^ (0 + sum_list (map val_width inner))"
    using Val_Concat by (intro append_bits_bound) (auto simp: list_all_iff)
  then show ?case by (simp add: val_bits_Concat)
qed (auto simp: twos_complement_bound)

lemma pad_bin_spec:
  assumes "1 \<le> sz" and "v < 2 ^ sz"
  shows "\<exists>s. pad_bin sz v = Some s \<and> length s = sz \<and> set s \<subseteq> {CHR ''0'', CHR ''1''} \<and> read_bin s = v"
proof -
  have len: "length (show_bin v) \<le> sz" using assms by (simp add: show_bin_length)
  let ?s = "replicate (sz - length (show_bin v)) (CHR ''0'') @ show_bin v"
  have "pad_bin sz v = Some ?s" using len by (simp add: pad_bin_def Let_def)
  moreover have "read_bin ?s = v" by (simp add: read_bin_append read_bin_replicate)
  moreover have "set ?s \<subseteq> {CHR ''0'', CHR ''1''}" using show_bin_chars [of v] by auto
  moreover have "length ?s = sz" using len by simp
  ultimately show ?thesis by blast
qed

text \<open>\<open>as_string\<close> writes one character per bit.\<close>

lemma as_strings_bits:
  assumes "\<And>v. v \<in> set inner \<Longrightarrow>
      \<exists>s. as_string v = Some s \<and> length s = val_width v \<and>
          set s \<subseteq> {CHR ''0'', CHR ''1'', CHR ''X''} \<and> read_bin s = val_bits v"
  shows "\<exists>ss. mapM_opt as_string inner = Some ss \<and>
      length (concat ss) = sum_list (map val_width inner) \<and>
      set (concat ss) \<subseteq> {CHR ''0'', CHR ''1'', CHR ''X''} \<and>
      (\<forall>a. a * 2 ^ length (concat ss) + read_bin (concat ss) = append_bits a inner)"
  using assms
proof (induction inner)
  case (Cons v inner)
  obtain s where s: "as_string v = Some s" "length s = val_width v"
    "set s \<subseteq> {CHR ''0'', CHR ''1'', CHR ''X''}" "read_bin s = val_bits v"
    using Cons.prems [of v] by auto
  obtain ss where ss: "mapM_opt as_string inner = Some ss"
    "length (concat ss) = sum_list (map val_width inner)"
    "set (concat ss) \<subseteq> {CHR ''0'', CHR ''1'', CHR ''X''}"
    "\<And>a. a * 2 ^ length (concat ss) + read_bin (concat ss) = append_bits a inner"
    using Cons.IH Cons.prems by auto
  have "a * 2 ^ length (concat (s # ss)) + read_bin (concat (s # ss)) = append_bits a (v # inner)" for a
    using s ss(4) [of "a * 2 ^ val_width v + val_bits v"]
    by (simp add: read_bin_append power_add algebra_simps)
  moreover have "mapM_opt as_string (v # inner) = Some (s # ss)" using s ss by simp
  moreover have "length (concat (s # ss)) = sum_list (map val_width (v # inner))"
    using s ss by simp
  moreover have "set (concat (s # ss)) \<subseteq> {CHR ''0'', CHR ''1'', CHR ''X''}" using s ss by simp
  ultimately show ?case by blast
qed simp

lemma as_string_bits:
  "val_ok v \<Longrightarrow>
     \<exists>s. as_string v = Some s \<and> length s = val_width v \<and> set s \<subseteq> {CHR ''0'', CHR ''1'', CHR ''X''} \<and>
         read_bin s = val_bits v"
proof (induction v)
  case (Val_Int sz v)
  show ?case
  proof (cases "0 \<le> v")
    case True
    then have "nat v < 2 ^ sz" using Val_Int by (simp add: nat_less_iff)
    with pad_bin_spec [of sz "nat v"] Val_Int True show ?thesis
      by (fastforce simp: twos_complement_nonneg)
  next
    case False
    let ?s = "show_bin (twos_complement sz v)"
    have "2 ^ (sz - 1) \<le> twos_complement sz v"
      using twos_complement_negative Val_Int False by simp
    then have "\<not> length ?s \<le> sz - 1" by (simp add: show_bin_length)
    moreover have "length ?s \<le> sz"
      using Val_Int by (simp add: show_bin_length twos_complement_bound)
    ultimately have "length ?s = sz" by linarith
    then show ?thesis using False show_bin_chars [of "twos_complement sz v"] by auto
  qed
next
  case (Val_UInt sz v)
  with pad_bin_spec [of sz v] show ?case by fastforce
next
  case (Val_Concat inner)
  obtain ss where "mapM_opt as_string inner = Some ss"
    "length (concat ss) = sum_list (map val_width inner)"
    "set (concat ss) \<subseteq> {CHR ''0'', CHR ''1'', CHR ''X''}"
    "\<And>a. a * 2 ^ length (concat ss) + read_bin (concat ss) = append_bits a inner"
    using as_strings_bits [of inner] Val_Concat by (auto simp: list_all_iff)
  from this(1-3) this(4) [of 0] show ?case by (simp add: val_bits_Concat)
next
  case (Val_Undef sz)
  then show ?case by (auto simp: read_bin_replicate)
qed auto

section \<open>Values as numbers\<close>

lemma u64_append_ok:
  assumes "a < 2 ^ k" and "k + w < 64" and "b < 2 ^ w"
  shows "u64_append a (w, b) = Some (a * 2 ^ w + b)" and "a * 2 ^ w + b < 2 ^ (k + w)"
proof -
  have "a * 2 ^ w + b < (a + 1) * 2 ^ w" using assms(3) by simp
  also have "\<dots> \<le> 2 ^ k * 2 ^ w" using assms(1) by (intro mult_right_mono) auto
  finally show bound: "a * 2 ^ w + b < 2 ^ (k + w)" by (simp add: power_add)
  have "(2::nat) ^ (k + w) \<le> 2 ^ 64" using assms(2) by (intro power_increasing) auto
  with bound have "a * 2 ^ w + b < 2 ^ 64" by linarith
  then show "u64_append a (w, b) = Some (a * 2 ^ w + b)"
    using assms(2) by (simp add: u64_append_def u64_shl_def u64_add_def to_u64_def)
qed

lemma fold_u64_append:
  "(\<And>v. v \<in> set inner \<Longrightarrow> val_bits v < 2 ^ val_width v) \<Longrightarrow> a < 2 ^ k \<Longrightarrow>
     k + sum_list (map val_width inner) < 64 \<Longrightarrow>
     fold_opt u64_append a (map (\<lambda>v. (val_width v, val_bits v)) inner) = Some (append_bits a inner)"
proof (induction inner arbitrary: a k)
  case (Cons v inner)
  have step: "u64_append a (val_width v, val_bits v) = Some (a * 2 ^ val_width v + val_bits v)"
    "a * 2 ^ val_width v + val_bits v < 2 ^ (k + val_width v)"
    using u64_append_ok [of a k "val_width v" "val_bits v"] Cons.prems by auto
  have "fold_opt u64_append (a * 2 ^ val_width v + val_bits v)
      (map (\<lambda>v. (val_width v, val_bits v)) inner) =
      Some (append_bits (a * 2 ^ val_width v + val_bits v) inner)"
    using Cons.prems by (intro Cons.IH [OF _ step(2)]) auto
  then show ?case using step(1) by simp
qed simp

lemma parts_as_u64:
  "(\<And>v. v \<in> set inner \<Longrightarrow> as_u64 v = Some (val_bits v)) \<Longrightarrow>
     mapM_opt (\<lambda>v. map_option (Pair (val_width v)) (as_u64 v)) inner =
       Some (map (\<lambda>v. (val_width v, val_bits v)) inner)"
  by (induction inner) auto

lemma as_u64_bits: "val_ok v \<Longrightarrow> val_width v < 64 \<Longrightarrow> as_u64 v = Some (val_bits v)"
proof (induction v)
  case (Val_Int sz v)
  have "twos_complement sz v < 2 ^ 64"
    using twos_complement_bound [of sz v] power_strict_increasing [of sz 64 "2::nat"] Val_Int
    by simp
  with Val_Int twos_complement_nonneg [of v sz] show ?case by (auto simp: to_u64_def)
next
  case (Val_UInt sz v)
  have "(2::nat) ^ sz < 2 ^ 64" using Val_UInt by (intro power_strict_increasing) auto
  with Val_UInt show ?case by (simp add: to_u64_def)
next
  case (Val_Concat inner)
  have "as_u64 v = Some (val_bits v)" if "v \<in> set inner" for v
  proof (rule Val_Concat.IH [OF that])
    show "val_ok v" using Val_Concat.prems(1) that by (simp add: list_all_iff)
    have "val_width v \<le> sum_list (map val_width inner)"
      using that by (intro member_le_sum_list) auto
    then show "val_width v < 64" using Val_Concat.prems(2) by simp
  qed
  moreover have "val_bits v < 2 ^ val_width v" if "v \<in> set inner" for v
    using Val_Concat.prems(1) that by (intro val_bits_bound) (simp add: list_all_iff)
  ultimately show ?case
    using Val_Concat.prems(2) fold_u64_append [of inner 0 0]
    by (simp add: parts_as_u64 val_bits_Concat)
qed (auto simp: to_u64_def)

lemma fold_chunk_append:
  "(\<And>v. v \<in> set inner \<Longrightarrow> val_width v < 64) \<Longrightarrow>
     fold_opt chunk_append a (map (\<lambda>v. (val_width v, val_bits v)) inner) = Some (append_bits a inner)"
proof (induction inner arbitrary: a)
  case (Cons v inner)
  have "val_width v < 2 ^ 64" using Cons.prems [of v] by simp
  with Cons show ?case by (simp add: chunk_append_def to_u64_def)
qed simp

definition narrow_parts :: "mir_value \<Rightarrow> bool" where
  "narrow_parts v \<longleftrightarrow> (case v of Val_Concat inner \<Rightarrow> \<forall>x\<in>set inner. val_width x < 64 | _ \<Rightarrow> True)"

lemma as_u32_chunks_bits:
  assumes "val_ok v" and "narrow_parts v"
  shows "as_u32_chunks v = Some (val_bits v)"
proof (cases v)
  case (Val_Concat inner)
  with assms have "\<And>x. x \<in> set inner \<Longrightarrow> as_u64 x = Some (val_bits x)"
    by (intro as_u64_bits) (auto simp: list_all_iff narrow_parts_def)
  with Val_Concat assms(2) show ?thesis
    by (simp add: parts_as_u64 fold_chunk_append narrow_parts_def val_bits_Concat)
next
  case (Val_Int sz i)
  with assms show ?thesis by (auto simp: twos_complement_nonneg)
qed auto

text \<open>C36: the two readings of a compile-time value agree. For a value whose numbers fit their
  widths and whose parts are narrower than 64 bits, the text of its bits has one character per
  bit, and read as a binary number it is the number that \<open>as_u32_chunks\<close> returns (an undefined
  bit reads as 0).\<close>

theorem string_and_chunks_agree:
  assumes "val_ok v" and "narrow_parts v"
  shows "\<exists>s. as_string v = Some s \<and> length s = val_width v \<and> as_u32_chunks v = Some (read_bin s)"
  using as_string_bits [OF assms(1)] as_u32_chunks_bits [OF assms] by auto

theorem string_and_chunks_agree_witness:
  "\<exists>s. as_string (Val_Concat [Val_Int 4 (-3), Val_Bit True, Val_Undef 2]) = Some s \<and>
     length s = val_width (Val_Concat [Val_Int 4 (-3), Val_Bit True, Val_Undef 2]) \<and>
     as_u32_chunks (Val_Concat [Val_Int 4 (-3), Val_Bit True, Val_Undef 2]) = Some (read_bin s)"
  by (rule string_and_chunks_agree) (simp_all add: narrow_parts_def)

text \<open>
  a nested value of more than 64 bits loses its high bits. The parts of a concatenation are
  read as \<open>u64\<close>, whose shift drops what does not fit, so of the 80 bits \<open>10...0\<close> nothing is left.
\<close>

theorem nested_chunks_lose_bits:
  "as_u32_chunks (Val_Concat [Val_Concat [Val_UInt 40 (2 ^ 39), Val_UInt 40 0]]) = Some 0 \<and>
   (\<exists>s. as_string (Val_Concat [Val_Concat [Val_UInt 40 (2 ^ 39), Val_UInt 40 0]]) = Some s \<and>
        read_bin s = 2 ^ 79)"
proof -
  have "\<exists>s. as_string (Val_Concat [Val_Concat [Val_UInt 40 (2 ^ 39), Val_UInt 40 0]]) = Some s \<and>
      read_bin s = 2 ^ 79"
    using as_string_bits [of "Val_Concat [Val_Concat [Val_UInt 40 (2 ^ 39), Val_UInt 40 0]]"]
    by (auto simp: val_bits_Concat)
  then show ?thesis
    by (simp add: u64_append_def u64_shl_def u64_add_def to_u64_def chunk_append_def)
qed

section \<open>Evaluation of typed statements\<close>

definition fits_int :: "nat \<Rightarrow> int \<Rightarrow> bool" where
  "fits_int n i \<longleftrightarrow> 1 \<le> n \<and> - (2 ^ n) \<le> 2 * i \<and> 2 * i < 2 ^ n"

definition has_type :: "mir_value \<Rightarrow> mir_type \<Rightarrow> bool" where
  "has_type v ty \<longleftrightarrow> val_ok v \<and> val_width v = ty_size ty \<and>
     (\<forall>n. ty = Ty_Int n \<longrightarrow> (\<exists>i. v = Val_Int n i \<and> fits_int n i))"

text \<open>The statements an initial value consists of, with the result types of the language.\<close>

inductive wt_operator ::
  "(vkey \<rightharpoonup> mir_type) \<Rightarrow> operator \<Rightarrow> value_name list \<Rightarrow> mir_type \<Rightarrow> bool" for \<Gamma> where
  wt_add: "\<Gamma> (vn_key x) = Some (Ty_Int a) \<Longrightarrow> \<Gamma> (vn_key y) = Some (Ty_Int b) \<Longrightarrow>
     p = P_Add \<or> p = P_Sub \<Longrightarrow> wt_operator \<Gamma> (Op_Plain p) [x, y] (Ty_Int (max a b + 1))"
| wt_usub: "\<Gamma> (vn_key x) = Some (Ty_Int a) \<Longrightarrow> wt_operator \<Gamma> Op_USub [x] (Ty_Int (a + 1))"
| wt_array: "list_all (\<lambda>x. \<Gamma> (vn_key x) = Some inner) ops \<Longrightarrow>
     wt_operator \<Gamma> Op_ConstructArray ops (Ty_Array inner (length ops))"
| wt_tuple: "list_all2 (\<lambda>x t. \<Gamma> (vn_key x) = Some t) ops tys \<Longrightarrow>
     wt_operator \<Gamma> Op_ConstructTuple ops (Ty_Tuple tys)"
| wt_enum: "variant < length variants \<Longrightarrow>
     list_all2 (\<lambda>x t. \<Gamma> (vn_key x) = Some t) ops (variants ! variant) \<Longrightarrow>
     wt_operator \<Gamma> (Op_ConstructEnum variant (length variants)) ops (Ty_Enum variants)"
| wt_alias: "\<Gamma> (vn_key x) = Some ty \<Longrightarrow> wt_operator \<Gamma> Op_Alias [x] ty"

definition wt_constant :: "mir_type \<Rightarrow> const_value \<Rightarrow> bool" where
  "wt_constant ty c =
     (case (ty, c) of
        (Ty_Int n, CV_Int i) \<Rightarrow> fits_int n i
      | (Ty_UInt n, CV_Int i) \<Rightarrow> 1 \<le> n \<and> 0 \<le> i \<and> i < 2 ^ n
      | (Ty_Bool, CV_Bool b) \<Rightarrow> True
      | _ \<Rightarrow> False)"

inductive wt_statements :: "(vkey \<rightharpoonup> mir_type) \<Rightarrow> statement list \<Rightarrow> mir_type \<Rightarrow> bool" where
  wt_binding: "vn_key name \<notin> dom \<Gamma> \<Longrightarrow> wt_operator \<Gamma> oper ops ty \<Longrightarrow>
     (stmts = [] \<and> t = ty \<or> stmts \<noteq> [] \<and> wt_statements (\<Gamma>(vn_key name \<mapsto> ty)) stmts t) \<Longrightarrow>
     wt_statements \<Gamma> (St_Binding (Binding name oper ops ty l) # stmts) t"
| wt_const: "Inr i \<notin> dom \<Gamma> \<Longrightarrow> wt_constant ty c \<Longrightarrow>
     (stmts = [] \<and> t = ty \<or> stmts \<noteq> [] \<and> wt_statements (\<Gamma>(Inr i \<mapsto> ty)) stmts t) \<Longrightarrow>
     wt_statements \<Gamma> (St_Constant i ty c # stmts) t"

inductive_cases wt_operator_cases: "wt_operator \<Gamma> oper ops ty"

definition eval_inv :: "(vkey \<rightharpoonup> mir_type) \<Rightarrow> eval_state \<Rightarrow> bool" where
  "eval_inv \<Gamma> st \<longleftrightarrow>
     name_types st = \<Gamma> \<and>
     (\<forall>k ty. \<Gamma> k = Some ty \<longrightarrow> (\<exists>v. name_vals st k = Some v \<and> has_type v ty))"

lemma eval_invD: "eval_inv \<Gamma> st \<Longrightarrow> \<Gamma> k = Some ty \<Longrightarrow> \<exists>v. name_vals st k = Some v \<and> has_type v ty"
  by (simp add: eval_inv_def)

lemma fits_int_mono: "fits_int a i \<Longrightarrow> a \<le> b \<Longrightarrow> fits_int b i"
proof -
  assume i: "fits_int a i" and "a \<le> b"
  then have "(2::int) ^ a \<le> 2 ^ b" by (intro power_increasing) auto
  with i show ?thesis using \<open>a \<le> b\<close> unfolding fits_int_def by linarith
qed

lemma fits_int_add:
  assumes "fits_int a i" and "fits_int b j"
  shows "fits_int (max a b + 1) (i + j)" and "fits_int (max a b + 1) (i - j)"
    and "fits_int (a + 1) (- i)"
proof -
  have "fits_int (max a b) i" "fits_int (max a b) j"
    using fits_int_mono assms by auto
  then show "fits_int (max a b + 1) (i + j)" "fits_int (max a b + 1) (i - j)"
    by (auto simp: fits_int_def)
  show "fits_int (a + 1) (- i)" using assms(1) by (auto simp: fits_int_def)
qed

lemma has_type_int: "has_type v (Ty_Int n) \<longleftrightarrow> (\<exists>i. v = Val_Int n i \<and> fits_int n i)"
  by (auto simp: has_type_def fits_int_def)

lemma operands_typed:
  assumes "eval_inv \<Gamma> st" and "list_all2 (\<lambda>x t. \<Gamma> (vn_key x) = Some t) ops tys"
  shows "\<exists>vs. operand_vals st ops = Some vs \<and> list_all2 has_type vs tys"
  using assms(2)
proof (induction rule: list_all2_induct)
  case (Cons x xs t ts)
  then show ?case
    using eval_invD [OF assms(1) Cons.hyps(1)] by (auto simp: operand_vals_def)
qed (simp add: operand_vals_def)

lemma has_types_concat:
  "list_all2 has_type vs tys \<Longrightarrow>
     list_all val_ok vs \<and> sum_list (map val_width vs) = sum_list (map ty_size tys)"
  by (induction rule: list_all2_induct) (auto simp: has_type_def)

lemma eval_enum_typed:
  assumes inv: "eval_inv \<Gamma> st" and variant: "variant < length variants"
    and ops: "list_all2 (\<lambda>x t. \<Gamma> (vn_key x) = Some t) ops (variants ! variant)"
    and st': "name_vals st' = name_vals st" "\<And>k t. \<Gamma> k = Some t \<Longrightarrow> name_types st' k = Some t"
  shows "\<exists>v. eval_construct_enum st' ops (Ty_Enum variants) variant (length variants) = Some v \<and>
    has_type v (Ty_Enum variants)"
proof -
  let ?tag = "tag_size (length variants)" and ?tys = "variants ! variant"
  obtain vs where vs: "operand_vals st ops = Some vs" "list_all2 has_type vs ?tys"
    using operands_typed [OF inv ops] by blast
  have "mapM_opt (\<lambda>op. name_types st' (vn_key op)) ops = Some ?tys"
    unfolding mapM_opt_Some_iff using ops st'(2) by (rule list_all2_mono) auto
  moreover have "operand_vals st' ops = Some vs" using vs(1) st'(1) by (simp add: operand_vals_def)
  moreover have fit: "?tag + sum_list (map ty_size ?tys) \<le> ty_size (Ty_Enum variants)"
    using variant by (intro variant_fits) simp
  ultimately obtain v where v: "eval_construct_enum st' ops (Ty_Enum variants) variant (length variants) = Some v"
    "v = Val_Concat ((if length variants = 1 then [] else [Val_UInt ?tag variant]) @ vs @
       (if ty_size (Ty_Enum variants) - ?tag - sum_list (map ty_size ?tys) \<noteq> 0
        then [Val_Undef (ty_size (Ty_Enum variants) - ?tag - sum_list (map ty_size ?tys))] else []))"
    by (simp add: eval_construct_enum_def Let_def)
  have "1 \<le> ?tag" if "length variants \<noteq> 1"
    using that variant by (subst tag_size.simps) auto
  then have "has_type v (Ty_Enum variants)"
    using v(2) has_types_concat [OF vs(2)] tag_fits [OF variant] fit
    by (auto simp: has_type_def simp del: ty_size.simps)
  with v(1) show ?thesis by blast
qed

lemma eval_operator_typed:
  assumes "eval_inv \<Gamma> st" and "wt_operator \<Gamma> oper ops ty"
    and st': "name_vals st' = name_vals st" "\<And>k t. \<Gamma> k = Some t \<Longrightarrow> name_types st' k = Some t"
  shows "\<exists>v. eval_operator st' oper ops ty = Some v \<and> has_type v ty"
  using assms(2)
proof cases
  case (wt_add x a y b p)
  obtain i j where "name_vals st (vn_key x) = Some (Val_Int a i)" "fits_int a i"
    "name_vals st (vn_key y) = Some (Val_Int b j)" "fits_int b j"
    using eval_invD [OF assms(1) wt_add(4)] eval_invD [OF assms(1) wt_add(5)]
    by (auto simp: has_type_int)
  then show ?thesis
    using wt_add fits_int_add [of a i b j] st'(1)
    by (auto simp: eval_operator_def eval_int2_def operand_def assume_int_def has_type_int)
next
  case (wt_usub x a)
  obtain i where "name_vals st (vn_key x) = Some (Val_Int a i)" "fits_int a i"
    using eval_invD [OF assms(1) wt_usub(4)] by (auto simp: has_type_int)
  then show ?thesis
    using wt_usub fits_int_add(3) [of a i a i] st'(1)
    by (simp add: eval_operator_def operand_def assume_int_def has_type_int)
next
  case (wt_array inner)
  have "list_all2 (\<lambda>x t. \<Gamma> (vn_key x) = Some t) (rev ops) (replicate (length ops) inner)"
    using wt_array by (auto simp: list_all2_conv_all_nth list_all_length rev_nth)
  from operands_typed [OF assms(1) this] obtain vs where
    vs: "operand_vals st (rev ops) = Some vs" "list_all2 has_type vs (replicate (length ops) inner)"
    by blast
  then show ?thesis
    using wt_array has_types_concat [OF vs(2)] st'(1)
    by (simp add: eval_operator_def operand_vals_def has_type_def sum_list_replicate mult.commute)
next
  case (wt_tuple tys)
  from operands_typed [OF assms(1) wt_tuple(3)] obtain vs where
    vs: "operand_vals st ops = Some vs" "list_all2 has_type vs tys" by blast
  then show ?thesis
    using wt_tuple has_types_concat [OF vs(2)] st'(1)
    by (simp add: eval_operator_def operand_vals_def has_type_def)
next
  case (wt_enum variant variants)
  then show ?thesis
    using eval_enum_typed [OF assms(1) wt_enum(3,4) st'] by (simp add: eval_operator_def)
next
  case (wt_alias x)
  then show ?thesis
    using eval_invD [OF assms(1) wt_alias(3)] st'(1) by (simp add: eval_operator_def operand_def)
qed

lemma eval_inv_update:
  assumes "eval_inv \<Gamma> st" and "has_type v ty"
  shows "eval_inv (\<Gamma>(k \<mapsto> ty))
    (st\<lparr>name_types := (name_types st)(k \<mapsto> ty), name_vals := (name_vals st)(k \<mapsto> v),
        last_value := l\<rparr>)"
  using assms by (auto simp: eval_inv_def)

lemma wt_constant_typed:
  "wt_constant ty c \<Longrightarrow>
     \<exists>v. (case c of CV_Int n \<Rightarrow> Some (Val_Int (ty_size ty) n) | CV_Bool b \<Rightarrow> Some (Val_Bit b)
          | CV_HighImp \<Rightarrow> None) = Some v \<and> has_type v ty"
  by (auto simp: wt_constant_def has_type_def fits_int_def split: mir_type.splits const_value.splits)

lemma eval_statements_typed:
  assumes "wt_statements \<Gamma> stmts t" and "eval_inv \<Gamma> st"
  shows "\<exists>v. Option.bind (fold_opt eval_statement st stmts) last_value = Some v \<and> has_type v t"
  using assms
proof (induction arbitrary: st rule: wt_statements.induct)
  case (wt_binding name \<Gamma> oper ops ty stmts t l)
  let ?st = "st\<lparr>name_types := (name_types st)(vn_key name \<mapsto> ty)\<rparr>"
  have "name_types ?st k = Some t'" if "\<Gamma> k = Some t'" for k t'
    using that wt_binding.hyps(1) wt_binding.prems by (auto simp: eval_inv_def)
  then obtain v where v: "eval_operator ?st oper ops ty = Some v" "has_type v ty"
    using eval_operator_typed [OF wt_binding.prems wt_binding.hyps(2), of ?st] by auto
  have "eval_statement st (St_Binding (Binding name oper ops ty l)) =
      Some (st\<lparr>name_types := (name_types st)(vn_key name \<mapsto> ty),
        name_vals := (name_vals st)(vn_key name \<mapsto> v), last_value := Some v\<rparr>)"
    using v(1) by (simp add: eval_statement_def Let_def)
  with wt_binding.IH show ?case
    using eval_inv_update [OF wt_binding.prems v(2), of "vn_key name" "Some v"] v(2)
    by (elim disjE conjE) (simp_all del: fun_upd_apply)
next
  case (wt_const i \<Gamma> ty c stmts t)
  obtain v where v: "(case c of CV_Int n \<Rightarrow> Some (Val_Int (ty_size ty) n)
      | CV_Bool b \<Rightarrow> Some (Val_Bit b) | CV_HighImp \<Rightarrow> None) = Some v" "has_type v ty"
    using wt_constant_typed [OF wt_const.hyps(2)] by blast
  have "eval_statement st (St_Constant i ty c) =
      Some (st\<lparr>name_types := (name_types st)(Inr i \<mapsto> ty),
        name_vals := (name_vals st)(Inr i \<mapsto> v), last_value := Some v\<rparr>)"
    using v(1) by (simp add: eval_statement_def)
  with wt_const.IH show ?case
    using eval_inv_update [OF wt_const.prems v(2), of "Inr i" "Some v"] v(2)
    by (elim disjE conjE) (simp_all del: fun_upd_apply)
qed



text \<open>
  adding unsigned constants panics. A constant becomes a signed value whatever its type, and
  the unsigned operators only accept unsigned values.
\<close>

theorem unsigned_constants_panic:
  "eval_statements
     [St_Constant 0 (Ty_UInt 8) (CV_Int 1), St_Constant 1 (Ty_UInt 8) (CV_Int 2),
      St_Binding (Binding (VN_Expr 2) Op_UnsignedAdd [VN_Expr 0, VN_Expr 1] (Ty_UInt 9) None)] = None"
  by (simp add: eval_statements_def eval_statement_def eval_init_def eval_operator_def
      eval_uint2_def operand_def assume_uint_def vn_key_def)

end
