(* ===== verification/Mir_Names.thy ===== *)
theory Mir_Names
  imports Mir "HOL-Library.Char_ord" "HOL-Library.List_Lexorder"
begin

text \<open>
  spade-mir, \<open>unit_name.rs\<close>, \<open>renaming.rs\<close> and \<open>codegen/util.rs\<close>: the names of instances, the
  renumbering of value names and their Verilog names. A \<open>HashMap\<close> is a map; one keyed by \<open>NameID\<close>
  is keyed by its number, one keyed by \<open>ValueName\<close> by \<open>vn_key\<close>.
\<close>

section \<open>Instance names\<close>

type_synonym instance_map = "nat \<rightharpoonup> (string, name_id) btree_map"

definition instance_map_new :: instance_map where
  "instance_map_new = (\<lambda>_. None)"

type_synonym name_tracker = "string \<rightharpoonup> nat"

definition name_tracker_new :: name_tracker where
  "name_tracker_new = (\<lambda>_. None)"

definition or_default :: "'a \<Rightarrow> 'a option \<Rightarrow> 'a" where
  "or_default d x = (case x of None \<Rightarrow> d | Some v \<Rightarrow> v)"

definition use_name ::
  "name_id \<Rightarrow> string \<Rightarrow> name_id \<Rightarrow> name_tracker \<times> instance_map \<Rightarrow>
     string \<times> name_tracker \<times> instance_map" where
  "use_name unit_name instance_name in_unit st =
     (let e = or_default 0 (fst st instance_name);
          result = instance_name @ ''_'' @ show_nat e;
          units = or_default [] (snd st (nid_num in_unit))
      in (result, (fst st)(instance_name \<mapsto> e + 1),
          (snd st)(nid_num in_unit \<mapsto> bt_insert result unit_name units)))"

definition unit_instance_name ::
  "unit_name \<Rightarrow> name_id \<Rightarrow> name_tracker \<times> instance_map \<Rightarrow>
     string \<times> name_tracker \<times> instance_map" where
  "unit_instance_name n inside st =
     (let name = (case un_kind n of
                    UK_Escaped name path \<Rightarrow> if path = [] then name else last path
                  | UK_Unescaped name \<Rightarrow> name)
      in use_name (un_source n) name inside st)"

section \<open>Verilog names\<close>

definition unescaped_var_name :: "value_name \<Rightarrow> string" where
  "unescaped_var_name n =
     (case n of VN_Named _ _ _ \<Rightarrow> show_value_name n | VN_Expr i \<Rightarrow> ''_e_'' @ show_nat i)"

definition needs_escaping :: "value_name \<Rightarrow> bool" where
  "needs_escaping n = (case n of VN_Named i _ _ \<Rightarrow> i = 0 | VN_Expr _ \<Rightarrow> False)"

definition var_name :: "value_name \<Rightarrow> string" where
  "var_name n =
     (if needs_escaping n then [CHR 0x5C] @ unescaped_var_name n @ '' '' else unescaped_var_name n)"

definition backward_var_name :: "value_name \<Rightarrow> string" where
  "backward_var_name n =
     (case n of
        VN_Named i name _ \<Rightarrow>
          if i = 0 then [CHR 0x5C] @ name @ ''_mut '' else name @ ''_n'' @ show_nat i @ ''_mut''
      | VN_Expr i \<Rightarrow> ''_e_'' @ show_nat i @ ''_mut'')"

text \<open>\<open>replace("::", "_")\<close>.\<close>

fun escape_path :: "string \<Rightarrow> string" where
  "escape_path (c # d # s) =
     (if c = CHR '':'' \<and> d = CHR '':'' then CHR ''_'' # escape_path s else c # escape_path (d # s))"
| "escape_path s = s"

definition mangle_entity :: "string \<Rightarrow> string" where
  "mangle_entity module =
     (if module \<noteq> [] \<and> hd module = CHR 0x5C then module else ''e_'' @ escape_path module)"

definition mangle_input :: "loc option \<Rightarrow> string \<Rightarrow> string" where
  "mangle_input no_mangle inp = (if no_mangle \<noteq> None then inp else inp @ ''_i'')"

definition mangle_output :: "loc option \<Rightarrow> string \<Rightarrow> string" where
  "mangle_output no_mangle inp = (if no_mangle \<noteq> None then inp else inp @ ''_o'')"

section \<open>The map back from Verilog names\<close>

type_synonym verilog_name_map = "string \<rightharpoonup> verilog_name_source"

definition verilog_name_map_new :: verilog_name_map where
  "verilog_name_map_new = (\<lambda>_. None)"

definition trim_name :: "string \<Rightarrow> string" where
  "trim_name s = rev (dropWhile (\<lambda>c. c = CHR '' '') (rev (dropWhile (\<lambda>c. c = CHR 0x5C) s)))"

definition verilog_name_map_insert ::
  "string \<Rightarrow> verilog_name_source \<Rightarrow> verilog_name_map \<Rightarrow> verilog_name_map" where
  "verilog_name_map_insert from to m = m(trim_name from \<mapsto> to)"

definition lookup_name :: "verilog_name_map \<Rightarrow> string \<Rightarrow> verilog_name_source option" where
  "lookup_name m name = m name"

section \<open>Predictable names\<close>

record name_state =
  ns_names :: "string \<rightharpoonup> nat"
  ns_map :: "vkey \<rightharpoonup> value_name"

definition name_state_new :: name_state where
  "name_state_new = \<lparr>ns_names = (\<lambda>_. None), ns_map = (\<lambda>_. None)\<rparr>"

definition name_state_push :: "value_name \<Rightarrow> name_state \<Rightarrow> name_state" where
  "name_state_push name st =
     (case name of
        VN_Named _ name_str source \<Rightarrow>
          let i = (case ns_names st name_str of None \<Rightarrow> 0 | Some v \<Rightarrow> v + 1)
          in st\<lparr>ns_names := (ns_names st)(name_str \<mapsto> i),
                ns_map := (ns_map st)(vn_key name \<mapsto> VN_Named i name_str source)\<rparr>
      | VN_Expr _ \<Rightarrow> st\<lparr>ns_map := (ns_map st)(vn_key name \<mapsto> name)\<rparr>)"

definition name_state_get :: "name_state \<Rightarrow> value_name \<Rightarrow> value_name" where
  "name_state_get st name = (case ns_map st (vn_key name) of None \<Rightarrow> name | Some n \<Rightarrow> n)"

definition statement_defines :: "statement \<Rightarrow> value_name list" where
  "statement_defines s =
     (case s of St_Binding b \<Rightarrow> [b_name b] | St_Register r \<Rightarrow> [r_name r] | _ \<Rightarrow> [])"

definition rename_statement :: "(value_name \<Rightarrow> value_name) \<Rightarrow> statement \<Rightarrow> statement" where
  "rename_statement get s =
     (case s of
        St_Binding (Binding name oper operands ty l) \<Rightarrow>
          St_Binding (Binding (get name) oper (map get operands) ty l)
      | St_Register (Register name ty clock reset initial val l traced) \<Rightarrow>
          St_Register (Register (get name) ty (get clock) (map_option (map_prod get get) reset)
            initial (get val) l (map_option get traced))
      | St_Constant i ty c \<Rightarrow> St_Constant i ty c
      | St_Assert v \<Rightarrow> St_Assert (get v)
      | St_Set target val \<Rightarrow> St_Set (get target) (get val)
      | St_WalTrace name val suffix ty \<Rightarrow> St_WalTrace (get name) (get val) suffix ty)"

definition entity_defines :: "entity \<Rightarrow> value_name list" where
  "entity_defines e = map in_val_name (ent_inputs e) @ concat (map statement_defines (ent_statements e))"

definition rename_entity :: "(value_name \<Rightarrow> value_name) \<Rightarrow> entity \<Rightarrow> entity" where
  "rename_entity get e =
     e\<lparr>ent_inputs := map (\<lambda>i. i\<lparr>in_val_name := get (in_val_name i)\<rparr>) (ent_inputs e),
       ent_output := get (ent_output e),
       ent_statements := map (rename_statement get) (ent_statements e)\<rparr>"

definition make_names_predictable :: "entity \<Rightarrow> entity \<times> name_state" where
  "make_names_predictable e =
     (let st = fold name_state_push (entity_defines e) name_state_new
      in (rename_entity (name_state_get st) e, st))"

section \<open>Instance names are unique\<close>

lemma last_underscore_unique:
  assumes "a @ ''_'' @ s = b @ ''_'' @ t" and "CHR ''_'' \<notin> set s" and "CHR ''_'' \<notin> set t"
  shows "a = b \<and> s = t"
proof -
  have "\<forall>c\<in>set s. c \<noteq> CHR ''_''" "\<forall>c\<in>set t. c \<noteq> CHR ''_''" using assms(2,3) by metis+
  then have "takeWhile (\<lambda>c. c \<noteq> CHR ''_'') (rev (a @ ''_'' @ s)) = rev s"
    and "takeWhile (\<lambda>c. c \<noteq> CHR ''_'') (rev (b @ ''_'' @ t)) = rev t"
    by (simp_all add: takeWhile_tail takeWhile_append2)
  then have "s = t" using assms(1) by (metis rev_rev_ident)
  with assms(1) show ?thesis by simp
qed

lemma show_nat_no_underscore: "CHR ''_'' \<notin> set (show_nat n)"
proof
  assume "CHR ''_'' \<in> set (show_nat n)"
  then have "is_digit_char (CHR ''_'')" by (rule show_nat_digits)
  then show False by (simp add: is_digit_char_def)
qed

lemma numbered_name_inject [simp]:
  "a @ CHR ''_'' # show_nat m = b @ CHR ''_'' # show_nat n \<longleftrightarrow> a = b \<and> m = n"
  using last_underscore_unique [of a "show_nat m" b "show_nat n"] show_nat_no_underscore by auto

text \<open>A sequence of requests \<open>(unit, wanted name)\<close> inside one unit.\<close>

fun use_names ::
  "name_id \<Rightarrow> (name_id \<times> string) list \<Rightarrow> name_tracker \<times> instance_map \<Rightarrow>
     string list \<times> name_tracker \<times> instance_map" where
  "use_names in_unit [] st = ([], st)"
| "use_names in_unit ((u, n) # reqs) st =
     (let (r, st1) = use_name u n in_unit st; (rs, st2) = use_names in_unit reqs st1 in (r # rs, st2))"

definition issued :: "name_tracker \<Rightarrow> string set" where
  "issued t = {n @ ''_'' @ show_nat i | n i. i < or_default 0 (t n)}"

lemma use_name_issued:
  assumes "use_name u n in_unit st = (r, st')"
  shows "r \<notin> issued (fst st)" and "issued (fst st') = insert r (issued (fst st))"
proof -
  let ?e = "or_default 0 (fst st n)"
  have r: "r = n @ ''_'' @ show_nat ?e" and st': "fst st' = (fst st)(n \<mapsto> ?e + 1)"
    using assms by (auto simp: use_name_def Let_def)
  show "r \<notin> issued (fst st)" using r by (auto simp: issued_def)
  show "issued (fst st') = insert r (issued (fst st))"
  proof (intro set_eqI iffI)
    fix x assume "x \<in> issued (fst st')"
    then obtain m i where "x = m @ ''_'' @ show_nat i" "i < or_default 0 (fst st' m)"
      by (auto simp: issued_def)
    then show "x \<in> insert r (issued (fst st))"
      using r st' by (cases "m = n") (auto simp: issued_def or_default_def less_Suc_eq)
  next
    fix x assume "x \<in> insert r (issued (fst st))"
    then consider "x = r" | m i where "x = m @ ''_'' @ show_nat i" "i < or_default 0 (fst st m)"
      by (auto simp: issued_def)
    then show "x \<in> issued (fst st')"
    proof cases
      case 1
      then show ?thesis
        using r st' by (auto simp: issued_def or_default_def intro!: exI [of _ n])
    next
      case 2
      then show ?thesis
        using st' by (cases "m = n") (auto simp: issued_def or_default_def intro: less_SucI)
    qed
  qed
qed

lemma use_names_ConsE:
  assumes "use_names in_unit (req # reqs) st = (rs, st')"
  obtains r st1 rs1 where "use_name (fst req) (snd req) in_unit st = (r, st1)"
    "use_names in_unit reqs st1 = (rs1, st')" "rs = r # rs1"
  using assms by (cases req) (auto split: prod.splits)

lemma use_names_distinct:
  "use_names in_unit reqs st = (rs, st') \<Longrightarrow> distinct rs \<and> set rs \<inter> issued (fst st) = {}"
proof (induction reqs arbitrary: st rs st')
  case (Cons req reqs)
  from Cons.prems obtain r st1 rs1 where r: "use_name (fst req) (snd req) in_unit st = (r, st1)"
    and rs1: "use_names in_unit reqs st1 = (rs1, st')" and "rs = r # rs1"
    by (rule use_names_ConsE)
  then show ?case using Cons.IH [OF rs1] use_name_issued [OF r] by auto
qed auto

lemma use_name_map:
  assumes "use_name u n in_unit st = (r, st')"
  shows "\<exists>m. snd st' (nid_num in_unit) = Some m \<and>
    bt_get m = (bt_get (or_default [] (snd st (nid_num in_unit))))(r \<mapsto> u)"
  using assms by (auto simp: use_name_def Let_def bt_get_insert)

lemma use_names_map:
  "use_names in_unit reqs st = (rs, st') \<Longrightarrow> x \<notin> set rs \<Longrightarrow>
     bt_get (or_default [] (snd st' (nid_num in_unit))) x =
     bt_get (or_default [] (snd st (nid_num in_unit))) x"
proof (induction reqs arbitrary: st rs)
  case (Cons req reqs)
  from Cons.prems(1) obtain r st1 rs1 where r: "use_name (fst req) (snd req) in_unit st = (r, st1)"
    and rs1: "use_names in_unit reqs st1 = (rs1, st')" and rs: "rs = r # rs1"
    by (rule use_names_ConsE)
  then show ?case
    using Cons.IH [OF rs1] Cons.prems(2) use_name_map [OF r] by (auto simp: or_default_def)
qed auto

lemma use_names_map_new:
  "use_names in_unit reqs st = (rs, st') \<Longrightarrow> i < length reqs \<Longrightarrow>
     bt_get (or_default [] (snd st' (nid_num in_unit))) (rs ! i) = Some (fst (reqs ! i))"
proof (induction reqs arbitrary: st rs i)
  case (Cons req reqs)
  from Cons.prems(1) obtain r st1 rs1 where r: "use_name (fst req) (snd req) in_unit st = (r, st1)"
    and rs1: "use_names in_unit reqs st1 = (rs1, st')" and rs: "rs = r # rs1"
    by (rule use_names_ConsE)
  have "r \<notin> set rs1" using use_names_distinct [OF rs1] use_name_issued(2) [OF r] by auto
  then show ?case
    using Cons.IH [OF rs1] Cons.prems(2) rs use_names_map [OF rs1, of r] use_name_map [OF r]
    by (cases i) (auto simp: or_default_def)
qed auto

text \<open>C16: the instances of a unit get pairwise distinct names, whatever names are asked for, and
  the instance map leads from each of them to the unit it was asked for.\<close>

theorem instance_names_unique:
  assumes "use_names in_unit reqs (name_tracker_new, m) = (rs, t, m')"
  shows "distinct rs \<and> length rs = length reqs \<and>
    (\<forall>i < length reqs. \<exists>units. m' (nid_num in_unit) = Some units \<and>
       bt_get units (rs ! i) = Some (fst (reqs ! i)))"
proof -
  have len: "length rs = length reqs" if "use_names in_unit reqs st = (rs, st')" for rs st st'
    using that by (induction reqs arbitrary: st rs st') (auto split: prod.splits)
  have "\<exists>units. m' (nid_num in_unit) = Some units \<and> bt_get units (rs ! i) = Some (fst (reqs ! i))"
    if "i < length reqs" for i
    using use_names_map_new [OF assms that] by (auto simp: or_default_def split: option.splits)
  then show ?thesis using use_names_distinct [OF assms] len [OF assms] by blast
qed

theorem instance_names_unique_witness:
  "distinct [''a_0'', ''a_1'', ''a_0_0''] \<and>
   (\<exists>units. snd (snd (use_names (NameID 0 [])
        [(NameID 1 [], ''a''), (NameID 2 [], ''a''), (NameID 3 [], ''a_0'')]
        (name_tracker_new, instance_map_new))) 0 = Some units \<and>
      bt_get units ''a_1'' = Some (NameID 2 []))"
proof -
  let ?reqs = "[(NameID 1 [], ''a''), (NameID 2 [], ''a''), (NameID 3 [], ''a_0'')]"
  let ?out = "use_names (NameID 0 []) ?reqs (name_tracker_new, instance_map_new)"
  have "fst ?out = [''a_0'', ''a_1'', ''a_0_0'']" by code_simp
  then have "?out = ([''a_0'', ''a_1'', ''a_0_0''], fst (snd ?out), snd (snd ?out))"
    by (metis prod.collapse)
  from instance_names_unique [OF this] show ?thesis
    by (auto dest!: spec [of _ "1::nat"])
qed

section \<open>Renumbering\<close>

definition named :: "string \<Rightarrow> value_name \<Rightarrow> bool" where
  "named s n = (case n of VN_Named _ t _ \<Rightarrow> t = s | VN_Expr _ \<Rightarrow> False)"

definition name_count :: "string \<Rightarrow> value_name list \<Rightarrow> nat" where
  "name_count s ns = length (filter (named s) ns)"

definition push_all :: "value_name list \<Rightarrow> name_state" where
  "push_all ns = fold name_state_push ns name_state_new"

lemma push_all_snoc: "push_all (ns @ [n]) = name_state_push n (push_all ns)"
  by (simp add: push_all_def)

lemma push_all_names:
  "ns_names (push_all ns) s = (if name_count s ns = 0 then None else Some (name_count s ns - 1))"
proof (induction ns rule: rev_induct)
  case Nil
  then show ?case by (simp add: push_all_def name_state_new_def name_count_def)
next
  case (snoc n ns)
  then show ?case
    by (cases n) (auto simp: push_all_snoc name_state_push_def name_count_def named_def Let_def)
qed

text \<open>Where the pushed names lead: to a name with the same text, numbered below the count.\<close>

definition renumbers :: "value_name list \<Rightarrow> value_name \<Rightarrow> value_name \<Rightarrow> bool" where
  "renumbers ns n n' \<longleftrightarrow>
     (case n of
        VN_Named _ s src \<Rightarrow> \<exists>i < name_count s ns. n' = VN_Named i s src
      | VN_Expr i \<Rightarrow> n' = n)"

lemma renumbers_mono: "renumbers ns n n' \<Longrightarrow> renumbers (ns @ ms) n n'"
  by (auto simp: renumbers_def name_count_def split: value_name.splits)

lemma push_new_name:
  "\<exists>n'. ns_map (push_all (ns @ [n])) = (ns_map (push_all ns))(vn_key n \<mapsto> n') \<and>
     (case n of VN_Named _ s src \<Rightarrow> n' = VN_Named (name_count s ns) s src | VN_Expr _ \<Rightarrow> n' = n)"
  by (cases n) (auto simp: push_all_snoc name_state_push_def push_all_names Let_def)

lemma push_all_map:
  assumes "distinct (map vn_key ns)" and "n \<in> set ns"
  shows "\<exists>n'. ns_map (push_all ns) (vn_key n) = Some n' \<and> renumbers ns n n'"
  using assms
proof (induction ns rule: rev_induct)
  case (snoc m ns)
  obtain m' where m': "ns_map (push_all (ns @ [m])) = (ns_map (push_all ns))(vn_key m \<mapsto> m')"
    and form: "case m of VN_Named _ s src \<Rightarrow> m' = VN_Named (name_count s ns) s src | VN_Expr _ \<Rightarrow> m' = m"
    using push_new_name [of ns m] by blast
  show ?case
  proof (cases "n = m")
    case True
    have "renumbers (ns @ [m]) m m'"
      using form by (auto simp: renumbers_def name_count_def named_def split: value_name.splits)
    with True m' show ?thesis by simp
  next
    case False
    then have "vn_key n \<noteq> vn_key m" and "n \<in> set ns" using snoc.prems by (auto simp: image_iff)
    with snoc m' show ?thesis using renumbers_mono by auto
  qed
qed simp

lemma push_all_inj:
  assumes "distinct (map vn_key ns)" and "n \<in> set ns" and "m \<in> set ns"
    and "ns_map (push_all ns) (vn_key n) = Some n'" and "ns_map (push_all ns) (vn_key m) = Some m'"
    and "vn_key n' = vn_key m'"
  shows "vn_key n = vn_key m"
  using assms
proof (induction ns rule: rev_induct)
  case (snoc x ns)
  obtain x' where x': "ns_map (push_all (ns @ [x])) = (ns_map (push_all ns))(vn_key x \<mapsto> x')"
    and form: "case x of VN_Named _ s src \<Rightarrow> x' = VN_Named (name_count s ns) s src | VN_Expr _ \<Rightarrow> x' = x"
    using push_new_name [of ns x] by blast
  have dist: "distinct (map vn_key ns)" using snoc.prems(1) by simp
  have fresh: "vn_key y' \<noteq> vn_key x'"
    if y: "y \<in> set ns" and y': "ns_map (push_all (ns @ [x])) (vn_key y) = Some y'" for y y'
  proof -
    have ne: "vn_key y \<noteq> vn_key x" using snoc.prems(1) y by (auto simp: image_iff)
    then have "renumbers ns y y'"
      using push_all_map [OF dist y] y' x' by auto
    then show ?thesis
      using form ne by (auto simp: renumbers_def vn_key_def split: value_name.splits)
  qed
  show ?case
  proof (cases "vn_key n = vn_key x \<or> vn_key m = vn_key x")
    case True
    with snoc.prems fresh x' show ?thesis by (cases "n = x"; cases "m = x") fastforce+
  next
    case False
    then have "n \<in> set ns" "m \<in> set ns" using snoc.prems by auto
    with snoc.IH [OF dist] snoc.prems False x' show ?thesis by auto
  qed
qed simp

text \<open>C34: renumbering keeps definitions apart. If the inputs and definitions of an entity have
  different names, they still have after \<open>make_names_predictable\<close>, and each keeps its text and its
  source.\<close>

theorem renaming_injective:
  assumes "make_names_predictable e = (e', st)" and "distinct (map vn_key (entity_defines e))"
  shows "distinct (map (\<lambda>n. vn_key (name_state_get st n)) (entity_defines e)) \<and>
    (\<forall>n\<in>set (entity_defines e). renumbers (entity_defines e) n (name_state_get st n))"
proof -
  let ?ns = "entity_defines e"
  have st: "st = push_all ?ns"
    using assms(1) by (auto simp: make_names_predictable_def push_all_def Let_def)
  have get: "\<exists>n'. ns_map st (vn_key n) = Some n' \<and> renumbers ?ns n n'" if "n \<in> set ?ns" for n
    using push_all_map [OF assms(2) that] st by simp
  have "inj_on (\<lambda>n. vn_key (name_state_get st n)) (set ?ns)"
  proof (rule inj_onI)
    fix n m
    assume nm: "n \<in> set ?ns" "m \<in> set ?ns"
      and eq: "vn_key (name_state_get st n) = vn_key (name_state_get st m)"
    have "vn_key n = vn_key m"
      using push_all_inj [OF assms(2) nm] get [OF nm(1)] get [OF nm(2)] eq st
      by (auto simp: name_state_get_def)
    then show "n = m" using assms(2) nm by (simp add: distinct_map inj_on_def)
  qed
  then have "distinct (map (\<lambda>n. vn_key (name_state_get st n)) ?ns)"
    using assms(2) by (simp add: distinct_map)
  moreover have "\<forall>n\<in>set ?ns. renumbers ?ns n (name_state_get st n)"
    using get by (fastforce simp: name_state_get_def)
  ultimately show ?thesis by blast
qed

section \<open>Names are predictable\<close>

text \<open>Another numbering of the named values, which keeps their texts.\<close>

definition renumber :: "(nat \<Rightarrow> string \<Rightarrow> nat) \<Rightarrow> value_name \<Rightarrow> value_name" where
  "renumber f n = (case n of VN_Named i s src \<Rightarrow> VN_Named (f i s) s src | VN_Expr i \<Rightarrow> VN_Expr i)"

definition renumber_key :: "(nat \<Rightarrow> string \<Rightarrow> nat) \<Rightarrow> vkey \<Rightarrow> vkey" where
  "renumber_key f k = (case k of Inl (i, s) \<Rightarrow> Inl (f i s, s) | Inr i \<Rightarrow> Inr i)"

lemma vn_key_renumber: "vn_key (renumber f n) = renumber_key f (vn_key n)"
  by (cases n) (auto simp: vn_key_def renumber_def renumber_key_def)

lemma renumber_key_inj: "(\<And>s. inj (\<lambda>i. f i s)) \<Longrightarrow> renumber_key f k = renumber_key f k' \<Longrightarrow> k = k'"
  by (cases k; cases k') (auto simp: renumber_key_def dest: injD split: prod.splits)

lemma push_renumbered:
  assumes "\<And>s. inj (\<lambda>i. f i s)"
  shows "ns_names (push_all (map (renumber f) ns)) = ns_names (push_all ns) \<and>
    (\<forall>k. ns_map (push_all (map (renumber f) ns)) (renumber_key f k) = ns_map (push_all ns) k)"
proof (induction ns rule: rev_induct)
  case Nil
  then show ?case by (simp add: push_all_def name_state_new_def)
next
  case (snoc n ns)
  have key: "renumber_key f k = renumber_key f k' \<longleftrightarrow> k = k'" for k k'
    using renumber_key_inj [of f k k'] assms by blast
  show ?case
  proof (cases n)
    case (VN_Named i s src)
    then have k: "vn_key (renumber f n) = renumber_key f (vn_key n)"
      by (simp add: vn_key_renumber)
    from VN_Named have "renumber f n = VN_Named (f i s) s src" by (simp add: renumber_def)
    with VN_Named k snoc key show ?thesis
      by (auto simp: push_all_snoc name_state_push_def Let_def fun_eq_iff)
  next
    case (VN_Expr i)
    then have "renumber f n = n" by (simp add: renumber_def)
    with VN_Expr snoc key [of _ "Inr i"] show ?thesis
      by (auto simp: push_all_snoc name_state_push_def vn_key_def renumber_key_def)
  qed
qed

definition statement_names :: "statement \<Rightarrow> value_name set" where
  "statement_names s =
     (case s of
        St_Binding b \<Rightarrow> insert (b_name b) (set (b_operands b))
      | St_Register r \<Rightarrow>
          {r_name r, r_clock r, r_value r} \<union> set_option (r_traced r) \<union>
          (case r_reset r of None \<Rightarrow> {} | Some (a, b) \<Rightarrow> {a, b})
      | St_Constant i ty c \<Rightarrow> {}
      | St_Assert v \<Rightarrow> {v}
      | St_Set target val \<Rightarrow> {target, val}
      | St_WalTrace name val suffix ty \<Rightarrow> {name, val})"

definition entity_names :: "entity \<Rightarrow> value_name set" where
  "entity_names e =
     insert (ent_output e)
       (in_val_name ` set (ent_inputs e) \<union> (\<Union>s\<in>set (ent_statements e). statement_names s))"

lemma rename_statement_cong:
  "(\<And>n. n \<in> statement_names s \<Longrightarrow> g n = h n) \<Longrightarrow> rename_statement g s = rename_statement h s"
  by (auto simp: rename_statement_def statement_names_def split: statement.splits binding.splits
      register.splits option.splits intro!: option.map_cong)

lemma rename_entity_cong:
  "(\<And>n. n \<in> entity_names e \<Longrightarrow> g n = h n) \<Longrightarrow> rename_entity g e = rename_entity h e"
proof -
  assume eq: "\<And>n. n \<in> entity_names e \<Longrightarrow> g n = h n"
  have "map (\<lambda>i. i\<lparr>in_val_name := g (in_val_name i)\<rparr>) (ent_inputs e) =
      map (\<lambda>i. i\<lparr>in_val_name := h (in_val_name i)\<rparr>) (ent_inputs e)"
    using eq by (intro map_cong) (auto simp: entity_names_def)
  moreover have "map (rename_statement g) (ent_statements e) = map (rename_statement h) (ent_statements e)"
    using eq by (intro map_cong rename_statement_cong) (auto simp: entity_names_def)
  moreover have "g (ent_output e) = h (ent_output e)" using eq by (simp add: entity_names_def)
  ultimately show ?thesis by (simp add: rename_entity_def)
qed

lemma rename_statement_comp:
  "rename_statement g (rename_statement h s) = rename_statement (\<lambda>n. g (h n)) s"
  by (auto simp: rename_statement_def option.map_comp comp_def prod.map_comp map_prod_def
      case_prod_unfold split: statement.splits binding.splits register.splits)

lemma rename_entity_comp: "rename_entity g (rename_entity h e) = rename_entity (\<lambda>n. g (h n)) e"
  by (simp add: rename_entity_def rename_statement_comp comp_def)

lemma rename_entity_defines: "entity_defines (rename_entity g e) = map g (entity_defines e)"
proof -
  have "statement_defines (rename_statement g s) = map g (statement_defines s)" for s
    by (auto simp: statement_defines_def rename_statement_def
        split: statement.splits binding.splits register.splits)
  then show ?thesis
    by (simp add: entity_defines_def rename_entity_def map_concat comp_def)
qed

text \<open>C33: the renumbering does not depend on the numbers the names had. Two entities that differ by
  an injective renumbering of their named values become the same entity, if every name they use
  is an expression or defined by them.\<close>

theorem names_predictable:
  assumes "\<And>s. inj (\<lambda>i. f i s)"
    and "\<And>n. n \<in> entity_names e \<Longrightarrow>
        (\<exists>i. n = VN_Expr i) \<or> ns_map (snd (make_names_predictable e)) (vn_key n) \<noteq> None"
  shows "fst (make_names_predictable (rename_entity (renumber f) e)) = fst (make_names_predictable e)"
proof -
  let ?ns = "entity_defines e"
  have get: "name_state_get (push_all (map (renumber f) ?ns)) (renumber f n) = name_state_get (push_all ?ns) n"
    if "n \<in> entity_names e" for n
  proof -
    have "ns_map (push_all (map (renumber f) ?ns)) (vn_key (renumber f n)) = ns_map (push_all ?ns) (vn_key n)"
      using push_renumbered [OF assms(1)] by (simp add: vn_key_renumber)
    moreover have "ns_map (push_all ?ns) (vn_key n) = None \<Longrightarrow> renumber f n = n"
      using assms(2) [OF that]
      by (auto simp: make_names_predictable_def push_all_def Let_def renumber_def)
    ultimately show ?thesis by (auto simp: name_state_get_def split: option.splits)
  qed
  have "rename_entity (name_state_get (push_all (map (renumber f) ?ns))) (rename_entity (renumber f) e) =
      rename_entity (name_state_get (push_all ?ns)) e"
    unfolding rename_entity_comp by (rule rename_entity_cong) (rule get)
  then show ?thesis
    by (simp add: make_names_predictable_def push_all_def Let_def rename_entity_defines)
qed

text \<open>An entity for the witnesses: \<open>x\<close> is defined twice, under different numbers.\<close>

definition sample_entity :: entity where
  "sample_entity =
     \<lparr>ent_name = \<lparr>un_kind = UK_Unescaped ''e'', un_source = NameID 0 []\<rparr>,
      ent_inputs = [\<lparr>in_name = ''x'', in_val_name = VN_Named 7 ''x'' (NS_Expr 0), in_ty = Ty_Bool,
        in_no_mangle = None\<rparr>],
      ent_output = VN_Named 3 ''x'' (NS_Expr 0), ent_output_type = Ty_Bool,
      ent_statements = [St_Binding (Binding (VN_Named 3 ''x'' (NS_Expr 0)) Op_Not
        [VN_Named 7 ''x'' (NS_Expr 0)] Ty_Bool None)]\<rparr>"

theorem renaming_injective_witness:
  "distinct (map (\<lambda>n. vn_key (name_state_get (snd (make_names_predictable sample_entity)) n))
      (entity_defines sample_entity)) \<and>
   list_all (\<lambda>n. renumbers (entity_defines sample_entity) n
        (name_state_get (snd (make_names_predictable sample_entity)) n)) (entity_defines sample_entity)"
  unfolding list_all_iff
proof (rule renaming_injective)
  show "make_names_predictable sample_entity =
      (fst (make_names_predictable sample_entity), snd (make_names_predictable sample_entity))"
    by simp
  show "distinct (map vn_key (entity_defines sample_entity))"
    by (simp add: sample_entity_def entity_defines_def statement_defines_def vn_key_def)
qed

theorem names_predictable_witness:
  "fst (make_names_predictable (rename_entity (renumber (\<lambda>i s. i + 10)) sample_entity)) =
     fst (make_names_predictable sample_entity)"
proof (rule names_predictable)
  show "inj (\<lambda>i. i + 10 :: nat)" by (simp add: inj_def)
  fix n assume "n \<in> entity_names sample_entity"
  then show "(\<exists>i. n = VN_Expr i) \<or> ns_map (snd (make_names_predictable sample_entity)) (vn_key n) \<noteq> None"
    by (auto simp: sample_entity_def entity_names_def statement_names_def make_names_predictable_def
        entity_defines_def statement_defines_def name_state_push_def Let_def vn_key_def)
qed

section \<open>Verilog names\<close>

text \<open>
  A text that does not look like a generated name: it does not end in \<open>_n\<close> and a number, and is
  not \<open>_e_\<close> and a number.
\<close>

definition plain_text :: "string \<Rightarrow> bool" where
  "plain_text s \<longleftrightarrow> (\<forall>t i. s \<noteq> t @ ''_n'' @ show_nat i) \<and> (\<forall>i. s \<noteq> ''_e_'' @ show_nat i)"

definition plain_name :: "value_name \<Rightarrow> bool" where
  "plain_name n = (case n of VN_Named _ s _ \<Rightarrow> plain_text s | VN_Expr _ \<Rightarrow> True)"

lemma n_suffix_inject:
  "s @ ''_n'' @ show_nat i = t @ ''_n'' @ show_nat j \<longleftrightarrow> s = t \<and> i = j"
  using last_underscore_unique [of s "CHR ''n'' # show_nat i" t "CHR ''n'' # show_nat j"]
    show_nat_no_underscore by auto

lemma e_not_n_suffix: "''_e_'' @ show_nat i \<noteq> s @ ''_n'' @ show_nat j"
proof
  assume "''_e_'' @ show_nat i = s @ ''_n'' @ show_nat j"
  then have "show_nat i = CHR ''n'' # show_nat j"
    using last_underscore_unique [of "''_e''" "show_nat i" s "CHR ''n'' # show_nat j"]
      show_nat_no_underscore by auto
  then have "is_digit_char (CHR ''n'')" using show_nat_digits [of "CHR ''n''" i] by simp
  then show False by (simp add: is_digit_char_def)
qed

text \<open>C39: outside the texts that look generated, different values have different Verilog names.\<close>

theorem verilog_names_distinct:
  assumes "vn_key a \<noteq> vn_key b" and "plain_name a" and "plain_name b"
  shows "unescaped_var_name a \<noteq> unescaped_var_name b"
proof -
  have one: "unescaped_var_name (VN_Named i s src) \<noteq> unescaped_var_name (VN_Expr k)"
    if "plain_text s" for i s src k
    using that e_not_n_suffix [of k s i]
    by (auto simp: unescaped_var_name_def show_value_name_def plain_text_def)
  have two: "i = j \<and> s = t"
    if "plain_text s" "plain_text t"
      and "unescaped_var_name (VN_Named i s src) = unescaped_var_name (VN_Named j t src')"
    for i j s t src src'
    using that n_suffix_inject [of s i t j]
    by (fastforce simp: unescaped_var_name_def show_value_name_def plain_text_def split: if_splits)
  show ?thesis
  proof (cases a)
    case a: (VN_Named i s src)
    show ?thesis
    proof (cases b)
      case (VN_Named j t src')
      then show ?thesis using assms a two [of s t i src j src'] by (auto simp: plain_name_def vn_key_def)
    next
      case (VN_Expr k)
      then show ?thesis using assms(2) a one by (simp add: plain_name_def)
    qed
  next
    case a: (VN_Expr k)
    show ?thesis
    proof (cases b)
      case (VN_Named j t src')
      then show ?thesis using assms(3) a one [of t j src' k] by (simp add: plain_name_def)
    next
      case (VN_Expr l)
      then show ?thesis using assms(1) a by (simp add: vn_key_def unescaped_var_name_def)
    qed
  qed
qed

theorem verilog_names_distinct_witness:
  "unescaped_var_name (VN_Named 0 ''x'' (NS_Expr 1)) \<noteq> unescaped_var_name (VN_Named 1 ''x'' (NS_Expr 2))"
proof (rule verilog_names_distinct)
  have "plain_text ''x''"
    by (auto simp: plain_text_def Cons_eq_append_conv)
  then show "plain_name (VN_Named 0 ''x'' (NS_Expr 1))" "plain_name (VN_Named 1 ''x'' (NS_Expr 2))"
    by (simp_all add: plain_name_def)
qed (simp add: vn_key_def)

text \<open>
  two values of one entity can have the same Verilog name. A variable called \<open>x_n1\<close> is written
  \<open>\x_n1 \<close>, which is the identifier \<open>x_n1\<close>, the name of the second variable called \<open>x\<close>; the map back
  keeps only the later one.
\<close>

theorem verilog_names_collide:
  "vn_key (VN_Named 0 ''x_n1'' (NS_Expr 1)) \<noteq> vn_key (VN_Named 1 ''x'' (NS_Expr 2)) \<and>
   trim_name (var_name (VN_Named 0 ''x_n1'' (NS_Expr 1))) = trim_name (var_name (VN_Named 1 ''x'' (NS_Expr 2))) \<and>
   lookup_name
     (verilog_name_map_insert (var_name (VN_Named 1 ''x'' (NS_Expr 2))) (ForwardExpr 2)
       (verilog_name_map_insert (var_name (VN_Named 0 ''x_n1'' (NS_Expr 1))) (ForwardExpr 1)
         verilog_name_map_new)) ''x_n1'' = Some (ForwardExpr 2)"
proof -
  have "show_nat 1 = ''1''" by code_simp
  then show ?thesis
    by (simp add: vn_key_def var_name_def needs_escaping_def unescaped_var_name_def
        show_value_name_def trim_name_def lookup_name_def verilog_name_map_insert_def)
qed

end
