(* ===== verification/Mir_Diff.thy ===== *)
theory Mir_Diff
  imports Mir_Names
begin

text \<open>
  spade-mir, \<open>diff.rs\<close>: the comparison of two entities up to the numbers of their values. The
  first pass pairs the definitions of both entities and records which number stands for which
  (\<open>VarMap\<close>), the second compares the statements under that map. The functions return the
  updated map beside their verdict.
\<close>

section \<open>The map of numbers\<close>

record var_map =
  expr_map :: "nat \<rightharpoonup> nat"
  expr_map_rev :: "nat \<rightharpoonup> nat"
  name_map :: "nat \<rightharpoonup> nat"
  name_map_rev :: "nat \<rightharpoonup> nat"

definition var_map_new :: var_map where
  "var_map_new =
     \<lparr>expr_map = (\<lambda>_. None), expr_map_rev = (\<lambda>_. None), name_map = (\<lambda>_. None),
      name_map_rev = (\<lambda>_. None)\<rparr>"

definition map_expr :: "nat \<Rightarrow> nat \<Rightarrow> var_map \<Rightarrow> var_map" where
  "map_expr lhs rhs m =
     m\<lparr>expr_map := (expr_map m)(lhs \<mapsto> rhs), expr_map_rev := (expr_map_rev m)(rhs \<mapsto> lhs)\<rparr>"

definition map_name :: "nat \<Rightarrow> nat \<Rightarrow> var_map \<Rightarrow> var_map" where
  "map_name lhs rhs m =
     m\<lparr>name_map := (name_map m)(lhs \<mapsto> rhs), name_map_rev := (name_map_rev m)(rhs \<mapsto> lhs)\<rparr>"

definition try_update_name :: "value_name \<Rightarrow> value_name \<Rightarrow> var_map \<Rightarrow> bool \<times> var_map" where
  "try_update_name lhs rhs m =
     (case (lhs, rhs) of
        (VN_Named i1 n1 _, VN_Named i2 n2 _) \<Rightarrow>
          if n1 \<noteq> n2 then (False, m) else (True, map_name i1 i2 m)
      | (VN_Expr i1, VN_Expr i2) \<Rightarrow> (True, map_expr i1 i2 m)
      | _ \<Rightarrow> (False, m))"

definition compare_name :: "var_map \<Rightarrow> nat \<times> string \<Rightarrow> nat \<times> string \<Rightarrow> bool" where
  "compare_name m lhs rhs =
     (if snd lhs \<noteq> snd rhs then False
      else (case name_map m (fst lhs) of None \<Rightarrow> False | Some v \<Rightarrow> fst rhs = v))"

definition compare_exprs :: "var_map \<Rightarrow> nat \<Rightarrow> nat \<Rightarrow> bool" where
  "compare_exprs m lhs rhs = (case expr_map m lhs of None \<Rightarrow> False | Some v \<Rightarrow> v = rhs)"

definition compare_vals :: "var_map \<Rightarrow> value_name \<Rightarrow> value_name \<Rightarrow> bool" where
  "compare_vals m lhs rhs =
     (case (lhs, rhs) of
        (VN_Named i1 n1 _, VN_Named i2 n2 _) \<Rightarrow> compare_name m (i1, n1) (i2, n2)
      | (VN_Expr i1, VN_Expr i2) \<Rightarrow> compare_exprs m i1 i2
      | _ \<Rightarrow> False)"

section \<open>Comparing statements and entities\<close>

definition compare_operands :: "var_map \<Rightarrow> value_name list \<Rightarrow> value_name list \<Rightarrow> bool" where
  "compare_operands m ops1 ops2 = list_all (\<lambda>(a, b). compare_vals m a b) (zip ops1 ops2)"

definition compare_reset ::
  "var_map \<Rightarrow> (value_name \<times> value_name) option \<Rightarrow> (value_name \<times> value_name) option \<Rightarrow> bool" where
  "compare_reset m r1 r2 =
     (case (r1, r2) of
        (Some (t1, v1), Some (t2, v2)) \<Rightarrow> compare_vals m t1 t2 \<and> compare_vals m v1 v2
      | (None, None) \<Rightarrow> True
      | _ \<Rightarrow> False)"

definition compare_initial :: "statement list option \<Rightarrow> statement list option \<Rightarrow> bool" where
  "compare_initial i1 i2 =
     (case (i1, i2) of (Some l, Some r) \<Rightarrow> stmts_eq l r | (None, None) \<Rightarrow> True | _ \<Rightarrow> False)"

definition compare_statements :: "statement \<Rightarrow> statement \<Rightarrow> var_map \<Rightarrow> bool" where
  "compare_statements s1 s2 m =
     (case (s1, s2) of
        (St_Binding b1, St_Binding b2) \<Rightarrow>
          if b_ty b1 \<noteq> b_ty b2 then False
          else if \<not> op_eq (b_operator b1) (b_operator b2) then False
          else if length (b_operands b1) \<noteq> length (b_operands b2) then False
          else compare_operands m (b_operands b1) (b_operands b2)
      | (St_Register r1, St_Register r2) \<Rightarrow>
          if r_ty r1 \<noteq> r_ty r2 then False
          else compare_vals m (r_value r1) (r_value r2) \<and> compare_vals m (r_clock r1) (r_clock r2) \<and>
            compare_reset m (r_reset r1) (r_reset r2) \<and>
            compare_initial (r_initial r1) (r_initial r2)
      | (St_Constant _ t1 v1, St_Constant _ t2 v2) \<Rightarrow>
          if t1 \<noteq> t2 then False else if v1 \<noteq> v2 then False else True
      | (St_Assert v1, St_Assert v2) \<Rightarrow> compare_vals m v1 v2
      | (St_Set tgl vl, St_Set tgr vr) \<Rightarrow> compare_vals m tgl tgr \<and> compare_vals m vl vr
      | (St_WalTrace n1 v1 s1 ty1, St_WalTrace n2 v2 s2 ty2) \<Rightarrow>
          compare_vals m n1 n2 \<and> compare_vals m v1 v2 \<and> s1 = s2 \<and> ty1 = ty2
      | _ \<Rightarrow> False)"

definition populate_statement :: "statement \<Rightarrow> statement \<Rightarrow> var_map \<Rightarrow> bool \<times> var_map" where
  "populate_statement s1 s2 m =
     (case (s1, s2) of
        (St_Binding b1, St_Binding b2) \<Rightarrow> try_update_name (b_name b1) (b_name b2) m
      | (St_Register r1, St_Register r2) \<Rightarrow> try_update_name (r_name r1) (r_name r2) m
      | (St_Constant e1 _ _, St_Constant e2 _ _) \<Rightarrow> try_update_name (VN_Expr e1) (VN_Expr e2) m
      | (St_WalTrace _ _ _ _, St_WalTrace _ _ _ _) \<Rightarrow> (True, m)
      | (St_Assert _, St_Assert _) \<Rightarrow> (True, m)
      | (St_Set _ _, St_Set _ _) \<Rightarrow> (True, m)
      | _ \<Rightarrow> (False, m))"

fun populate_var_map :: "statement list \<Rightarrow> statement list \<Rightarrow> var_map \<Rightarrow> bool \<times> var_map" where
  "populate_var_map (s1 # stmts1) (s2 # stmts2) m =
     (case populate_statement s1 s2 m of
        (True, m) \<Rightarrow> populate_var_map stmts1 stmts2 m
      | (False, m) \<Rightarrow> (False, m))"
| "populate_var_map _ _ m = (True, m)"

fun compare_inputs :: "mir_input list \<Rightarrow> mir_input list \<Rightarrow> var_map \<Rightarrow> bool \<times> var_map" where
  "compare_inputs (i1 # is1) (i2 # is2) m =
     (if (in_no_mangle i1 = None) \<noteq> (in_no_mangle i2 = None) then (False, m)
      else if in_name i1 \<noteq> in_name i2 then (False, m)
      else (case try_update_name (in_val_name i1) (in_val_name i2) m of
              (False, m) \<Rightarrow> (False, m)
            | (True, m) \<Rightarrow> if in_ty i1 \<noteq> in_ty i2 then (False, m) else compare_inputs is1 is2 m))"
| "compare_inputs _ _ m = (True, m)"

definition compare_entity :: "entity \<Rightarrow> entity \<Rightarrow> var_map \<Rightarrow> bool \<times> var_map" where
  "compare_entity e1 e2 m =
     (if \<not> unit_name_eq (ent_name e1) (ent_name e2) then (False, m)
      else if ent_output_type e1 \<noteq> ent_output_type e2 then (False, m)
      else (case compare_inputs (ent_inputs e1) (ent_inputs e2) m of
              (False, m) \<Rightarrow> (False, m)
            | (True, m) \<Rightarrow>
                (case populate_var_map (ent_statements e1) (ent_statements e2) m of
                   (False, m) \<Rightarrow> (False, m)
                 | (True, m) \<Rightarrow>
                     (list_all (\<lambda>(s1, s2). compare_statements s1 s2 m)
                        (zip (ent_statements e1) (ent_statements e2)) \<and>
                      length (ent_statements e1) = length (ent_statements e2) \<and>
                      compare_vals m (ent_output e1) (ent_output e2), m))))"

section \<open>Equality up to numbers\<close>

text \<open>A renumbering: of expressions, and of named values, whose texts stay.\<close>

datatype renumbering = Renumbering (on_exprs: "nat \<Rightarrow> nat") (on_names: "nat \<Rightarrow> nat")

definition vn_matches :: "renumbering \<Rightarrow> value_name \<Rightarrow> value_name \<Rightarrow> bool" where
  "vn_matches f a b =
     (case (a, b) of
        (VN_Named i s _, VN_Named j t _) \<Rightarrow> s = t \<and> j = on_names f i
      | (VN_Expr i, VN_Expr j) \<Rightarrow> j = on_exprs f i
      | _ \<Rightarrow> False)"

definition def_matches :: "renumbering \<Rightarrow> statement \<Rightarrow> statement \<Rightarrow> bool" where
  "def_matches f s1 s2 =
     (case (s1, s2) of
        (St_Binding b1, St_Binding b2) \<Rightarrow> vn_matches f (b_name b1) (b_name b2)
      | (St_Register r1, St_Register r2) \<Rightarrow> vn_matches f (r_name r1) (r_name r2)
      | (St_Constant e1 _ _, St_Constant e2 _ _) \<Rightarrow> vn_matches f (VN_Expr e1) (VN_Expr e2)
      | (St_WalTrace _ _ _ _, St_WalTrace _ _ _ _) \<Rightarrow> True
      | (St_Assert _, St_Assert _) \<Rightarrow> True
      | (St_Set _ _, St_Set _ _) \<Rightarrow> True
      | _ \<Rightarrow> False)"

definition body_matches :: "renumbering \<Rightarrow> statement \<Rightarrow> statement \<Rightarrow> bool" where
  "body_matches f s1 s2 =
     (case (s1, s2) of
        (St_Binding b1, St_Binding b2) \<Rightarrow>
          b_ty b1 = b_ty b2 \<and> op_eq (b_operator b1) (b_operator b2) \<and>
          list_all2 (vn_matches f) (b_operands b1) (b_operands b2)
      | (St_Register r1, St_Register r2) \<Rightarrow>
          r_ty r1 = r_ty r2 \<and> vn_matches f (r_value r1) (r_value r2) \<and>
          vn_matches f (r_clock r1) (r_clock r2) \<and>
          rel_option (rel_prod (vn_matches f) (vn_matches f)) (r_reset r1) (r_reset r2) \<and>
          rel_option stmts_eq (r_initial r1) (r_initial r2)
      | (St_Constant _ t1 v1, St_Constant _ t2 v2) \<Rightarrow> t1 = t2 \<and> v1 = v2
      | (St_Assert v1, St_Assert v2) \<Rightarrow> vn_matches f v1 v2
      | (St_Set tgl vl, St_Set tgr vr) \<Rightarrow> vn_matches f tgl tgr \<and> vn_matches f vl vr
      | (St_WalTrace n1 v1 s1 ty1, St_WalTrace n2 v2 s2 ty2) \<Rightarrow>
          vn_matches f n1 n2 \<and> vn_matches f v1 v2 \<and> s1 = s2 \<and> ty1 = ty2
      | _ \<Rightarrow> False)"

definition input_matches :: "renumbering \<Rightarrow> mir_input \<Rightarrow> mir_input \<Rightarrow> bool" where
  "input_matches f i1 i2 \<longleftrightarrow>
     (in_no_mangle i1 = None) = (in_no_mangle i2 = None) \<and> in_name i1 = in_name i2 \<and>
     vn_matches f (in_val_name i1) (in_val_name i2) \<and> in_ty i1 = in_ty i2"

definition entity_matches :: "renumbering \<Rightarrow> entity \<Rightarrow> entity \<Rightarrow> bool" where
  "entity_matches f e1 e2 \<longleftrightarrow>
     unit_name_eq (ent_name e1) (ent_name e2) \<and> ent_output_type e1 = ent_output_type e2 \<and>
     list_all2 (input_matches f) (ent_inputs e1) (ent_inputs e2) \<and>
     list_all2 (def_matches f) (ent_statements e1) (ent_statements e2) \<and>
     list_all2 (body_matches f) (ent_statements e1) (ent_statements e2) \<and>
     vn_matches f (ent_output e1) (ent_output e2)"

text \<open>The numbers that the definitions of an entity use up, by kind.\<close>

definition vn_number :: "value_name \<Rightarrow> nat + nat" where
  "vn_number n = (case n of VN_Named i _ _ \<Rightarrow> Inl i | VN_Expr i \<Rightarrow> Inr i)"

definition statement_defs :: "statement \<Rightarrow> value_name list" where
  "statement_defs s = (case s of St_Constant i _ _ \<Rightarrow> [VN_Expr i] | _ \<Rightarrow> statement_defines s)"

definition entity_numbers :: "entity \<Rightarrow> (nat + nat) list" where
  "entity_numbers e =
     map (vn_number \<circ> in_val_name) (ent_inputs e) @
     concat (map (\<lambda>s. map vn_number (statement_defs s)) (ent_statements e))"

definition map_number :: "var_map \<Rightarrow> nat + nat \<Rightarrow> nat option" where
  "map_number m k = (case k of Inl i \<Rightarrow> name_map m i | Inr i \<Rightarrow> expr_map m i)"

definition map_renumbering :: "var_map \<Rightarrow> renumbering" where
  "map_renumbering m =
     Renumbering (\<lambda>i. case expr_map m i of None \<Rightarrow> 0 | Some j \<Rightarrow> j)
       (\<lambda>i. case name_map m i of None \<Rightarrow> 0 | Some j \<Rightarrow> j)"

lemma compare_vals_matches: "compare_vals m a b \<Longrightarrow> vn_matches (map_renumbering m) a b"
  by (auto simp: compare_vals_def vn_matches_def map_renumbering_def compare_name_def
      compare_exprs_def split: value_name.splits option.splits if_splits)

lemma vn_matches_iff:
  "vn_matches (map_renumbering m) a b \<Longrightarrow> map_number m (vn_number a) \<noteq> None \<Longrightarrow> compare_vals m a b"
  by (auto simp: compare_vals_def vn_matches_def map_renumbering_def compare_name_def
      compare_exprs_def map_number_def vn_number_def split: value_name.splits)

section \<open>The map that the first pass builds\<close>

fun update_all :: "(value_name \<times> value_name) list \<Rightarrow> var_map \<Rightarrow> var_map option" where
  "update_all [] m = Some m"
| "update_all ((a, b) # ps) m =
     (case try_update_name a b m of (True, m) \<Rightarrow> update_all ps m | (False, m) \<Rightarrow> None)"

lemma update_all_append:
  "update_all (ps @ qs) m = Option.bind (update_all ps m) (update_all qs)"
  by (induction ps m rule: update_all.induct) (auto split: prod.splits bool.splits)

lemma try_update_name_True:
  assumes "try_update_name a b m = (True, m')"
  shows "vn_matches (map_renumbering m') a b"
    and "k \<noteq> vn_number a \<Longrightarrow> map_number m' k = map_number m k"
    and "map_number m' (vn_number a) \<noteq> None"
  using assms
  by (auto simp: try_update_name_def map_expr_def map_name_def vn_matches_def map_renumbering_def
      map_number_def vn_number_def split: value_name.splits if_splits sum.splits)

lemma vn_matches_cong:
  "map_number m (vn_number a) = map_number m' (vn_number a) \<Longrightarrow>
     vn_matches (map_renumbering m) a b \<longleftrightarrow> vn_matches (map_renumbering m') a b"
  by (auto simp: vn_matches_def map_renumbering_def map_number_def vn_number_def
      split: value_name.splits)

definition all_match :: "renumbering \<Rightarrow> (value_name \<times> value_name) list \<Rightarrow> bool" where
  "all_match f ps \<longleftrightarrow> (\<forall>(a, b)\<in>set ps. vn_matches f a b)"

lemma all_match_simps [simp]:
  "all_match f []"
  "all_match f ((a, b) # ps) \<longleftrightarrow> vn_matches f a b \<and> all_match f ps"
  "all_match f (ps @ qs) \<longleftrightarrow> all_match f ps \<and> all_match f qs"
  by (auto simp: all_match_def)

lemma update_all_sound:
  "update_all ps m = Some m' \<Longrightarrow> distinct (map (vn_number \<circ> fst) ps) \<Longrightarrow>
     all_match (map_renumbering m') ps \<and>
     (\<forall>k. k \<notin> set (map (vn_number \<circ> fst) ps) \<longrightarrow> map_number m' k = map_number m k)"
proof (induction ps m rule: update_all.induct)
  case (2 a b ps m)
  then obtain m1 where m1: "try_update_name a b m = (True, m1)" "update_all ps m1 = Some m'"
    by (auto split: prod.splits bool.splits)
  have IH: "all_match (map_renumbering m') ps"
    "\<And>k. k \<notin> set (map (vn_number \<circ> fst) ps) \<Longrightarrow> map_number m' k = map_number m1 k"
    using "2.IH" [OF m1(1) [symmetric] refl m1(2)] "2.prems"(2) by auto
  have "map_number m' (vn_number a) = map_number m1 (vn_number a)"
    using IH(2) "2.prems"(2) by auto
  then have "vn_matches (map_renumbering m') a b"
    using try_update_name_True(1) [OF m1(1)] vn_matches_cong by blast
  with IH show ?case using try_update_name_True(2) [OF m1(1)] by auto
qed auto

text \<open>The pairs of definitions of two entities.\<close>

definition def_pairs :: "statement \<Rightarrow> statement \<Rightarrow> (value_name \<times> value_name) list" where
  "def_pairs s1 s2 = zip (statement_defs s1) (statement_defs s2)"

fun stmt_pairs :: "statement list \<Rightarrow> statement list \<Rightarrow> (value_name \<times> value_name) list" where
  "stmt_pairs (s1 # ss1) (s2 # ss2) = def_pairs s1 s2 @ stmt_pairs ss1 ss2"
| "stmt_pairs _ _ = []"

lemma populate_statement_True:
  "populate_statement s1 s2 m = (True, m') \<Longrightarrow>
     update_all (def_pairs s1 s2) m = Some m' \<and> length (statement_defs s1) = length (statement_defs s2) \<and>
     (\<forall>f. all_match f (def_pairs s1 s2) \<longrightarrow> def_matches f s1 s2)"
  by (cases s1; cases s2)
    (auto simp: populate_statement_def def_pairs_def statement_defs_def statement_defines_def
      def_matches_def)

lemma populate_var_map_True:
  "populate_var_map ss1 ss2 m = (True, m') \<Longrightarrow> length ss1 = length ss2 \<Longrightarrow>
     update_all (stmt_pairs ss1 ss2) m = Some m' \<and>
     list_all2 (\<lambda>s1 s2. length (statement_defs s1) = length (statement_defs s2)) ss1 ss2 \<and>
     (\<forall>f. all_match f (stmt_pairs ss1 ss2) \<longrightarrow> list_all2 (def_matches f) ss1 ss2)"
proof (induction ss1 ss2 m rule: populate_var_map.induct)
  case (1 s1 ss1 s2 ss2 m)
  then obtain m1 where m1: "populate_statement s1 s2 m = (True, m1)"
    "populate_var_map ss1 ss2 m1 = (True, m')"
    by (auto split: prod.splits bool.splits)
  have "length ss1 = length ss2" using "1.prems"(2) by simp
  from "1.IH" [OF m1(1) [symmetric] refl m1(2) this] populate_statement_True [OF m1(1)]
  show ?case by (auto simp: update_all_append)
qed auto

lemma compare_inputs_True:
  "compare_inputs is1 is2 m = (True, m') \<Longrightarrow> length is1 = length is2 \<Longrightarrow>
     update_all (zip (map in_val_name is1) (map in_val_name is2)) m = Some m' \<and>
     (\<forall>f. all_match f (zip (map in_val_name is1) (map in_val_name is2)) \<longrightarrow> list_all2 (input_matches f) is1 is2)"
proof (induction is1 is2 m rule: compare_inputs.induct)
  case (1 i1 is1 i2 is2 m)
  then obtain m1 where m1: "try_update_name (in_val_name i1) (in_val_name i2) m = (True, m1)"
    and c: "(in_no_mangle i1 = None) = (in_no_mangle i2 = None)" "in_name i1 = in_name i2"
      "in_ty i1 = in_ty i2" and rec: "compare_inputs is1 is2 m1 = (True, m')"
    by (auto split: prod.splits bool.splits if_splits)
  have "length is1 = length is2" using "1.prems"(2) by simp
  moreover have "\<not> (in_no_mangle i1 = None) \<noteq> (in_no_mangle i2 = None)"
    "\<not> in_name i1 \<noteq> in_name i2" "\<not> in_ty i1 \<noteq> in_ty i2" using c by auto
  ultimately have "update_all (zip (map in_val_name is1) (map in_val_name is2)) m1 = Some m' \<and>
     (\<forall>f. all_match f (zip (map in_val_name is1) (map in_val_name is2)) \<longrightarrow> list_all2 (input_matches f) is1 is2)"
    by (intro "1.IH" [OF _ _ m1 [symmetric] refl _ rec]) auto
  then show ?case using m1 c by (auto simp: input_matches_def [of _ i1 i2])
qed auto

lemma compare_statement_sound:
  "compare_statements s1 s2 m \<Longrightarrow> body_matches (map_renumbering m) s1 s2"
  by (cases s1; cases s2)
    (auto simp: compare_statements_def body_matches_def compare_operands_def compare_reset_def
      compare_initial_def list_all2_iff list_all_iff compare_vals_matches
      split: if_splits option.splits)

definition all_pairs :: "entity \<Rightarrow> entity \<Rightarrow> (value_name \<times> value_name) list" where
  "all_pairs e1 e2 =
     zip (map in_val_name (ent_inputs e1)) (map in_val_name (ent_inputs e2)) @
     stmt_pairs (ent_statements e1) (ent_statements e2)"

lemma map_number_zip:
  "length xs = length ys \<Longrightarrow> map (\<lambda>p. vn_number (fst p)) (zip xs ys) = map vn_number xs"
  by (induction rule: list_induct2) auto

lemma all_pairs_numbers:
  assumes "length (ent_inputs e1) = length (ent_inputs e2)"
    and "list_all2 (\<lambda>s1 s2. length (statement_defs s1) = length (statement_defs s2))
      (ent_statements e1) (ent_statements e2)"
  shows "map (vn_number \<circ> fst) (all_pairs e1 e2) = entity_numbers e1"
proof -
  have "map (vn_number \<circ> fst) (stmt_pairs ss1 ss2) =
      concat (map (\<lambda>s. map vn_number (statement_defs s)) ss1)"
    if "list_all2 (\<lambda>s1 s2. length (statement_defs s1) = length (statement_defs s2)) ss1 ss2"
    for ss1 ss2
    using that
    by (induction rule: list_all2_induct) (simp_all add: def_pairs_def map_number_zip)
  moreover have "map (vn_number \<circ> fst) (zip (map in_val_name (ent_inputs e1)) (map in_val_name (ent_inputs e2))) =
      map (vn_number \<circ> in_val_name) (ent_inputs e1)"
    using assms(1) by (simp add: comp_def map_number_zip)
  ultimately show ?thesis using assms(2) by (simp add: all_pairs_def entity_numbers_def)
qed

text \<open>C17: entities that compare equal are equal up to numbers. If the definitions of the first
  entity have different numbers and both have as many inputs, then one renumbering of expressions
  and names turns inputs, definitions, statements and output of the first into those of the
  second.\<close>

theorem compare_entity_sound:
  assumes "compare_entity e1 e2 var_map_new = (True, m')"
    and "length (ent_inputs e1) = length (ent_inputs e2)" and "distinct (entity_numbers e1)"
  shows "entity_matches (map_renumbering m') e1 e2"
proof -
  obtain m1 where inputs: "compare_inputs (ent_inputs e1) (ent_inputs e2) var_map_new = (True, m1)"
    and stmts: "populate_var_map (ent_statements e1) (ent_statements e2) m1 = (True, m')"
    and rest: "unit_name_eq (ent_name e1) (ent_name e2)" "ent_output_type e1 = ent_output_type e2"
      "list_all (\<lambda>(s1, s2). compare_statements s1 s2 m') (zip (ent_statements e1) (ent_statements e2))"
      "length (ent_statements e1) = length (ent_statements e2)"
      "compare_vals m' (ent_output e1) (ent_output e2)"
    using assms(1) by (auto simp: compare_entity_def split: if_splits prod.splits bool.splits)
  note ins = compare_inputs_True [OF inputs assms(2)]
  note ss = populate_var_map_True [OF stmts rest(4)]
  have "update_all (all_pairs e1 e2) var_map_new = Some m'"
    using ins ss by (simp add: all_pairs_def update_all_append)
  moreover have "distinct (map (vn_number \<circ> fst) (all_pairs e1 e2))"
    using all_pairs_numbers [OF assms(2)] ss assms(3) by simp
  ultimately have all: "all_match (map_renumbering m') (all_pairs e1 e2)"
    using update_all_sound by blast
  have "list_all2 (input_matches (map_renumbering m')) (ent_inputs e1) (ent_inputs e2)"
    and "list_all2 (def_matches (map_renumbering m')) (ent_statements e1) (ent_statements e2)"
    using ins ss all by (auto simp: all_pairs_def)
  moreover have "list_all2 (body_matches (map_renumbering m')) (ent_statements e1) (ent_statements e2)"
    using rest(3,4) by (auto simp: list_all2_iff list_all_iff compare_statement_sound)
  ultimately show ?thesis
    using rest compare_vals_matches by (auto simp: entity_matches_def)
qed

text \<open>The entities of the witnesses: \<open>(x, y) -> not x\<close> with different numbers.\<close>

definition not_entity :: "nat \<Rightarrow> nat \<Rightarrow> nat \<Rightarrow> entity" where
  "not_entity x y e =
     \<lparr>ent_name = \<lparr>un_kind = UK_Unescaped ''n'', un_source = NameID 0 []\<rparr>,
      ent_inputs =
        [\<lparr>in_name = ''x'', in_val_name = VN_Named x ''x'' (NS_Expr 0), in_ty = Ty_Bool, in_no_mangle = None\<rparr>,
         \<lparr>in_name = ''y'', in_val_name = VN_Named y ''y'' (NS_Expr 0), in_ty = Ty_Bool, in_no_mangle = None\<rparr>],
      ent_output = VN_Expr e, ent_output_type = Ty_Bool,
      ent_statements =
        [St_Binding (Binding (VN_Expr e) Op_Not [VN_Named x ''x'' (NS_Expr 0)] Ty_Bool None)]\<rparr>"

lemmas not_entity_simps =
  not_entity_def compare_entity_def unit_name_eq_def var_map_new_def try_update_name_def
  map_name_def map_expr_def populate_statement_def compare_statements_def compare_operands_def
  compare_vals_def compare_name_def compare_exprs_def op_eq_def

theorem compare_entity_sound_witness:
  "entity_matches (map_renumbering (snd (compare_entity (not_entity 1 2 3) (not_entity 5 4 0) var_map_new)))
     (not_entity 1 2 3) (not_entity 5 4 0)"
proof (rule compare_entity_sound)
  have "fst (compare_entity (not_entity 1 2 3) (not_entity 5 4 0) var_map_new) = True"
    by (simp add: not_entity_simps)
  then show "compare_entity (not_entity 1 2 3) (not_entity 5 4 0) var_map_new =
      (True, snd (compare_entity (not_entity 1 2 3) (not_entity 5 4 0) var_map_new))"
    by (metis prod.collapse)
qed (simp_all add: not_entity_def entity_numbers_def vn_number_def statement_defs_def
    statement_defines_def)

section \<open>Equal entities compare equal\<close>

definition follows :: "renumbering \<Rightarrow> var_map \<Rightarrow> bool" where
  "follows f m \<longleftrightarrow>
     (\<forall>i j. expr_map m i = Some j \<longrightarrow> j = on_exprs f i) \<and>
     (\<forall>i j. name_map m i = Some j \<longrightarrow> j = on_names f i)"

lemma try_update_name_follows:
  "vn_matches f a b \<Longrightarrow> follows f m \<Longrightarrow> \<exists>m'. try_update_name a b m = (True, m') \<and> follows f m' \<and>
     map_number m' (vn_number a) \<noteq> None \<and>
     (\<forall>k. map_number m k \<noteq> None \<longrightarrow> map_number m' k \<noteq> None)"
  by (cases a; cases b)
    (auto simp: vn_matches_def try_update_name_def follows_def map_name_def map_expr_def
      map_number_def vn_number_def split: sum.splits)

definition covers_numbers :: "var_map \<Rightarrow> (nat + nat) set \<Rightarrow> bool" where
  "covers_numbers m ks \<longleftrightarrow> (\<forall>k\<in>ks. map_number m k \<noteq> None)"

lemma compare_inputs_follows:
  "list_all2 (input_matches f) is1 is2 \<Longrightarrow> follows f m \<Longrightarrow> covers_numbers m ks \<Longrightarrow>
     \<exists>m'. compare_inputs is1 is2 m = (True, m') \<and> follows f m' \<and>
       covers_numbers m' (ks \<union> (vn_number \<circ> in_val_name) ` set is1)"
proof (induction arbitrary: m ks rule: list_all2_induct)
  case (Cons i1 is1 i2 is2)
  have m: "vn_matches f (in_val_name i1) (in_val_name i2)"
    and c: "(in_no_mangle i1 = None) = (in_no_mangle i2 = None)" "in_name i1 = in_name i2"
      "in_ty i1 = in_ty i2"
    using Cons.hyps(1) by (auto simp: input_matches_def)
  obtain m1 where m1: "try_update_name (in_val_name i1) (in_val_name i2) m = (True, m1)" "follows f m1"
    "covers_numbers m1 (insert (vn_number (in_val_name i1)) ks)"
    using try_update_name_follows [OF m Cons.prems(1)] Cons.prems(2)
    by (auto simp: covers_numbers_def)
  from Cons.IH [OF m1(2,3)] m1(1) c show ?case by auto
qed auto

lemma populate_statement_follows:
  assumes "def_matches f s1 s2" and "follows f m" and "covers_numbers m ks"
  shows "\<exists>m'. populate_statement s1 s2 m = (True, m') \<and> follows f m' \<and>
    covers_numbers m' (ks \<union> vn_number ` set (statement_defs s1))"
proof -
  have step: "\<exists>m'. try_update_name a b m = (True, m') \<and> follows f m' \<and>
      covers_numbers m' (insert (vn_number a) ks)" if "vn_matches f a b" for a b
    using try_update_name_follows [OF that assms(2)] assms(3) by (auto simp: covers_numbers_def)
  show ?thesis
    using assms step
    by (cases s1; cases s2)
      (auto simp: def_matches_def populate_statement_def statement_defs_def statement_defines_def)
qed

lemma populate_var_map_follows:
  "list_all2 (def_matches f) ss1 ss2 \<Longrightarrow> follows f m \<Longrightarrow> covers_numbers m ks \<Longrightarrow>
     \<exists>m'. populate_var_map ss1 ss2 m = (True, m') \<and> follows f m' \<and>
       covers_numbers m' (ks \<union> (\<Union>s\<in>set ss1. vn_number ` set (statement_defs s)))"
proof (induction arbitrary: m ks rule: list_all2_induct)
  case (Cons s1 ss1 s2 ss2)
  obtain m1 where m1: "populate_statement s1 s2 m = (True, m1)" "follows f m1"
    "covers_numbers m1 (ks \<union> vn_number ` set (statement_defs s1))"
    using populate_statement_follows [OF Cons.hyps(1) Cons.prems] by blast
  from Cons.IH [OF m1(2,3)] m1(1) show ?case by (auto simp: Un_assoc)
qed auto

lemma compare_vals_follows:
  "follows f m \<Longrightarrow> vn_matches f a b \<Longrightarrow> map_number m (vn_number a) \<noteq> None \<Longrightarrow> compare_vals m a b"
  by (auto simp: follows_def vn_matches_def map_number_def vn_number_def compare_vals_def
      compare_name_def compare_exprs_def split: value_name.splits)

lemma compare_statements_follows:
  assumes "follows f m" and "body_matches f s1 s2" and "covers_numbers m (vn_number ` statement_names s1)"
  shows "compare_statements s1 s2 m"
proof -
  have vals: "compare_vals m a b" if "vn_matches f a b" "a \<in> statement_names s1" for a b
    using compare_vals_follows [OF assms(1) that(1)] assms(3) that(2) by (auto simp: covers_numbers_def)
  show ?thesis
  proof (cases s1)
    case (St_Binding b1)
    then obtain b2 where s2: "s2 = St_Binding b2" "b_ty b1 = b_ty b2" "op_eq (b_operator b1) (b_operator b2)"
      and ops: "list_all2 (vn_matches f) (b_operands b1) (b_operands b2)"
      using assms(2) by (cases s2) (auto simp: body_matches_def)
    have "compare_vals m a b" if "(a, b) \<in> set (zip (b_operands b1) (b_operands b2))" for a b
    proof (rule vals)
      show "vn_matches f a b" using ops that by (auto simp: list_all2_iff)
      show "a \<in> statement_names s1"
        using set_zip_leftD [OF that] St_Binding by (simp add: statement_names_def)
    qed
    then show ?thesis
      using s2 ops St_Binding
      by (auto simp: compare_statements_def compare_operands_def list_all_iff list_all2_lengthD)
  next
    case (St_Register r1)
    then show ?thesis
      using assms(2) vals
      by (cases s2) (auto simp: body_matches_def compare_statements_def compare_reset_def
          compare_initial_def statement_names_def elim!: option.rel_cases split: option.splits)
  qed (use assms(2) vals in \<open>cases s2; auto simp: body_matches_def compare_statements_def
      statement_names_def\<close>)+
qed

text \<open>entities that are equal up to numbers compare equal, when every name the first one uses
  is defined by it. In particular an entity compares equal to itself.\<close>

theorem compare_entity_complete:
  assumes "entity_matches f e1 e2"
    and "\<And>n. n \<in> entity_names e1 \<Longrightarrow> vn_number n \<in> set (entity_numbers e1)"
  shows "fst (compare_entity e1 e2 var_map_new)"
proof -
  have "follows f var_map_new" "covers_numbers var_map_new {}"
    by (simp_all add: follows_def var_map_new_def covers_numbers_def)
  then obtain m1 where m1: "compare_inputs (ent_inputs e1) (ent_inputs e2) var_map_new = (True, m1)"
    "follows f m1" "covers_numbers m1 ({} \<union> (vn_number \<circ> in_val_name) ` set (ent_inputs e1))"
    using compare_inputs_follows assms(1) unfolding entity_matches_def by blast
  then obtain m2 where m2: "populate_var_map (ent_statements e1) (ent_statements e2) m1 = (True, m2)"
    "follows f m2" "covers_numbers m2 (set (entity_numbers e1))"
    using populate_var_map_follows [OF _ m1(2,3)] assms(1)
    unfolding entity_matches_def by (auto simp: entity_numbers_def)
  have names: "covers_numbers m2 (vn_number ` entity_names e1)"
    using m2(3) assms(2) by (auto simp: covers_numbers_def)
  have "compare_statements s1 s2 m2"
    if "(s1, s2) \<in> set (zip (ent_statements e1) (ent_statements e2))" for s1 s2
  proof (rule compare_statements_follows [OF m2(2)])
    show "body_matches f s1 s2" using assms(1) that by (auto simp: entity_matches_def list_all2_iff)
    have "statement_names s1 \<subseteq> entity_names e1"
      using that by (auto simp: entity_names_def dest: set_zip_leftD)
    then show "covers_numbers m2 (vn_number ` statement_names s1)"
      using names by (auto simp: covers_numbers_def)
  qed
  moreover have "compare_vals m2 (ent_output e1) (ent_output e2)"
  proof (rule compare_vals_follows [OF m2(2)])
    show "vn_matches f (ent_output e1) (ent_output e2)" using assms(1) by (simp add: entity_matches_def)
    show "map_number m2 (vn_number (ent_output e1)) \<noteq> None"
      using names by (auto simp: covers_numbers_def entity_names_def)
  qed
  ultimately show ?thesis
    using assms(1) m1(1) m2(1)
    by (auto simp: compare_entity_def entity_matches_def list_all_iff list_all2_lengthD)
qed

theorem compare_entity_complete_witness:
  "fst (compare_entity (not_entity 1 2 3) (not_entity 5 4 0) var_map_new)"
proof (rule compare_entity_complete)
  show "entity_matches (Renumbering (\<lambda>_. 0) (\<lambda>i. if i = 1 then 5 else 4)) (not_entity 1 2 3) (not_entity 5 4 0)"
    by (simp add: entity_matches_def not_entity_def unit_name_eq_def input_matches_def
        def_matches_def body_matches_def vn_matches_def op_eq_def)
qed (auto simp: not_entity_def entity_names_def entity_numbers_def vn_number_def statement_defs_def
    statement_defines_def statement_names_def)

text \<open>
  the comparison ignores additional inputs. The inputs are paired without comparing their
  number, so an entity compares equal to itself with an input left out.
\<close>

theorem missing_input_compares_equal:
  "fst (compare_entity (not_entity 1 2 3)
     ((not_entity 1 2 3)\<lparr>ent_inputs := [hd (ent_inputs (not_entity 1 2 3))]\<rparr>) var_map_new) \<and>
   length (ent_inputs (not_entity 1 2 3)) = 2"
  by (simp add: not_entity_simps)

end
