(* ===== verification/Mir_Alias.thy ===== *)
theory Mir_Alias
  imports Mir_Names
begin

text \<open>
  spade-mir, \<open>aliasing.rs\<close>: names that alias one other value are replaced by it. A \<open>HashMap\<close> is an
  association list in the order of first insertion, its keys compared by \<open>vn_key\<close>; the code visits
  it in an unspecified order, on which the resolved aliases do not depend (each key leads to the
  end of its chain). The loop that resolves chains may run forever, so it is a partial function;
  a panic (an alias without an operand) and not returning are both \<open>None\<close>.
\<close>

section \<open>Collecting the aliases\<close>

type_synonym alias_map = "(value_name \<times> value_name) list"

fun alias_get :: "(value_name \<times> 'a) list \<Rightarrow> value_name \<Rightarrow> 'a option" where
  "alias_get [] n = None"
| "alias_get ((k, v) # m) n = (if vn_eq k n then Some v else alias_get m n)"

fun alias_push ::
  "value_name \<Rightarrow> value_name \<Rightarrow> (value_name \<times> value_name list) list \<Rightarrow>
     (value_name \<times> value_name list) list" where
  "alias_push k v [] = [(k, [v])]"
| "alias_push k v ((k', vs) # m) =
     (if vn_eq k' k then (k', vs @ [v]) # m else (k', vs) # alias_push k v m)"

definition is_named :: "value_name \<Rightarrow> bool" where
  "is_named n = (case n of VN_Named _ _ _ \<Rightarrow> True | VN_Expr _ \<Rightarrow> False)"

text \<open>What an alias binding adds: a key and the value that aliases it, if any.\<close>

definition alias_edge :: "value_name \<Rightarrow> value_name \<Rightarrow> (value_name \<times> value_name) option" where
  "alias_edge name operand =
     (case (name, operand) of
        (VN_Named _ _ _, VN_Named _ _ _) \<Rightarrow> None
      | (VN_Named _ _ _, VN_Expr _) \<Rightarrow> Some (operand, name)
      | (VN_Expr _, VN_Named _ _ _) \<Rightarrow> Some (name, operand)
      | (VN_Expr _, VN_Expr _) \<Rightarrow> Some (operand, name))"

definition is_alias :: "statement \<Rightarrow> bool" where
  "is_alias s = (case s of St_Binding b \<Rightarrow> b_operator b = Op_Alias | _ \<Rightarrow> False)"

definition collect_alias ::
  "(value_name \<times> value_name list) list \<Rightarrow> statement \<Rightarrow> (value_name \<times> value_name list) list option" where
  "collect_alias aliased_by s =
     (case s of
        St_Binding b \<Rightarrow>
          if b_operator b = Op_Alias
          then (case b_operands b of
                  [] \<Rightarrow> None
                | x # _ \<Rightarrow>
                    (case alias_edge (b_name b) x of
                       None \<Rightarrow> Some aliased_by
                     | Some (k, v) \<Rightarrow> Some (alias_push k v aliased_by)))
          else Some aliased_by
      | _ \<Rightarrow> Some aliased_by)"

definition unaliasable :: "entity \<Rightarrow> value_name list" where
  "unaliasable e =
     map in_val_name (ent_inputs e) @
     concat (map (\<lambda>s. case s of St_Constant i _ _ \<Rightarrow> [VN_Expr i] | _ \<Rightarrow> []) (ent_statements e))"

definition single_aliases ::
  "value_name list \<Rightarrow> (value_name \<times> value_name list) list \<Rightarrow> alias_map" where
  "single_aliases fixed aliased_by =
     concat (map (\<lambda>(k, vs). if length vs = 1 \<and> \<not> list_ex (vn_eq k) fixed then [(k, hd vs)] else [])
       aliased_by)"

definition initial_aliases :: "entity \<Rightarrow> alias_map option" where
  "initial_aliases e =
     map_option (single_aliases (unaliasable e)) (fold_opt collect_alias [] (ent_statements e))"

section \<open>Resolving chains\<close>

definition resolve_entry ::
  "value_name \<times> value_name \<Rightarrow> alias_map \<times> bool \<Rightarrow> alias_map \<times> bool" where
  "resolve_entry ft st =
     (map (\<lambda>(k, v). if vn_eq v (fst ft) then (k, snd ft) else (k, v)) (fst st),
      snd st \<or> list_ex (\<lambda>(k, v). vn_eq v (fst ft)) (fst st))"

definition resolve_pass :: "alias_map \<Rightarrow> alias_map \<times> bool" where
  "resolve_pass aliases = fold resolve_entry aliases (aliases, False)"

partial_function (option) resolve_aliases :: "alias_map \<Rightarrow> alias_map option" where
  "resolve_aliases aliases =
     (let (aliases', changed) = resolve_pass aliases
      in if changed then resolve_aliases aliases' else Some aliases')"

declare resolve_aliases.simps [code]

section \<open>Replacing\<close>

definition try_rename :: "alias_map \<Rightarrow> value_name \<Rightarrow> value_name" where
  "try_rename aliases n = (case alias_get aliases n of None \<Rightarrow> n | Some r \<Rightarrow> r)"

definition keep_statement :: "alias_map \<Rightarrow> statement \<Rightarrow> bool" where
  "keep_statement aliases s =
     (case s of
        St_Binding b \<Rightarrow>
          \<not> (b_operator b = Op_Alias \<and> alias_get aliases (hd (b_operands b)) \<noteq> None) \<and>
          \<not> (b_operator b = Op_Alias \<and> alias_get aliases (b_name b) \<noteq> None)
      | _ \<Rightarrow> True)"

definition alias_statement :: "alias_map \<Rightarrow> statement \<Rightarrow> statement" where
  "alias_statement aliases s =
     (case s of
        St_Binding (Binding name oper operands ty l) \<Rightarrow>
          St_Binding (Binding (try_rename aliases name) oper (map (try_rename aliases) operands) ty l)
      | St_Register (Register name ty clock reset initial val l traced) \<Rightarrow>
          St_Register (Register (try_rename aliases name) ty clock reset initial
            (try_rename aliases val) l traced)
      | St_WalTrace name val suffix ty \<Rightarrow>
          St_WalTrace (try_rename aliases name) (try_rename aliases val) suffix ty
      | _ \<Rightarrow> s)"

definition flatten_aliases :: "entity \<Rightarrow> entity option" where
  "flatten_aliases e =
     Option.bind (initial_aliases e) (\<lambda>aliases.
       let kept = filter (keep_statement aliases) (ent_statements e)
       in map_option
            (\<lambda>aliases.
               e\<lparr>ent_statements := map (alias_statement aliases) kept,
                 ent_output := try_rename aliases (ent_output e)\<rparr>)
            (resolve_aliases aliases))"

section \<open>Values are preserved\<close>

text \<open>
  The meaning of an entity for an assignment \<open>\<rho>\<close> of values to names. An alias binding says that its
  name and its operand have the same value; what every other statement says is some property \<open>P\<close>
  of the statement with its names blanked out and of the values of its names in order.
\<close>

definition name_list :: "statement \<Rightarrow> value_name list" where
  "name_list s =
     (case s of
        St_Binding b \<Rightarrow> b_name b # b_operands b
      | St_Register r \<Rightarrow>
          [r_name r, r_clock r, r_value r] @
          (case r_reset r of None \<Rightarrow> [] | Some (a, b) \<Rightarrow> [a, b]) @
          (case r_traced r of None \<Rightarrow> [] | Some n \<Rightarrow> [n])
      | St_Constant i ty c \<Rightarrow> [VN_Expr i]
      | St_Assert v \<Rightarrow> [v]
      | St_Set target val \<Rightarrow> [target, val]
      | St_WalTrace name val suffix ty \<Rightarrow> [name, val])"

definition blank :: "statement \<Rightarrow> statement" where
  "blank s =
     (case s of St_Constant i ty c \<Rightarrow> St_Constant 0 ty c | _ \<Rightarrow> rename_statement (\<lambda>_. VN_Expr 0) s)"

definition holds ::
  "(statement \<Rightarrow> 'v list \<Rightarrow> bool) \<Rightarrow> (vkey \<Rightarrow> 'v) \<Rightarrow> statement \<Rightarrow> bool" where
  "holds P \<rho> s \<longleftrightarrow>
     (let vals = map (\<lambda>n. \<rho> (vn_key n)) (name_list s)
      in if is_alias s then (\<exists>v rest. vals = v # v # rest) else P (blank s) vals)"

definition consistent :: "(vkey \<Rightarrow> 'v) \<Rightarrow> (value_name \<times> value_name) list \<Rightarrow> bool" where
  "consistent \<rho> aliases \<longleftrightarrow> (\<forall>(k, v)\<in>set aliases. \<rho> (vn_key k) = \<rho> (vn_key v))"

lemma alias_get_mem: "alias_get m n = Some v \<Longrightarrow> \<exists>k. (k, v) \<in> set m \<and> vn_key k = vn_key n"
  by (induction m n rule: alias_get.induct) (auto simp: vn_eq_def split: if_splits)

lemma alias_get_None: "alias_get m n = None \<longleftrightarrow> vn_key n \<notin> vn_key ` fst ` set m"
  by (induction m n rule: alias_get.induct) (auto simp: vn_eq_def)

lemma try_rename_value: "consistent \<rho> aliases \<Longrightarrow> \<rho> (vn_key (try_rename aliases n)) = \<rho> (vn_key n)"
  by (auto simp: try_rename_def consistent_def split: option.splits dest!: alias_get_mem)

lemma alias_statement_blank: "blank (alias_statement aliases s) = blank s"
  by (auto simp: blank_def alias_statement_def rename_statement_def comp_def
      split: statement.splits binding.splits register.splits)

lemma alias_statement_is_alias: "is_alias (alias_statement aliases s) = is_alias s"
  by (auto simp: is_alias_def alias_statement_def split: statement.splits binding.splits register.splits)

lemma alias_statement_values:
  "consistent \<rho> aliases \<Longrightarrow>
     map (\<lambda>n. \<rho> (vn_key n)) (name_list (alias_statement aliases s)) = map (\<lambda>n. \<rho> (vn_key n)) (name_list s)"
  by (auto simp: alias_statement_def name_list_def try_rename_value
      split: statement.splits binding.splits register.splits option.splits)

lemma alias_statement_holds:
  "consistent \<rho> aliases \<Longrightarrow> holds P \<rho> (alias_statement aliases s) \<longleftrightarrow> holds P \<rho> s"
  by (simp add: holds_def alias_statement_values alias_statement_blank alias_statement_is_alias)

lemma resolve_entry_consistent:
  "\<rho> (vn_key (fst ft)) = \<rho> (vn_key (snd ft)) \<Longrightarrow> consistent \<rho> (fst st) \<Longrightarrow>
     consistent \<rho> (fst (resolve_entry ft st))"
  by (auto simp: consistent_def resolve_entry_def vn_eq_def split: if_splits)

lemma fold_resolve_entry_consistent:
  "consistent \<rho> prev \<Longrightarrow> consistent \<rho> (fst st) \<Longrightarrow> consistent \<rho> (fst (fold resolve_entry prev st))"
proof (induction prev arbitrary: st)
  case (Cons ft prev)
  then have "consistent \<rho> (fst (resolve_entry ft st))"
    by (intro resolve_entry_consistent) (auto simp: consistent_def)
  moreover have "consistent \<rho> prev" using Cons.prems(1) by (simp add: consistent_def)
  ultimately show ?case using Cons.IH by simp
qed simp

lemma resolve_pass_consistent: "consistent \<rho> aliases \<Longrightarrow> consistent \<rho> (fst (resolve_pass aliases))"
  by (simp add: resolve_pass_def fold_resolve_entry_consistent)

lemma resolve_aliases_consistent:
  "resolve_aliases aliases = Some aliases' \<Longrightarrow> consistent \<rho> aliases \<Longrightarrow> consistent \<rho> aliases'"
proof (induction aliases aliases' rule: resolve_aliases.raw_induct [rotated, consumes 1])
  case (1 rec aliases aliases')
  then show ?case
    using resolve_pass_consistent [of \<rho> aliases]
    by (auto simp: Let_def case_prod_unfold split: if_splits)
qed

text \<open>Every collected pair comes from an alias binding, whose two names have the same value.\<close>

definition all_consistent :: "(vkey \<Rightarrow> 'v) \<Rightarrow> (value_name \<times> value_name list) list \<Rightarrow> bool" where
  "all_consistent \<rho> m \<longleftrightarrow> (\<forall>(k, vs)\<in>set m. \<forall>v\<in>set vs. \<rho> (vn_key k) = \<rho> (vn_key v))"

lemma alias_push_consistent:
  "all_consistent \<rho> m \<Longrightarrow> \<rho> (vn_key k) = \<rho> (vn_key v) \<Longrightarrow> all_consistent \<rho> (alias_push k v m)"
  by (induction k v m rule: alias_push.induct) (auto simp: all_consistent_def vn_eq_def)

lemma collect_alias_consistent:
  assumes "collect_alias m s = Some m'" and "all_consistent \<rho> m" and "holds P \<rho> s"
  shows "all_consistent \<rho> m'"
  using assms
  by (auto simp: collect_alias_def holds_def is_alias_def name_list_def Let_def alias_edge_def
      split: statement.splits if_splits list.splits option.splits value_name.splits prod.splits
      intro!: alias_push_consistent)

lemma fold_collect_consistent:
  "fold_opt collect_alias m ss = Some m' \<Longrightarrow> all_consistent \<rho> m \<Longrightarrow> \<forall>s\<in>set ss. holds P \<rho> s \<Longrightarrow>
     all_consistent \<rho> m'"
proof (induction ss arbitrary: m)
  case (Cons s ss)
  then obtain m1 where "collect_alias m s = Some m1" "fold_opt collect_alias m1 ss = Some m'"
    by (auto simp: bind_eq_Some_conv)
  with Cons show ?case using collect_alias_consistent by fastforce
qed simp

lemma single_aliases_consistent:
  "all_consistent \<rho> m \<Longrightarrow> consistent \<rho> (single_aliases fixed m)"
  by (fastforce simp: all_consistent_def consistent_def single_aliases_def length_Suc_conv split: if_splits)


text \<open>The entity of the code's own test, where an addition is given a name.\<close>

definition alias_entity :: "statement list \<Rightarrow> value_name \<Rightarrow> entity" where
  "alias_entity stmts out =
     \<lparr>ent_name = \<lparr>un_kind = UK_Unescaped ''pong'', un_source = NameID 0 [''pong'']\<rparr>,
      ent_inputs =
        [\<lparr>in_name = ''_i_op'', in_val_name = VN_Named 0 ''op'' (NS_Expr 0), in_ty = Ty_Int 6,
          in_no_mangle = None\<rparr>],
      ent_output = out, ent_output_type = Ty_Int 6, ent_statements = stmts\<rparr>"

definition alias_of :: "value_name \<Rightarrow> value_name \<Rightarrow> statement" where
  "alias_of n x = St_Binding (Binding n Op_Alias [x] (Ty_Int 6) None)"

definition sum_meaning :: "statement \<Rightarrow> int list \<Rightarrow> bool" where
  "sum_meaning s vals = (length vals = 3 \<and> vals ! 0 = vals ! 1 + vals ! 2)"

definition alias_example :: entity where
  "alias_example =
     alias_entity
       [St_Binding (Binding (VN_Expr 0) Op_Add [VN_Named 0 ''op'' (NS_Expr 0), VN_Expr 1] (Ty_Int 6) None),
        alias_of (VN_Named 0 ''a'' (NS_Expr 0)) (VN_Expr 0)]
       (VN_Expr 0)"

definition alias_result :: entity where
  "alias_result =
     alias_entity
       [St_Binding (Binding (VN_Named 0 ''a'' (NS_Expr 0)) Op_Add
          [VN_Named 0 ''op'' (NS_Expr 0), VN_Expr 1] (Ty_Int 6) None)]
       (VN_Named 0 ''a'' (NS_Expr 0))"

definition alias_values :: "vkey \<Rightarrow> int" where
  "alias_values k =
     (if k = Inl (0, ''op'') then 2 else if k = Inr 1 then 3
      else if k = Inr 0 \<or> k = Inl (0, ''a'') then 5 else 0)"

lemma alias_example_result: "flatten_aliases alias_example = Some alias_result"
  by code_simp


section \<open>Termination\<close>

definition remaining :: "(vkey \<Rightarrow> nat) \<Rightarrow> nat \<Rightarrow> alias_map \<Rightarrow> nat" where
  "remaining rank lim m = sum_list (map (\<lambda>kv. lim - rank (vn_key (snd kv))) m)"

definition ranked :: "(vkey \<Rightarrow> nat) \<Rightarrow> nat \<Rightarrow> alias_map \<Rightarrow> bool" where
  "ranked rank lim m \<longleftrightarrow>
     (\<forall>kv\<in>set m. rank (vn_key (fst kv)) < rank (vn_key (snd kv)) \<and> rank (vn_key (snd kv)) \<le> lim)"

lemma resolve_entry_ranked:
  assumes "rank (vn_key (fst ft)) < rank (vn_key (snd ft))" and "rank (vn_key (snd ft)) \<le> lim"
    and "ranked rank lim (fst st)"
  shows "ranked rank lim (fst (resolve_entry ft st))"
  using assms by (auto simp: ranked_def resolve_entry_def vn_eq_def split: if_splits)
    (fastforce dest: bspec)+

lemma resolve_entry_remaining:
  assumes "rank (vn_key (fst ft)) < rank (vn_key (snd ft))" and "rank (vn_key (snd ft)) \<le> lim"
  shows "remaining rank lim (fst (resolve_entry ft (m, c))) + (if \<not> c \<and> snd (resolve_entry ft (m, c)) then 1 else 0)
    \<le> remaining rank lim m"
  using assms
  by (induction m) (auto simp: remaining_def resolve_entry_def vn_eq_def split: if_splits)

lemma fold_resolve_ranked:
  assumes "ranked rank lim prev" and "ranked rank lim m"
  shows "ranked rank lim (fst (fold resolve_entry prev (m, c))) \<and>
    remaining rank lim (fst (fold resolve_entry prev (m, c))) +
      (if \<not> c \<and> snd (fold resolve_entry prev (m, c)) then 1 else 0) \<le> remaining rank lim m"
  using assms
proof (induction prev arbitrary: m c)
  case (Cons ft prev)
  obtain m1 c1 where st: "resolve_entry ft (m, c) = (m1, c1)" by force
  have ft: "rank (vn_key (fst ft)) < rank (vn_key (snd ft))" "rank (vn_key (snd ft)) \<le> lim"
    and prev: "ranked rank lim prev" using Cons.prems(1) by (auto simp: ranked_def)
  have "ranked rank lim m1"
    using resolve_entry_ranked [OF ft, of "(m, c)"] Cons.prems(2) st by simp
  note IH = Cons.IH [OF prev this, of c1]
  have "remaining rank lim m1 + (if \<not> c \<and> c1 then 1 else 0) \<le> remaining rank lim m"
    using resolve_entry_remaining [OF ft, of m c] st by simp
  with IH show ?case by (auto simp: st split: if_splits)
qed simp

lemma resolve_aliases_returns:
  "ranked rank lim m \<Longrightarrow> \<exists>m'. resolve_aliases m = Some m'"
proof (induction "remaining rank lim m" arbitrary: m rule: less_induct)
  case less
  obtain m1 c where p: "resolve_pass m = (m1, c)" by force
  have "ranked rank lim m1 \<and> (c \<longrightarrow> remaining rank lim m1 < remaining rank lim m)"
    using fold_resolve_ranked [OF less.prems less.prems, of False] p
    by (auto simp: resolve_pass_def split: if_splits)
  then show ?case
    using less.hyps [of m1] by (subst resolve_aliases.simps) (auto simp: p Let_def)
qed

text \<open>Along every alias a rank grows.\<close>

definition acyclic_by :: "(vkey \<Rightarrow> nat) \<Rightarrow> statement list \<Rightarrow> bool" where
  "acyclic_by rank stmts \<longleftrightarrow>
     (\<forall>s\<in>set stmts. case s of
        St_Binding b \<Rightarrow>
          b_operator b = Op_Alias \<longrightarrow>
            b_operands b \<noteq> [] \<and>
            (case alias_edge (b_name b) (hd (b_operands b)) of
               None \<Rightarrow> True | Some kv \<Rightarrow> rank (vn_key (fst kv)) < rank (vn_key (snd kv)))
      | _ \<Rightarrow> True)"

definition all_ranked :: "(vkey \<Rightarrow> nat) \<Rightarrow> (value_name \<times> value_name list) list \<Rightarrow> bool" where
  "all_ranked rank m \<longleftrightarrow>
     (\<forall>kvs\<in>set m. \<forall>v\<in>set (snd kvs). rank (vn_key (fst kvs)) < rank (vn_key v))"

lemma alias_push_ranked:
  "all_ranked rank m \<Longrightarrow> rank (vn_key k) < rank (vn_key v) \<Longrightarrow> all_ranked rank (alias_push k v m)"
  by (induction k v m rule: alias_push.induct) (auto simp: all_ranked_def vn_eq_def)

lemma collect_alias_ranked:
  assumes "acyclic_by rank [s]" and "all_ranked rank m"
  shows "\<exists>m'. collect_alias m s = Some m' \<and> all_ranked rank m'"
proof (cases s)
  case (St_Binding b)
  show ?thesis
  proof (cases "b_operator b = Op_Alias")
    case True
    then obtain x xs where x: "b_operands b = x # xs"
      using assms(1) St_Binding by (cases "b_operands b") (auto simp: acyclic_by_def)
    show ?thesis
    proof (cases "alias_edge (b_name b) x")
      case (Some kv)
      then have "rank (vn_key (fst kv)) < rank (vn_key (snd kv))"
        using assms(1) St_Binding True x by (simp add: acyclic_by_def)
      then show ?thesis
        using Some True x St_Binding alias_push_ranked [OF assms(2)]
        by (cases kv) (simp add: collect_alias_def)
    qed (use True x St_Binding assms(2) in \<open>simp add: collect_alias_def\<close>)
  qed (use St_Binding assms(2) in \<open>simp add: collect_alias_def\<close>)
qed (use assms(2) in \<open>simp_all add: collect_alias_def\<close>)

lemma fold_collect_ranked:
  "acyclic_by rank ss \<Longrightarrow> all_ranked rank m \<Longrightarrow>
     \<exists>m'. fold_opt collect_alias m ss = Some m' \<and> all_ranked rank m'"
proof (induction ss arbitrary: m)
  case (Cons s ss)
  have "acyclic_by rank [s]" and ss: "acyclic_by rank ss"
    using Cons.prems(1) by (simp_all add: acyclic_by_def)
  then obtain m1 where "collect_alias m s = Some m1" "all_ranked rank m1"
    using collect_alias_ranked Cons.prems(2) by blast
  with Cons.IH [OF ss] show ?case by auto
qed simp

lemma single_aliases_ranked:
  assumes "all_ranked rank m"
  shows "\<exists>lim. ranked rank lim (single_aliases fixed m)"
proof -
  let ?al = "single_aliases fixed m"
  let ?lim = "Max (insert 0 ((\<lambda>kv. rank (vn_key (snd kv))) ` set ?al))"
  have "rank (vn_key (fst kv)) < rank (vn_key (snd kv))" if "kv \<in> set ?al" for kv
    using assms that
    by (fastforce simp: all_ranked_def single_aliases_def length_Suc_conv split: if_splits)
  moreover have "rank (vn_key (snd kv)) \<le> ?lim" if "kv \<in> set ?al" for kv
    using that by (intro Max_ge) auto
  ultimately show ?thesis unfolding ranked_def by blast
qed

text \<open>C37: If no value is, through aliases, an alias of itself, and every alias has an operand, then
  the pass returns.\<close>

theorem flatten_terminates:
  assumes "acyclic_by rank (ent_statements e)"
  shows "\<exists>e'. flatten_aliases e = Some e'"
proof -
  have "all_ranked rank []" by (simp add: all_ranked_def)
  then obtain m where m: "fold_opt collect_alias [] (ent_statements e) = Some m" "all_ranked rank m"
    using fold_collect_ranked [OF assms] by blast
  then obtain lim where "ranked rank lim (single_aliases (unaliasable e) m)"
    using single_aliases_ranked by blast
  then show ?thesis
    using m(1) resolve_aliases_returns
    by (fastforce simp: flatten_aliases_def initial_aliases_def Let_def)
qed

theorem flatten_terminates_witness: "\<exists>e'. flatten_aliases alias_example = Some e'"
  by (rule flatten_terminates [where rank = "\<lambda>k. if k = Inl (0, ''a'') then 1 else 0"])
    (simp add: acyclic_by_def alias_example_def alias_entity_def alias_of_def alias_edge_def vn_key_def)

text \<open>Two expressions that alias each other are never resolved: the loop does not end.\<close>

lemma resolve_cycle: "resolve_aliases [(VN_Expr 2, VN_Expr 3), (VN_Expr 3, VN_Expr 2)] = None"
proof -
  let ?a = "[(VN_Expr 2, VN_Expr 3), (VN_Expr 3, VN_Expr 2)]"
  let ?b = "[(VN_Expr 2, VN_Expr 2), (VN_Expr 3, VN_Expr 2)]"
  have pass: "resolve_pass ?a = (?b, True)" "resolve_pass ?b = (?b, True)"
    by (simp_all add: resolve_pass_def resolve_entry_def vn_eq_def vn_key_def)
  have "m = ?a \<or> m = ?b \<Longrightarrow> False" if "resolve_aliases m = Some r" for m r
    using that
    by (induction m r rule: resolve_aliases.raw_induct [rotated, consumes 1])
      (elim disjE; force simp: pass Let_def)
  then show ?thesis by fastforce
qed

section \<open>What flattening loses\<close>

text \<open>a name that aliases an alias of a value that cannot be aliased away, such as a constant,
  loses its driver. Both bindings are removed, the first because its name is a key of the alias
  map and the second because its operand is, but nothing in the result defines the name.\<close>

theorem alias_of_alias_loses_driver:
  "flatten_aliases
     (alias_entity
        [St_Constant 0 (Ty_Int 6) (CV_Int 6),
         alias_of (VN_Expr 1) (VN_Expr 0),
         alias_of (VN_Named 1 ''a'' (NS_Expr 0)) (VN_Expr 1)]
        (VN_Named 1 ''a'' (NS_Expr 0))) =
   Some (alias_entity [St_Constant 0 (Ty_Int 6) (CV_Int 6)] (VN_Named 1 ''a'' (NS_Expr 0)))"
  by code_simp

text \<open>the clock and reset of a register, the condition of an assertion and the operands of a
  \<open>Set\<close> keep a name whose only definition is renamed.\<close>

theorem alias_keeps_dangling_names:
  "flatten_aliases
     (alias_entity
        [St_Binding (Binding (VN_Expr 0) Op_Not [VN_Named 0 ''op'' (NS_Expr 0)] Ty_Bool None),
         alias_of (VN_Named 1 ''rst'' (NS_Expr 0)) (VN_Expr 0),
         St_Register (Register (VN_Expr 5) (Ty_Int 6) (VN_Named 0 ''op'' (NS_Expr 0))
           (Some (VN_Expr 0, VN_Expr 5)) None (VN_Expr 5) None None),
         St_Assert (VN_Expr 0)]
        (VN_Expr 5)) =
   Some (alias_entity
        [St_Binding (Binding (VN_Named 1 ''rst'' (NS_Expr 0)) Op_Not [VN_Named 0 ''op'' (NS_Expr 0)] Ty_Bool None),
         St_Register (Register (VN_Expr 5) (Ty_Int 6) (VN_Named 0 ''op'' (NS_Expr 0))
           (Some (VN_Expr 0, VN_Expr 5)) None (VN_Expr 5) None None),
         St_Assert (VN_Expr 0)]
        (VN_Expr 5))"
  by code_simp

end
