(* ===== verification/Verilog.thy ===== *)
theory Verilog
  imports Mir_Names
begin

text \<open>
  spade-mir, \<open>verilog.rs\<close> and the tuple indices of \<open>codegen/util.rs\<close> and \<open>codegen/mod.rs\<close>: the
  snippets of Verilog the code generator writes, and the bit ranges it computes. \<open>BigUint\<close>
  subtraction panics below zero: \<open>None\<close>.

  The bit ranges are given the meaning Verilog gives them: a vector is a list of bits, the most
  significant one first; \<open>{a, b}\<close> is the concatenation of the lists; \<open>v[hi:lo]\<close> is \<open>slice hi lo v\<close>;
  and an assignment truncates or extends at the most significant end.
\<close>

section \<open>Snippets\<close>

definition assign :: "string \<Rightarrow> string \<Rightarrow> string" where
  "assign target val = ''assign '' @ target @ '' = '' @ val @ '';''"

definition localparam_size_spec :: "nat \<Rightarrow> string option" where
  "localparam_size_spec sz = map_option (\<lambda>n. ''['' @ show_nat n @ '':0]'') (nat_minus sz 1)"

definition size_spec :: "nat \<Rightarrow> string option" where
  "size_spec sz =
     (if sz = 1 then Some [] else map_option (\<lambda>n. ''['' @ show_nat n @ '':0]'') (nat_minus sz 1))"

definition logic :: "string \<Rightarrow> nat \<Rightarrow> string option" where
  "logic name sz = map_option (\<lambda>spec. ''logic'' @ spec @ '' '' @ name @ '';'') (size_spec sz)"

definition verilog_reg :: "string \<Rightarrow> nat \<Rightarrow> string option" where
  "verilog_reg name sz = map_option (\<lambda>spec. ''reg'' @ spec @ '' '' @ name @ '';'') (size_spec sz)"

section \<open>Tuple indices\<close>

datatype tuple_index =
    TI_None
  | TI_ZeroWidth
  | TI_Single nat
  | TI_Range (ti_left: nat) (ti_right: nat)

definition tuple_index_code :: "tuple_index \<Rightarrow> string option" where
  "tuple_index_code ti =
     (case ti of
        TI_None \<Rightarrow> Some []
      | TI_ZeroWidth \<Rightarrow> None
      | TI_Single i \<Rightarrow> Some (''['' @ show_nat i @ '']'')
      | TI_Range l r \<Rightarrow> Some (''['' @ show_nat l @ '':'' @ show_nat r @ '']''))"

definition compute_tuple_index :: "nat \<Rightarrow> nat list \<Rightarrow> tuple_index option" where
  "compute_tuple_index idx sizes =
     (if length sizes \<le> idx then None
      else let start_bit = sum_list (take idx sizes);
               target_width = sizes ! idx;
               end_bit = start_bit + target_width;
               total_width = sum_list sizes
           in if target_width = 0 then Some TI_ZeroWidth
              else if sum_list sizes = 1 then Some TI_None
              else if target_width = 1
              then map_option TI_Single (Option.bind (nat_minus total_width start_bit) (\<lambda>n. nat_minus n 1))
              else Option.bind (Option.bind (nat_minus total_width start_bit) (\<lambda>n. nat_minus n 1)) (\<lambda>l.
                     map_option (TI_Range l) (nat_minus total_width end_bit)))"

section \<open>Bit vectors\<close>

type_synonym bits = "bool list"

definition slice :: "nat \<Rightarrow> nat \<Rightarrow> bits \<Rightarrow> bits" where
  "slice hi lo v = take (hi + 1 - lo) (drop (length v - 1 - hi) v)"

definition resize_bits :: "nat \<Rightarrow> bits \<Rightarrow> bits" where
  "resize_bits w v = (if length v \<le> w then replicate (w - length v) False @ v else drop (length v - w) v)"

definition select_bits :: "tuple_index \<Rightarrow> bits \<Rightarrow> bits" where
  "select_bits ti v =
     (case ti of
        TI_None \<Rightarrow> v
      | TI_ZeroWidth \<Rightarrow> []
      | TI_Single i \<Rightarrow> slice i i v
      | TI_Range l r \<Rightarrow> slice l r v)"

lemma slice_middle:
  "hi + 1 = length b + length c \<Longrightarrow> lo = length c \<Longrightarrow> b \<noteq> [] \<Longrightarrow> slice hi lo (a @ b @ c) = b"
  by (simp add: slice_def)

lemma slice_prefix: "hi + 1 = length b + length c \<Longrightarrow> lo = length c \<Longrightarrow> b \<noteq> [] \<Longrightarrow> slice hi lo (b @ c) = b"
  using slice_middle [of hi b c lo "[]"] by simp

lemma resize_drop: "length v = w \<Longrightarrow> resize_bits w (u @ v) = v"
  by (cases u) (auto simp: resize_bits_def)

lemma concat_split:
  "i < length vs \<Longrightarrow> concat vs = concat (take i vs) @ vs ! i @ concat (drop (Suc i) vs)"
  by (subst id_take_nth_drop [of i vs]) auto

lemma sum_take_drop:
  "i < length sizes \<Longrightarrow>
     sum_list sizes = sum_list (take i sizes) + sizes ! i + sum_list (drop (Suc i) (sizes :: nat list))"
  by (subst id_take_nth_drop [of i sizes]) auto

text \<open>C18: indexing a tuple selects the member. For members of any sizes, concatenated in order as
  \<open>ConstructTuple\<close> does, the index computed for a member that is not empty is the range of
  exactly that member's bits; the computation never goes below zero.\<close>

theorem tuple_index_selects:
  assumes "i < length vs"
  shows "\<exists>ti. compute_tuple_index i (map length vs) = Some ti \<and> select_bits ti (concat vs) = vs ! i \<and>
    (tuple_index_code ti = None \<longleftrightarrow> vs ! i = [])"
proof -
  let ?sizes = "map length vs"
  let ?pre = "concat (take i vs)" and ?post = "concat (drop (Suc i) vs)"
  have len: "length ?pre = sum_list (take i ?sizes)" "length ?post = sum_list (drop (Suc i) ?sizes)"
    by (simp_all add: length_concat take_map drop_map)
  have split: "concat vs = ?pre @ vs ! i @ ?post" using assms by (rule concat_split)
  have total: "sum_list ?sizes = length ?pre + length (vs ! i) + length ?post"
    using sum_take_drop [of i ?sizes] assms len by simp
  consider (zero) "vs ! i = []" | (whole) "vs ! i \<noteq> []" "sum_list ?sizes = 1"
    | (single) "length (vs ! i) = 1" "sum_list ?sizes \<noteq> 1"
    | (range) "1 < length (vs ! i)" "sum_list ?sizes \<noteq> 1"
    by (cases "vs ! i"; cases "tl (vs ! i)") auto
  then show ?thesis
  proof cases
    case zero
    then show ?thesis using assms by (simp add: compute_tuple_index_def select_bits_def tuple_index_code_def)
  next
    case whole
    then have "?pre = []" "?post = []" using total by (cases "vs ! i"; simp)+
    then have "concat vs = vs ! i" by (simp only: split append_Nil append_Nil2)
    then show ?thesis
      using whole assms by (simp add: compute_tuple_index_def select_bits_def tuple_index_code_def)
  next
    case single
    then have "compute_tuple_index i ?sizes = Some (TI_Single (length ?post))"
      using assms total len by (simp add: compute_tuple_index_def nat_minus_def Let_def)
    moreover have "slice (length ?post) (length ?post) (?pre @ vs ! i @ ?post) = vs ! i"
      using single by (intro slice_middle) auto
    ultimately show ?thesis using single by (auto simp: select_bits_def split tuple_index_code_def)
  next
    case range
    then have "compute_tuple_index i ?sizes =
      Some (TI_Range (length (vs ! i) + length ?post - 1) (length ?post))"
      using assms total len by (auto simp: compute_tuple_index_def nat_minus_def Let_def)
    moreover have "slice (length (vs ! i) + length ?post - 1) (length ?post) (?pre @ vs ! i @ ?post) = vs ! i"
      using range by (intro slice_middle) auto
    ultimately show ?thesis using range by (auto simp: select_bits_def split tuple_index_code_def)
  qed
qed

theorem tuple_index_selects_witness:
  "\<exists>ti. compute_tuple_index 1 [2, 3] = Some ti \<and>
    select_bits ti [True, False, False, True, True] = [False, True, True] \<and>
    (tuple_index_code ti = None \<longleftrightarrow> False)"
  using tuple_index_selects [of 1 "[[True, False], [False, True, True]]"]
  by (simp add: eval_nat_numeral)

end
