(* ===== verification/Mir_Gating.thy ===== *)
theory Mir_Gating
  imports Verilog "HOL-Library.Multiset"
begin

text \<open>
  spade-mir, \<open>passes/auto_clock_gating.rs\<close>: a register of an enum with an empty variant 0 and one
  other variant is split into a register for the tag and one for the payload that keeps its value
  while the tag is 0. The id tracker is passed and returned.
\<close>

section \<open>The pass\<close>

definition split_trivial_tag_value ::
  "value_name \<Rightarrow> mir_type list list \<Rightarrow> statement list \<Rightarrow> id_tracker \<Rightarrow> loc option \<Rightarrow>
     (value_name \<times> value_name) \<times> statement list \<times> id_tracker" where
  "split_trivial_tag_value val variants statements ids l =
     (let (t, ids) = tracker_next ids;
          (p, ids) = tracker_next ids;
          payload_size = sum_list (map ty_size (variants ! 1))
      in ((VN_Expr t, VN_Expr p),
          statements @
            [St_Binding (Binding (VN_Expr t) (Op_RangeIndexBits payload_size (payload_size + 1)) [val] Ty_Bool l),
             St_Binding (Binding (VN_Expr p) (Op_RangeIndexBits 0 payload_size) [val]
               (Ty_Tuple (variants ! 1)) l)],
          ids))"

definition perform_trivial_gating ::
  "register \<Rightarrow> id_tracker \<Rightarrow> statement list option \<times> id_tracker" where
  "perform_trivial_gating r ids =
     (if r_initial r \<noteq> None then (None, ids)
      else (case r_ty r of
              Ty_Enum variants \<Rightarrow>
                if length variants = 2 \<and> length (variants ! 0) = 0
                then
                  let (tag_reg, ids) = tracker_next ids;
                      (payload_reg, ids) = tracker_next ids;
                      (payload_reg_value, ids) = tracker_next ids;
                      payload_type = Ty_Tuple (variants ! 1);
                      ((value_tag, value_payload), stmts, ids) =
                        split_trivial_tag_value (r_value r) variants [] ids (r_loc r);
                      ((reset_tag, reset_payload), stmts, ids) =
                        (case r_reset r of
                           Some (reset_trig, reset_val) \<Rightarrow>
                             let ((tag, payload), stmts, ids) =
                                   split_trivial_tag_value reset_val variants stmts ids (r_loc r)
                             in ((Some (reset_trig, tag), Some (reset_trig, payload)), stmts, ids)
                         | None \<Rightarrow> ((None, None), stmts, ids))
                  in (Some (stmts @
                        [St_Register (Register (VN_Expr tag_reg) Ty_Bool (r_clock r) reset_tag None
                           value_tag (r_loc r) None),
                         St_Binding (Binding (VN_Expr payload_reg_value) Op_Select
                           [value_tag, value_payload, VN_Expr payload_reg] payload_type (r_loc r)),
                         St_Register (Register (VN_Expr payload_reg) payload_type (r_clock r) reset_payload
                           None (VN_Expr payload_reg_value) (r_loc r) None),
                         St_Binding (Binding (r_name r) Op_Concat
                           [VN_Expr tag_reg, VN_Expr payload_reg] (r_ty r) (r_loc r))]),
                      ids)
                else (None, ids)
            | _ \<Rightarrow> (None, ids)))"

fun transform_statements :: "statement list \<Rightarrow> id_tracker \<Rightarrow> statement list \<times> id_tracker" where
  "transform_statements [] ids = ([], ids)"
| "transform_statements (s # ss) ids =
     (let (out, ids) =
            (case s of
               St_Register r \<Rightarrow>
                 (case perform_trivial_gating r ids of
                    (Some stmts, ids) \<Rightarrow> (stmts, ids)
                  | (None, ids) \<Rightarrow> ([s], ids))
             | _ \<Rightarrow> ([s], ids));
          (rest, ids) = transform_statements ss ids
      in (out @ rest, ids))"

section \<open>Behaviour over clock cycles\<close>

text \<open>
  The value of the statements the pass writes. An environment is settled if the name of every
  binding has the value of its operator; \<open>next_value\<close> is what a register holds after the next edge. A range of one bit is that bit, any other is \<open>[end:start]\<close> as the code generator writes it,
  truncated to the width of the type.
\<close>

type_synonym env = "vkey \<Rightarrow> bits"

definition binding_value :: "env \<Rightarrow> binding \<Rightarrow> bits option" where
  "binding_value \<rho> b =
     (let xs = map (\<lambda>n. \<rho> (vn_key n)) (b_operands b)
      in case b_operator b of
           Op_RangeIndexBits s e \<Rightarrow>
             Some (if e - s = 1 then slice s s (xs ! 0)
                   else resize_bits (ty_size (b_ty b)) (slice e s (xs ! 0)))
         | Op_Plain p \<Rightarrow>
             if p = P_Select then Some (if xs ! 0 = [True] then xs ! 1 else xs ! 2)
             else if p = P_Concat then Some (concat xs)
             else None
         | _ \<Rightarrow> None)"

definition settled :: "statement list \<Rightarrow> env \<Rightarrow> bool" where
  "settled ss \<rho> \<longleftrightarrow>
     (\<forall>s\<in>set ss. case s of
        St_Binding b \<Rightarrow> binding_value \<rho> b = Some (\<rho> (vn_key (b_name b)))
      | _ \<Rightarrow> True)"

definition next_value :: "env \<Rightarrow> register \<Rightarrow> bits" where
  "next_value \<rho> r =
     (case r_reset r of
        Some (trig, val) \<Rightarrow> if \<rho> (vn_key trig) = [True] then \<rho> (vn_key val) else \<rho> (vn_key (r_value r))
      | None \<Rightarrow> \<rho> (vn_key (r_value r)))"

definition registers_of :: "statement list \<Rightarrow> register list" where
  "registers_of ss = concat (map (\<lambda>s. case s of St_Register r \<Rightarrow> [r] | _ \<Rightarrow> []) ss)"

definition clock_edge :: "register list \<Rightarrow> env \<Rightarrow> env" where
  "clock_edge rs \<rho> = fold (\<lambda>r \<rho>'. \<rho>'(vn_key (r_name r) := next_value \<rho> r)) rs \<rho>"

text \<open>Two values of the enum are the same option: the payload only counts when the tag is 1.\<close>

definition same_option :: "nat \<Rightarrow> bits \<Rightarrow> bits \<Rightarrow> bool" where
  "same_option n a b \<longleftrightarrow>
     length a = n + 1 \<and> length b = n + 1 \<and> hd a = hd b \<and> (hd a \<longrightarrow> tl a = tl b)"

lemma tag_bits: "length v = n + 1 \<Longrightarrow> slice n n v = [hd v]"
  by (cases v) (auto simp: slice_def)

lemma payload_bits: "length v = n + 1 \<Longrightarrow> resize_bits n (slice n 0 v) = tl v"
  by (cases v) (auto simp: slice_def resize_bits_def)

lemma payload_bits_one: "length v = 2 \<Longrightarrow> slice 0 0 v = tl v"
  by (auto simp: slice_def length_Suc_conv eval_nat_numeral)

text \<open>What the pass writes for a register it splits, with the ids it draws.\<close>

definition payload_width :: "register \<Rightarrow> nat" where
  "payload_width r = (case r_ty r of Ty_Enum variants \<Rightarrow> sum_list (map ty_size (variants ! 1)) | _ \<Rightarrow> 0)"

definition split_at :: "nat \<Rightarrow> value_name \<Rightarrow> mir_type list \<Rightarrow> loc option \<Rightarrow> statement list" where
  "split_at i v ts l =
     [St_Binding (Binding (VN_Expr i) (Op_RangeIndexBits (sum_list (map ty_size ts)) (sum_list (map ty_size ts) + 1))
        [v] Ty_Bool l),
      St_Binding (Binding (VN_Expr (i + 1)) (Op_RangeIndexBits 0 (sum_list (map ty_size ts))) [v] (Ty_Tuple ts) l)]"

definition gated :: "nat \<Rightarrow> register \<Rightarrow> mir_type list \<Rightarrow> statement list" where
  "gated i r ts =
     split_at (i + 3) (r_value r) ts (r_loc r) @
     (case r_reset r of None \<Rightarrow> [] | Some (_, v) \<Rightarrow> split_at (i + 5) v ts (r_loc r)) @
     [St_Register (Register (VN_Expr i) Ty_Bool (r_clock r)
        (map_option (\<lambda>(t, v). (t, VN_Expr (i + 5))) (r_reset r)) None (VN_Expr (i + 3)) (r_loc r) None),
      St_Binding (Binding (VN_Expr (i + 2)) Op_Select [VN_Expr (i + 3), VN_Expr (i + 4), VN_Expr (i + 1)]
        (Ty_Tuple ts) (r_loc r)),
      St_Register (Register (VN_Expr (i + 1)) (Ty_Tuple ts) (r_clock r)
        (map_option (\<lambda>(t, v). (t, VN_Expr (i + 6))) (r_reset r)) None (VN_Expr (i + 2)) (r_loc r) None),
      St_Binding (Binding (r_name r) Op_Concat [VN_Expr i, VN_Expr (i + 1)] (r_ty r) (r_loc r))]"

lemma split_value:
  "split_trivial_tag_value v variants ss ids l =
     ((VN_Expr (next_id ids), VN_Expr (next_id ids + 1)),
      ss @ split_at (next_id ids) v (variants ! 1) l, ids\<lparr>next_id := next_id ids + 2\<rparr>)"
  by (simp add: split_trivial_tag_value_def tracker_next_def split_at_def Let_def)

lemma gating_unfold:
  assumes "r_ty r = Ty_Enum variants" and "length variants = 2" and "variants ! 0 = []" and "r_initial r = None"
  shows "perform_trivial_gating r ids =
    (Some (gated (next_id ids) r (variants ! 1)),
     ids\<lparr>next_id := next_id ids + (if r_reset r = None then 5 else 7)\<rparr>)"
proof (cases "r_reset r")
  case None
  with assms show ?thesis
    by (simp add: perform_trivial_gating_def split_value tracker_next_def gated_def eval_nat_numeral Let_def)
next
  case (Some tv)
  obtain t v where "tv = (t, v)" by force
  with assms Some show ?thesis
    by (simp add: perform_trivial_gating_def split_value tracker_next_def gated_def eval_nat_numeral Let_def)
qed

lemma gating_shape:
  assumes "perform_trivial_gating r ids = (Some ss, ids')"
  obtains variants where "r_ty r = Ty_Enum variants" and "length variants = 2" and "variants ! 0 = []"
    and "ss = gated (next_id ids) r (variants ! 1)" and "r_initial r = None"
    and "next_id ids' = next_id ids + (if r_reset r = None then 5 else 7)"
proof -
  have "r_initial r = None" and "\<exists>variants. r_ty r = Ty_Enum variants \<and> length variants = 2 \<and> variants ! 0 = []"
    using assms
    by (simp_all add: perform_trivial_gating_def split: if_splits mir_type.splits del: split_paired_Ex)
  then show ?thesis using that assms gating_unfold by fastforce
qed

lemma enum_option_size: "ty_size (Ty_Enum [[], ts]) = sum_list (map ty_size ts) + 1"
  by (simp add: tag_size.simps)

lemma settled_binding: "settled ss \<rho> \<Longrightarrow> St_Binding b \<in> set ss \<Longrightarrow> binding_value \<rho> b = Some (\<rho> (vn_key (b_name b)))"
  by (auto simp: settled_def)

lemma split_values:
  assumes "length (\<rho> (vn_key v)) = n + 1" and "n = sum_list (map ty_size ts)"
  shows "binding_value \<rho> (Binding x (Op_RangeIndexBits n (n + 1)) [v] Ty_Bool l) = Some [hd (\<rho> (vn_key v))]"
    and "binding_value \<rho> (Binding y (Op_RangeIndexBits 0 n) [v] (Ty_Tuple ts) l) = Some (tl (\<rho> (vn_key v)))"
  using assms tag_bits [of "\<rho> (vn_key v)" n] payload_bits [of "\<rho> (vn_key v)" n]
    payload_bits_one [of "\<rho> (vn_key v)"]
  by (auto simp: binding_value_def Let_def)

lemma split_settled:
  assumes "settled (split_at i v ts l) \<rho>" and "length (\<rho> (vn_key v)) = sum_list (map ty_size ts) + 1"
  shows "\<rho> (Inr i) = [hd (\<rho> (vn_key v))]" and "\<rho> (Inr (i + 1)) = tl (\<rho> (vn_key v))"
  using assms(1) split_values [of \<rho> v "sum_list (map ty_size ts)" ts, OF assms(2) refl]
  by (simp_all add: settled_def split_at_def vn_key_def)

lemma settled_append: "settled (xs @ ys) \<rho> \<longleftrightarrow> settled xs \<rho> \<and> settled ys \<rho>"
  by (auto simp: settled_def)

lemma registers_append: "registers_of (xs @ ys) = registers_of xs @ registers_of ys"
  by (simp add: registers_of_def)

lemma registers_gated:
  "registers_of (gated i r ts) =
     [Register (VN_Expr i) Ty_Bool (r_clock r)
        (map_option (\<lambda>(t, v). (t, VN_Expr (i + 5))) (r_reset r)) None (VN_Expr (i + 3)) (r_loc r) None,
      Register (VN_Expr (i + 1)) (Ty_Tuple ts) (r_clock r)
        (map_option (\<lambda>(t, v). (t, VN_Expr (i + 6))) (r_reset r)) None (VN_Expr (i + 2)) (r_loc r) None]"
  by (cases "r_reset r") (auto simp: registers_of_def gated_def split_at_def)

definition reset_values :: "register \<Rightarrow> value_name list" where
  "reset_values r = (case r_reset r of None \<Rightarrow> [] | Some (_, v) \<Rightarrow> [v])"

lemma gated_next:
  fixes \<rho> :: env and ts :: "mir_type list"
  defines "n \<equiv> sum_list (map ty_size ts)"
  assumes "settled (gated i r ts) \<rho>"
    and "length (\<rho> (vn_key (r_value r))) = n + 1"
    and "\<forall>v\<in>set (reset_values r). length (\<rho> (vn_key v)) = n + 1"
    and "length (\<rho> (Inr (i + 1))) = n"
  defines "\<rho>' \<equiv> clock_edge (registers_of (gated i r ts)) \<rho>"
  shows "same_option n (next_value \<rho> r) (\<rho>' (Inr i) @ \<rho>' (Inr (i + 1)))" and "length (\<rho>' (Inr (i + 1))) = n"
proof -
  have tag: "\<rho> (Inr (i + 3)) = [hd (\<rho> (vn_key (r_value r)))]"
    and payload: "\<rho> (Inr (i + 4)) = tl (\<rho> (vn_key (r_value r)))"
    using split_settled [of "i + 3" "r_value r" ts "r_loc r" \<rho>] assms(2,3)
    by (simp_all add: gated_def settled_append n_def vn_key_def eval_nat_numeral)
  have select: "\<rho> (Inr (i + 2)) = (if \<rho> (Inr (i + 3)) = [True] then \<rho> (Inr (i + 4)) else \<rho> (Inr (i + 1)))"
    using assms(2)
    by (auto simp: gated_def settled_append settled_def binding_value_def vn_key_def Let_def eval_nat_numeral)
  show "same_option n (next_value \<rho> r) (\<rho>' (Inr i) @ \<rho>' (Inr (i + 1)))"
    and "length (\<rho>' (Inr (i + 1))) = n"
  proof (atomize (full), cases "r_reset r")
    case None
    then show "same_option n (next_value \<rho> r) (\<rho>' (Inr i) @ \<rho>' (Inr (i + 1))) \<and> length (\<rho>' (Inr (i + 1))) = n"
      using tag payload select assms(3,5)
      by (simp add: \<rho>'_def registers_gated clock_edge_def next_value_def same_option_def vn_key_def)
  next
    case (Some tv)
    obtain t v where tv: "tv = (t, v)" by force
    then have "length (\<rho> (vn_key v)) = n + 1" using assms(4) Some by (simp add: reset_values_def)
    then have "\<rho> (Inr (i + 5)) = [hd (\<rho> (vn_key v))]" "\<rho> (Inr (i + 6)) = tl (\<rho> (vn_key v))"
      "length (\<rho> (vn_key v)) = n + 1"
      using split_settled [of "i + 5" v ts "r_loc r" \<rho>] assms(2) Some tv
      by (simp_all add: gated_def settled_append n_def vn_key_def eval_nat_numeral)
    then show "same_option n (next_value \<rho> r) (\<rho>' (Inr i) @ \<rho>' (Inr (i + 1))) \<and> length (\<rho>' (Inr (i + 1))) = n"
      using tag payload select assms(3,5) Some tv
      by (simp add: \<rho>'_def registers_gated clock_edge_def next_value_def same_option_def vn_key_def)
  qed
qed

text \<open>C12: a split register behaves as the original. In a settled circuit in which the register's
  value and reset value have the width of its type, after a clock edge and once the circuit has
  settled again, the register's name has the option the original register would hold.\<close>

theorem gating_preserves:
  assumes "perform_trivial_gating r ids = (Some ss, ids')"
    and "settled ss \<rho>"
    and "\<forall>v\<in>set (r_value r # reset_values r). length (\<rho> (vn_key v)) = ty_size (r_ty r)"
    and "length (\<rho> (Inr (tracker_peek ids + 1))) = ty_size (r_ty r) - 1"
    and "settled ss \<rho>'"
    and "\<forall>q\<in>set (registers_of ss). \<rho>' (vn_key (r_name q)) = clock_edge (registers_of ss) \<rho> (vn_key (r_name q))"
  shows "same_option (ty_size (r_ty r) - 1) (next_value \<rho> r) (\<rho>' (vn_key (r_name r)))"
proof -
  obtain variants where v: "r_ty r = Ty_Enum variants" "length variants = 2" "variants ! 0 = []"
    and ss: "ss = gated (next_id ids) r (variants ! 1)"
    using gating_shape [OF assms(1)] by metis
  let ?ts = "variants ! 1" and ?i = "next_id ids"
  have "variants = [[], ?ts]" using v(2,3) by (auto simp: eval_nat_numeral length_Suc_conv)
  then have w: "ty_size (r_ty r) = sum_list (map ty_size ?ts) + 1"
    using v(1) by (metis enum_option_size)
  have "\<rho>' (vn_key (r_name r)) = \<rho>' (Inr ?i) @ \<rho>' (Inr (?i + 1))"
    using assms(5) ss by (simp add: gated_def settled_append settled_def binding_value_def vn_key_def)
  then show ?thesis
    using gated_next(1) [of ?i r ?ts \<rho>] assms(2-4,6) ss w
    by (simp add: registers_gated tracker_peek_def vn_key_def)
qed

definition option_register :: register where
  "option_register =
     Register (VN_Named 1 ''r'' (NS_Expr 0)) (Ty_Enum [[], [Ty_Int 2]]) (VN_Named 1 ''clk'' (NS_Expr 0))
       None None (VN_Named 1 ''v'' (NS_Expr 0)) None None"

definition option_env :: "bits \<Rightarrow> bits \<Rightarrow> bits \<Rightarrow> env" where
  "option_env v tag payload k =
     (if k = Inl (1, ''v'') then v
      else if k = Inl (1, ''r'') then tag @ payload
      else if k = Inr 0 then tag
      else if k = Inr 1 then payload
      else if k = Inr 2 then (if hd v then tl v else payload)
      else if k = Inr 3 then [hd v]
      else tl v)"

lemma option_gated:
  "perform_trivial_gating option_register \<lparr>next_id = 0\<rparr> =
     (Some (gated 0 option_register [Ty_Int 2]), \<lparr>next_id = 5\<rparr>)"
  using gating_unfold [of option_register "[[], [Ty_Int 2]]" "\<lparr>next_id = 0\<rparr>"]
  by (simp add: option_register_def)

lemma option_settled:
  "settled (gated 0 option_register [Ty_Int 2]) (option_env [True, a, b] tag payload)"
  "settled (gated 0 option_register [Ty_Int 2]) (option_env [False, a, b] tag payload)"
  by (simp_all add: settled_def gated_def split_at_def option_register_def option_env_def
      binding_value_def vn_key_def slice_def resize_bits_def eval_nat_numeral)

theorem gating_preserves_witness:
  "same_option 2 [True, False, True]
     (option_env [False, True, False] [True] [False, True] (vn_key (VN_Named 1 ''r'' (NS_Expr 0))))"
proof -
  have "same_option (ty_size (r_ty option_register) - 1)
    (next_value (option_env [True, False, True] [False] [False, False]) option_register)
    (option_env [False, True, False] [True] [False, True] (vn_key (r_name option_register)))"
    by (rule gating_preserves [OF option_gated option_settled(1) _ _ option_settled(2)])
      (simp_all add: registers_gated clock_edge_def next_value_def option_register_def option_env_def
        reset_values_def tracker_peek_def vn_key_def enum_option_size [simplified])
  then show ?thesis
    by (simp add: option_register_def next_value_def option_env_def vn_key_def enum_option_size [simplified]
        numeral_2_eq_2)
qed

section \<open>Fresh names\<close>

definition defined_key :: "statement \<Rightarrow> vkey list" where
  "defined_key s =
     (case s of
        St_Binding b \<Rightarrow> [vn_key (b_name b)]
      | St_Register r \<Rightarrow> [vn_key (r_name r)]
      | St_Constant i _ _ \<Rightarrow> [Inr i]
      | _ \<Rightarrow> [])"

definition defined_keys :: "statement list \<Rightarrow> vkey list" where
  "defined_keys ss = concat (map defined_key ss)"

definition below :: "nat \<Rightarrow> vkey \<Rightarrow> bool" where
  "below n k = (case k of Inl _ \<Rightarrow> True | Inr i \<Rightarrow> i < n)"

lemma below_mono: "below n k \<Longrightarrow> n \<le> m \<Longrightarrow> below m k"
  by (auto simp: below_def split: sum.splits)

lemma gated_keys:
  "mset (defined_keys (gated i r ts)) =
     mset (vn_key (r_name r) # map Inr [i ..< i + (if r_reset r = None then 5 else 7)])"
  by (cases "r_reset r")
    (auto simp: defined_keys_def gated_def split_at_def defined_key_def vn_key_def upt_rec eval_nat_numeral)

lemma defined_keys_append: "defined_keys (xs @ ys) = defined_keys xs @ defined_keys ys"
  by (simp add: defined_keys_def)

lemma upt_split: "i \<le> j \<Longrightarrow> j \<le> k \<Longrightarrow> [i ..< k] = [i ..< j] @ [j ..< k]"
  using upt_add_eq_append [of i j "k - j"] by simp

lemma transform_keys:
  assumes "transform_statements ss ids = (out, ids')"
  shows "tracker_peek ids \<le> tracker_peek ids' \<and>
    mset (defined_keys out) =
      mset (defined_keys ss) + mset (map Inr [tracker_peek ids ..< tracker_peek ids'])"
  using assms
proof (induction ss ids arbitrary: out ids' rule: transform_statements.induct)
  case (2 s ss ids)
  obtain out1 ids1 out2 where step:
    "(case s of
        St_Register r \<Rightarrow>
          (case perform_trivial_gating r ids of (Some stmts, ids) \<Rightarrow> (stmts, ids) | (None, ids) \<Rightarrow> ([s], ids))
      | _ \<Rightarrow> ([s], ids)) = (out1, ids1)"
    and rest: "transform_statements ss ids1 = (out2, ids')" and out: "out = out1 @ out2"
    using "2.prems" by (auto simp: Let_def split: prod.splits)
  have ids_kept: "perform_trivial_gating r ids = (None, i1) \<Longrightarrow> i1 = ids" for r i1
    by (auto simp: perform_trivial_gating_def Let_def split: if_splits mir_type.splits prod.splits option.splits)
  have "tracker_peek ids \<le> tracker_peek ids1 \<and>
    mset (defined_keys out1) = mset (defined_key s) + mset (map Inr [tracker_peek ids ..< tracker_peek ids1])"
  proof (cases "\<exists>r gs i1. s = St_Register r \<and> perform_trivial_gating r ids = (Some gs, i1)")
    case True
    then obtain r gs i1 where r: "s = St_Register r" "perform_trivial_gating r ids = (Some gs, i1)" by blast
    from gating_shape [OF r(2)] obtain variants where
      "gs = gated (next_id ids) r (variants ! 1)"
      "next_id i1 = next_id ids + (if r_reset r = None then 5 else 7)" .
    then show ?thesis
      using step r gated_keys [of "next_id ids" r "variants ! 1"]
      by (auto simp: tracker_peek_def defined_key_def)
  next
    case False
    then have "out1 = [s] \<and> ids1 = ids"
      using step ids_kept by (auto split: statement.splits prod.splits option.splits)
    then show ?thesis by (simp add: defined_keys_def)
  qed
  moreover have "tracker_peek ids1 \<le> tracker_peek ids' \<and>
    mset (defined_keys out2) = mset (defined_keys ss) + mset (map Inr [tracker_peek ids1 ..< tracker_peek ids'])"
    using "2.IH" [OF step [symmetric] refl rest] by simp
  moreover have "defined_keys (s # ss) = defined_key s @ defined_keys ss" by (simp add: defined_keys_def)
  ultimately show ?case
    using out upt_split [of "tracker_peek ids" "tracker_peek ids1" "tracker_peek ids'"]
    by (auto simp only: defined_keys_append mset_append map_append ac_simps intro: order_trans)
qed (simp add: defined_keys_def)

text \<open>the pass keeps names unique. If the statements define every name once and no expression
  id that the tracker has yet to draw, so do the statements it returns with the new tracker, and
  everything defined before is still defined.\<close>

theorem gating_names_unique:
  assumes "transform_statements ss ids = (out, ids')"
    and "distinct (defined_keys ss)" and "\<forall>k\<in>set (defined_keys ss). below (tracker_peek ids) k"
  shows "distinct (defined_keys out) \<and> (\<forall>k\<in>set (defined_keys out). below (tracker_peek ids') k) \<and>
    set (defined_keys ss) \<subseteq> set (defined_keys out)"
proof -
  let ?fresh = "map Inr [tracker_peek ids ..< tracker_peek ids'] :: vkey list"
  have le: "tracker_peek ids \<le> tracker_peek ids'"
    and ms: "mset (defined_keys out) = mset (defined_keys ss @ ?fresh)"
    using transform_keys [OF assms(1)] by simp_all
  have "distinct (defined_keys ss @ ?fresh)"
    using assms(2,3) by (auto simp: distinct_map inj_on_def below_def)
  then have "distinct (defined_keys out)" by (metis ms mset_eq_imp_distinct_iff)
  moreover have "set (defined_keys out) = set (defined_keys ss) \<union> set ?fresh"
    by (metis ms set_append set_mset_mset)
  ultimately show ?thesis using assms(3) le by (auto intro: below_mono simp: below_def split: sum.splits)
qed

theorem gating_names_unique_witness:
  "distinct (defined_keys (fst (transform_statements [St_Register option_register] \<lparr>next_id = 0\<rparr>)))"
proof -
  have "distinct (defined_keys (gated 0 option_register [Ty_Int 2])) \<and>
    (\<forall>k\<in>set (defined_keys (gated 0 option_register [Ty_Int 2])). below (tracker_peek \<lparr>next_id = 5\<rparr>) k) \<and>
    set (defined_keys [St_Register option_register]) \<subseteq> set (defined_keys (gated 0 option_register [Ty_Int 2]))"
    by (rule gating_names_unique [of _ "\<lparr>next_id = 0\<rparr>"])
      (simp_all add: option_gated, simp_all add: defined_keys_def defined_key_def option_register_def vn_key_def below_def)
  then show ?thesis by (simp add: option_gated)
qed

end
