(* ===== verification/Mir_Expr_Code.thy ===== *)
theory Mir_Expr_Code
  imports Verilog Mir_Eval "HOL-Library.Monad_Syntax"
begin

text \<open>
  spade-mir, \<open>type_list.rs\<close> and the expressions of \<open>codegen/mod.rs\<close>: the Verilog text of an
  operator's forward and backward value. A \<open>Code\<close> is its lines with their indentation; the crate
  that lays it out as text is the parameter \<open>render\<close>. A panic (an operand that is missing, an
  assertion, an index or a subtraction out of range, with overflow checks on) is \<open>None\<close>.
\<close>

section \<open>Type lists\<close>

type_synonym type_list = "vkey \<rightharpoonup> mir_type"

definition type_list_empty :: type_list where
  "type_list_empty = (\<lambda>_. None)"

definition type_list_statement :: "statement \<Rightarrow> type_list \<Rightarrow> type_list" where
  "type_list_statement s m =
     (case s of
        St_Binding b \<Rightarrow> m(vn_key (b_name b) \<mapsto> b_ty b)
      | St_Register r \<Rightarrow> m(vn_key (r_name r) \<mapsto> r_ty r)
      | St_Constant i ty _ \<Rightarrow> m(vn_key (VN_Expr i) \<mapsto> ty)
      | _ \<Rightarrow> m)"

definition type_list_add_statements :: "type_list \<Rightarrow> statement list \<Rightarrow> type_list" where
  "type_list_add_statements m ss = fold type_list_statement ss m"

definition type_list_from_entity :: "entity \<Rightarrow> type_list" where
  "type_list_from_entity e =
     type_list_add_statements
       (fold (\<lambda>i m. m(vn_key (in_val_name i) \<mapsto> in_ty i)) (ent_inputs e) type_list_empty)
       (ent_statements e)"

definition type_list_index :: "type_list \<Rightarrow> value_name \<Rightarrow> mir_type option" where
  "type_list_index m n = m (vn_key n)"

section \<open>Code\<close>

type_synonym code = "(nat \<times> string) list"

definition code_line :: "nat \<Rightarrow> string \<Rightarrow> code" where
  "code_line n s = [(n, s)]"

definition code_lines :: "nat \<Rightarrow> string list \<Rightarrow> code" where
  "code_lines n ss = map (Pair n) ss"

definition code_opt :: "nat \<Rightarrow> string option \<Rightarrow> code" where
  "code_opt n s = (case s of None \<Rightarrow> [] | Some s \<Rightarrow> [(n, s)])"

definition code_nest :: "nat \<Rightarrow> code \<Rightarrow> code" where
  "code_nest n c = map (\<lambda>(k, s). (n + k, s)) c"

definition newline :: string where
  "newline = [CHR 0x0A]"

definition braces :: "string \<Rightarrow> string" where
  "braces s = ''{'' @ s @ ''}''"

definition brackets :: "string \<Rightarrow> string" where
  "brackets s = ''['' @ s @ '']''"

section \<open>Operators without fields\<close>

definition binop_code :: "string \<Rightarrow> binding \<Rightarrow> string list \<Rightarrow> string option" where
  "binop_code verilog b ops =
     (if length (b_operands b) = 2 \<and> 1 < length ops
      then Some (ops ! 0 @ '' '' @ verilog @ '' '' @ ops ! 1) else None)"

definition signed_binop_code :: "string \<Rightarrow> binding \<Rightarrow> string list \<Rightarrow> string option" where
  "signed_binop_code verilog b ops =
     (if length (b_operands b) = 2 \<and> 1 < length ops
      then Some (''$signed('' @ ops ! 0 @ '') '' @ verilog @ '' $signed('' @ ops ! 1 @ '')'') else None)"

definition unop_code :: "string \<Rightarrow> binding \<Rightarrow> string list \<Rightarrow> string option" where
  "unop_code verilog b ops =
     (if length (b_operands b) = 1 \<and> 0 < length ops then Some (verilog @ ops ! 0) else None)"

definition div_pow2_code :: "(code \<Rightarrow> string) \<Rightarrow> string \<Rightarrow> string list \<Rightarrow> string option" where
  "div_pow2_code render name ops = do {
     dividend \<leftarrow> nth_opt ops 0;
     divisor \<leftarrow> nth_opt ops 1;
     Some (render
       (code_line 0 ''always_comb begin'' @
        code_line 1 (''if ('' @ divisor @ '' == 0) begin'') @
        code_line 2 (name @ '' = '' @ dividend @ '';'') @
        code_line 1 ''end'' @
        code_line 1 ''else begin'' @
        code_line 2 (name @ '' = $signed($signed('' @ dividend @ '') + $signed(1 << ('' @ divisor @
          '' - 1))) >>> $signed('' @ divisor @ '');'') @
        code_line 1 ''end'' @
        code_line 0 ''end''))
   }"

definition gray2bin_rest :: "string \<Rightarrow> string \<Rightarrow> nat \<Rightarrow> nat \<Rightarrow> string" where
  "gray2bin_rest name oper num_bits i =
     (let n = num_bits - 2 - i
      in name @ brackets (show_nat n) @ '' = '' @ oper @ brackets (show_nat n) @ '' ^ '' @
         name @ brackets (show_nat (n + 1)) @ '';'')"

definition gray2bin_code :: "(code \<Rightarrow> string) \<Rightarrow> string \<Rightarrow> nat \<Rightarrow> string list \<Rightarrow> string option" where
  "gray2bin_code render name num_bits ops = do {
     oper \<leftarrow> nth_opt ops 0;
     (if num_bits < 2 ^ 128 then Some () else None);
     n \<leftarrow> nat_minus num_bits 1;
     m \<leftarrow> nat_minus num_bits 2;
     let first = name @ brackets (show_nat n) @ '' = '' @ oper @ brackets (show_nat n) @ '';'';
     let rest = join_strs newline (map (gray2bin_rest name oper num_bits) [0 ..< Suc m]);
     Some (render
       (code_line 0 ''always_comb begin'' @ code_line 1 first @ code_line 1 rest @ code_line 0 ''end''))
   }"

definition case_pattern :: "nat \<Rightarrow> nat \<Rightarrow> string" where
  "case_pattern num_branches i = replicate i CHR ''0'' @ ''1'' @ replicate (num_branches - i - 1) CHR ''?''"

definition match_code :: "(code \<Rightarrow> string) \<Rightarrow> string \<Rightarrow> string list \<Rightarrow> string option" where
  "match_code render name ops =
     (if length ops mod 2 \<noteq> 0 then None
      else let num_branches = length ops div 2;
               conditions = map (\<lambda>i. ops ! (i * 2)) [0 ..< num_branches];
               cases =
                 map (\<lambda>i. show_nat num_branches @ [CHR 0x27] @ ''b'' @ case_pattern num_branches i @ '': '' @
                        name @ '' = '' @ ops ! (i * 2 + 1) @ '';'')
                   [0 ..< num_branches]
           in Some (render
                (code_line 0 ''always_comb begin'' @
                 code_line 1 (''priority casez ('' @ braces (join_strs '', '' conditions) @ '')'') @
                 code_lines 2 cases @
                 code_line 2 (show_nat num_branches @ [CHR 0x27] @ ''b?: '' @ name @ '' = '' @ [CHR 0x27] @ ''x;'') @
                 code_line 1 ''endcase'' @
                 code_line 0 ''end'')))"

definition index_array_code :: "nat \<Rightarrow> string \<Rightarrow> string \<Rightarrow> string" where
  "index_array_code member_size arr index =
     (if member_size = 1 then arr @ brackets index
      else arr @ brackets (index @ '' * '' @ show_nat member_size @ ''+:'' @ show_nat member_size))"

definition construct_array_code :: "string list \<Rightarrow> string" where
  "construct_array_code ops = braces (join_strs '', '' (rev ops))"

fun plain_code ::
  "(code \<Rightarrow> string) \<Rightarrow> type_list \<Rightarrow> binding \<Rightarrow> value_name list \<Rightarrow> string list \<Rightarrow> plain_operator \<Rightarrow>
     string option" where
  "plain_code render tys b ops names P_Add = signed_binop_code ''+'' b names"
| "plain_code render tys b ops names P_UnsignedAdd = binop_code ''+'' b names"
| "plain_code render tys b ops names P_Sub = signed_binop_code ''-'' b names"
| "plain_code render tys b ops names P_UnsignedSub = binop_code ''-'' b names"
| "plain_code render tys b ops names P_Mul = signed_binop_code ''*'' b names"
| "plain_code render tys b ops names P_UnsignedMul = binop_code ''*'' b names"
| "plain_code render tys b ops names P_Div = signed_binop_code ''/'' b names"
| "plain_code render tys b ops names P_UnsignedDiv = binop_code ''/'' b names"
| "plain_code render tys b ops names P_Mod = signed_binop_code ''%'' b names"
| "plain_code render tys b ops names P_UnsignedMod = binop_code ''%'' b names"
| "plain_code render tys b ops names P_Eq = binop_code ''=='' b names"
| "plain_code render tys b ops names P_NotEq = binop_code ''!='' b names"
| "plain_code render tys b ops names P_Gt = signed_binop_code ''>'' b names"
| "plain_code render tys b ops names P_UnsignedGt = binop_code ''>'' b names"
| "plain_code render tys b ops names P_Lt = signed_binop_code ''<'' b names"
| "plain_code render tys b ops names P_UnsignedLt = binop_code ''<'' b names"
| "plain_code render tys b ops names P_Ge = signed_binop_code ''>='' b names"
| "plain_code render tys b ops names P_UnsignedGe = binop_code ''>='' b names"
| "plain_code render tys b ops names P_Le = signed_binop_code ''<='' b names"
| "plain_code render tys b ops names P_UnsignedLe = binop_code ''<='' b names"
| "plain_code render tys b ops names P_LeftShift = binop_code ''<<'' b names"
| "plain_code render tys b ops names P_RightShift = binop_code ''>>'' b names"
| "plain_code render tys b ops names P_ArithmeticRightShift = signed_binop_code ''>>>'' b names"
| "plain_code render tys b ops names P_LogicalAnd = binop_code ''&&'' b names"
| "plain_code render tys b ops names P_LogicalOr = binop_code ''||'' b names"
| "plain_code render tys b ops names P_LogicalXor = binop_code ''^'' b names"
| "plain_code render tys b ops names P_LogicalNot =
     (if length names = 1 then Some (''!'' @ names ! 0) else None)"
| "plain_code render tys b ops names P_BitwiseNot =
     (if length names = 1 then Some (''~'' @ names ! 0) else None)"
| "plain_code render tys b ops names P_BitwiseAnd = binop_code ''&'' b names"
| "plain_code render tys b ops names P_BitwiseOr = binop_code ''|'' b names"
| "plain_code render tys b ops names P_BitwiseXor = binop_code ''^'' b names"
| "plain_code render tys b ops names P_USub = unop_code ''-'' b names"
| "plain_code render tys b ops names P_Not = unop_code ''!'' b names"
| "plain_code render tys b ops names P_ReduceAnd = unop_code ''&'' b names"
| "plain_code render tys b ops names P_ReduceOr = unop_code ''|'' b names"
| "plain_code render tys b ops names P_ReduceXor = unop_code ''^'' b names"
| "plain_code render tys b ops names P_DivPow2 = div_pow2_code render (var_name (b_name b)) names"
| "plain_code render tys b ops names P_Truncate = do {
     x \<leftarrow> nth_opt names 0;
     n \<leftarrow> nat_minus (ty_size (b_ty b)) 1;
     Some (x @ brackets (show_nat n @ '':0''))
   }"
| "plain_code render tys b ops names P_Concat = Some (braces (join_strs '', '' names))"
| "plain_code render tys b ops names P_Match = match_code render (var_name (b_name b)) names"
| "plain_code render tys b ops names P_Select =
     (if length (b_operands b) = 3 \<and> 2 < length names
      then Some (names ! 0 @ '' ? '' @ names ! 1 @ '' : '' @ names ! 2) else None)"
| "plain_code render tys b ops names P_ConstructArray = Some (construct_array_code names)"
| "plain_code render tys b ops names P_IndexArray = do {
     arr \<leftarrow> nth_opt names 0;
     index \<leftarrow> nth_opt names 1;
     Some (index_array_code (ty_size (b_ty b)) arr index)
   }"
| "plain_code render tys b ops names P_IndexMemory = do {
     arr \<leftarrow> nth_opt names 0;
     index \<leftarrow> nth_opt names 1;
     Some (arr @ brackets index)
   }"
| "plain_code render tys b ops names P_ReadPort = map_option backward_var_name (nth_opt ops 0)"
| "plain_code render tys b ops names P_FlipPort = Some []"
| "plain_code render tys b ops names P_ReadMutWires = Some []"
| "plain_code render tys b ops names P_ConstructTuple =
     map_option (\<lambda>members. braces (join_strs '', '' (map var_name members)))
       (filter_opt (\<lambda>n. map_option (\<lambda>t. ty_size t \<noteq> 0) (type_list_index tys n)) ops)"
| "plain_code render tys b ops names P_Bitreverse = Some []"
| "plain_code render tys b ops names P_Alias = Some []"
| "plain_code render tys b ops names P_Nop = Some []"

end
