(* ===== verification/Mir_Field_Code.thy ===== *)
theory Mir_Field_Code
  imports Mir_Expr_Code
begin

text \<open>
  spade-mir, \<open>codegen/mod.rs\<close>: the Verilog text of the operators with fields (ranges, extensions,
  memories and enums) and the two functions that choose the text of an operator's forward and
  backward value. The bit ranges are computed by definitions of their own, and the lemmas relate
  them to the layout of the values.
\<close>

section \<open>Ranges and extensions\<close>

definition sign_extend_code :: "nat \<Rightarrow> nat \<Rightarrow> string list \<Rightarrow> string option" where
  "sign_extend_code extra width ops = do {
     x \<leftarrow> nth_opt ops 0;
     if extra = 0 then Some x
     else do {
       sign \<leftarrow> nat_minus width 1;
       if extra = 1 then Some (braces (x @ brackets (show_nat sign) @ '', '' @ x))
       else Some (braces (braces ('' '' @ show_nat extra @ '' '' @ braces ('' '' @ x @ brackets (show_nat sign) @ '' '')) @
         '', '' @ x))
     }
   }"

definition zero_extend_code :: "nat \<Rightarrow> string list \<Rightarrow> string option" where
  "zero_extend_code extra ops = do {
     x \<leftarrow> nth_opt ops 0;
     if extra = 0 then Some x
     else Some (braces (show_nat extra @ [CHR 0x27] @ ''b0, '' @ x))
   }"

definition range_index_array_code :: "mir_type \<Rightarrow> nat \<Rightarrow> nat \<Rightarrow> string list \<Rightarrow> string option" where
  "range_index_array_code self_type start stop ops = do {
     member_size \<leftarrow> (case self_type of Ty_Array inner _ \<Rightarrow> Some (ty_size inner) | _ \<Rightarrow> None);
     num_elems \<leftarrow> nat_minus stop start;
     x \<leftarrow> nth_opt ops 0;
     if member_size = 1 \<and> num_elems = 1 then Some (x @ brackets (show_nat start))
     else do {
       end_index \<leftarrow> nat_minus (stop * member_size) 1;
       Some (x @ brackets (show_nat end_index @ ''-:'' @ show_nat (member_size * num_elems)))
     }
   }"

definition range_index_bits_code :: "nat \<Rightarrow> nat \<Rightarrow> string list \<Rightarrow> string option" where
  "range_index_bits_code start stop ops = do {
     width \<leftarrow> nat_minus stop start;
     x \<leftarrow> nth_opt ops 0;
     Some (x @ brackets (if width = 1 then show_nat start else show_nat stop @ '':'' @ show_nat start))
   }"

section \<open>Memories\<close>

text \<open>
  The bits of a write port in the packed array of ports: the write enable, the bounds of the
  address and the bounds of the value.
\<close>

definition port_bits :: "nat \<Rightarrow> nat \<Rightarrow> nat \<Rightarrow> (nat \<times> (nat \<times> nat) \<times> (nat \<times> nat)) option" where
  "port_bits aw iw port = do {
     let full_port_width = 1 + aw + iw;
     we_index \<leftarrow> nat_minus (full_port_width * (port + 1)) 1;
     let addr_start = full_port_width * port + iw;
     addr_end \<leftarrow> (if aw = 1 then Some addr_start else nat_minus (addr_start + aw) 1);
     let write_value_start = port * full_port_width;
     write_value_end \<leftarrow> (if iw = 1 then Some write_value_start
                        else nat_minus (write_value_start + iw) 1);
     Some (we_index, (addr_end, addr_start), (write_value_end, write_value_start))
   }"

definition bits_text :: "nat \<Rightarrow> nat \<times> nat \<Rightarrow> string" where
  "bits_text width b =
     brackets (if width = 1 then show_nat (snd b) else show_nat (fst b) @ '':'' @ show_nat (snd b))"

definition write_port_code ::
  "(code \<Rightarrow> string) \<Rightarrow> string \<Rightarrow> string \<Rightarrow> nat \<Rightarrow> nat \<Rightarrow> nat \<Rightarrow> string option" where
  "write_port_code render name ports aw iw port = do {
     (we_index, addr_bits, value_bits) \<leftarrow> port_bits aw iw port;
     let addr = ports @ bits_text aw addr_bits;
     let write_value = ports @ bits_text iw value_bits;
     Some (render
       (code_line 0 (''if ('' @ ports @ brackets (show_nat we_index) @ '') begin'') @
        code_line 1 (name @ brackets addr @ '' <= '' @ write_value @ '';'') @
        code_line 0 ''end''))
   }"

definition memory_code ::
  "(code \<Rightarrow> string) \<Rightarrow> string \<Rightarrow> nat \<Rightarrow> nat \<Rightarrow> nat \<Rightarrow> statement list list option \<Rightarrow> string list \<Rightarrow>
     string option" where
  "memory_code render name ports aw iw initial ops = do {
     initial_block \<leftarrow>
       (case initial of
          None \<Rightarrow> Some []
        | Some vals \<Rightarrow> do {
            assignments \<leftarrow> mapM_opt (\<lambda>(i, v). do {
                val \<leftarrow> Option.bind (eval_statements v) as_string;
                Some (name @ brackets (show_nat i) @ '' = '' @ [CHR 0x27] @ ''b'' @ val @ '';'')
              }) (enumerate 0 vals);
            Some (code_line 0 ''initial begin'' @ code_lines 1 assignments @ code_line 0 ''end'')
          });
     (if ports < 2 ^ 64 then Some () else None);
     update_blocks \<leftarrow> mapM_opt (\<lambda>port. do {
         port_name \<leftarrow> nth_opt ops 1;
         write_port_code render name port_name aw iw port
       }) [0 ..< ports];
     clk \<leftarrow> nth_opt ops 0;
     Some (render
       (initial_block @
        code_line 0 (''always @(posedge '' @ clk @ '') begin'') @
        code_line 1 (join_strs newline update_blocks) @
        code_line 0 ''end''))
   }"

section \<open>Enums\<close>

definition construct_enum_code :: "mir_type \<Rightarrow> nat \<Rightarrow> nat \<Rightarrow> string list \<Rightarrow> string option" where
  "construct_enum_code ty variant n ops = do {
     let tag = tag_size n;
     member_size \<leftarrow>
       (case ty of
          Ty_Enum options \<Rightarrow> map_option (\<lambda>v. sum_list (map ty_size v)) (nth_opt options variant)
        | _ \<Rightarrow> None);
     padding_size \<leftarrow> Option.bind (nat_minus (ty_size ty) tag) (\<lambda>n. nat_minus n member_size);
     let padding_text =
       (if padding_size \<noteq> 0 then '', '' @ show_nat padding_size @ [CHR 0x27] @ ''bX'' else []);
     let ops_text =
       (if ops = [] then [] else (if tag \<noteq> 0 then '', '' else []) @ join_strs '', '' ops);
     let tag_text = (if tag \<noteq> 0 then show_nat tag @ [CHR 0x27] @ ''d'' @ show_nat variant else []);
     Some (braces (tag_text @ ops_text @ padding_text))
   }"

definition tag_bits_of :: "mir_type \<Rightarrow> (nat \<times> nat \<times> nat) option" where
  "tag_bits_of enum_ty = do {
     options \<leftarrow> assume_enum enum_ty;
     tag_end \<leftarrow> nat_minus (ty_size enum_ty) 1;
     tag_start \<leftarrow> nat_minus (ty_size enum_ty) (tag_size (length options));
     Some (tag_size (length options), tag_end, tag_start)
   }"

definition is_enum_variant_code :: "nat \<Rightarrow> mir_type \<Rightarrow> string list \<Rightarrow> string option" where
  "is_enum_variant_code variant enum_ty ops = do {
     (tag, tag_end, tag_start) \<leftarrow> tag_bits_of enum_ty;
     if tag = 0 then Some ''1''
     else do {
       x \<leftarrow> nth_opt ops 0;
       if ty_size enum_ty = 1 then Some (x @ '' == 1'' @ [CHR 0x27] @ ''d'' @ show_nat variant)
       else if tag_end = tag_start
       then Some (x @ brackets (show_nat tag_end) @ '' == '' @ show_nat tag @ [CHR 0x27] @ ''d'' @ show_nat variant)
       else Some (x @ brackets (show_nat tag_end @ '':'' @ show_nat tag_start) @ '' == '' @ show_nat tag @
              [CHR 0x27] @ ''d'' @ show_nat variant)
     }
   }"

text \<open>The range of a member, or \<open>None\<close> in the inner option where the whole value is taken.\<close>

definition enum_member_bits :: "mir_type \<Rightarrow> nat \<Rightarrow> nat \<Rightarrow> (nat \<times> nat) option option" where
  "enum_member_bits enum_ty variant mi = do {
     variant_list \<leftarrow> assume_enum enum_ty;
     let tag = tag_size (length variant_list);
     members \<leftarrow> nth_opt variant_list variant;
     member \<leftarrow> nth_opt members mi;
     let member_start = tag + sum_list (map ty_size (take mi members));
     let member_end = member_start + ty_size member;
     upper_idx \<leftarrow> Option.bind (nat_minus (ty_size enum_ty) member_start) (\<lambda>n. nat_minus n 1);
     lower_idx \<leftarrow> nat_minus (ty_size enum_ty) member_end;
     Some (if upper_idx = lower_idx \<and> tag = 0 then None else Some (upper_idx, lower_idx))
   }"

definition enum_member_code :: "mir_type \<Rightarrow> nat \<Rightarrow> nat \<Rightarrow> string list \<Rightarrow> string option" where
  "enum_member_code enum_ty variant mi ops = do {
     range \<leftarrow> enum_member_bits enum_ty variant mi;
     x \<leftarrow> nth_opt ops 0;
     Some (case range of
             None \<Rightarrow> x
           | Some (upper, lower) \<Rightarrow> x @ brackets (show_nat upper @ '':'' @ show_nat lower))
   }"

section \<open>Forward and backward expressions\<close>

definition forward_expression_code ::
  "(code \<Rightarrow> string) \<Rightarrow> type_list \<Rightarrow> binding \<Rightarrow> value_name list \<Rightarrow> string option" where
  "forward_expression_code render tys b ops =
     (let op_names = map var_name ops
      in case b_operator b of
           Op_Plain p \<Rightarrow> plain_code render tys b ops op_names p
         | Op_Gray2Bin n \<Rightarrow> gray2bin_code render (var_name (b_name b)) n op_names
         | Op_SignExtend extra sz \<Rightarrow> sign_extend_code extra sz op_names
         | Op_ZeroExtend extra \<Rightarrow> zero_extend_code extra op_names
         | Op_IndexTuple idx types \<Rightarrow> do {
             ti \<leftarrow> compute_tuple_index idx (map ty_size types);
             x \<leftarrow> nth_opt op_names 0;
             index \<leftarrow> tuple_index_code ti;
             Some (x @ index)
           }
         | Op_RangeIndexArray start stop \<Rightarrow> range_index_array_code (b_ty b) start stop op_names
         | Op_RangeIndexBits start stop \<Rightarrow> range_index_bits_code start stop op_names
         | Op_DeclClockedMemory ports aw iw _ initial \<Rightarrow>
             memory_code render (var_name (b_name b)) ports aw iw initial op_names
         | Op_ConstructEnum variant n \<Rightarrow> construct_enum_code (b_ty b) variant n op_names
         | Op_IsEnumVariant variant enum_ty \<Rightarrow> is_enum_variant_code variant enum_ty op_names
         | Op_EnumMember enum_ty variant i \<Rightarrow> enum_member_code enum_ty variant i op_names
         | Op_Instance _ _ _ \<Rightarrow> Some [])"

definition backward_range_index_code ::
  "mir_type \<Rightarrow> nat \<Rightarrow> nat \<Rightarrow> string list \<Rightarrow> string option" where
  "backward_range_index_code self_type start stop ops = do {
     member_size \<leftarrow> backward_size self_type;
     num_elems \<leftarrow> nat_minus stop start;
     x \<leftarrow> nth_opt ops 0;
     if member_size = 1 \<and> num_elems = 1 then Some (x @ brackets (show_nat start))
     else Some (x @ brackets (show_nat start @ '' * '' @ show_nat member_size @ ''+:'' @
            show_nat (member_size * num_elems)))
   }"

text \<open>Every operator that is not named here panics: it cannot have a backward value.\<close>

definition backward_expression_code ::
  "type_list \<Rightarrow> binding \<Rightarrow> value_name list \<Rightarrow> string option" where
  "backward_expression_code tys b ops =
     (let op_names = map backward_var_name ops; fwd_op_names = map var_name ops
      in case b_operator b of
           Op_Plain p \<Rightarrow>
             if p = P_ConstructArray then Some (construct_array_code op_names)
             else if p = P_IndexArray then do {
               member_size \<leftarrow> backward_size (b_ty b);
               arr \<leftarrow> nth_opt op_names 0;
               index \<leftarrow> nth_opt fwd_op_names 1;
               Some (index_array_code member_size arr index)
             }
             else if p = P_ConstructTuple then
               map_option (\<lambda>members. braces (join_strs '', '' (map backward_var_name members)))
                 (filter_opt (\<lambda>n. map_option (\<lambda>s. s \<noteq> 0) (Option.bind (type_list_index tys n) backward_size)) ops)
             else if p = P_FlipPort \<or> p = P_ReadMutWires \<or> p = P_Alias \<or> p = P_Nop then Some []
             else None
         | Op_RangeIndexArray start stop \<Rightarrow> backward_range_index_code (b_ty b) start stop op_names
         | Op_IndexTuple idx types \<Rightarrow>
             if idx < length types \<and> types ! idx = b_ty b
             then do {
               sizes \<leftarrow> mapM_opt backward_size types;
               ti \<leftarrow> compute_tuple_index idx sizes;
               x \<leftarrow> nth_opt op_names 0;
               index \<leftarrow> tuple_index_code ti;
               Some (x @ index)
             }
             else None
         | Op_Instance _ _ _ \<Rightarrow> Some []
         | _ \<Rightarrow> None)"

section \<open>Members of enums\<close>

text \<open>
  A value of an enum is its tag, the members of its variant in order and padding. The code takes
  the whole value for a member of one bit of an enum without tag, which is right only if the enum
  has one bit.
\<close>

lemma max_list_ge: "x \<in> set xs \<Longrightarrow> \<exists>m. max_list xs = Some m \<and> x \<le> m"
  by (induction xs rule: max_list.induct) (auto split: option.splits)

lemma enum_fits:
  assumes "v < length vs"
  shows "tag_size (length vs) + sum_list (map ty_size (vs ! v)) \<le> ty_size (Ty_Enum vs)"
  using max_list_ge [of "sum_list (map ty_size (vs ! v))" "map (\<lambda>m. sum_list (map ty_size m)) vs"] assms
  by auto

definition enum_bits :: "bits \<Rightarrow> bits list \<Rightarrow> bits \<Rightarrow> bits" where
  "enum_bits tag members padding = tag @ concat members @ padding"

definition enum_shaped :: "mir_type list list \<Rightarrow> nat \<Rightarrow> bits \<Rightarrow> bits list \<Rightarrow> bits \<Rightarrow> bool" where
  "enum_shaped vs v tag members padding \<longleftrightarrow>
     v < length vs \<and> length tag = tag_size (length vs) \<and> map length members = map ty_size (vs ! v) \<and>
     length (enum_bits tag members padding) = ty_size (Ty_Enum vs)"



text \<open>A one-bit member of an enum with one variant and more members is read as the whole value, so
  the assignment keeps the last bit of the last member instead.\<close>

theorem enum_bit_member_reads_all:
  "enum_member_code (Ty_Enum [[Ty_Bool, Ty_Int 8]]) 0 0 [''x''] = Some ''x'' \<and>
   enum_bits [] [[True], [False, False, False, False, False, False, False, False]] [] =
     [True, False, False, False, False, False, False, False, False]"
  by (simp add: enum_member_code_def enum_member_bits_def assume_enum_def nth_opt_def nat_minus_def
      enum_bits_def)

section \<open>Tags\<close>

fun nat_bits :: "nat \<Rightarrow> nat \<Rightarrow> bits" where
  "nat_bits 0 n = []"
| "nat_bits (Suc w) n = nat_bits w (n div 2) @ [odd n]"

lemma length_nat_bits [simp]: "length (nat_bits w n) = w"
  by (induction w arbitrary: n) auto

lemma nat_bits_inject: "m < 2 ^ w \<Longrightarrow> n < 2 ^ w \<Longrightarrow> nat_bits w m = nat_bits w n \<longleftrightarrow> m = n"
proof (induction w arbitrary: m n)
  case (Suc w)
  then have "m div 2 < 2 ^ w" "n div 2 < 2 ^ w" by auto
  then have "nat_bits w (m div 2) = nat_bits w (n div 2) \<longleftrightarrow> m div 2 = n div 2" by (rule Suc.IH)
  moreover have "m = n \<longleftrightarrow> m div 2 = n div 2 \<and> odd m = odd n"
    by (metis odd_two_times_div_two_succ even_two_times_div_two)
  ultimately show ?case by auto
qed simp



text \<open>Testing the variant of an enum without bits subtracts below zero, although the test is then the
  constant 1.\<close>

theorem unit_enum_test_panics:
  "is_enum_variant_code 0 (Ty_Enum [[]]) [''x''] = None \<and>
   is_enum_variant_code 0 (Ty_Enum [[Ty_Bool]]) [''x''] = Some ''1''"
  by (simp add: is_enum_variant_code_def tag_bits_of_def assume_enum_def nat_minus_def)

section \<open>Arrays\<close>

text \<open>An array is written with its first element last.\<close>

definition array_bits :: "bits list \<Rightarrow> bits" where
  "array_bits es = concat (rev es)"

lemma length_array_bits: "\<forall>e\<in>set es. length e = m \<Longrightarrow> length (array_bits es) = length es * m"
  by (induction es) (auto simp: array_bits_def)

lemma array_bits_append: "array_bits (xs @ ys) = array_bits ys @ array_bits xs"
  by (simp add: array_bits_def)

lemma array_slice:
  assumes "\<forall>e\<in>set es. length e = m" and "0 < m" and "start < stop" and "stop \<le> length es"
  shows "slice (stop * m - 1) (start * m) (array_bits es) = array_bits (take (stop - start) (drop start es))"
proof -
  let ?a = "drop stop es" and ?b = "take (stop - start) (drop start es)" and ?c = "take start es"
  have b: "length (array_bits ?b) = (stop - start) * m" and c: "length (array_bits ?c) = start * m"
    using assms length_array_bits [of ?b m] length_array_bits [of ?c m]
    by (auto dest!: in_set_takeD in_set_dropD)
  have "es = ?c @ ?b @ ?a"
    using assms(3,4)
    by (metis append_take_drop_id drop_drop le_add_diff_inverse2 less_imp_le_nat add.commute)
  then have "array_bits es = array_bits ?a @ array_bits ?b @ array_bits ?c"
    by (metis array_bits_append append_assoc)
  moreover have "slice (stop * m - 1) (start * m) (array_bits ?a @ array_bits ?b @ array_bits ?c) = array_bits ?b"
  proof (rule slice_middle)
    have "(stop - start) * m + start * m = stop * m"
      using assms(3) by (simp add: flip: distrib_right)
    then show "stop * m - 1 + 1 = length (array_bits ?b) + length (array_bits ?c)"
      using b c assms(2,3) by simp
    show "array_bits ?b \<noteq> []" using b assms(2,3) by (metis less_numeral_extra(3) list.size(3) mult_pos_pos zero_less_diff)
  qed (simp add: c)
  ultimately show ?thesis by simp
qed

text \<open>C27: A range of an array is read in the right place: for elements of equal width, the text selects the
  bits that an array of just the elements of the range has. A single one-bit element is selected by
  its index.\<close>

theorem range_index_selects:
  assumes "\<forall>e\<in>set es. length e = ty_size inner" and "0 < ty_size inner"
    and "start < stop" and "stop \<le> length es"
  shows "range_index_array_code (Ty_Array inner (stop - start)) start stop [x] =
      Some (x @ brackets
        (if ty_size inner = 1 \<and> stop - start = 1 then show_nat start
         else show_nat (stop * ty_size inner - 1) @ ''-:'' @ show_nat (ty_size inner * (stop - start)))) \<and>
    slice (stop * ty_size inner - 1) (stop * ty_size inner - ty_size inner * (stop - start)) (array_bits es) =
      array_bits (take (stop - start) (drop start es))"
proof -
  have "stop * ty_size inner - ty_size inner * (stop - start) = start * ty_size inner"
    using assms(3) by (simp add: algebra_simps diff_mult_distrib2)
  moreover have "1 \<le> stop * ty_size inner" using assms(2,3) by (simp add: Suc_le_eq)
  ultimately show ?thesis
    using array_slice [OF assms] assms(3)
    by (simp add: range_index_array_code_def nth_opt_def nat_minus_def)
qed

theorem range_index_selects_witness:
  "range_index_array_code (Ty_Array (Ty_Int 2) 1) 1 2 [''x''] =
     Some (''x'' @ brackets (show_nat 3 @ ''-:'' @ show_nat 2)) \<and>
   slice 3 2 (array_bits [[True, False], [False, True], [True, True]]) = [False, True]"
  using range_index_selects [of "[[True, False], [False, True], [True, True]]" "Ty_Int 2" 1 2 "''x''"]
  by (simp add: array_bits_def del: show_nat.simps)

text \<open>An element of an array is selected by its index, which the text multiplies by the width.\<close>

theorem array_index_selects:
  assumes "\<forall>e\<in>set es. length e = m" and "0 < m" and "i < length es"
  shows "slice (i * m + m - 1) (i * m) (array_bits es) = es ! i \<and>
    index_array_code m arr (show_nat i) =
      arr @ brackets (if m = 1 then show_nat i
        else show_nat i @ '' * '' @ show_nat m @ ''+:'' @ show_nat m)"
proof -
  have "take (Suc i - i) (drop i es) = [es ! i]"
    using assms(3) by (metis Cons_nth_drop_Suc Suc_diff_le diff_self_eq_0 le_refl take_Suc_Cons take0)
  then show ?thesis
    using array_slice [OF assms(1,2), of i "Suc i"] assms(3)
    by (simp add: index_array_code_def array_bits_def add.commute)
qed

theorem array_index_selects_witness:
  "slice 3 2 (array_bits [[True, False], [False, True], [True, True]]) = [False, True] \<and>
   index_array_code 2 ''x'' (show_nat 1) =
     ''x'' @ brackets (show_nat 1 @ '' * '' @ show_nat 2 @ ''+:'' @ show_nat 2)"
  using array_index_selects [of "[[True, False], [False, True], [True, True]]" 2 1 "''x''"]
  by (simp del: show_nat.simps)

text \<open>The backward text of a range takes the width of the whole range for the width of an element: of
  an array of two-bit wires, the elements 1 to 3 are read from bit 4 on, eight bits wide, instead of
  from bit 2 on, four bits wide.\<close>

theorem backward_range_misplaced:
  "backward_range_index_code (Ty_Array (Ty_Backward (Ty_Int 2)) 2) 1 3 [''x''] = Some ''x[1 * 4+:8]'' \<and>
   backward_size (Ty_Array (Ty_Backward (Ty_Int 2)) 2) = Some 4"
  by code_simp

section \<open>Match\<close>

text \<open>A pattern of \<open>casez\<close> against the bits of the conditions; \<open>?\<close> stands for any bit.\<close>

fun casez_matches :: "string \<Rightarrow> bits \<Rightarrow> bool" where
  "casez_matches [] bs = (bs = [])"
| "casez_matches (c # cs) [] = False"
| "casez_matches (c # cs) (b # bs) =
     ((c = CHR ''?'' \<or> b = (c = CHR ''1'')) \<and> casez_matches cs bs)"

lemma casez_wild: "casez_matches (replicate n CHR ''?'') bs \<longleftrightarrow> length bs = n"
proof (induction n arbitrary: bs)
  case (Suc n)
  then show ?case by (cases bs) auto
qed simp

lemma casez_zeros:
  "casez_matches (replicate i CHR ''0'' @ cs) bs \<longleftrightarrow>
     i \<le> length bs \<and> (\<forall>j<i. \<not> bs ! j) \<and> casez_matches cs (drop i bs)"
proof (induction i arbitrary: bs)
  case (Suc i)
  then show ?case by (cases bs) (auto simp: less_Suc_eq_0_disj)
qed simp

text \<open>C20: The pattern of a branch matches exactly when its condition is the first that holds, so at most
  one branch is selected, and one is if any condition holds.\<close>

theorem match_selects_first:
  assumes "length conds = n" and "i < n"
  shows "casez_matches (case_pattern n i) conds \<longleftrightarrow> conds ! i \<and> (\<forall>j<i. \<not> conds ! j)"
proof -
  have "drop i conds = conds ! i # drop (Suc i) conds" using assms by (simp add: Cons_nth_drop_Suc)
  then show ?thesis
    using assms by (auto simp: case_pattern_def casez_zeros casez_wild)
qed

theorem match_selects_first_witness:
  "casez_matches (case_pattern 3 1) [False, True, True] \<longleftrightarrow> True \<and> \<not> False"
  using match_selects_first [of "[False, True, True]" 3 1] by (simp add: less_Suc_eq)

section \<open>Write ports\<close>

text \<open>
  The ports of a memory are an array of triples of a write enable, an address and a value.
\<close>

definition packed_ports :: "(bool \<times> bits \<times> bits) list \<Rightarrow> bits" where
  "packed_ports ps = array_bits (map (\<lambda>(we, addr, val). we # addr @ val) ps)"

text \<open>C25: The text of a write port reads the fields of that port: with addresses and values of the
  memory's widths, the three ranges select the write enable, the address and the value.\<close>

theorem write_port_fields:
  assumes "\<forall>p\<in>set ps. length (fst (snd p)) = aw \<and> length (snd (snd p)) = iw"
    and "0 < aw" and "0 < iw" and "i < length ps" and "ps ! i = (we, addr, val)"
  shows "\<exists>wi a_hi a_lo v_hi v_lo. port_bits aw iw i = Some (wi, (a_hi, a_lo), (v_hi, v_lo)) \<and>
    slice wi wi (packed_ports ps) = [we] \<and> slice a_hi a_lo (packed_ports ps) = addr \<and>
    slice v_hi v_lo (packed_ports ps) = val"
proof -
  let ?w = "1 + aw + iw" and ?row = "\<lambda>(we, addr, val). we # addr @ (val :: bits)"
  let ?pre = "array_bits (map ?row (drop (Suc i) ps))" and ?post = "array_bits (map ?row (take i ps))"
  have rows: "\<forall>e\<in>set (map ?row ps). length e = ?w" using assms(1) by auto
  have post: "length ?post = i * ?w"
    using length_array_bits [of "map ?row (take i ps)" ?w] rows assms(4)
    by (auto dest: in_set_takeD)
  have "map ?row ps = map ?row (take i ps) @ map ?row [ps ! i] @ map ?row (drop (Suc i) ps)"
    using assms(4) id_take_nth_drop [of i ps] by (metis append_Cons append_Nil map_append)
  then have "map ?row ps = map ?row (take i ps) @ [we # addr @ val] @ map ?row (drop (Suc i) ps)"
    using assms(5) by simp
  then have "packed_ports ps = ?pre @ (we # addr @ val) @ ?post"
    by (simp add: packed_ports_def array_bits_def)
  then have packed: "packed_ports ps = ?pre @ [we] @ (addr @ val @ ?post)"
    "packed_ports ps = (?pre @ [we]) @ addr @ (val @ ?post)"
    "packed_ports ps = (?pre @ [we] @ addr) @ val @ ?post" by simp_all
  have len: "length addr = aw" "length val = iw"
    using assms(1,4,5) by (metis nth_mem fst_conv snd_conv)+
  have "slice (?w * (i + 1) - 1) (?w * (i + 1) - 1) (packed_ports ps) = [we]"
    unfolding packed(1) by (rule slice_middle) (use len post assms(2,3) in \<open>auto simp: algebra_simps\<close>)
  moreover have "slice (?w * i + iw + aw - 1) (?w * i + iw) (packed_ports ps) = addr"
    unfolding packed(2) by (rule slice_middle) (use len post assms(2,3) in \<open>auto simp: algebra_simps\<close>)
  moreover have "slice (i * ?w + iw - 1) (i * ?w) (packed_ports ps) = val"
    unfolding packed(3) by (rule slice_middle) (use len post assms(2,3) in \<open>auto simp: algebra_simps\<close>)
  moreover have "port_bits aw iw i =
    Some (?w * (i + 1) - 1, (?w * i + iw + aw - 1, ?w * i + iw), (i * ?w + iw - 1, i * ?w))"
    using assms(2,3) by (auto simp: port_bits_def nat_minus_def Let_def)
  ultimately show ?thesis by blast
qed

theorem write_port_fields_witness:
  "\<exists>wi a_hi a_lo v_hi v_lo. port_bits 1 2 1 = Some (wi, (a_hi, a_lo), (v_hi, v_lo)) \<and>
    slice wi wi (packed_ports [(True, [True], [True, True]), (False, [True], [False, True])]) = [False] \<and>
    slice a_hi a_lo (packed_ports [(True, [True], [True, True]), (False, [True], [False, True])]) = [True] \<and>
    slice v_hi v_lo (packed_ports [(True, [True], [True, True]), (False, [True], [False, True])]) = [False, True]"
  by (rule write_port_fields) auto

end
