(* ===== verification/Mir_Wal.thy ===== *)
theory Mir_Wal
  imports Mir_Gating
begin

text \<open>
  spade-mir, \<open>wal.rs\<close>: traced registers and trace statements become aliases with the names the WAL
  tool looks for. The optional tracker of name ids is \<open>None\<close> for code generation.
\<close>

type_synonym wal_ids = "id_tracker \<times> id_tracker option"

definition wal_alias ::
  "value_name \<Rightarrow> string \<Rightarrow> string \<Rightarrow> mir_type \<Rightarrow> id_tracker option \<Rightarrow> statement \<times> id_tracker option" where
  "wal_alias source prefix suffix ty names =
     (let (i, names) =
            (case names of
               None \<Rightarrow> (0, None)
             | Some t \<Rightarrow> (let (i, t) = tracker_next t in (i, Some t)))
      in (St_Binding (Binding (VN_Named i (prefix @ suffix) (source_of source)) Op_Alias [source] ty None),
          names))"

definition wal_statement :: "statement \<Rightarrow> wal_ids \<Rightarrow> statement list \<times> wal_ids" where
  "wal_statement s st =
     (case s of
        St_Register r \<Rightarrow>
          (case r_traced r of
             None \<Rightarrow> ([s], st)
           | Some traced_name \<Rightarrow>
               let (exprs, names) = st;
                   prefix = unescaped_var_name traced_name;
                   (state, names) = wal_alias traced_name prefix ''__wal_fsm_state'' (r_ty r) names;
                   (clk, names) = wal_alias (r_clock r) prefix ''__wal_fsm_clk'' Ty_Bool names;
                   (rst_signal, const, exprs) =
                     (case r_reset r of
                        Some (trig, _) \<Rightarrow> (trig, [], exprs)
                      | None \<Rightarrow>
                          let (i, exprs) = tracker_next exprs
                          in (VN_Expr i, [St_Constant i Ty_Bool (CV_Bool False)], exprs));
                   (rst, names) = wal_alias rst_signal prefix ''__wal_fsm_rst'' Ty_Bool names
               in ([s, state, clk] @ const @ [rst], (exprs, names)))
      | St_WalTrace name val suffix ty \<Rightarrow>
          let (exprs, names) = st;
              (alias, names) = wal_alias val (unescaped_var_name name) suffix ty names
          in ([alias], (exprs, names))
      | _ \<Rightarrow> ([s], st))"

fun wal_statements :: "statement list \<Rightarrow> wal_ids \<Rightarrow> statement list \<times> wal_ids" where
  "wal_statements [] st = ([], st)"
| "wal_statements (s # ss) st =
     (let (out, st) = wal_statement s st; (rest, st) = wal_statements ss st in (out @ rest, st))"

definition insert_wal_signals :: "entity \<Rightarrow> wal_ids \<Rightarrow> entity \<times> wal_ids" where
  "insert_wal_signals e st =
     (let (stmts, st) = wal_statements (ent_statements e) st in (e\<lparr>ent_statements := stmts\<rparr>, st))"

section \<open>What the pass adds\<close>

definition is_trace :: "statement \<Rightarrow> bool" where
  "is_trace s = (case s of St_WalTrace _ _ _ _ \<Rightarrow> True | _ \<Rightarrow> False)"

definition wal_added :: "statement \<Rightarrow> bool" where
  "wal_added s =
     (case s of
        St_Binding b \<Rightarrow> b_operator b = Op_Alias \<and> length (b_operands b) = 1 \<and> \<not> (\<exists>i. b_name b = VN_Expr i)
      | St_Constant _ ty c \<Rightarrow> ty = Ty_Bool \<and> c = CV_Bool False
      | _ \<Rightarrow> False)"

lemma wal_alias_added: "wal_added (fst (wal_alias x p q ty names))"
  by (simp add: wal_added_def wal_alias_def split: option.splits prod.splits)

lemma wal_statement_outcome:
  "\<exists>added. fst (wal_statement s st) = (if is_trace s then [] else [s]) @ added \<and> list_all wal_added added"
  by (cases s)
    (auto simp: wal_statement_def is_trace_def wal_alias_def wal_added_def Let_def
      split: option.splits prod.splits register.splits)

lemma wal_added_not_trace: "wal_added s \<Longrightarrow> \<not> is_trace s"
  by (auto simp: wal_added_def is_trace_def split: statement.splits)

lemma list_all_added:
  "list_all wal_added xs \<Longrightarrow> filter (\<lambda>s. \<not> wal_added s) xs = [] \<and> list_all (\<lambda>s. \<not> is_trace s) xs"
  by (auto simp: list_all_iff filter_empty_conv wal_added_not_trace)

lemma wal_statements_outcome:
  "list_all (\<lambda>s. \<not> is_trace s) (fst (wal_statements ss st)) \<and>
   filter (\<lambda>s. \<not> wal_added s) (fst (wal_statements ss st)) =
     filter (\<lambda>s. \<not> wal_added s \<and> \<not> is_trace s) ss"
proof (induction ss arbitrary: st)
  case (Cons s ss)
  obtain out st1 where out: "wal_statement s st = (out, st1)" by (metis surj_pair)
  moreover obtain rest st2 where "wal_statements ss st1 = (rest, st2)" by (metis surj_pair)
  moreover obtain added where "out = (if is_trace s then [] else [s]) @ added" "list_all wal_added added"
    using wal_statement_outcome [of s st] out by auto
  ultimately show ?case using Cons.IH [of st1] list_all_added by auto
qed simp

text \<open>Adding the signals for WAL leaves no trace statement, keeps every other statement, in order, and
  adds nothing but aliases of single values and false constants.\<close>

theorem wal_signals_transparent:
  assumes "insert_wal_signals e st = (e', st')"
  shows "list_all (\<lambda>s. \<not> is_trace s) (ent_statements e') \<and>
    filter (\<lambda>s. \<not> wal_added s) (ent_statements e') =
      filter (\<lambda>s. \<not> wal_added s \<and> \<not> is_trace s) (ent_statements e) \<and>
    ent_inputs e' = ent_inputs e \<and> ent_output e' = ent_output e"
  using assms wal_statements_outcome [of "ent_statements e" st]
  by (auto simp: insert_wal_signals_def split: prod.splits)

theorem wal_signals_transparent_witness:
  "list_all (\<lambda>s. \<not> is_trace s) (ent_statements (fst (insert_wal_signals sample_entity (tracker_new, None)))) \<and>
   filter (\<lambda>s. \<not> wal_added s) (ent_statements (fst (insert_wal_signals sample_entity (tracker_new, None)))) =
     filter (\<lambda>s. \<not> wal_added s \<and> \<not> is_trace s) (ent_statements sample_entity)"
  using wal_signals_transparent [of sample_entity "(tracker_new, None)",
      OF prod.collapse [symmetric]] by simp

end
