(* ===== verification/Mir_Codegen.thy ===== *)
theory Mir_Codegen
  imports Mir_Field_Code Mir_Wal Mir_Alias
begin

text \<open>
  spade-mir, \<open>codegen/mod.rs\<close>: the declaration and the code of every statement and the module of an
  entity. What the code takes from outside its crate is the parameter \<open>codegen_env\<close>: the layout of
  code as text, the location shown in source attributes and the lines of an assertion's report;
  without source code there are no attributes and an assertion panics.
\<close>

record source_code =
  source_loc :: "loc \<Rightarrow> string"
  assertion_report :: "value_name \<Rightarrow> string list"

record codegen_env =
  ce_render :: "code \<Rightarrow> string"
  ce_source :: "source_code option"
  ce_types :: type_list
  ce_unit :: name_id

section \<open>Declarations\<close>

definition source_attribute :: "loc option \<Rightarrow> source_code option \<Rightarrow> string option" where
  "source_attribute l src =
     (case (l, src) of
        (Some l, Some c) \<Rightarrow> Some (''(* src = '' @ [CHR 0x22] @ source_loc c l @ [CHR 0x22] @ '' *)'')
      | _ \<Rightarrow> None)"

definition add_to_name_map ::
  "verilog_name_map \<Rightarrow> value_name \<Rightarrow> mir_type \<Rightarrow> verilog_name_map option" where
  "add_to_name_map m name ty = do {
     back \<leftarrow> backward_size ty;
     let m = (if ty_size ty \<noteq> 0
              then verilog_name_map_insert (var_name name) (verilog_name_source_fwd name) m else m);
     Some (if back \<noteq> 0
           then verilog_name_map_insert (backward_var_name name) (verilog_name_source_back name) m else m)
   }"

definition memory_declaration :: "mir_type \<Rightarrow> string \<Rightarrow> string option" where
  "memory_declaration ty name =
     (case ty of
        Ty_Memory inner len \<Rightarrow>
          if 1 < ty_size inner
          then Some (''logic['' @ show_nat (ty_size inner) @ ''-1:0] '' @ name @ ''['' @ show_nat len @ ''-1:0];'')
          else logic name (ty_size ty)
      | _ \<Rightarrow> logic name (ty_size ty))"

definition binding_declaration ::
  "binding \<Rightarrow> source_code option \<Rightarrow> verilog_name_map \<Rightarrow> (code \<times> verilog_name_map) option" where
  "binding_declaration b src m = do {
     m \<leftarrow> add_to_name_map m (b_name b) (b_ty b);
     back \<leftarrow> backward_size (b_ty b);
     let name = var_name (b_name b);
     forward \<leftarrow>
       (if ty_size (b_ty b) \<noteq> 0
        then map_option (\<lambda>d. code_opt 0 (source_attribute (b_loc b) src) @ code_line 0 d)
               (memory_declaration (b_ty b) name)
        else Some []);
     backward \<leftarrow>
       (if back \<noteq> 0 then map_option (code_line 0) (logic (backward_var_name (b_name b)) back) else Some []);
     assignment \<leftarrow>
       (case (b_operator b = Op_Alias, b_ty b) of
          (True, Ty_Memory _ _) \<Rightarrow>
            map_option (\<lambda>x. code_line 0 (''`define '' @ name @ '' '' @ var_name x)) (nth_opt (b_operands b) 0)
        | _ \<Rightarrow> Some []);
     Some (forward @ backward @ assignment, m)
   }"

definition statement_declaration ::
  "statement \<Rightarrow> source_code option \<Rightarrow> verilog_name_map \<Rightarrow> (code \<times> verilog_name_map) option" where
  "statement_declaration s src m =
     (case s of
        St_Binding b \<Rightarrow> binding_declaration b src m
      | St_Register r \<Rightarrow> do {
          back \<leftarrow> backward_size (r_ty r);
          if back \<noteq> 0 then None
          else if ty_size (r_ty r) \<noteq> 0 then do {
            m \<leftarrow> add_to_name_map m (r_name r) (r_ty r);
            declaration \<leftarrow> verilog_reg (var_name (r_name r)) (ty_size (r_ty r));
            Some (code_opt 0 (source_attribute (r_loc r) src) @ code_line 0 declaration, m)
          }
          else Some ([], m)
        }
      | St_Constant _ _ _ \<Rightarrow> Some ([], m)
      | St_Assert _ \<Rightarrow> Some ([], m)
      | St_Set _ _ \<Rightarrow> Some ([], m)
      | St_WalTrace _ _ _ _ \<Rightarrow> None)"

section \<open>Statements\<close>

type_synonym instances = "name_tracker \<times> instance_map"

definition instance_args :: "type_list \<Rightarrow> value_name \<times> param_name \<Rightarrow> string list option" where
  "instance_args tys pp = do {
     ty \<leftarrow> type_list_index tys (fst pp);
     back \<leftarrow> backward_size ty;
     Some
       ((if ty_size ty \<noteq> 0
         then [''.'' @ mangle_input (pn_no_mangle (snd pp)) (pn_name (snd pp)) @ ''('' @ var_name (fst pp) @ '')'']
         else []) @
        (if back \<noteq> 0
         then [''.'' @ mangle_output (pn_no_mangle (snd pp)) (pn_name (snd pp)) @ ''('' @
                backward_var_name (fst pp) @ '')'']
         else []))
   }"

definition instance_code ::
  "codegen_env \<Rightarrow> binding \<Rightarrow> unit_name \<Rightarrow> param_name list \<Rightarrow> loc option \<Rightarrow> instances \<Rightarrow>
     (code \<times> instances) option" where
  "instance_code env b module_name params l st = do {
     args \<leftarrow> map_option concat (mapM_opt (instance_args (ce_types env)) (zip (b_operands b) params));
     back \<leftarrow> backward_size (b_ty b);
     let args = args @
       (if ty_size (b_ty b) \<noteq> 0 then [''.output__('' @ var_name (b_name b) @ '')''] else []) @
       (if back \<noteq> 0 then [''.input__('' @ backward_var_name (b_name b) @ '')''] else []);
     let (instance_name, st) = unit_instance_name module_name (ce_unit env) st;
     Some (code_line 0 (ce_render env
       (code_opt 0 (source_attribute l (ce_source env)) @
        code_line 0 (as_verilog module_name @ '' '' @ instance_name @ ''('' @ join_strs '', '' args @ '');''))), st)
   }"

definition bitreverse_code :: "(code \<Rightarrow> string) \<Rightarrow> string \<Rightarrow> nat \<Rightarrow> string \<Rightarrow> string" where
  "bitreverse_code render name type_size oper =
     (let genvar = name @ ''_i''; sz = show_nat type_size
      in render
           (code_line 0 (''genvar '' @ genvar @ '';'') @
            code_line 0 (''for ('' @ genvar @ '' = 0; '' @ genvar @ '' < '' @ sz @ ''; '' @ genvar @ '' = '' @
              genvar @ '' + 1) begin'') @
            code_line 1 (''assign '' @ name @ brackets genvar @ '' = '' @ oper @
              brackets (sz @ '' - 1 - '' @ genvar) @ '';'') @
            code_line 0 ''end''))"

text \<open>\<open>unwrap\<close> of a missing forward expression panics; a text that is a block of its own is not assigned.\<close>

definition plain_assignment ::
  "codegen_env \<Rightarrow> binding \<Rightarrow> string option \<Rightarrow> string option \<Rightarrow> plain_operator \<Rightarrow> string option" where
  "plain_assignment env b forward backward p =
     (let name = var_name (b_name b); back_name = backward_var_name (b_name b);
          ops = map var_name (b_operands b); back_ops = map backward_var_name (b_operands b)
      in if p = P_Alias then
           (case b_ty b of
              Ty_Memory _ _ \<Rightarrow> Some []
            | _ \<Rightarrow> do {
                fwd \<leftarrow> (case forward of
                         None \<Rightarrow> Some []
                       | Some _ \<Rightarrow> map_option (\<lambda>x. code_line 0 (assign name x)) (nth_opt ops 0));
                bwd \<leftarrow> (case backward of
                         None \<Rightarrow> Some []
                       | Some _ \<Rightarrow> map_option (\<lambda>x. code_line 0 (assign x back_name)) (nth_opt back_ops 0));
                Some (ce_render env (fwd @ bwd))
              })
         else if p = P_Match \<or> p = P_DivPow2 then forward
         else if p = P_Nop then Some []
         else if p = P_FlipPort then do {
           back_op \<leftarrow> nth_opt back_ops 0;
           oper \<leftarrow> nth_opt ops 0;
           Some (ce_render env (code_line 0 (assign name back_op) @ code_line 0 (assign oper back_name)))
         }
         else if p = P_ReadMutWires then do {
           back_op \<leftarrow> nth_opt back_ops 0;
           Some (ce_render env (code_line 0 (assign name back_op)))
         }
         else if p = P_Bitreverse then
           map_option (bitreverse_code (ce_render env) name (ty_size (b_ty b))) (nth_opt ops 0)
         else Some (ce_render env
                (code_opt 0 (map_option (assign name) forward) @
                 code_opt 0 (map_option (\<lambda>x. assign x back_name) backward))))"

definition binding_code :: "codegen_env \<Rightarrow> binding \<Rightarrow> instances \<Rightarrow> (code \<times> instances) option" where
  "binding_code env b st = do {
     forward \<leftarrow>
       (if ty_size (b_ty b) \<noteq> 0
        then map_option Some (forward_expression_code (ce_render env) (ce_types env) b (b_operands b))
        else Some None);
     back \<leftarrow> backward_size (b_ty b);
     backward \<leftarrow>
       (if back \<noteq> 0
        then map_option Some (backward_expression_code (ce_types env) b (b_operands b))
        else Some None);
     (case b_operator b of
        Op_Instance module_name params l \<Rightarrow> instance_code env b module_name params l st
      | Op_Plain p \<Rightarrow> map_option (\<lambda>a. (code_line 0 a, st)) (plain_assignment env b forward backward p)
      | Op_Gray2Bin _ \<Rightarrow> map_option (\<lambda>a. (code_line 0 a, st)) forward
      | Op_DeclClockedMemory _ _ _ _ _ \<Rightarrow> map_option (\<lambda>a. (code_line 0 a, st)) forward
      | _ \<Rightarrow> Some (code_line 0 (ce_render env
               (code_opt 0 (map_option (assign (var_name (b_name b))) forward) @
                code_opt 0 (map_option (\<lambda>x. assign x (backward_var_name (b_name b))) backward))), st))
   }"

definition register_code :: "register \<Rightarrow> code option" where
  "register_code r = do {
     let name = var_name (r_name r);
     let main_body =
       (case r_reset r of
          Some (rst_trig, rst_val) \<Rightarrow>
            code_line 0 (''always @(posedge '' @ var_name (r_clock r) @ '', posedge '' @ var_name rst_trig @ '') begin'') @
            code_line 1 (''if ('' @ var_name rst_trig @ '') begin'') @
            code_line 2 (name @ '' <= '' @ var_name rst_val @ '';'') @
            code_line 1 ''end'' @
            code_line 1 ''else begin'' @
            code_line 2 (name @ '' <= '' @ var_name (r_value r) @ '';'') @
            code_line 1 ''end'' @
            code_line 0 ''end''
        | None \<Rightarrow>
            code_line 0 (''always @(posedge '' @ var_name (r_clock r) @ '') begin'') @
            code_line 1 (name @ '' <= '' @ var_name (r_value r) @ '';'') @
            code_line 0 ''end'');
     initial_block \<leftarrow>
       (case r_initial r of
          Some init \<Rightarrow> map_option
            (\<lambda>val. code_line 0 ''initial begin'' @
              code_line 1 (name @ '' = '' @ [CHR 0x27] @ ''b'' @ val @ '';'') @
              code_line 0 ''end'')
            (Option.bind (eval_statements init) as_string)
        | None \<Rightarrow> Some []);
     Some (initial_block @ main_body)
   }"

definition constant_code :: "nat \<Rightarrow> mir_type \<Rightarrow> const_value \<Rightarrow> code option" where
  "constant_code i ty c = do {
     expression \<leftarrow>
       (case c of
          CV_Int val \<Rightarrow> do {
            sz \<leftarrow> (case ty of Ty_Int n \<Rightarrow> Some n | Ty_UInt n \<Rightarrow> Some n | _ \<Rightarrow> None);
            let sign = (if val < 0 then ''-'' else []);
            let spec = (if 32 \<le> sz then show_nat sz @ [CHR 0x27] @ ''d'' else []);
            Some (sign @ spec @ show_nat (nat \<bar>val\<bar>))
          }
        | CV_Bool b \<Rightarrow> Some (if b then ''1'' else ''0'')
        | CV_HighImp \<Rightarrow> Some ([CHR 0x27] @ ''bz''));
     sz \<leftarrow> localparam_size_spec (ty_size ty);
     Some (code_line 0 (''localparam'' @ sz @ '' '' @ var_name (VN_Expr i) @ '' = '' @ expression @ '';''))
   }"

definition assert_code :: "codegen_env \<Rightarrow> value_name \<Rightarrow> code option" where
  "assert_code env val = do {
     src \<leftarrow> ce_source env;
     let msg = join_strs newline
       (map (\<lambda>line. ''$display('' @ [CHR 0x22] @ line @ [CHR 0x22] @ '');'') (assertion_report src val));
     Some
       (code_line 0 ''`ifndef SYNTHESIS'' @
        code_line 0 (''always @('' @ var_name val @ '') begin'') @
        code_line 1 ''#0'' @
        code_line 1 (''assert ('' @ var_name val @ '')'') @
        code_line 1 ''else begin'' @
        code_line 2 msg @
        code_line 2 (''$error('' @ [CHR 0x22] @ ''Assertion failed'' @ [CHR 0x22] @ '');'') @
        code_line 2 ''$fatal(1);'' @
        code_line 1 ''end'' @
        code_line 0 ''end'' @
        code_line 0 ''`endif'')
   }"

definition statement_code :: "codegen_env \<Rightarrow> statement \<Rightarrow> instances \<Rightarrow> (code \<times> instances) option" where
  "statement_code env s st =
     (case s of
        St_Binding b \<Rightarrow> binding_code env b st
      | St_Register r \<Rightarrow> map_option (\<lambda>c. (c, st)) (register_code r)
      | St_Constant i ty c \<Rightarrow> map_option (\<lambda>c. (c, st)) (constant_code i ty c)
      | St_Assert v \<Rightarrow> map_option (\<lambda>c. (c, st)) (assert_code env v)
      | St_Set target val \<Rightarrow> Some (code_line 0 (assign (backward_var_name target) (var_name val)), st)
      | St_WalTrace _ _ _ _ \<Rightarrow> None)"

section \<open>Entities\<close>

definition prepare_codegen :: "entity \<Rightarrow> id_tracker \<Rightarrow> (entity \<times> id_tracker) option" where
  "prepare_codegen e exprs = do {
     e \<leftarrow> flatten_aliases e;
     let (e, _) = make_names_predictable e;
     let (e, exprs, _) = insert_wal_signals e (exprs, None);
     Some (e, exprs)
   }"

definition input_code ::
  "mir_input \<Rightarrow> verilog_name_map \<Rightarrow> ((string \<times> code) \<times> verilog_name_map) option" where
  "input_code i m = do {
     let name = in_name i;
     let val_name = in_val_name i;
     let ty = in_ty i;
     back \<leftarrow> backward_size ty;
     let m = (if ty_size ty \<noteq> 0
              then verilog_name_map_insert name (verilog_name_source_fwd val_name) m else m);
     let m = (if back \<noteq> 0
              then verilog_name_map_insert name (verilog_name_source_back val_name) m else m);
     ((input_head, input_body), m) \<leftarrow>
       (if ty_size ty \<noteq> 0 then do {
          let port = mangle_input (in_no_mangle i) name;
          let m = verilog_name_map_insert port (verilog_name_source_fwd val_name) m;
          let direction = (case ty of Ty_InOut _ \<Rightarrow> ''inout'' | _ \<Rightarrow> ''input'');
          alias_assignment \<leftarrow>
            (if in_no_mangle i = None
             then map_option (\<lambda>d. code_line 0 d @ code_line 0 (assign (var_name val_name) port))
                    (logic (var_name val_name) (ty_size ty))
             else Some []);
          spec \<leftarrow> size_spec (ty_size ty);
          Some ((direction @ spec @ '' '' @ port, alias_assignment), m)
        }
        else Some (([], []), m));
     ((output_head, output_body), m) \<leftarrow>
       (if back \<noteq> 0 then do {
          let port = mangle_output (in_no_mangle i) name;
          let m = verilog_name_map_insert port (verilog_name_source_back val_name) m;
          spec \<leftarrow> size_spec back;
          declaration \<leftarrow> logic (backward_var_name val_name) back;
          Some ((''output'' @ spec @ '' '' @ port,
                 code_line 0 declaration @ code_line 0 (assign port (backward_var_name val_name))), m)
        }
        else Some (([], []), m));
     let spacing = (if input_head \<noteq> [] \<and> output_head \<noteq> [] then '', '' else []);
     Some ((input_head @ spacing @ output_head, input_body @ output_body), m)
   }"

fun inputs_code ::
  "mir_input list \<Rightarrow> verilog_name_map \<Rightarrow> ((string \<times> code) list \<times> verilog_name_map) option" where
  "inputs_code [] m = Some ([], m)"
| "inputs_code (i # rest) m =
     Option.bind (input_code i m) (\<lambda>(c, m). map_option (\<lambda>(cs, m). (c # cs, m)) (inputs_code rest m))"

fun declarations_code ::
  "statement list \<Rightarrow> source_code option \<Rightarrow> verilog_name_map \<Rightarrow> (code \<times> verilog_name_map) option" where
  "declarations_code [] src m = Some ([], m)"
| "declarations_code (s # ss) src m =
     Option.bind (statement_declaration s src m) (\<lambda>(c, m).
       map_option (\<lambda>(cs, m). (c @ cs, m)) (declarations_code ss src m))"

fun statements_code :: "codegen_env \<Rightarrow> statement list \<Rightarrow> instances \<Rightarrow> (code \<times> instances) option" where
  "statements_code env [] st = Some ([], st)"
| "statements_code env (s # ss) st =
     Option.bind (statement_code env s st) (\<lambda>(c, st).
       map_option (\<lambda>(cs, st). (c @ cs, st)) (statements_code env ss st))"

definition cocotb_code :: "entity \<Rightarrow> code" where
  "cocotb_code e =
     (let q = [CHR 0x22]; top_name = without_escapes (ent_name e)
      in code_line 1 ''`ifdef COCOTB_SIM'' @
         code_line 1 ''string __top_module;'' @
         code_line 1 ''string __vcd_file;'' @
         code_line 1 ''initial begin'' @
         code_line 2 (''if ($value$plusargs('' @ q @ ''TOP_MODULE=%s'' @ q @ '', __top_module) && __top_module == '' @
           q @ top_name @ q @ '' && $value$plusargs('' @ q @ ''VCD_FILENAME=%s'' @ q @ '', __vcd_file)) begin'') @
         code_line 3 ''$dumpfile (__vcd_file);'' @
         code_line 3 (''$dumpvars (0, '' @ as_verilog (ent_name e) @ '');'') @
         code_line 2 ''end'' @
         code_line 1 ''end'' @
         code_line 1 ''`endif'')"

text \<open>The code of a prepared entity; the environment's types and unit are those of the entity.\<close>

definition entity_code ::
  "(code \<Rightarrow> string) \<Rightarrow> source_code option \<Rightarrow> entity \<Rightarrow> instance_map \<Rightarrow>
     (code \<times> verilog_name_map \<times> instance_map) option" where
  "entity_code render src e instances = do {
     (inputs, m) \<leftarrow> inputs_code (ent_inputs e) verilog_name_map_new;
     back \<leftarrow> backward_size (ent_output_type e);
     let out_size = ty_size (ent_output_type e);
     back_spec \<leftarrow> (if back \<noteq> 0 then size_spec back else Some []);
     out_spec \<leftarrow> (if out_size \<noteq> 0 then size_spec out_size else Some []);
     let m = (if out_size \<noteq> 0
              then verilog_name_map_insert ''output__'' (verilog_name_source_fwd (ent_output e)) m else m);
     (declarations, m) \<leftarrow> declarations_code (ent_statements e) src m;
     let env = \<lparr>ce_render = render, ce_source = src, ce_types = type_list_from_entity e,
                ce_unit = un_source (ent_name e)\<rparr>;
     (stmts, st) \<leftarrow> statements_code env (ent_statements e) (name_tracker_new, instances);
     let ports = map (\<lambda>(head, _). render (code_line 0 head)) inputs @
       (if out_size \<noteq> 0 then [render (code_line 0 (''output'' @ out_spec @ '' output__''))] else []) @
       (if back \<noteq> 0 then [render (code_line 0 (''input'' @ back_spec @ '' input__''))] else []);
     let port_definitions = join_strs ('','' @ newline) (filter (\<lambda>s. s \<noteq> []) ports);
     Some
       (code_line 0 (''module '' @ as_verilog (ent_name e) @ '' ('') @
        code_line 2 port_definitions @
        code_line 1 '');'' @
        cocotb_code e @
        code_nest 1 (concat (map snd inputs)) @
        code_nest 1 (declarations @ stmts) @
        (if out_size \<noteq> 0 then code_line 1 (assign ''output__'' (var_name (ent_output e))) else []) @
        (if back \<noteq> 0 then code_line 1 (assign (backward_var_name (ent_output e)) ''input__'') else []) @
        code_line 0 ''endmodule'',
        m, snd st)
   }"

section \<open>The map from names back to values\<close>

lemma insert_other:
  "trim_name x \<noteq> k \<Longrightarrow> verilog_name_map_insert x src m k = m k"
  by (simp add: verilog_name_map_insert_def)

lemma insert_same: "verilog_name_map_insert x src m (trim_name x) = Some src"
  by (simp add: verilog_name_map_insert_def)

text \<open>The names a declaration records, with the value each stands for.\<close>

definition recorded :: "value_name \<Rightarrow> mir_type \<Rightarrow> (string \<times> verilog_name_source) list" where
  "recorded n ty =
     (if ty_size ty \<noteq> 0 then [(trim_name (var_name n), verilog_name_source_fwd n)] else []) @
     (if backward_size ty \<noteq> Some 0 then [(trim_name (backward_var_name n), verilog_name_source_back n)] else [])"

definition recorded_by :: "statement \<Rightarrow> (string \<times> verilog_name_source) list" where
  "recorded_by s =
     (case s of
        St_Binding b \<Rightarrow> recorded (b_name b) (b_ty b)
      | St_Register r \<Rightarrow> recorded (r_name r) (r_ty r)
      | _ \<Rightarrow> [])"

lemma add_to_name_map_recorded:
  "add_to_name_map m n ty = Some m' \<Longrightarrow> m' = m ++ map_of (rev (recorded n ty))"
  by (auto simp: add_to_name_map_def recorded_def verilog_name_map_insert_def Let_def map_add_def
      bind_eq_Some_conv intro!: ext)

lemma declaration_recorded:
  assumes "statement_declaration s src m = Some (c, m')"
  shows "m' = m ++ map_of (rev (recorded_by s))"
proof (cases s)
  case (St_Binding b)
  then have "add_to_name_map m (b_name b) (b_ty b) = Some m'"
    using assms by (auto simp: statement_declaration_def binding_declaration_def bind_eq_Some_conv Let_def
        simp del: split_paired_Ex)
  then show ?thesis using St_Binding by (simp add: recorded_by_def add_to_name_map_recorded)
next
  case (St_Register r)
  then show ?thesis
    using assms
    by (auto simp: statement_declaration_def bind_eq_Some_conv recorded_by_def recorded_def
        dest!: add_to_name_map_recorded split: if_splits)
qed (use assms in \<open>auto simp: statement_declaration_def recorded_by_def\<close>)

lemma declarations_recorded:
  "declarations_code ss src m = Some (c, m') \<Longrightarrow> m' = m ++ map_of (rev (concat (map recorded_by ss)))"
proof (induction ss arbitrary: m c)
  case (Cons s ss)
  then obtain c1 m1 c2 where "statement_declaration s src m = Some (c1, m1)"
    "declarations_code ss src m1 = Some (c2, m')"
    by (auto simp: bind_eq_Some_conv)
  then show ?case using declaration_recorded Cons.IH by (fastforce simp: map_add_assoc)
qed simp


definition flag_statements :: "statement list" where
  "flag_statements =
     [St_Binding (Binding (VN_Expr 1) Op_Not [VN_Named 1 ''x'' (NS_Expr 0)] Ty_Bool None),
      St_Register (Register (VN_Named 1 ''r'' (NS_Expr 7)) Ty_Bool (VN_Named 1 ''clk'' (NS_Expr 0)) None None
        (VN_Expr 1) None None)]"


section \<open>Values without bits\<close>

definition void_register :: register where
  "void_register =
     Register (VN_Expr 1) Ty_Void (VN_Named 1 ''clk'' (NS_Expr 0)) None None (VN_Expr 2) None None"

text \<open>A register without bits is assigned although it is not declared.\<close>

theorem void_register_undeclared:
  "statement_declaration (St_Register void_register) None verilog_name_map_new = Some ([], verilog_name_map_new) \<and>
   statement_code env (St_Register void_register) st =
     Some ([(0, ''always @(posedge clk_n1) begin''), (1, ''_e_1 <= _e_2;''), (0, ''end'')], st)"
proof -
  have "var_name (VN_Named 1 ''clk'' (NS_Expr 0)) = ''clk_n1''" "var_name (VN_Expr 1) = ''_e_1''"
    "var_name (VN_Expr 2) = ''_e_2''"
    by code_simp+
  then show ?thesis
    by (simp add: statement_declaration_def void_register_def statement_code_def register_code_def
        code_line_def)
qed

text \<open>An enum is constructed from all its operands, also from one without bits, which is not declared.\<close>

theorem void_operand_undeclared:
  "forward_expression_code render tys
     (Binding (VN_Expr 2) (Op_ConstructEnum 1 2) [VN_Expr 1] (Ty_Enum [[], [Ty_Void]]) None) [VN_Expr 1] =
     Some ''{1'd1, _e_1}'' \<and>
   statement_declaration (St_Binding (Binding (VN_Expr 1) Op_Nop [] Ty_Void None)) None verilog_name_map_new =
     Some ([], verilog_name_map_new)"
proof -
  have "construct_enum_code (Ty_Enum [[], [Ty_Void]]) 1 2 [var_name (VN_Expr 1)] = Some ''{1'd1, _e_1}''"
    by code_simp
  then show ?thesis
    by (simp add: forward_expression_code_def statement_declaration_def binding_declaration_def
        add_to_name_map_def)
qed

end
