(* ===== verification/Spade_Types.thy ===== *)
theory Spade_Types
  imports Common
begin

text \<open>
  spade-types: primitive, concrete and known types (\<open>lib.rs\<close>) and the lattice of meta types
  (\<open>meta_types.rs\<close>). \<open>BigInt\<close> is \<open>int\<close>; a \<open>Vec\<close> of pairs is a list of pairs. An \<open>unreachable!\<close> is
  the result \<open>None\<close>.
\<close>

section \<open>Primitive and concrete types\<close>

datatype primitive_type =
  PT_Int | PT_Uint | PT_Clock | PT_Bool | PT_Bit | PT_Memory | PT_Void | PT_InOut

fun show_primitive_type :: "primitive_type \<Rightarrow> string" where
  "show_primitive_type PT_Int = ''int''"
| "show_primitive_type PT_Uint = ''uint''"
| "show_primitive_type PT_Clock = ''clk''"
| "show_primitive_type PT_Bool = ''bool''"
| "show_primitive_type PT_Bit = ''bit''"
| "show_primitive_type PT_Memory = ''Memory''"
| "show_primitive_type PT_Void = ''()''"
| "show_primitive_type PT_InOut = ''inout''"

lemma show_primitive_type_inj [simp]:
  "show_primitive_type a = show_primitive_type b \<longleftrightarrow> a = b"
  by (cases a; cases b) auto

datatype concrete_type =
    CT_Tuple "concrete_type list"
  | CT_Struct name_id "(ident \<times> concrete_type) list"
  | CT_Array concrete_type int
  | CT_Enum "(name_id \<times> (ident \<times> concrete_type) list) list"
  | CT_Single primitive_type "concrete_type list"
  | CT_Integer int
  | CT_Backward concrete_type
  | CT_Wire concrete_type

definition assume_struct ::
  "concrete_type \<Rightarrow> (name_id \<times> (ident \<times> concrete_type) list) option" where
  "assume_struct ty = (case ty of CT_Struct name members \<Rightarrow> Some (name, members) | _ \<Rightarrow> None)"

fun is_port :: "concrete_type \<Rightarrow> bool" where
  "is_port (CT_Tuple inner) = list_ex is_port inner"
| "is_port (CT_Struct name members) = list_ex (\<lambda>(_, t). is_port t) members"
| "is_port (CT_Array inner sz) = is_port inner"
| "is_port (CT_Enum options) = False"
| "is_port (CT_Single base params) = (base = PT_Memory \<or> base = PT_Clock)"
| "is_port (CT_Integer s) = False"
| "is_port (CT_Backward inner) = True"
| "is_port (CT_Wire inner) = True"

fun show_concrete_type :: "concrete_type \<Rightarrow> string" where
  "show_concrete_type (CT_Tuple inner) =
     ''('' @ join_strs '', '' (map show_concrete_type inner) @ '')''"
| "show_concrete_type (CT_Struct name members) =
     ''struct '' @ show_name_id name @ '' {'' @
       join_strs '', '' (map (\<lambda>(n, t). n @ '': '' @ show_concrete_type t) members) @ ''}''"
| "show_concrete_type (CT_Array inner sz) =
     ''['' @ show_concrete_type inner @ ''; '' @ show_int sz @ '']''"
| "show_concrete_type (CT_Enum options) =
     ''enum {'' @
       join_strs '','' (map (\<lambda>(n, params).
          show_nat (nid_num n) @ '' ( '' @
          join_strs '','' (map (\<lambda>(_, t). show_concrete_type t) params) @ '' )'') options) @
     ''}''"
| "show_concrete_type (CT_Single base params) =
     show_primitive_type base @
       (if params = [] then [] else join_strs '', '' (map show_concrete_type params))"
| "show_concrete_type (CT_Integer s) = ''#'' @ show_int s"
| "show_concrete_type (CT_Backward inner) = ''&mut '' @ show_concrete_type inner"
| "show_concrete_type (CT_Wire inner) = ''&'' @ show_concrete_type inner"

text \<open>The equality of the code compares the names of structs and enum options by number.\<close>

datatype known_type =
  KT_Named name_id | KT_Integer int | KT_Tuple | KT_Array | KT_Backward | KT_Wire | KT_Inverted

definition known_type_integer :: "nat \<Rightarrow> known_type" where
  "known_type_integer v = KT_Integer (int v)"

definition known_type_eq :: "known_type \<Rightarrow> known_type \<Rightarrow> bool" where
  "known_type_eq a b =
     (case (a, b) of
        (KT_Named m, KT_Named n) \<Rightarrow> nid_eq m n
      | _ \<Rightarrow> a = b)"

lemma known_type_eq_equiv: "equivp known_type_eq"
  by (rule equivpI)
    (auto simp: reflp_def symp_def transp_def known_type_eq_def nid_eq_def split: known_type.splits)

text \<open>A port inside a tuple, struct or array makes the whole a port.\<close>

lemma is_port_tuple: "t \<in> set ts \<Longrightarrow> is_port t \<Longrightarrow> is_port (CT_Tuple ts)"
  by (auto simp: list_ex_iff)

lemma is_port_struct: "(n, t) \<in> set ms \<Longrightarrow> is_port t \<Longrightarrow> is_port (CT_Struct name ms)"
  by (auto simp: list_ex_iff)

section \<open>Meta types\<close>

datatype meta_type = MT_Any | MT_Type | MT_Number | MT_Int | MT_Uint

definition unify_meta :: "meta_type \<Rightarrow> meta_type \<Rightarrow> meta_type option" where
  "unify_meta l r =
     (case (l, r) of
        (MT_Any, other) \<Rightarrow> Some other
      | (other, MT_Any) \<Rightarrow> Some other
      | (MT_Number, MT_Int) \<Rightarrow> Some MT_Int
      | (MT_Number, MT_Uint) \<Rightarrow> Some MT_Uint
      | (MT_Int, MT_Number) \<Rightarrow> Some MT_Int
      | (MT_Uint, MT_Number) \<Rightarrow> Some MT_Uint
      | (MT_Type, MT_Type) \<Rightarrow> Some l
      | (MT_Int, MT_Int) \<Rightarrow> Some l
      | (MT_Number, MT_Number) \<Rightarrow> Some l
      | (MT_Uint, MT_Uint) \<Rightarrow> Some l
      | _ \<Rightarrow> None)"

text \<open>The derived order, by the position of the variant.\<close>

fun meta_rank :: "meta_type \<Rightarrow> nat" where
  "meta_rank MT_Any = 0"
| "meta_rank MT_Type = 1"
| "meta_rank MT_Number = 2"
| "meta_rank MT_Int = 3"
| "meta_rank MT_Uint = 4"

lemma meta_rank_inj [simp]: "meta_rank a = meta_rank b \<longleftrightarrow> a = b"
  by (cases a; cases b) simp_all

instantiation meta_type :: linorder
begin

definition less_eq_meta_type :: "meta_type \<Rightarrow> meta_type \<Rightarrow> bool" where
  "a \<le> b \<longleftrightarrow> meta_rank a \<le> meta_rank b"

definition less_meta_type :: "meta_type \<Rightarrow> meta_type \<Rightarrow> bool" where
  "a < b \<longleftrightarrow> meta_rank a < meta_rank b"

instance
  by standard (auto simp: less_eq_meta_type_def less_meta_type_def)

end

definition is_more_concrete_than :: "meta_type \<Rightarrow> meta_type \<Rightarrow> bool" where
  "is_more_concrete_than self other = (if self > other then False else True)"

fun show_meta_type :: "meta_type \<Rightarrow> string" where
  "show_meta_type MT_Any = ''#any''"
| "show_meta_type MT_Type = ''#type''"
| "show_meta_type MT_Int = ''#int''"
| "show_meta_type MT_Uint = ''#uint''"
| "show_meta_type MT_Number = ''#number''"

text \<open>
  The lattice of the comment in the code: \<open>meta_sub a b\<close> when \<open>b\<close> lies below \<open>a\<close>, a value of meta
  type \<open>a\<close> can become one of \<open>b\<close>.
\<close>

inductive meta_edge :: "meta_type \<Rightarrow> meta_type \<Rightarrow> bool" where
  "meta_edge MT_Any MT_Number"
| "meta_edge MT_Any MT_Type"
| "meta_edge MT_Number MT_Uint"
| "meta_edge MT_Number MT_Int"

definition meta_sub :: "meta_type \<Rightarrow> meta_type \<Rightarrow> bool" where
  "meta_sub a b \<longleftrightarrow>
     a = b \<or> a = MT_Any \<or> a = MT_Number \<and> (b = MT_Int \<or> b = MT_Uint)"

inductive_simps meta_edge_simps: "meta_edge a b"

lemma meta_sub_is_closure: "meta_sub = meta_edge\<^sup>*\<^sup>*"
proof (intro ext iffI)
  fix a b
  have number: "meta_edge\<^sup>*\<^sup>* MT_Any MT_Number" by (blast intro: meta_edge.intros)
  assume "meta_sub a b"
  then consider "a = b" | "a = MT_Any" | "a = MT_Number" "b = MT_Int \<or> b = MT_Uint"
    by (auto simp: meta_sub_def)
  then show "meta_edge\<^sup>*\<^sup>* a b"
  proof cases
    case 2
    then show ?thesis
      using number by (cases b) (auto intro: meta_edge.intros rtranclp.intros)
  qed (auto intro: meta_edge.intros)
next
  fix a b
  assume "meta_edge\<^sup>*\<^sup>* a b"
  then show "meta_sub a b"
    by (induction rule: rtranclp_induct) (auto simp: meta_sub_def meta_edge_simps)
qed

text \<open>
  \<open>unify_meta\<close> is the meet of the lattice: it succeeds exactly on types with a common descendant,
  and returns the greatest one.
\<close>

theorem unify_meta_meet:
  "unify_meta a b = Some c \<longleftrightarrow>
     meta_sub a c \<and> meta_sub b c \<and> (\<forall>d. meta_sub a d \<and> meta_sub b d \<longrightarrow> meta_sub c d)"
proof -
  have all: "(\<forall>d. P d) \<longleftrightarrow> P MT_Any \<and> P MT_Type \<and> P MT_Number \<and> P MT_Int \<and> P MT_Uint" for P
    by (metis meta_type.exhaust)
  show ?thesis
    unfolding all by (cases a; cases b; cases c) (simp_all add: unify_meta_def meta_sub_def)
qed

lemma unify_meta_commute: "unify_meta a b = unify_meta b a"
  by (cases a; cases b) (simp_all add: unify_meta_def)

lemma unify_meta_assoc:
  "Option.bind (unify_meta a b) (\<lambda>ab. unify_meta ab c) =
   Option.bind (unify_meta b c) (unify_meta a)"
  by (cases a; cases b; cases c) (simp_all add: unify_meta_def)

theorem unify_meta_meet_witness: "unify_meta MT_Number MT_Int = Some MT_Int"
  by (rule unify_meta_meet [THEN iffD2]) (auto simp: meta_sub_def)

text \<open>
  \<open>is_more_concrete_than\<close> compares by the derived order, and so calls the type that can become the
  other the more concrete one; the comment says the opposite.
\<close>

theorem more_concrete_reversed:
  "meta_sub a b \<Longrightarrow> is_more_concrete_than a b \<and> (a \<noteq> b \<longrightarrow> \<not> is_more_concrete_than b a)"
  by (cases a; cases b) (simp_all add: meta_sub_def is_more_concrete_than_def less_meta_type_def)

end
