(* ===== verification/Hir.thy ===== *)
theory Hir
  imports Spade_Types
begin

text \<open>
  spade-hir, \<open>lib.rs\<close> and \<open>expression.rs\<close>: the typed tree that lowering translates. A \<open>Loc<T>\<close>
  keeps its location where lowering writes it into the MIR (expressions, patterns, statements, the
  \<open>no_mangle\<close> attribute) and is its value elsewhere.
\<close>

section \<open>Operators and literals\<close>

datatype (plugins only: code size) binary_operator =
    BO_Add | BO_Sub | BO_Mul | BO_Div | BO_Mod
  | BO_Eq | BO_NotEq | BO_Gt | BO_Lt | BO_Ge | BO_Le
  | BO_LeftShift | BO_RightShift | BO_ArithmeticRightShift
  | BO_LogicalAnd | BO_LogicalOr | BO_LogicalXor
  | BO_BitwiseOr | BO_BitwiseAnd | BO_BitwiseXor

fun show_binary_operator :: "binary_operator \<Rightarrow> string" where
  "show_binary_operator BO_Add = ''+''"
| "show_binary_operator BO_Sub = ''-''"
| "show_binary_operator BO_Mul = ''*''"
| "show_binary_operator BO_Div = ''/''"
| "show_binary_operator BO_Mod = ''%''"
| "show_binary_operator BO_Eq = ''==''"
| "show_binary_operator BO_NotEq = ''!=''"
| "show_binary_operator BO_Gt = ''>''"
| "show_binary_operator BO_Lt = ''<''"
| "show_binary_operator BO_Ge = ''>=''"
| "show_binary_operator BO_Le = ''<=''"
| "show_binary_operator BO_LeftShift = ''>>''"
| "show_binary_operator BO_RightShift = ''<<''"
| "show_binary_operator BO_ArithmeticRightShift = ''>>>''"
| "show_binary_operator BO_LogicalAnd = ''&&''"
| "show_binary_operator BO_LogicalOr = ''||''"
| "show_binary_operator BO_LogicalXor = ''^^''"
| "show_binary_operator BO_BitwiseOr = ''|''"
| "show_binary_operator BO_BitwiseAnd = ''&''"
| "show_binary_operator BO_BitwiseXor = ''^''"

text \<open>A left shift is printed as the source writes a right shift, and the other way round.\<close>

lemma shifts_printed_swapped:
  "show_binary_operator BO_LeftShift = ''>>''" "show_binary_operator BO_RightShift = ''<<''"
  by simp_all

datatype unary_operator =
  UO_Sub | UO_Not | UO_BitwiseNot | UO_Dereference | UO_Reference | UO_FlipPort

datatype bit_literal = BL_Low | BL_High | BL_HighImp

datatype int_literal_kind = ILK_Unsized | ILK_Signed nat | ILK_Unsigned nat

section \<open>Argument lists\<close>

datatype 'a named_argument = NA_Full ident 'a | NA_Short ident 'a

datatype argument_kind = AK_Positional | AK_Named | AK_ShortNamed

datatype 'a argument_list = AL_Named "'a named_argument list" | AL_Positional "'a list"

definition arg_expressions :: "'a argument_list \<Rightarrow> 'a list" where
  "arg_expressions al =
     (case al of
        AL_Named n \<Rightarrow> map (\<lambda>arg. case arg of NA_Full _ expr \<Rightarrow> expr | NA_Short _ expr \<Rightarrow> expr) n
      | AL_Positional arg \<Rightarrow> arg)"

section \<open>Type expressions\<close>

datatype const_generic =
    CG_Name name_id
  | CG_Const int
  | CG_Add const_generic const_generic
  | CG_Sub const_generic const_generic
  | CG_Mul const_generic const_generic
  | CG_UintBitsToFit const_generic

fun show_const_generic :: "const_generic \<Rightarrow> string" where
  "show_const_generic (CG_Name n) = show_name_id n"
| "show_const_generic (CG_Const v) = show_int v"
| "show_const_generic (CG_Add l r) = ''('' @ show_const_generic l @ '' + '' @ show_const_generic r @ '')''"
| "show_const_generic (CG_Sub l r) = ''('' @ show_const_generic l @ '' - '' @ show_const_generic r @ '')''"
| "show_const_generic (CG_Mul l r) = ''('' @ show_const_generic l @ '' * '' @ show_const_generic r @ '')''"
| "show_const_generic (CG_UintBitsToFit a) = ''uint_bits_to_fit('' @ show_const_generic a @ '')''"

datatype type_expression =
    TE_Integer int
  | TE_TypeSpec type_spec
  | TE_ConstGeneric const_generic
  and type_spec =
    TS_Declared name_id "type_expression list"
  | TS_Generic name_id
  | TS_Tuple "type_spec list"
  | TS_Array type_spec type_expression
  | TS_Unit
  | TS_Backward type_spec
  | TS_Inverted type_spec
  | TS_Wire type_spec
  | TS_TraitSelf
  | TS_Wildcard

fun show_type_expression :: "type_expression \<Rightarrow> string"
  and show_type_spec :: "type_spec \<Rightarrow> string" where
  "show_type_expression (TE_Integer v) = show_int v"
| "show_type_expression (TE_TypeSpec v) = show_type_spec v"
| "show_type_expression (TE_ConstGeneric v) = show_const_generic v"
| "show_type_spec (TS_Declared name params) =
     show_name_id name @
     (if params = [] then [] else ''<'' @ join_strs '', '' (map show_type_expression params) @ ''>'')"
| "show_type_spec (TS_Generic name) = show_name_id name"
| "show_type_spec (TS_Tuple members) = ''('' @ join_strs '', '' (map show_type_spec members) @ '')''"
| "show_type_spec (TS_Array inner sz) =
     ''['' @ show_type_spec inner @ ''; '' @ show_type_expression sz @ '']''"
| "show_type_spec TS_Unit = ''()''"
| "show_type_spec (TS_Backward inner) = ''&mut '' @ show_type_spec inner"
| "show_type_spec (TS_Inverted inner) = ''~'' @ show_type_spec inner"
| "show_type_spec (TS_Wire inner) = ''&'' @ show_type_spec inner"
| "show_type_spec TS_TraitSelf = ''Self''"
| "show_type_spec TS_Wildcard = ''_''"

datatype trait_name = TN_Named name_id | TN_Anonymous nat

definition is_anonymous :: "trait_name \<Rightarrow> bool" where
  "is_anonymous n = (case n of TN_Anonymous _ \<Rightarrow> True | TN_Named _ \<Rightarrow> False)"

definition show_trait_name :: "trait_name \<Rightarrow> string" where
  "show_trait_name n =
     (case n of
        TN_Named n \<Rightarrow> show_name_id n
      | TN_Anonymous i \<Rightarrow> ''Anonymous('' @ show_nat i @ '')'')"

record trait_spec =
  ts_name :: trait_name
  ts_type_params :: "type_expression list option"

datatype where_clause =
    WC_Int name_id const_generic
  | WC_Type name_id "trait_spec list"

definition show_where_clause :: "where_clause \<Rightarrow> string" where
  "show_where_clause w =
     (case w of
        WC_Int target constraint \<Rightarrow>
          show_name_id target @ '': { '' @ show_const_generic constraint @ '' }''
      | WC_Type target traits \<Rightarrow>
          show_name_id target @ '': '' @ join_strs '' + '' (map (show_trait_name \<circ> ts_name) traits))"

section \<open>Patterns\<close>

datatype hir_pattern = HirPat (hp_id: nat) (hp_kind: hir_pattern_kind) (hp_loc: loc)
  and hir_pattern_kind =
    HPat_Integer int
  | HPat_Bool bool
  | HPat_Name name_id bool
  | HPat_Tuple "hir_pattern list"
  | HPat_Array "hir_pattern list"
  | HPat_Type name_id "pattern_argument list"
  and pattern_argument =
    PatArg (pa_target: ident) (pa_value: hir_pattern) (pa_kind: argument_kind)

lemma pa_value_smaller [termination_simp]:
  "x \<in> set args \<Longrightarrow> size (pa_value x) < Suc (Suc (size_list size args))"
  "x \<in> set args \<Longrightarrow> size (pa_value x) \<le> Suc (Suc (size_list size args))"
proof -
  assume "x \<in> set args"
  then have "size x \<le> size_list size args" by (rule size_list_estimation') simp
  then show "size (pa_value x) < Suc (Suc (size_list size args))"
    and "size (pa_value x) \<le> Suc (Suc (size_list size args))" by (cases x; simp)+
qed

lemma zip_members_smaller' [termination_simp]:
  "(j, p) \<in> set (zip js ps) \<Longrightarrow> size p < Suc (Suc (size_list size ps))"
  "(j, a) \<in> set (zip js args) \<Longrightarrow> size (pa_value a) < Suc (Suc (size_list size args))"
proof -
  assume "(j, p) \<in> set (zip js ps)"
  then have "p \<in> set ps" by (rule set_zip_rightD)
  then have "size p \<le> size_list size ps" by (rule size_list_estimation') simp
  then show "size p < Suc (Suc (size_list size ps))" by simp
next
  assume "(j, a) \<in> set (zip js args)"
  then show "size (pa_value a) < Suc (Suc (size_list size args))"
    by (intro pa_value_smaller) (rule set_zip_rightD)
qed

lemma pa_values_smaller [termination_simp]:
  "size_list (\<lambda>a. size (pa_value a)) args \<le> size_list size args"
  "size_list (size \<circ> pa_value) args \<le> size_list size args"
proof -
  have "size (pa_value a) \<le> size a" for a by (cases a) simp
  then show "size_list (\<lambda>a. size (pa_value a)) args \<le> size_list size args"
    by (intro size_list_pointwise)
  then show "size_list (size \<circ> pa_value) args \<le> size_list size args" by (simp add: comp_def)
qed

lemma pa_values_less [termination_simp]:
  "size_list (\<lambda>a. size (pa_value a)) args < Suc (size_list size args)"
  "size_list (size \<circ> pa_value) args < Suc (size_list size args)"
  "size_list (size \<circ> pa_value) args < Suc (Suc (size_list size args))"
  "size_list (size \<circ> pa_value) args \<le> Suc (Suc (size_list size args))"
  using pa_values_smaller [of args] by simp_all

fun get_names :: "hir_pattern \<Rightarrow> name_id list" where
  "get_names (HirPat i (HPat_Integer _) l) = []"
| "get_names (HirPat i (HPat_Bool _) l) = []"
| "get_names (HirPat i (HPat_Name name _) l) = [name]"
| "get_names (HirPat i (HPat_Tuple members) l) = concat (map get_names members)"
| "get_names (HirPat i (HPat_Type _ args) l) = concat (map (\<lambda>arg. get_names (pa_value arg)) args)"
| "get_names (HirPat i (HPat_Array members) l) = concat (map get_names members)"

fun show_hir_pattern :: "hir_pattern \<Rightarrow> string" where
  "show_hir_pattern (HirPat i (HPat_Integer val) l) = show_int val"
| "show_hir_pattern (HirPat i (HPat_Bool val) l) = (if val then ''true'' else ''false'')"
| "show_hir_pattern (HirPat i (HPat_Name name _) l) = show_name_id name"
| "show_hir_pattern (HirPat i (HPat_Tuple members) l) =
     ''('' @ join_strs '', '' (map show_hir_pattern members) @ '')''"
| "show_hir_pattern (HirPat i (HPat_Array members) l) =
     ''['' @ join_strs '', '' (map show_hir_pattern members) @ '']''"
| "show_hir_pattern (HirPat i (HPat_Type name _) l) = show_name_id name @ ''(..)''"


section \<open>Expressions and statements\<close>

datatype call_kind = CK_Function | CK_Entity | CK_Pipeline type_expression nat

datatype pipeline_ref_kind = PRK_Absolute name_id | PRK_Relative type_expression

datatype attribute =
    Attr_Optimize "string list"
  | Attr_Fsm name_id
  | Attr_WalTraceable ident

definition attribute_name :: "attribute \<Rightarrow> string" where
  "attribute_name a =
     (case a of
        Attr_Optimize _ \<Rightarrow> ''optimize''
      | Attr_Fsm _ \<Rightarrow> ''fsm''
      | Attr_WalTraceable _ \<Rightarrow> ''suffix'')"

datatype 'e wal_trace = WalTrace (wtr_clk: "'e option") (wtr_rst: "'e option")

datatype 'e reg_marker_extra = RM_Condition 'e | RM_Count type_expression nat

text \<open>
  The fields of a binding are its pattern, type, value and trace; of a register its pattern, clock,
  reset, initial value, value, type and attributes.
\<close>

datatype (plugins only: code size) expression =
    Expr (ex_kind: expr_kind) (ex_id: nat) (ex_loc: loc)
  and expr_kind =
    EK_Identifier name_id
  | EK_IntLiteral int int_literal_kind
  | EK_BoolLiteral bool
  | EK_BitLiteral bit_literal
  | EK_TypeLevelInteger name_id
  | EK_CreatePorts
  | EK_TupleLiteral "expression list"
  | EK_ArrayLiteral "expression list"
  | EK_ArrayShorthandLiteral expression nat
  | EK_Index expression expression
  | EK_RangeIndex expression nat nat
  | EK_TupleIndex expression nat
  | EK_FieldAccess expression ident
  | EK_MethodCall expression ident "expression argument_list" call_kind "type_expression argument_list option"
  | EK_Call call_kind name_id "expression argument_list" "type_expression argument_list option"
  | EK_BinaryOperator expression binary_operator expression
  | EK_UnaryOperator unary_operator expression
  | EK_Match expression "(hir_pattern \<times> expression) list"
  | EK_Block hir_block
  | EK_If expression expression expression
  | EK_PipelineRef pipeline_ref_kind name_id bool nat
  | EK_StageValid
  | EK_StageReady
  | EK_Null
  and hir_block = Block (bl_statements: "(hir_statement \<times> loc) list") (bl_result: "expression option")
  and hir_statement =
    HS_Binding hir_pattern "type_spec option" expression "expression wal_trace option"
  | HS_Register hir_pattern expression "(expression \<times> expression) option" "expression option"
      expression "type_spec option" "attribute list"
  | HS_Declaration "name_id list"
  | HS_PipelineRegMarker "expression reg_marker_extra option"
  | HS_Label name_id
  | HS_Assert expression
  | HS_Set expression expression
  | HS_WalSuffixed ident name_id

definition assume_block :: "expression \<Rightarrow> hir_block option" where
  "assume_block e = (case ex_kind e of EK_Block b \<Rightarrow> Some b | _ \<Rightarrow> None)"

text \<open>A subexpression that is only known at run time, if there is one.\<close>

fun runtime_requirement_witness :: "expression \<Rightarrow> expression option" where
  "runtime_requirement_witness (Expr k i l) =
     (case k of
        EK_TypeLevelInteger _ \<Rightarrow> None
      | EK_IntLiteral _ _ \<Rightarrow> None
      | EK_BoolLiteral _ \<Rightarrow> None
      | EK_TupleLiteral inner \<Rightarrow> find_map runtime_requirement_witness inner
      | EK_ArrayLiteral inner \<Rightarrow> find_map runtime_requirement_witness inner
      | EK_ArrayShorthandLiteral inner _ \<Rightarrow> runtime_requirement_witness inner
      | EK_Index a b \<Rightarrow> or_else (runtime_requirement_witness a) (runtime_requirement_witness b)
      | EK_TupleIndex a _ \<Rightarrow> runtime_requirement_witness a
      | EK_FieldAccess a _ \<Rightarrow> runtime_requirement_witness a
      | EK_BinaryOperator a oper b \<Rightarrow>
          (case or_else (runtime_requirement_witness a) (runtime_requirement_witness b) of
             Some witness \<Rightarrow> Some witness
           | None \<Rightarrow> if oper = BO_Add \<or> oper = BO_Sub then None else Some (Expr k i l))
      | EK_UnaryOperator oper operand \<Rightarrow>
          (case runtime_requirement_witness operand of
             Some witness \<Rightarrow> Some witness
           | None \<Rightarrow> if oper = UO_Sub then None else Some (Expr k i l))
      | EK_StageReady \<Rightarrow> None
      | EK_StageValid \<Rightarrow> None
      | EK_Null \<Rightarrow> None
      | _ \<Rightarrow> Some (Expr k i l))"

end
