(* ===== verification/Patterns.thy ===== *)
theory Patterns
  imports Hir
begin

text \<open>
  spade-hir-lowering, \<open>pattern.rs\<close>: constructors of patterns, their splitting and coverage, and
  deconstructed patterns. A panic (\<open>unreachable!\<close>, \<open>expect\<close>, an index out of bounds, the
  underflow of \<open>bits - 1\<close>) is \<open>None\<close>.
\<close>

section \<open>Constructors\<close>

datatype ctor =
    Ctor_Single
  | Ctor_Bool bool
  | Ctor_Variant nat
  | Ctor_IntRange int int
  | Ctor_Missing "ctor list"
  | Ctor_Wildcard

definition as_range :: "ctor \<Rightarrow> (int \<times> int) option" where
  "as_range c = (case c of Ctor_IntRange a b \<Rightarrow> Some (a, b) | _ \<Rightarrow> None)"

text \<open>The loop over the edges, with the list pushed so far left out.\<close>

fun split_at_edges :: "int \<Rightarrow> int list \<Rightarrow> int \<Rightarrow> ctor list" where
  "split_at_edges current_low [] mx = [Ctor_IntRange current_low mx]"
| "split_at_edges current_low (edge # edges) mx =
     Ctor_IntRange current_low (edge - 1) # split_at_edges edge edges mx"

definition split_int_range :: "int \<Rightarrow> int \<Rightarrow> ctor list \<Rightarrow> ctor list option" where
  "split_int_range mn mx other_ctors =
     map_option
       (\<lambda>rs. let edges = remdups_adj (sort (concat (map (\<lambda>(a, b). [a, b]) rs)))
             in split_at_edges mn (filter (\<lambda>e. e > mn \<and> e < mx) edges) mx)
       (mapM_opt as_range other_ctors)"

fun is_covered_by :: "ctor \<Rightarrow> ctor \<Rightarrow> bool option" where
  "is_covered_by self Ctor_Wildcard = Some True"
| "is_covered_by (Ctor_Missing ms) other = Some False"
| "is_covered_by Ctor_Single Ctor_Single = Some True"
| "is_covered_by (Ctor_Variant self_id) (Ctor_Variant other_id) = Some (self_id = other_id)"
| "is_covered_by (Ctor_IntRange smin smax) (Ctor_IntRange omin omax) =
     Some (smin \<ge> omin \<and> smax \<le> omax)"
| "is_covered_by (Ctor_Bool b1) (Ctor_Bool b2) = Some (b1 = b2)"
| "is_covered_by self other = None"

definition group_missing_constructors :: "ctor list \<Rightarrow> ctor list \<Rightarrow> ctor list option" where
  "group_missing_constructors all_ctors other_ctors =
     (let non_wildcard_other = filter (\<lambda>c. c \<noteq> Ctor_Wildcard) other_ctors
      in map_option
           (\<lambda>missing. if missing = [] then all_ctors
                      else non_wildcard_other @ [Ctor_Missing missing])
           (filter_opt (\<lambda>c. map_option Not (any_opt (is_covered_by c) non_wildcard_other)) all_ctors))"

text \<open>The size of an integer type, \<open>to_u128().expect(..)\<close> of its first parameter.\<close>

definition size_param :: "concrete_type list \<Rightarrow> nat option" where
  "size_param params =
     (case params of
        CT_Integer s # _ \<Rightarrow> if 0 \<le> s \<and> s < 2 ^ 128 then Some (nat s) else None
      | _ \<Rightarrow> None)"

text \<open>
  \<open>split_wildcard\<close> and \<open>Constructor::split\<close>: the inner splits are against no constructors, so the
  recursion is two deep.
\<close>

function (sequential) split_wildcard :: "concrete_type \<Rightarrow> ctor list \<Rightarrow> ctor list option"
    and ctor_split :: "ctor \<Rightarrow> concrete_type \<Rightarrow> ctor list \<Rightarrow> ctor list option" where
  "split_wildcard (CT_Tuple inner) others = Some [Ctor_Single]"
| "split_wildcard (CT_Struct name members) others = Some [Ctor_Single]"
| "split_wildcard (CT_Array inner sz) others = Some [Ctor_Single]"
| "split_wildcard (CT_Enum options) others = Some (map Ctor_Variant [0..<length options])"
| "split_wildcard (CT_Single base params) others =
     (case base of
        PT_Int \<Rightarrow>
          Option.bind (size_param params) (\<lambda>bits.
            if bits = 0 then None
            else Option.bind
                   (mapM_opt (\<lambda>c. ctor_split c (CT_Single base params) []) others) (\<lambda>split.
                   split_int_range (- (2 ^ (bits - 1))) (2 ^ (bits - 1) - 1) (concat split)))
      | PT_Uint \<Rightarrow>
          Option.bind (size_param params) (\<lambda>bits.
            Option.bind (mapM_opt (\<lambda>c. ctor_split c (CT_Single base params) []) others) (\<lambda>split.
              split_int_range 0 (2 ^ bits - 1) (concat split)))
      | PT_Bool \<Rightarrow> group_missing_constructors [Ctor_Bool False, Ctor_Bool True] others
      | PT_Bit \<Rightarrow> Some []
      | PT_Clock \<Rightarrow> Some []
      | PT_Memory \<Rightarrow> Some []
      | PT_InOut \<Rightarrow> Some []
      | PT_Void \<Rightarrow> Some [])"
| "split_wildcard (CT_Backward inner) others = Some [Ctor_Single]"
| "split_wildcard (CT_Wire inner) others = Some [Ctor_Single]"
| "split_wildcard (CT_Integer s) others = None"
| "ctor_split Ctor_Wildcard ty others = split_wildcard ty others"
| "ctor_split (Ctor_IntRange a b) ty others = split_int_range a b others"
| "ctor_split c ty others = Some [c]"
  by pat_completeness auto
termination
  by (relation "measure (case_sum (\<lambda>(ty, others). 2 * length others)
        (\<lambda>(c, ty, others). 2 * length others + 1))")
    (auto simp: neq_Nil_conv dest: in_set_conv_decomp [THEN iffD1])

definition ctor_fields :: "ctor \<Rightarrow> concrete_type \<Rightarrow> concrete_type list option" where
  "ctor_fields c ty =
     (case c of
        Ctor_Single \<Rightarrow>
          (case ty of
             CT_Tuple inner \<Rightarrow> Some inner
           | CT_Struct name members \<Rightarrow> Some (map snd members)
           | CT_Array inner sz \<Rightarrow>
               if 0 \<le> sz \<and> sz < 2 ^ 128 then Some (replicate (nat sz) inner) else None
           | CT_Enum options \<Rightarrow> None
           | CT_Single base params \<Rightarrow> Some []
           | CT_Integer s \<Rightarrow> None
           | CT_Backward inner \<Rightarrow> Some []
           | CT_Wire inner \<Rightarrow> Some [])
      | Ctor_Variant idx \<Rightarrow>
          (case ty of
             CT_Enum options \<Rightarrow>
               if idx < length options then Some (map snd (snd (options ! idx))) else None
           | _ \<Rightarrow> None)
      | Ctor_Bool b \<Rightarrow> Some []
      | Ctor_IntRange a b \<Rightarrow> Some []
      | Ctor_Missing ms \<Rightarrow> Some []
      | Ctor_Wildcard \<Rightarrow> None)"

definition ctor_arity :: "ctor \<Rightarrow> concrete_type \<Rightarrow> nat option" where
  "ctor_arity c ty = map_option length (ctor_fields c ty)"

section \<open>Deconstructed patterns\<close>

datatype dpat = DP (dp_ctor: ctor) (dp_fields: "dpat list") (dp_ty: concrete_type)

definition dp_wildcard :: "concrete_type \<Rightarrow> dpat" where
  "dp_wildcard ty = DP Ctor_Wildcard [] ty"

definition wild_from_ctor :: "ctor \<Rightarrow> concrete_type \<Rightarrow> dpat option" where
  "wild_from_ctor c ty =
     map_option (\<lambda>tys. DP c (map dp_wildcard tys) ty) (ctor_fields c ty)"

definition dp_specialize :: "dpat \<Rightarrow> ctor \<Rightarrow> dpat list option" where
  "dp_specialize p other_ctor =
     (if dp_ctor p = Ctor_Wildcard then map_option dp_fields (wild_from_ctor other_ctor (dp_ty p))
      else Some (dp_fields p))"

text \<open>
  What \<open>from_hir\<close> asks of its context: the kind of a patternable path, the variant number of an
  enum path, and the types of the ids, which come from the symbol table and the type state.
\<close>

datatype patternable_kind = PK_Struct | PK_Enum

record pat_context =
  patternable_type_by_id :: "name_id \<Rightarrow> patternable_kind"
  enum_variant_option :: "name_id \<Rightarrow> nat"
  type_of_id :: "nat \<Rightarrow> concrete_type"

definition is_enum_type :: "concrete_type \<Rightarrow> bool" where
  "is_enum_type ty = (case ty of CT_Enum options \<Rightarrow> True | _ \<Rightarrow> False)"

fun from_hir :: "pat_context \<Rightarrow> hir_pattern \<Rightarrow> dpat option" where
  "from_hir ctx (HirPat i (HPat_Integer v) l) =
     Some (DP (Ctor_IntRange v (v + 1)) [] (type_of_id ctx i))"
| "from_hir ctx (HirPat i (HPat_Bool b) l) = Some (DP (Ctor_Bool b) [] (type_of_id ctx i))"
| "from_hir ctx (HirPat i (HPat_Name n d) l) = Some (DP Ctor_Wildcard [] (type_of_id ctx i))"
| "from_hir ctx (HirPat i (HPat_Tuple inner) l) =
     map_option (\<lambda>fs. DP Ctor_Single fs (type_of_id ctx i)) (mapM_opt (from_hir ctx) inner)"
| "from_hir ctx (HirPat i (HPat_Array inner) l) =
     map_option (\<lambda>fs. DP Ctor_Single fs (type_of_id ctx i)) (mapM_opt (from_hir ctx) inner)"
| "from_hir ctx (HirPat i (HPat_Type p args) l) =
     Option.bind (mapM_opt (\<lambda>arg. from_hir ctx (pa_value arg)) args) (\<lambda>fs.
       case patternable_type_by_id ctx p of
         PK_Struct \<Rightarrow> Some (DP Ctor_Single fs (type_of_id ctx i))
       | PK_Enum \<Rightarrow>
           if is_enum_type (type_of_id ctx i)
           then Some (DP (Ctor_Variant (enum_variant_option ctx p)) fs (type_of_id ctx i))
           else None)"

text \<open>\<open>Display\<close> of a pattern, the text of a witness in a diagnostic.\<close>

definition show_bool :: "bool \<Rightarrow> string" where
  "show_bool b = (if b then ''true'' else ''false'')"

fun show_dpat :: "dpat \<Rightarrow> string option" where
  "show_dpat (DP Ctor_Single subs ty) =
     (case ty of
        CT_Tuple _ \<Rightarrow>
          map_option (\<lambda>fs. ''('' @ join_strs '', '' fs @ '')'') (mapM_opt show_dpat subs)
      | CT_Struct name members \<Rightarrow>
          map_option
            (\<lambda>fs. show_name_id name @ ''('' @
               join_strs '', '' (map (\<lambda>(f, m). fst m @ '': '' @ f) (zip fs members)) @ '')'')
            (mapM_opt (\<lambda>f. f) (take (length members) (map show_dpat subs)))
      | CT_Array _ _ \<Rightarrow>
          map_option (\<lambda>fs. ''['' @ join_strs '', '' fs @ '']'') (mapM_opt show_dpat subs)
      | CT_Single _ _ \<Rightarrow> Some ''_''
      | _ \<Rightarrow> None)"
| "show_dpat (DP (Ctor_Variant idx) subs ty) =
     (case ty of
        CT_Enum options \<Rightarrow>
          if idx < length options then
            map_option
              (\<lambda>fs. show_name_id (fst (options ! idx)) @
                 (if subs = [] then []
                  else ''('' @ join_strs '', ''
                         (map (\<lambda>(f, m). fst m @ '': '' @ f) (zip fs (snd (options ! idx)))) @ '')''))
              (mapM_opt (\<lambda>f. f) (take (length (snd (options ! idx))) (map show_dpat subs)))
          else None
      | _ \<Rightarrow> None)"
| "show_dpat (DP (Ctor_Bool b) subs ty) = Some (show_bool b)"
| "show_dpat (DP (Ctor_IntRange a b) subs ty) = Some (show_int a @ ''..'' @ show_int b)"
| "show_dpat (DP (Ctor_Missing ms) subs ty) = None"
| "show_dpat (DP Ctor_Wildcard subs ty) = Some ''_''"

end
