(* ===== verification/Usefulness.thy ===== *)
theory Usefulness
  imports Patterns
begin

text \<open>
  spade-hir-lowering, \<open>usefulness.rs\<close>: the check whether a pattern matches a value that no
  earlier pattern matches, and the witnesses it reports. \<open>PatStack\<close>, \<open>Matrix\<close>, \<open>Witness\<close> and
  \<open>Usefulness\<close> wrap one vector each and are the vectors here; the empty vector of witnesses is
  the verdict "useless". All panics of the check are \<open>None\<close>. The recursion ends because a stack
  loses weight whenever its head is replaced by its fields; the weight of a wildcard is that of
  its type.
\<close>

section \<open>Stacks, matrices and witnesses\<close>

type_synonym pat_stack = "dpat list"
type_synonym matrix = "pat_stack list"
type_synonym witness = "dpat list"
type_synonym usefulness = "witness list"

definition stack_head :: "pat_stack \<Rightarrow> dpat option" where
  "stack_head pats = (case pats of [] \<Rightarrow> None | p # _ \<Rightarrow> Some p)"

definition pop_head :: "pat_stack \<Rightarrow> ctor \<Rightarrow> pat_stack option" where
  "pop_head pats c =
     (case pats of
        [] \<Rightarrow> None
      | p # rest \<Rightarrow> map_option (\<lambda>new_fields. new_fields @ rest) (dp_specialize p c))"

fun matrix_specialize :: "matrix \<Rightarrow> ctor \<Rightarrow> matrix option" where
  "matrix_specialize [] c = Some []"
| "matrix_specialize (row # rows) c =
     Option.bind (stack_head row) (\<lambda>p.
     Option.bind (is_covered_by c (dp_ctor p)) (\<lambda>covered.
       if covered
       then Option.bind (pop_head row c) (\<lambda>r. map_option ((#) r) (matrix_specialize rows c))
       else matrix_specialize rows c))"

definition witness_apply_constructor :: "witness \<Rightarrow> ctor \<Rightarrow> concrete_type \<Rightarrow> witness option" where
  "witness_apply_constructor w c ty =
     Option.bind (ctor_arity c ty) (\<lambda>arity.
       if length w < arity then None
       else let n = length w - arity
            in Some (take n w @ [DP c (rev (drop n w)) ty]))"

definition useful_apply_constructor :: "usefulness \<Rightarrow> ctor \<Rightarrow> concrete_type \<Rightarrow> usefulness option" where
  "useful_apply_constructor u c ty =
     (if u = [] then Some u
      else map_option concat
        (mapM_opt
          (\<lambda>w. case c of
               Ctor_Missing all_missing \<Rightarrow>
                 mapM_opt (\<lambda>c. witness_apply_constructor w c ty) all_missing
             | other \<Rightarrow> map_option (\<lambda>w. [w]) (witness_apply_constructor w other ty))
          u))"

definition useful_extend :: "usefulness \<Rightarrow> usefulness \<Rightarrow> usefulness" where
  "useful_extend self other =
     (if other = [] then self else if self = [] then other else self @ other)"

section \<open>The weight of a stack\<close>

fun type_weight :: "concrete_type \<Rightarrow> nat" where
  "type_weight (CT_Tuple inner) = 1 + sum_list (map type_weight inner)"
| "type_weight (CT_Struct name members) = 1 + sum_list (map (\<lambda>(_, t). type_weight t) members)"
| "type_weight (CT_Array inner sz) = 1 + nat sz * type_weight inner"
| "type_weight (CT_Enum options) =
     1 + sum_list (map (\<lambda>(_, args). sum_list (map (\<lambda>(_, t). type_weight t) args)) options)"
| "type_weight (CT_Single base params) = 1"
| "type_weight (CT_Integer s) = 1"
| "type_weight (CT_Backward inner) = 1"
| "type_weight (CT_Wire inner) = 1"

fun pat_weight :: "dpat \<Rightarrow> nat" where
  "pat_weight (DP c subs ty) =
     (if c = Ctor_Wildcard then type_weight ty else 1 + sum_list (map pat_weight subs))"

definition stack_weight :: "pat_stack \<Rightarrow> nat" where
  "stack_weight pats = sum_list (map pat_weight pats)"

lemma type_weight_pos: "0 < type_weight ty"
  by (cases ty) auto

lemma ctor_fields_weight:
  "ctor_fields c ty = Some tys \<Longrightarrow> sum_list (map type_weight tys) < type_weight ty"
proof -
  assume tys: "ctor_fields c ty = Some tys"
  have "sum_list (map type_weight (map snd (snd (options ! idx)))) \<le>
      sum_list (map (\<lambda>(_, args). sum_list (map (\<lambda>(_, t). type_weight t) args)) options)"
    if "idx < length options" for idx and options :: "(name_id \<times> (ident \<times> concrete_type) list) list"
    using member_le_sum_list
      [of "(\<lambda>(_, args). sum_list (map (\<lambda>(_, t). type_weight t) args)) (options ! idx)"
        "map (\<lambda>(_, args). sum_list (map (\<lambda>(_, t). type_weight t) args)) options"] that
    by (simp add: case_prod_unfold comp_def)
  with tys show ?thesis
    by (auto simp: ctor_fields_def type_weight_pos sum_list_replicate case_prod_unfold comp_def
        less_Suc_eq_le split: ctor.splits concrete_type.splits if_splits)
qed

lemma pop_head_weight: "pop_head pats c = Some pats' \<Longrightarrow> stack_weight pats' < stack_weight pats"
proof -
  assume pop: "pop_head pats c = Some pats'"
  then obtain p rest subs where pats: "pats = p # rest" "pats' = subs @ rest"
    and subs: "dp_specialize p c = Some subs"
    by (auto simp: pop_head_def split: list.splits)
  have "sum_list (map pat_weight subs) < pat_weight p"
  proof (cases p)
    case (DP pc psubs ty)
    show ?thesis
    proof (cases "pc = Ctor_Wildcard")
      case True
      then obtain tys where "ctor_fields c ty = Some tys" "subs = map dp_wildcard tys"
        using subs DP by (auto simp: dp_specialize_def wild_from_ctor_def)
      then show ?thesis
        using ctor_fields_weight [of c ty tys] DP True by (simp add: comp_def dp_wildcard_def)
    next
      case False
      then show ?thesis using subs DP by (simp add: dp_specialize_def)
    qed
  qed
  then show ?thesis by (simp add: pats stack_weight_def)
qed

section \<open>The check\<close>

function is_useful :: "pat_stack \<Rightarrow> matrix \<Rightarrow> usefulness option" where
  "is_useful pattern prev_patterns =
     (case pattern of
        [] \<Rightarrow> Some (if prev_patterns = [] then [[]] else [])
      | p # rest \<Rightarrow>
          Option.bind (mapM_opt (\<lambda>row. map_option dp_ctor (stack_head row)) prev_patterns) (\<lambda>others.
          Option.bind (ctor_split (dp_ctor p) (dp_ty p) others) (\<lambda>split_ctors.
            map_option (\<lambda>us. fold (\<lambda>u ret. useful_extend ret u) us [])
              (mapM_opt
                (\<lambda>c. Option.bind (pop_head pattern c) (\<lambda>pattern'.
                     Option.bind (matrix_specialize prev_patterns c) (\<lambda>specialized.
                     Option.bind (is_useful pattern' specialized) (\<lambda>usefulness.
                       useful_apply_constructor usefulness c (dp_ty p)))))
                split_ctors))))"
  by pat_completeness auto
termination
  by (relation "measure (\<lambda>(pattern, _). stack_weight pattern)") (auto dest: pop_head_weight)

declare is_useful.simps [simp del]

definition useful :: "usefulness \<Rightarrow> bool" where
  "useful u \<longleftrightarrow> u \<noteq> []"

text \<open>
  The check of a match (\<open>ExprKind::Match\<close>) and of a binding (\<open>is_refutable\<close>): a wildcard of the
  type of the operand against the patterns, one per row.
\<close>

definition missing_patterns :: "pat_context \<Rightarrow> concrete_type \<Rightarrow> hir_pattern list \<Rightarrow> usefulness option" where
  "missing_patterns ctx operand_ty branches =
     Option.bind (mapM_opt (from_hir ctx) branches) (\<lambda>pats.
       is_useful [dp_wildcard operand_ty] (map (\<lambda>p. [p]) pats))"

end
