(* ===== verification/Usefulness_Sound.thy ===== *)
theory Usefulness_Sound
  imports Usefulness
begin

text \<open>
  The meaning of the usefulness check. \<open>pvalue\<close> are the values a match inspects, \<open>wt_value\<close> types
  them, \<open>pat_matches\<close> says which values a deconstructed pattern matches; an integer range contains
  both of its bounds, as \<open>is_covered_by\<close> and the splitting read it. The verdict "useless" is
  proved sound, the witnesses of "useful" are proved to be missed values (without integer types),
  and the check of a wildcard is proved not to panic.
\<close>

section \<open>Values and matching\<close>

datatype pvalue =
  PV_Struct "pvalue list" | PV_Bool bool | PV_Variant nat "pvalue list" | PV_Int int | PV_Opaque

definition single_type :: "concrete_type \<Rightarrow> bool" where
  "single_type ty =
     (case ty of CT_Tuple _ \<Rightarrow> True | CT_Struct _ _ \<Rightarrow> True | CT_Array _ _ \<Rightarrow> True
      | CT_Backward _ \<Rightarrow> True | CT_Wire _ \<Rightarrow> True | _ \<Rightarrow> False)"

definition opaque_base :: "primitive_type \<Rightarrow> bool" where
  "opaque_base b \<longleftrightarrow> b \<noteq> PT_Int \<and> b \<noteq> PT_Uint \<and> b \<noteq> PT_Bool"

definition int_bounds :: "concrete_type \<Rightarrow> (int \<times> int) option" where
  "int_bounds ty =
     (case ty of
        CT_Single base params \<Rightarrow>
          Option.bind (size_param params) (\<lambda>bits.
            if base = PT_Int \<and> bits \<noteq> 0 then Some (- (2 ^ (bits - 1)), 2 ^ (bits - 1) - 1)
            else if base = PT_Uint then Some (0, 2 ^ bits - 1) else None)
      | _ \<Rightarrow> None)"

definition is_bool_type :: "concrete_type \<Rightarrow> bool" where
  "is_bool_type ty = (case ty of CT_Single base _ \<Rightarrow> base = PT_Bool | _ \<Rightarrow> False)"

definition is_opaque_type :: "concrete_type \<Rightarrow> bool" where
  "is_opaque_type ty = (case ty of CT_Single base _ \<Rightarrow> opaque_base base | _ \<Rightarrow> False)"

fun wt_value :: "pvalue \<Rightarrow> concrete_type \<Rightarrow> bool"
  and wt_values :: "pvalue list \<Rightarrow> concrete_type list \<Rightarrow> bool" where
  "wt_value (PV_Struct vs) ty \<longleftrightarrow>
     single_type ty \<and> (case ctor_fields Ctor_Single ty of None \<Rightarrow> False | Some tys \<Rightarrow> wt_values vs tys)"
| "wt_value (PV_Bool b) ty \<longleftrightarrow> is_bool_type ty"
| "wt_value (PV_Variant i vs) ty \<longleftrightarrow>
     (case ctor_fields (Ctor_Variant i) ty of None \<Rightarrow> False | Some tys \<Rightarrow> wt_values vs tys)"
| "wt_value (PV_Int n) ty \<longleftrightarrow>
     (case int_bounds ty of None \<Rightarrow> False | Some (a, b) \<Rightarrow> a \<le> n \<and> n \<le> b)"
| "wt_value PV_Opaque ty \<longleftrightarrow> is_opaque_type ty"
| "wt_values [] [] \<longleftrightarrow> True"
| "wt_values (v # vs) (ty # tys) \<longleftrightarrow> wt_value v ty \<and> wt_values vs tys"
| "wt_values [] (ty # tys) \<longleftrightarrow> False"
| "wt_values (v # vs) [] \<longleftrightarrow> False"

fun transparent :: "pvalue \<Rightarrow> bool" where
  "transparent (PV_Struct vs) \<longleftrightarrow> list_all transparent vs"
| "transparent (PV_Variant i vs) \<longleftrightarrow> list_all transparent vs"
| "transparent PV_Opaque \<longleftrightarrow> False"
| "transparent v \<longleftrightarrow> True"

fun subvalues :: "pvalue \<Rightarrow> pvalue list" where
  "subvalues (PV_Struct vs) = vs"
| "subvalues (PV_Variant i vs) = vs"
| "subvalues v = []"

fun ctor_admits :: "ctor \<Rightarrow> pvalue \<Rightarrow> bool" where
  "ctor_admits Ctor_Single (PV_Struct vs) \<longleftrightarrow> True"
| "ctor_admits (Ctor_Bool b) (PV_Bool b') \<longleftrightarrow> b = b'"
| "ctor_admits (Ctor_Variant i) (PV_Variant j vs) \<longleftrightarrow> i = j"
| "ctor_admits (Ctor_IntRange a b) (PV_Int n) \<longleftrightarrow> a \<le> n \<and> n \<le> b"
| "ctor_admits (Ctor_Missing ms) v \<longleftrightarrow> list_ex (\<lambda>c. ctor_admits c v) ms"
| "ctor_admits Ctor_Wildcard v \<longleftrightarrow> True"
| "ctor_admits c v \<longleftrightarrow> False"

fun pat_matches :: "dpat \<Rightarrow> pvalue \<Rightarrow> bool"
  and pats_match :: "dpat list \<Rightarrow> pvalue list \<Rightarrow> bool" where
  "pat_matches (DP c subs ty) v \<longleftrightarrow>
     c = Ctor_Wildcard \<or> ctor_admits c v \<and> pats_match subs (subvalues v)"
| "pats_match [] [] \<longleftrightarrow> True"
| "pats_match (p # ps) (v # vs) \<longleftrightarrow> pat_matches p v \<and> pats_match ps vs"
| "pats_match [] (v # vs) \<longleftrightarrow> False"
| "pats_match (p # ps) [] \<longleftrightarrow> False"

text \<open>Which constructors a type has, and well-formed patterns.\<close>

definition ctor_ok :: "ctor \<Rightarrow> concrete_type \<Rightarrow> bool" where
  "ctor_ok c ty =
     (case c of
        Ctor_Single \<Rightarrow> single_type ty
      | Ctor_Bool b \<Rightarrow> is_bool_type ty
      | Ctor_Variant i \<Rightarrow> is_enum_type ty
      | Ctor_IntRange a b \<Rightarrow> int_bounds ty \<noteq> None
      | Ctor_Missing ms \<Rightarrow> False
      | Ctor_Wildcard \<Rightarrow> True)"

fun pat_wf :: "dpat \<Rightarrow> bool" where
  "pat_wf (DP c subs ty) \<longleftrightarrow>
     c = Ctor_Wildcard \<or>
     ctor_ok c ty \<and> ctor_fields c ty = Some (map dp_ty subs) \<and> list_all pat_wf subs"

definition stack_wf :: "concrete_type list \<Rightarrow> pat_stack \<Rightarrow> bool" where
  "stack_wf tys ps \<longleftrightarrow> map dp_ty ps = tys \<and> list_all pat_wf ps"

lemma wt_values_length: "wt_values vs tys \<Longrightarrow> length vs = length tys"
proof (induction vs arbitrary: tys)
  case (Cons v vs)
  then show ?case by (cases tys) auto
next
  case Nil
  then show ?case by (cases tys) auto
qed

lemma wt_values_append [simp]:
  "length vs = length tys \<Longrightarrow>
     wt_values (vs @ vs') (tys @ tys') \<longleftrightarrow> wt_values vs tys \<and> wt_values vs' tys'"
  by (induction vs tys rule: list_induct2) auto

lemma wt_values_append_types:
  "wt_values vs (tys @ tys') \<longleftrightarrow>
     wt_values (take (length tys) vs) tys \<and> wt_values (drop (length tys) vs) tys'"
proof (induction tys arbitrary: vs)
  case (Cons ty tys)
  then show ?case by (cases vs) auto
qed simp

lemma pats_match_length: "pats_match ps vs \<Longrightarrow> length ps = length vs"
proof (induction ps arbitrary: vs)
  case (Cons p ps)
  then show ?case by (cases vs) auto
next
  case Nil
  then show ?case by (cases vs) auto
qed

lemma pats_match_append:
  "length ps = length vs \<Longrightarrow>
     pats_match (ps @ ps') (vs @ vs') \<longleftrightarrow> pats_match ps vs \<and> pats_match ps' vs'"
  by (induction ps vs rule: list_induct2) auto

lemma pats_match_append_pats:
  "pats_match (ps @ ps') vs \<longleftrightarrow>
     pats_match ps (take (length ps) vs) \<and> pats_match ps' (drop (length ps) vs)"
proof (induction ps arbitrary: vs)
  case (Cons p ps)
  then show ?case by (cases vs) auto
qed simp

lemma pats_match_wildcards [simp]:
  "pats_match (map dp_wildcard tys) vs \<longleftrightarrow> length vs = length tys"
proof (induction tys arbitrary: vs)
  case (Cons ty tys)
  then show ?case by (cases vs) (auto simp: dp_wildcard_def)
next
  case Nil
  then show ?case by (cases vs) auto
qed

lemma dp_wildcard_simps [simp]:
  "dp_ctor (dp_wildcard ty) = Ctor_Wildcard" "dp_ty (dp_wildcard ty) = ty" "pat_wf (dp_wildcard ty)"
  by (simp_all add: dp_wildcard_def)

section \<open>Splitting covers the values\<close>

text \<open>The constructors that a split returns.\<close>

definition ctor_piece :: "concrete_type \<Rightarrow> ctor \<Rightarrow> bool" where
  "ctor_piece ty c \<longleftrightarrow>
     (case c of
        Ctor_Missing ms \<Rightarrow>
          is_bool_type ty \<and> ms \<noteq> [] \<and> (\<forall>c\<in>set ms. \<exists>b. c = Ctor_Bool b)
      | Ctor_Wildcard \<Rightarrow> False
      | _ \<Rightarrow> ctor_ok c ty)"

lemma split_at_edges_covers:
  "current_low \<le> n \<Longrightarrow> n \<le> mx \<Longrightarrow>
     \<exists>c\<in>set (split_at_edges current_low edges mx). ctor_admits c (PV_Int n)"
proof (induction current_low edges mx rule: split_at_edges.induct)
  case (2 current_low edge edges mx)
  then show ?case by (cases "n < edge") auto
qed auto

lemma split_at_edges_ranges:
  "c \<in> set (split_at_edges current_low edges mx) \<Longrightarrow> \<exists>a b. c = Ctor_IntRange a b"
  by (induction current_low edges mx rule: split_at_edges.induct) auto

lemma split_int_range_covers:
  "split_int_range a b others = Some cs \<Longrightarrow> a \<le> n \<Longrightarrow> n \<le> b \<Longrightarrow>
     \<exists>c\<in>set cs. ctor_admits c (PV_Int n)"
  by (auto simp: split_int_range_def Let_def intro: split_at_edges_covers)

lemma split_int_range_ranges:
  "split_int_range a b others = Some cs \<Longrightarrow> c \<in> set cs \<Longrightarrow> \<exists>a b. c = Ctor_IntRange a b"
  by (auto simp: split_int_range_def Let_def dest: split_at_edges_ranges)

lemma covered_admits:
  "is_covered_by c rc = Some True \<Longrightarrow> ctor_admits c v \<Longrightarrow> ctor_admits rc v"
  by (induction c rc rule: is_covered_by.induct; cases v) auto

lemma covered_bool:
  "is_covered_by (Ctor_Bool b) c = Some True \<Longrightarrow> c \<noteq> Ctor_Wildcard \<Longrightarrow> c = Ctor_Bool b"
  by (cases c) auto

lemma group_missing_mem:
  assumes "group_missing_constructors all others = Some cs" and "c \<in> set cs"
  obtains "c \<in> set all" | "c \<in> set others" "c \<noteq> Ctor_Wildcard"
  | ms where "c = Ctor_Missing ms" "ms \<noteq> []" "set ms \<subseteq> set all"
      "\<forall>m\<in>set ms. \<forall>oc\<in>set others. oc \<noteq> Ctor_Wildcard \<longrightarrow> is_covered_by m oc = Some False"
proof -
  let ?nw = "filter (\<lambda>c. c \<noteq> Ctor_Wildcard) others"
  obtain missing where m: "filter_opt (\<lambda>c. map_option Not (any_opt (is_covered_by c) ?nw)) all = Some missing"
    and cs: "cs = (if missing = [] then all else ?nw @ [Ctor_Missing missing])"
    using assms(1) by (auto simp: group_missing_constructors_def Let_def)
  have "m \<in> set all \<and> (\<forall>oc\<in>set others. oc \<noteq> Ctor_Wildcard \<longrightarrow> is_covered_by m oc = Some False)"
    if "m \<in> set missing" for m
  proof -
    have "m \<in> set all" and "any_opt (is_covered_by m) ?nw = Some False"
      using filter_opt_mem [OF m, of m] that by auto
    then show ?thesis by (auto simp: any_opt_False)
  qed
  with that cs assms(2) show thesis
    by (cases "missing = []") auto
qed

lemma group_missing_covers:
  assumes "group_missing_constructors all others = Some cs" and "c \<in> set all" and "ctor_admits c v"
  shows "\<exists>c\<in>set cs. ctor_admits c v"
proof -
  let ?nw = "filter (\<lambda>c. c \<noteq> Ctor_Wildcard) others"
  obtain missing where m: "filter_opt (\<lambda>c. map_option Not (any_opt (is_covered_by c) ?nw)) all = Some missing"
    and cs: "cs = (if missing = [] then all else ?nw @ [Ctor_Missing missing])"
    using assms(1) by (auto simp: group_missing_constructors_def Let_def)
  obtain b where b: "any_opt (is_covered_by c) ?nw = Some b"
    using filter_opt_total [OF m assms(2)] by auto
  show ?thesis
  proof (cases b)
    case True
    then obtain oc where "oc \<in> set ?nw" "is_covered_by c oc = Some True"
      using b any_opt_True by fastforce
    then show ?thesis
      using cs covered_admits assms(2,3) by (auto intro: bexI [of _ oc])
  next
    case False
    with b have "any_opt (is_covered_by c) ?nw = Some False" by simp
    then have "c \<in> set missing" using filter_opt_mem [OF m, of c] assms(2) by simp
    then show ?thesis using cs assms(3) by (auto simp: list_ex_iff)
  qed
qed

lemma ctor_piece_pat: "ctor_ok c ty \<Longrightarrow> c \<noteq> Ctor_Wildcard \<Longrightarrow> ctor_piece ty c"
  by (cases c) (auto simp: ctor_piece_def ctor_ok_def)

text \<open>What a split returns, for a well-formed pattern against well-formed rows.\<close>

lemma split_wildcard_single:
  "split_wildcard (CT_Single base params) others = Some cs \<Longrightarrow>
     (\<exists>a b others'. int_bounds (CT_Single base params) = Some (a, b) \<and> split_int_range a b others' = Some cs) \<or>
     base = PT_Bool \<and> group_missing_constructors [Ctor_Bool False, Ctor_Bool True] others = Some cs \<or>
     opaque_base base \<and> cs = []"
  by (cases base)
    (auto simp: int_bounds_def opaque_base_def bind_eq_Some_conv split: if_splits)

lemma ctor_split_pieces:
  assumes "ctor_split c ty others = Some cs" and "ctor_ok c ty"
    and "\<forall>oc\<in>set others. ctor_ok oc ty" and "c' \<in> set cs"
  shows "ctor_piece ty c'"
proof (cases c)
  case Ctor_Wildcard
  have sw: "split_wildcard ty others = Some cs" using assms(1) Ctor_Wildcard by simp
  show ?thesis
  proof (cases ty)
    case (CT_Single base params)
    consider a b others' where "int_bounds ty = Some (a, b)" "split_int_range a b others' = Some cs"
      | "base = PT_Bool" "group_missing_constructors [Ctor_Bool False, Ctor_Bool True] others = Some cs"
      | "cs = []"
      using split_wildcard_single sw CT_Single by blast
    then show ?thesis
    proof cases
      case 1
      then show ?thesis
        using split_int_range_ranges [OF 1(2) assms(4)]
        by (auto simp: ctor_piece_def ctor_ok_def)
    next
      case 2
      from 2(2) assms(4) show ?thesis
      proof (rule group_missing_mem)
        assume "c' \<in> set others" "c' \<noteq> Ctor_Wildcard"
        with assms(3) show ?thesis by (auto intro: ctor_piece_pat)
      qed (use 2(1) CT_Single in \<open>auto simp: ctor_piece_def ctor_ok_def is_bool_type_def\<close>)
    qed (use assms(4) in simp)
  qed (use sw assms(4) in \<open>auto simp: ctor_piece_def ctor_ok_def single_type_def is_enum_type_def\<close>)
next
  case (Ctor_IntRange a b)
  then show ?thesis
    using assms(1,2,4) by (auto simp: ctor_piece_def ctor_ok_def dest: split_int_range_ranges)
qed (use assms in \<open>auto simp: ctor_piece_def ctor_ok_def\<close>)

lemma ctor_split_covers:
  assumes "ctor_split c ty others = Some cs" and "ctor_ok c ty"
    and "wt_value v ty" and "transparent v" and "ctor_admits c v"
  shows "\<exists>c'\<in>set cs. ctor_admits c' v"
proof (cases c)
  case Ctor_Wildcard
  have sw: "split_wildcard ty others = Some cs" using assms(1) Ctor_Wildcard by simp
  show ?thesis
  proof (cases ty)
    case (CT_Single base params)
    consider a b others' where "int_bounds ty = Some (a, b)" "split_int_range a b others' = Some cs"
      | "base = PT_Bool" "group_missing_constructors [Ctor_Bool False, Ctor_Bool True] others = Some cs"
      | "opaque_base base"
      using split_wildcard_single sw CT_Single by blast
    then show ?thesis
    proof cases
      case 1
      then obtain n where "v = PV_Int n" "a \<le> n" "n \<le> b"
        using assms(3,4) CT_Single
        by (cases v) (auto simp: single_type_def ctor_fields_def is_bool_type_def int_bounds_def
            bind_eq_Some_conv split: if_splits)
      then show ?thesis using split_int_range_covers [OF 1(2)] by blast
    next
      case 2
      then obtain b where "v = PV_Bool b"
        using assms(3,4) CT_Single
        by (cases v) (auto simp: single_type_def ctor_fields_def int_bounds_def
            bind_eq_Some_conv split: option.splits)
      then show ?thesis
        using group_missing_covers [OF 2(2), of "Ctor_Bool b" v] by (cases b) auto
    next
      case 3
      then show ?thesis
        using assms(3,4) CT_Single
        by (cases v) (auto simp: single_type_def ctor_fields_def int_bounds_def is_bool_type_def
            opaque_base_def bind_eq_Some_conv split: option.splits if_splits)
    qed
  next
    case (CT_Enum options)
    then show ?thesis
      using assms(3) sw
      by (cases v) (auto simp: single_type_def ctor_fields_def int_bounds_def is_bool_type_def
          is_opaque_type_def split: if_splits)
  qed (use sw assms(3) in \<open>cases v; auto simp: single_type_def ctor_fields_def int_bounds_def
      is_bool_type_def is_opaque_type_def\<close>)+
next
  case (Ctor_IntRange a b)
  then show ?thesis
    using assms(1,5) by (cases v) (auto intro: split_int_range_covers)
qed (use assms in auto)

section \<open>Popping the head\<close>

text \<open>\<open>c\<close> can stand for the head constructor \<open>pc\<close>: it has the same fields, or \<open>pc\<close> is a wildcard.\<close>

definition refines :: "ctor \<Rightarrow> ctor \<Rightarrow> bool" where
  "refines c pc \<longleftrightarrow> pc = Ctor_Wildcard \<or> ctor_fields c = ctor_fields pc"

lemma covered_refines: "is_covered_by c pc = Some True \<Longrightarrow> refines c pc"
  by (induction c pc rule: is_covered_by.induct)
    (auto simp: refines_def ctor_fields_def fun_eq_iff)

lemma split_refines: "ctor_split pc ty others = Some cs \<Longrightarrow> c \<in> set cs \<Longrightarrow> refines c pc"
  by (cases pc) (auto simp: refines_def ctor_fields_def fun_eq_iff dest: split_int_range_ranges)

lemma admits_fields:
  assumes "ctor_piece ty c" and "ctor_fields c ty = Some tys" and "wt_value v ty" and "ctor_admits c v"
  shows "wt_values (subvalues v) tys"
  using assms
  by (cases c; cases v) (auto simp: ctor_piece_def ctor_fields_def list_ex_iff split: option.splits)

lemma dp_specialize_wf:
  assumes "dp_specialize p c = Some subs" and "pat_wf p" and "refines c (dp_ctor p)"
  shows "\<exists>ftys. ctor_fields c (dp_ty p) = Some ftys \<and> stack_wf ftys subs"
proof (cases p)
  case (DP pc psubs ty)
  with assms show ?thesis
    by (cases "pc = Ctor_Wildcard")
      (auto simp: dp_specialize_def wild_from_ctor_def refines_def stack_wf_def comp_def list_all_iff)
qed

lemma pop_head_wf:
  assumes "pop_head (p # rest) c = Some ps'" and "stack_wf (ty # tys) (p # rest)"
    and "refines c (dp_ctor p)"
  shows "\<exists>ftys. ctor_fields c ty = Some ftys \<and> stack_wf (ftys @ tys) ps'"
  using assms dp_specialize_wf [of p c] by (fastforce simp: pop_head_def stack_wf_def)

lemma pop_head_matches:
  assumes "pop_head (p # rest) c = Some ps'" and "stack_wf (ty # tys) (p # rest)"
    and "refines c (dp_ctor p)" and "ctor_piece ty c" and "wt_value v ty" and "ctor_admits c v"
    and "ctor_admits (dp_ctor p) v"
  shows "pats_match ps' (subvalues v @ vs) \<longleftrightarrow> pats_match (p # rest) (v # vs)"
proof -
  obtain subs where subs: "dp_specialize p c = Some subs" and ps': "ps' = subs @ rest"
    using assms(1) by (auto simp: pop_head_def)
  have p: "pat_wf p" "dp_ty p = ty" using assms(2) by (auto simp: stack_wf_def)
  obtain ftys where ftys: "ctor_fields c ty = Some ftys" "stack_wf ftys subs"
    using dp_specialize_wf [OF subs p(1) assms(3)] p(2) by auto
  have len: "length subs = length (subvalues v)"
    using wt_values_length [OF admits_fields [OF assms(4) ftys(1) assms(5,6)]] ftys(2)
    by (auto simp: stack_wf_def)
  have "pats_match subs (subvalues v) \<longleftrightarrow> pat_matches p v"
  proof (cases p)
    case (DP pc psubs pty)
    show ?thesis
    proof (cases "pc = Ctor_Wildcard")
      case True
      then show ?thesis
        using subs DP len by (auto simp: dp_specialize_def wild_from_ctor_def)
    next
      case False
      then show ?thesis using subs DP assms(7) by (simp add: dp_specialize_def)
    qed
  qed
  then show ?thesis by (simp add: ps' pats_match_append [OF len])
qed

lemma matrix_specialize_mem:
  assumes "matrix_specialize rows c = Some spec"
  shows "row' \<in> set spec \<longleftrightarrow>
    (\<exists>p rest. p # rest \<in> set rows \<and> is_covered_by c (dp_ctor p) = Some True \<and>
       pop_head (p # rest) c = Some row')"
  using assms
proof (induction rows arbitrary: spec)
  case (Cons row rows)
  then obtain p rest where row: "row = p # rest"
    by (cases row) (auto simp: stack_head_def)
  with Cons.prems obtain b where b: "is_covered_by c (dp_ctor p) = Some b"
    by (auto simp: stack_head_def bind_eq_Some_conv)
  show ?case
  proof (cases b)
    case True
    with Cons.prems row b obtain r spec' where "pop_head row c = Some r"
      "matrix_specialize rows c = Some spec'" "spec = r # spec'"
      by (auto simp: stack_head_def bind_eq_Some_conv)
    with Cons.IH row b True show ?thesis by auto
  next
    case False
    with Cons.prems row b have "matrix_specialize rows c = Some spec"
      by (simp add: stack_head_def)
    with Cons.IH row b False show ?thesis by auto
  qed
qed simp

lemma matrix_specialize_wf:
  assumes "matrix_specialize rows c = Some spec" and "\<forall>row\<in>set rows. stack_wf (ty # tys) row"
    and "ctor_fields c ty = Some ftys"
  shows "\<forall>row\<in>set spec. stack_wf (ftys @ tys) row"
proof
  fix row' assume "row' \<in> set spec"
  then obtain p rest where "p # rest \<in> set rows" "is_covered_by c (dp_ctor p) = Some True"
    "pop_head (p # rest) c = Some row'"
    using matrix_specialize_mem [OF assms(1)] by blast
  then show "stack_wf (ftys @ tys) row'"
    using pop_head_wf [OF _ _ covered_refines] assms(2,3) by fastforce
qed

section \<open>Collecting the witnesses\<close>

lemma useful_extend_append: "useful_extend a b = a @ b"
  by (simp add: useful_extend_def)

lemma fold_useful_extend: "fold (\<lambda>u ret. useful_extend ret u) us r = r @ concat us"
  by (induction us arbitrary: r) (simp_all add: useful_extend_append)

lemma useful_apply_Nil:
  assumes "useful_apply_constructor u c ty = Some []" and "ctor_piece ty c"
  shows "u = []"
proof (rule ccontr)
  assume "u \<noteq> []"
  then obtain w u' where u: "u = w # u'" by (cases u) auto
  with assms show False
    by (cases c)
      (auto simp: useful_apply_constructor_def ctor_piece_def mapM_opt_Some_iff neq_Nil_conv
        split: option.splits)
qed

text \<open>The witnesses of a constructor: its own, and for \<open>Missing\<close> those of each missing one.\<close>

definition witness_ctors :: "ctor \<Rightarrow> ctor set" where
  "witness_ctors c = (case c of Ctor_Missing ms \<Rightarrow> set ms | _ \<Rightarrow> {c})"

lemma useful_apply_mem:
  assumes "useful_apply_constructor u c ty = Some u'" and "w \<in> set u'"
  shows "\<exists>w0\<in>set u. \<exists>c'\<in>witness_ctors c. witness_apply_constructor w0 c' ty = Some w"
proof (cases "u = []")
  case False
  let ?f = "\<lambda>w. case c of
               Ctor_Missing all_missing \<Rightarrow>
                 mapM_opt (\<lambda>c. witness_apply_constructor w c ty) all_missing
             | other \<Rightarrow> map_option (\<lambda>w. [w]) (witness_apply_constructor w other ty)"
  obtain wss where wss: "mapM_opt ?f u = Some wss" "u' = concat wss"
    using assms(1) False by (auto simp: useful_apply_constructor_def)
  then obtain ws where ws: "ws \<in> set wss" "w \<in> set ws" using assms(2) by auto
  obtain w0 where w0: "w0 \<in> set u" "?f w0 = Some ws"
    using mapM_opt_SomeD2 [OF wss(1) ws(1)] by auto
  then have "\<exists>c'\<in>witness_ctors c. witness_apply_constructor w0 c' ty = Some w"
    using ws(2) by (cases c) (auto simp: witness_ctors_def dest: mapM_opt_SomeD2)
  with w0(1) show ?thesis by blast
qed (use assms in \<open>auto simp: useful_apply_constructor_def\<close>)

section \<open>Soundness of the verdict\<close>

text \<open>The steps of one call on a non-empty stack.\<close>

lemma is_useful_Nil: "is_useful [] rows = Some (if rows = [] then [[]] else [])"
  by (subst is_useful.simps) simp

lemma is_useful_Cons:
  assumes "is_useful (p # rest) rows = Some u"
  obtains others ctors us where
    "mapM_opt (\<lambda>row. map_option dp_ctor (stack_head row)) rows = Some others"
    "ctor_split (dp_ctor p) (dp_ty p) others = Some ctors"
    "mapM_opt
       (\<lambda>c. Option.bind (pop_head (p # rest) c) (\<lambda>pattern'.
            Option.bind (matrix_specialize rows c) (\<lambda>specialized.
            Option.bind (is_useful pattern' specialized) (\<lambda>usefulness.
              useful_apply_constructor usefulness c (dp_ty p)))))
       ctors = Some us"
    "u = concat us"
  using assms
  by (subst (asm) is_useful.simps) (auto simp: bind_eq_Some_conv fold_useful_extend)

lemma stack_wf_head:
  assumes "stack_wf tys (p # rest)"
  shows "\<exists>tys'. tys = dp_ty p # tys' \<and> ctor_ok (dp_ctor p) (dp_ty p)"
  using assms by (cases p) (auto simp: stack_wf_def ctor_ok_def)

lemma heads_ok:
  assumes "mapM_opt (\<lambda>row. map_option dp_ctor (stack_head row)) rows = Some others"
    and "\<forall>row\<in>set rows. stack_wf (ty # tys) row"
  shows "\<forall>oc\<in>set others. ctor_ok oc ty"
proof
  fix oc assume "oc \<in> set others"
  then obtain row where "row \<in> set rows" "map_option dp_ctor (stack_head row) = Some oc"
    using mapM_opt_SomeD2 [OF assms(1)] by blast
  then obtain p rest where row: "p # rest \<in> set rows" "dp_ctor p = oc"
    by (auto simp: stack_head_def split: list.splits)
  with assms(2) have "stack_wf (ty # tys) (p # rest)" by blast
  from stack_wf_head [OF this] row(2) show "ctor_ok oc ty" by auto
qed

lemma useless_covers:
  assumes "is_useful ps rows = Some []" and "stack_wf tys ps" and "\<forall>row\<in>set rows. stack_wf tys row"
    and "wt_values vs tys" and "list_all transparent vs" and "pats_match ps vs"
  shows "\<exists>row\<in>set rows. pats_match row vs"
  using assms
proof (induction "stack_weight ps" arbitrary: ps rows tys vs rule: less_induct)
  case less
  show ?case
  proof (cases ps)
    case Nil
    with less.prems show ?thesis
      by (cases rows; cases vs) (auto simp: is_useful_Nil stack_wf_def)
  next
    case (Cons p rest)
    then obtain v vs' tys' where vs: "vs = v # vs'" and tys: "tys = dp_ty p # tys'"
      and ok: "ctor_ok (dp_ctor p) (dp_ty p)"
      using less.prems(2,6) stack_wf_head [of tys p rest] by (cases vs) auto
    have v: "wt_value v (dp_ty p)" "transparent v" "ctor_admits (dp_ctor p) v"
      using less.prems(4-6) vs tys Cons by (auto, cases p, auto)
    from less.prems(1) [unfolded Cons] obtain others ctors us where
      heads: "mapM_opt (\<lambda>row. map_option dp_ctor (stack_head row)) rows = Some others"
      and split: "ctor_split (dp_ctor p) (dp_ty p) others = Some ctors"
      and us: "mapM_opt
         (\<lambda>c. Option.bind (pop_head (p # rest) c) (\<lambda>pattern'.
            Option.bind (matrix_specialize rows c) (\<lambda>specialized.
            Option.bind (is_useful pattern' specialized) (\<lambda>usefulness.
              useful_apply_constructor usefulness c (dp_ty p))))) ctors = Some us"
      and u: "[] = concat us"
      by (rule is_useful_Cons)
    obtain c where c: "c \<in> set ctors" "ctor_admits c v"
      using ctor_split_covers [OF split ok v] by blast
    have piece: "ctor_piece (dp_ty p) c"
      using ctor_split_pieces [OF split ok heads_ok [OF heads] c(1)] less.prems(3) tys by blast
    obtain ps' spec u' where pop: "pop_head (p # rest) c = Some ps'"
      and spec: "matrix_specialize rows c = Some spec" and rec: "is_useful ps' spec = Some u'"
      and app: "useful_apply_constructor u' c (dp_ty p) = Some []"
      using mapM_opt_SomeD [OF us c(1)] u by (auto simp: bind_eq_Some_conv)
    have "u' = []" by (rule useful_apply_Nil [OF app piece])
    note pswf = less.prems(2) [unfolded Cons tys]
    have ref: "refines c (dp_ctor p)" by (rule split_refines [OF split c(1)])
    obtain ftys where ftys: "ctor_fields c (dp_ty p) = Some ftys" "stack_wf (ftys @ tys') ps'"
      using pop_head_wf [OF pop pswf ref] by blast
    have sub: "wt_values (subvalues v) ftys" by (rule admits_fields [OF piece ftys(1) v(1) c(2)])
    have "\<exists>row'\<in>set spec. pats_match row' (subvalues v @ vs')"
    proof (rule less.hyps)
      show "stack_weight ps' < stack_weight ps" using pop_head_weight [OF pop] Cons by simp
      show "is_useful ps' spec = Some []" using rec \<open>u' = []\<close> by simp
      show "stack_wf (ftys @ tys') ps'" by (rule ftys(2))
      show "\<forall>row\<in>set spec. stack_wf (ftys @ tys') row"
        using matrix_specialize_wf [OF spec _ ftys(1)] less.prems(3) tys by blast
      show "wt_values (subvalues v @ vs') (ftys @ tys')"
        using sub wt_values_length [OF sub] less.prems(4) vs tys by simp
      show "list_all transparent (subvalues v @ vs')"
        using less.prems(5) vs by (cases v) auto
      show "pats_match ps' (subvalues v @ vs')"
        using pop_head_matches [OF pop pswf ref piece v(1) c(2) v(3)] less.prems(6) Cons vs by simp
    qed
    then obtain row' where "row' \<in> set spec" and row': "pats_match row' (subvalues v @ vs')"
      by blast
    then obtain q qrest where q: "q # qrest \<in> set rows" "is_covered_by c (dp_ctor q) = Some True"
      and qpop: "pop_head (q # qrest) c = Some row'"
      using matrix_specialize_mem [OF spec] by blast
    have "stack_wf (dp_ty p # tys') (q # qrest)" using less.prems(3) q(1) tys by blast
    then have "pats_match (q # qrest) vs"
      using pop_head_matches [OF qpop _ covered_refines [OF q(2)] piece v(1) c(2)
          covered_admits [OF q(2) c(2)]] row' vs by blast
    with q(1) show ?thesis by blast
  qed
qed

section \<open>The witnesses\<close>

text \<open>Types without integers, on which every missing constructor is a single value.\<close>

fun int_free :: "concrete_type \<Rightarrow> bool" where
  "int_free (CT_Tuple inner) = list_all int_free inner"
| "int_free (CT_Struct name members) = list_all (\<lambda>(_, t). int_free t) members"
| "int_free (CT_Array inner sz) = int_free inner"
| "int_free (CT_Enum options) = list_all (\<lambda>(_, args). list_all (\<lambda>(_, t). int_free t) args) options"
| "int_free (CT_Single base params) = (base \<noteq> PT_Int \<and> base \<noteq> PT_Uint)"
| "int_free (CT_Integer s) = True"
| "int_free (CT_Backward inner) = True"
| "int_free (CT_Wire inner) = True"

lemma int_free_bounds: "int_free ty \<Longrightarrow> int_bounds ty = None"
  by (cases ty) (auto simp: int_bounds_def split: option.splits bind_splits)

lemma int_free_fields:
  assumes "ctor_fields c ty = Some tys" and "int_free ty" and "t \<in> set tys"
  shows "int_free t"
proof (cases "\<exists>i. c = Ctor_Variant i")
  case True
  then obtain i options where "ty = CT_Enum options" "i < length options"
    "t \<in> snd ` set (snd (options ! i))"
    using assms(1,3) by (auto simp: ctor_fields_def split: concrete_type.splits if_splits)
  moreover from this have "list_all (\<lambda>(_, t). int_free t) (snd (options ! i))"
    using assms(2) nth_mem [of i options] by (auto simp: list_all_iff case_prod_unfold)
  ultimately show ?thesis by (auto simp: list_all_iff)
next
  case False
  with assms show ?thesis
    by (cases c; cases ty) (fastforce simp: ctor_fields_def list_all_iff split: if_splits)+
qed

text \<open>The value a witness constructor builds from its subvalues.\<close>

fun ctor_value :: "ctor \<Rightarrow> pvalue list \<Rightarrow> pvalue" where
  "ctor_value Ctor_Single vs = PV_Struct vs"
| "ctor_value (Ctor_Bool b) vs = PV_Bool b"
| "ctor_value (Ctor_Variant i) vs = PV_Variant i vs"
| "ctor_value c vs = PV_Opaque"

lemma witness_ctors_piece:
  assumes "ctor_piece ty c" and "int_bounds ty = None" and "c' \<in> witness_ctors c"
  shows "ctor_piece ty c' \<and> ctor_fields c' ty = ctor_fields c ty \<and>
    (\<forall>v. ctor_admits c' v \<longrightarrow> ctor_admits c v) \<and> c' \<noteq> Ctor_Wildcard \<and>
    ((\<exists>b. c' = Ctor_Bool b) \<or> c' = Ctor_Single \<or> (\<exists>i. c' = Ctor_Variant i))"
  using assms
  by (cases c) (auto simp: witness_ctors_def ctor_piece_def ctor_ok_def ctor_fields_def list_ex_iff)

lemma ctor_value_props:
  assumes "ctor_piece ty c" and "ctor_fields c ty = Some tys" and "wt_values vs tys"
    and "(\<exists>b. c = Ctor_Bool b) \<or> c = Ctor_Single \<or> (\<exists>i. c = Ctor_Variant i)"
  shows "wt_value (ctor_value c vs) ty" and "ctor_admits c (ctor_value c vs)"
    and "subvalues (ctor_value c vs) = vs"
proof -
  have "vs = []" if "c = Ctor_Bool b" for b
    using assms(2,3) that wt_values_length [OF assms(3)] by (simp add: ctor_fields_def)
  note bool = this
  from assms(4) consider b where "c = Ctor_Bool b" | "c = Ctor_Single" | i where "c = Ctor_Variant i"
    by blast
  then have "wt_value (ctor_value c vs) ty \<and> ctor_admits c (ctor_value c vs) \<and>
      subvalues (ctor_value c vs) = vs"
    by cases (use assms(1-3) bool in \<open>simp_all add: ctor_piece_def ctor_ok_def\<close>)
  then show "wt_value (ctor_value c vs) ty" "ctor_admits c (ctor_value c vs)"
    "subvalues (ctor_value c vs) = vs"
    by simp_all
qed

lemma witness_apply_split:
  assumes "witness_apply_constructor w0 c ty = Some w"
  shows "\<exists>tys. ctor_fields c ty = Some tys \<and> length tys \<le> length w0 \<and>
    (\<exists>subs later. rev w0 = subs @ later \<and> length subs = length tys \<and> rev w = DP c subs ty # later)"
proof -
  obtain tys where tys: "ctor_fields c ty = Some tys" "length tys \<le> length w0"
    and w: "w = take (length w0 - length tys) w0 @ [DP c (rev (drop (length w0 - length tys) w0)) ty]"
    using assms by (auto simp: witness_apply_constructor_def ctor_arity_def Let_def
        bind_eq_Some_conv split: if_splits)
  let ?n = "length w0 - length tys"
  have "rev w0 = rev (drop ?n w0) @ rev (take ?n w0)"
    by (metis append_take_drop_id rev_append)
  moreover have "length (rev (drop ?n w0)) = length tys" using tys(2) by simp
  moreover have "rev w = DP c (rev (drop ?n w0)) ty # rev (take ?n w0)" using w by simp
  ultimately show ?thesis using tys by blast
qed

text \<open>A row whose head admits a value that the constructor admits is not filtered out.\<close>

lemma admits_covered:
  assumes "ctor_split pc ty others = Some ctors" and "c \<in> set ctors" and "oc \<in> set others"
    and "ctor_ok pc ty" and "\<forall>oc\<in>set others. ctor_ok oc ty"
    and "int_bounds ty = None" and "c' \<in> witness_ctors c" and "ctor_admits c' v" and "ctor_admits oc v"
  shows "is_covered_by c oc = Some True"
proof (cases "oc = Ctor_Wildcard")
  case False
  have piece: "ctor_piece ty c"
    by (rule ctor_split_pieces [OF assms(1,4,5,2)])
  have heads: "ctor_ok oc ty" using assms(3,5) by blast
  show ?thesis
  proof (cases c)
    case (Ctor_Missing ms)
    then obtain b where b: "c' = Ctor_Bool b" "c' \<in> set ms" "is_bool_type ty"
      using assms(7) piece by (auto simp: witness_ctors_def ctor_piece_def)
    then have oc: "oc = Ctor_Bool b"
      using assms(5,3,8,9) False
      by (cases oc; cases v) (auto simp: ctor_ok_def)
    obtain base params where ty: "ty = CT_Single base params" "base = PT_Bool"
      using b(3) by (auto simp: is_bool_type_def split: concrete_type.splits)
    have "pc = Ctor_Wildcard"
      using assms(1,2,4) Ctor_Missing
      by (cases pc) (auto simp: ctor_ok_def dest: split_int_range_ranges)
    then have "group_missing_constructors [Ctor_Bool False, Ctor_Bool True] others = Some ctors"
      using assms(1) ty by simp
    from this assms(2) have "is_covered_by c' oc = Some False"
    proof (rule group_missing_mem)
      assume "c \<in> set others"
      then show ?thesis using assms(5) Ctor_Missing by (auto simp: ctor_ok_def)
    qed (use Ctor_Missing b(2) assms(3) False in auto)
    then show ?thesis using b oc by simp
  next
    case Ctor_Wildcard
    then show ?thesis using piece by (simp add: ctor_piece_def)
  next
    case (Ctor_IntRange a b)
    then show ?thesis using piece assms(6) by (simp add: ctor_piece_def ctor_ok_def)
  next
    case Ctor_Single
    then show ?thesis
      using assms(7-9) False heads by (cases oc; cases v) (auto simp: witness_ctors_def ctor_ok_def)
  next
    case (Ctor_Bool b)
    then show ?thesis
      using assms(7-9) False heads by (cases oc; cases v) (auto simp: witness_ctors_def ctor_ok_def)
  next
    case (Ctor_Variant i)
    then show ?thesis
      using assms(7-9) False heads by (cases oc; cases v) (auto simp: witness_ctors_def ctor_ok_def)
  qed
qed simp

lemma split_admits:
  assumes "ctor_split pc ty others = Some ctors" and "c \<in> set ctors"
    and "ctor_ok pc ty" and "int_bounds ty = None" and "ctor_admits c v"
  shows "ctor_admits pc v"
  using assms by (cases pc) (auto simp: ctor_ok_def)

lemma pop_head_total:
  assumes "ctor_fields c ty = Some ftys" and "stack_wf (ty # tys) (q # qrest)"
  shows "\<exists>row'. pop_head (q # qrest) c = Some row'"
  using assms by (auto simp: pop_head_def dp_specialize_def wild_from_ctor_def stack_wf_def)

text \<open>One step down: what holds for the witness of the popped stack holds for the witness built from it.\<close>

lemma witness_step:
  assumes heads: "mapM_opt (\<lambda>row. map_option dp_ctor (stack_head row)) rows = Some others"
    and split: "ctor_split (dp_ctor p) (dp_ty p) others = Some ctors" "c \<in> set ctors"
    and pop: "pop_head (p # rest) c = Some ps'" and spec: "matrix_specialize rows c = Some spec"
    and wf: "stack_wf (dp_ty p # tys) (p # rest)" "\<forall>row\<in>set rows. stack_wf (dp_ty p # tys) row"
    and free: "int_free (dp_ty p)"
    and w: "c' \<in> witness_ctors c" "witness_apply_constructor w0 c' (dp_ty p) = Some w"
    and ftys: "ctor_fields c (dp_ty p) = Some ftys"
    and IH1: "\<exists>vs. wt_values vs (ftys @ tys) \<and> pats_match (rev w0) vs"
    and IH2: "\<And>vs. wt_values vs (ftys @ tys) \<Longrightarrow> pats_match (rev w0) vs \<Longrightarrow>
        pats_match ps' vs \<and> (\<forall>row\<in>set spec. \<not> pats_match row vs)"
  shows "(\<exists>vs. wt_values vs (dp_ty p # tys) \<and> pats_match (rev w) vs) \<and>
    (\<forall>vs. wt_values vs (dp_ty p # tys) \<and> pats_match (rev w) vs \<longrightarrow>
       pats_match (p # rest) vs \<and> (\<forall>row\<in>set rows. \<not> pats_match row vs))"
proof -
  let ?ty = "dp_ty p"
  have ok: "ctor_ok (dp_ctor p) ?ty" using stack_wf_head [OF wf(1)] by simp
  have oks: "\<forall>oc\<in>set others. ctor_ok oc ?ty" by (rule heads_ok [OF heads wf(2)])
  have nb: "int_bounds ?ty = None" by (rule int_free_bounds [OF free])
  have piece: "ctor_piece ?ty c" by (rule ctor_split_pieces [OF split(1) ok oks split(2)])
  note c' = witness_ctors_piece [OF piece nb w(1)]
  obtain subs later where w0: "rev w0 = subs @ later" "length subs = length ftys"
    and rw: "rev w = DP c' subs ?ty # later"
    using witness_apply_split [OF w(2)] c' ftys by auto
  obtain vs where vs: "wt_values vs (ftys @ tys)" "pats_match (rev w0) vs" using IH1 by blast
  let ?v = "ctor_value c' (take (length ftys) vs)"
  have fields': "ctor_fields c' ?ty = Some ftys" using c' ftys by simp
  have vals: "wt_values (take (length ftys) vs) ftys" "wt_values (drop (length ftys) vs) tys"
    using vs(1) by (simp_all add: wt_values_append_types)
  have v: "wt_value ?v ?ty" "ctor_admits c' ?v" "subvalues ?v = take (length ftys) vs"
    using ctor_value_props [OF _ fields' vals(1)] c' by auto
  have ex: "wt_values (?v # drop (length ftys) vs) (?ty # tys) \<and>
      pats_match (rev w) (?v # drop (length ftys) vs)"
    using v vals(2) vs(2) w0 rw c' by (simp add: pats_match_append_pats)
  have "pats_match (p # rest) vs \<and> (\<forall>row\<in>set rows. \<not> pats_match row vs)"
    if vs: "wt_values vs (?ty # tys)" "pats_match (rev w) vs" for vs
  proof -
    obtain x xs where x: "vs = x # xs" using vs(2) rw by (cases vs) auto
    have adm': "ctor_admits c' x" and m: "pats_match subs (subvalues x)" "pats_match later xs"
      using vs(2) rw x c' by auto
    then have adm: "ctor_admits c x" using c' by blast
    have wtx: "wt_value x ?ty" using vs(1) x by simp
    have sub: "wt_values (subvalues x) ftys" by (rule admits_fields [OF piece ftys wtx adm])
    have "wt_values (subvalues x @ xs) (ftys @ tys)"
      using sub wt_values_length [OF sub] vs(1) x by simp
    moreover have "pats_match (rev w0) (subvalues x @ xs)"
      using m w0(1) pats_match_append [OF pats_match_length [OF m(1)]] by simp
    ultimately have ps': "pats_match ps' (subvalues x @ xs)"
      and none: "\<forall>row\<in>set spec. \<not> pats_match row (subvalues x @ xs)"
      using IH2 by blast+
    have "pats_match (p # rest) vs"
      using pop_head_matches [OF pop wf(1) split_refines [OF split] piece wtx adm
          split_admits [OF split ok nb adm]] ps' x by blast
    moreover have "\<not> pats_match row vs" if row: "row \<in> set rows" for row
    proof
      assume match: "pats_match row vs"
      then obtain q qrest where q: "row = q # qrest" using x by (cases row) auto
      have qwf: "stack_wf (?ty # tys) (q # qrest)" using wf(2) row q by blast
      have qadm: "ctor_admits (dp_ctor q) x" using match q x by (cases q) auto
      have "dp_ctor q \<in> set others"
        using mapM_opt_SomeD [OF heads row] q by (auto simp: stack_head_def)
      then have cov: "is_covered_by c (dp_ctor q) = Some True"
        using admits_covered [OF split _ ok oks nb w(1) adm' qadm] by blast
      obtain row' where row': "pop_head (q # qrest) c = Some row'"
        using pop_head_total [OF ftys qwf] by blast
      then have "row' \<in> set spec"
        using matrix_specialize_mem [OF spec] row q cov by blast
      moreover have "pats_match row' (subvalues x @ xs)"
        using pop_head_matches [OF row' qwf covered_refines [OF cov] piece wtx adm qadm]
          match q x by blast
      ultimately show False using none by blast
    qed
    ultimately show ?thesis by blast
  qed
  with ex show ?thesis by blast
qed

lemma useful_missed:
  assumes "is_useful ps rows = Some u" and "w \<in> set u" and "stack_wf tys ps"
    and "\<forall>row\<in>set rows. stack_wf tys row" and "list_all int_free tys"
  shows "(\<exists>vs. wt_values vs tys \<and> pats_match (rev w) vs) \<and>
    (\<forall>vs. wt_values vs tys \<and> pats_match (rev w) vs \<longrightarrow>
       pats_match ps vs \<and> (\<forall>row\<in>set rows. \<not> pats_match row vs))"
  using assms
proof (induction "stack_weight ps" arbitrary: ps rows tys u w rule: less_induct)
  case less
  show ?case
  proof (cases ps)
    case Nil
    with less.prems have "w = []" "rows = []" "tys = []"
      by (auto simp: is_useful_Nil stack_wf_def split: if_splits)
    then show ?thesis using Nil by (auto intro: exI [of _ "[]"])
  next
    case (Cons p rest)
    obtain tys' where tys: "tys = dp_ty p # tys'" and ok: "ctor_ok (dp_ctor p) (dp_ty p)"
      using less.prems(3) stack_wf_head [of tys p rest] Cons by auto
    note pswf = less.prems(3) [unfolded Cons tys] and rwf = less.prems(4) [unfolded tys]
    from less.prems(1) [unfolded Cons] obtain others ctors us where
      heads: "mapM_opt (\<lambda>row. map_option dp_ctor (stack_head row)) rows = Some others"
      and split: "ctor_split (dp_ctor p) (dp_ty p) others = Some ctors"
      and us: "mapM_opt
         (\<lambda>c. Option.bind (pop_head (p # rest) c) (\<lambda>pattern'.
            Option.bind (matrix_specialize rows c) (\<lambda>specialized.
            Option.bind (is_useful pattern' specialized) (\<lambda>usefulness.
              useful_apply_constructor usefulness c (dp_ty p))))) ctors = Some us"
      and u: "u = concat us"
      by (rule is_useful_Cons)
    obtain u1 where u1: "u1 \<in> set us" "w \<in> set u1" using less.prems(2) u by auto
    obtain c where c: "c \<in> set ctors"
      and "Option.bind (pop_head (p # rest) c) (\<lambda>pattern'.
            Option.bind (matrix_specialize rows c) (\<lambda>specialized.
            Option.bind (is_useful pattern' specialized) (\<lambda>usefulness.
              useful_apply_constructor usefulness c (dp_ty p)))) = Some u1"
      using mapM_opt_SomeD2 [OF us u1(1)] by blast
    then obtain ps' spec u' where pop: "pop_head (p # rest) c = Some ps'"
      and spec: "matrix_specialize rows c = Some spec" and rec: "is_useful ps' spec = Some u'"
      and app: "useful_apply_constructor u' c (dp_ty p) = Some u1"
      by (auto simp: bind_eq_Some_conv)
    obtain w0 c' where w0: "w0 \<in> set u'" "c' \<in> witness_ctors c"
      "witness_apply_constructor w0 c' (dp_ty p) = Some w"
      using useful_apply_mem [OF app u1(2)] by blast
    obtain ftys where ftys: "ctor_fields c (dp_ty p) = Some ftys" "stack_wf (ftys @ tys') ps'"
      using pop_head_wf [OF pop pswf split_refines [OF split c]] by blast
    have free: "int_free (dp_ty p)" and free': "list_all int_free (ftys @ tys')"
      using less.prems(5) tys int_free_fields [OF ftys(1)] by (auto simp: list_all_iff)
    note IH = less.hyps [OF _ rec w0(1) ftys(2) matrix_specialize_wf [OF spec rwf ftys(1)] free']
    have "stack_weight ps' < stack_weight ps" using pop_head_weight [OF pop] Cons by simp
    then show ?thesis
      using witness_step [OF heads split c pop spec pswf rwf free w0(2,3) ftys(1)] IH Cons tys
      by blast
  qed
qed

section \<open>The check of a wildcard does not panic\<close>

fun type_ok :: "concrete_type \<Rightarrow> bool" where
  "type_ok (CT_Tuple inner) = list_all type_ok inner"
| "type_ok (CT_Struct name members) = list_all (\<lambda>(_, t). type_ok t) members"
| "type_ok (CT_Array inner sz) = (0 \<le> sz \<and> sz < 2 ^ 128 \<and> type_ok inner)"
| "type_ok (CT_Enum options) = list_all (\<lambda>(_, args). list_all (\<lambda>(_, t). type_ok t) args) options"
| "type_ok (CT_Single base params) =
     (base = PT_Int \<or> base = PT_Uint \<longrightarrow> int_bounds (CT_Single base params) \<noteq> None)"
| "type_ok (CT_Integer s) = False"
| "type_ok (CT_Backward inner) = True"
| "type_ok (CT_Wire inner) = True"

lemma type_ok_fields:
  assumes "ctor_fields c ty = Some tys" and "type_ok ty" and "t \<in> set tys"
  shows "type_ok t"
proof (cases "\<exists>i. c = Ctor_Variant i")
  case True
  then obtain i options where "ty = CT_Enum options" "i < length options"
    "t \<in> snd ` set (snd (options ! i))"
    using assms(1,3) by (auto simp: ctor_fields_def split: concrete_type.splits if_splits)
  moreover from this have "list_all (\<lambda>(_, t). type_ok t) (snd (options ! i))"
    using assms(2) nth_mem [of i options] by (auto simp: list_all_iff case_prod_unfold)
  ultimately show ?thesis by (auto simp: list_all_iff)
next
  case False
  with assms show ?thesis
    by (cases c; cases ty) (fastforce simp: ctor_fields_def list_all_iff split: if_splits)+
qed

lemma split_int_range_total:
  "\<forall>c\<in>set others. \<exists>x y. c = Ctor_IntRange x y \<Longrightarrow> \<exists>cs. split_int_range a b others = Some cs"
  using mapM_opt_total [of others as_range] by (fastforce simp: split_int_range_def as_range_def)

lemma inner_splits_total:
  assumes "int_bounds (CT_Single base params) \<noteq> None"
    and "\<forall>oc\<in>set others. ctor_ok oc (CT_Single base params)"
  shows "\<exists>css. mapM_opt (\<lambda>c. ctor_split c (CT_Single base params) []) others = Some css \<and>
    (\<forall>c\<in>set (concat css). \<exists>x y. c = Ctor_IntRange x y)"
proof -
  let ?ty = "CT_Single base params"
  have one: "\<exists>cs. ctor_split oc ?ty [] = Some cs \<and> (\<forall>c\<in>set cs. \<exists>x y. c = Ctor_IntRange x y)"
    if "oc \<in> set others" for oc
    using assms(1) bspec [OF assms(2) that]
    by (cases oc; cases base)
      (auto simp: ctor_ok_def int_bounds_def split_int_range_def single_type_def is_bool_type_def
        is_enum_type_def split: if_splits bind_splits)
  obtain css where css: "mapM_opt (\<lambda>c. ctor_split c ?ty []) others = Some css"
    using mapM_opt_total [of others "\<lambda>c. ctor_split c ?ty []"] one by blast
  moreover have "\<exists>x y. c = Ctor_IntRange x y" if "c \<in> set (concat css)" for c
  proof -
    from that obtain cs where "cs \<in> set css" "c \<in> set cs" by auto
    with mapM_opt_SomeD2 [OF css] one show ?thesis by fastforce
  qed
  ultimately show ?thesis by blast
qed

lemma split_wildcard_total:
  assumes "type_ok ty" and "\<forall>oc\<in>set others. ctor_ok oc ty"
  shows "\<exists>cs. split_wildcard ty others = Some cs"
proof (cases ty)
  case (CT_Single base params)
  show ?thesis
  proof (cases "base = PT_Int \<or> base = PT_Uint")
    case True
    with assms(1) CT_Single have b: "int_bounds (CT_Single base params) \<noteq> None" by simp
    obtain css where "mapM_opt (\<lambda>c. ctor_split c (CT_Single base params) []) others = Some css"
      and "\<forall>c\<in>set (concat css). \<exists>x y. c = Ctor_IntRange x y"
      using inner_splits_total [OF b] assms(2) CT_Single by blast
    then show ?thesis
      using True b CT_Single split_int_range_total [of "concat css"]
      by (fastforce simp: int_bounds_def split: if_splits bind_splits)
  next
    case False
    have "\<exists>cs. group_missing_constructors [Ctor_Bool False, Ctor_Bool True] others = Some cs"
      if "base = PT_Bool"
    proof -
      have bools: "\<exists>b. oc = Ctor_Bool b" if "oc \<in> set others" "oc \<noteq> Ctor_Wildcard" for oc
        using bspec [OF assms(2) that(1)] that(2) CT_Single \<open>base = PT_Bool\<close>
        by (cases oc) (auto simp: ctor_ok_def single_type_def is_enum_type_def int_bounds_def
            split: bind_splits)
      have "any_opt (is_covered_by (Ctor_Bool b)) (filter (\<lambda>c. c \<noteq> Ctor_Wildcard) others) =
          Some (\<exists>oc\<in>set (filter (\<lambda>c. c \<noteq> Ctor_Wildcard) others). oc = Ctor_Bool b)" for b
        using bools by (intro any_opt_Some) fastforce
      then show ?thesis by (simp add: group_missing_constructors_def)
    qed
    with False CT_Single show ?thesis by (cases base) auto
  qed
qed (use assms(1) in auto)

lemma split_wildcard_fields:
  assumes "split_wildcard ty others = Some cs" and "type_ok ty" and "c \<in> set cs"
    and "\<forall>oc\<in>set others. ctor_ok oc ty"
  shows "\<exists>ftys. ctor_fields c ty = Some ftys"
proof -
  have "ctor_piece ty c"
    using ctor_split_pieces [of Ctor_Wildcard ty others cs c] assms by (simp add: ctor_ok_def)
  with assms show ?thesis
    by (cases c; cases ty)
      (auto simp: ctor_piece_def ctor_ok_def single_type_def is_enum_type_def ctor_fields_def)
qed

lemma is_covered_by_total:
  assumes "ctor_piece ty c" and "ctor_ok oc ty"
  shows "\<exists>b. is_covered_by c oc = Some b"
  using assms
  by (cases c; cases oc)
    (auto simp: ctor_piece_def ctor_ok_def single_type_def is_bool_type_def is_enum_type_def
      int_bounds_def split: concrete_type.splits bind_splits if_splits)

lemma matrix_specialize_total:
  assumes "\<forall>row\<in>set rows. stack_wf (ty # tys) row" and "ctor_piece ty c"
    and "ctor_fields c ty = Some ftys"
  shows "\<exists>spec. matrix_specialize rows c = Some spec"
  using assms(1)
proof (induction rows)
  case (Cons row rows)
  then obtain q qrest where q: "row = q # qrest" "stack_wf (ty # tys) (q # qrest)"
    by (cases row) (auto simp: stack_wf_def)
  then obtain b row' where "is_covered_by c (dp_ctor q) = Some b" "pop_head (q # qrest) c = Some row'"
    using is_covered_by_total [OF assms(2)] pop_head_total [OF assms(3)] stack_wf_head by blast
  with Cons q show ?case by (auto simp: stack_head_def)
qed simp

lemma witness_apply_total:
  assumes "ctor_fields c ty = Some ftys" and "length w = length ftys + n"
  shows "\<exists>w'. witness_apply_constructor w c ty = Some w' \<and> length w' = Suc n"
  using assms by (auto simp: witness_apply_constructor_def ctor_arity_def Let_def)

lemma useful_apply_total:
  assumes "ctor_piece ty c" and "ctor_fields c ty = Some ftys"
    and "\<forall>w\<in>set u. length w = length ftys + n"
  shows "\<exists>u'. useful_apply_constructor u c ty = Some u' \<and> (\<forall>w\<in>set u'. length w = Suc n)"
proof -
  have fields': "ctor_fields c' ty = Some ftys" if "c' \<in> witness_ctors c" for c'
    using assms(1,2) that
    by (cases c) (auto simp: witness_ctors_def ctor_piece_def ctor_fields_def)
  have app1: "\<exists>w'. witness_apply_constructor w c' ty = Some w' \<and> length w' = Suc n"
    if "w \<in> set u" "c' \<in> witness_ctors c" for w c'
    using witness_apply_total [OF fields' [OF that(2)]] assms(3) that(1) by blast
  let ?f = "\<lambda>w. case c of
               Ctor_Missing all_missing \<Rightarrow>
                 mapM_opt (\<lambda>c. witness_apply_constructor w c ty) all_missing
             | other \<Rightarrow> map_option (\<lambda>w. [w]) (witness_apply_constructor w other ty)"
  have "\<exists>ws. ?f w = Some ws" if "w \<in> set u" for w
  proof (cases "\<exists>ms. c = Ctor_Missing ms")
    case True
    then obtain ms where "c = Ctor_Missing ms" by blast
    then show ?thesis
      using mapM_opt_total [of ms "\<lambda>c. witness_apply_constructor w c ty"] app1 [OF that]
      by (auto simp: witness_ctors_def)
  next
    case False
    then show ?thesis using app1 [OF that, of c] by (cases c) (auto simp: witness_ctors_def)
  qed
  then obtain wss where "mapM_opt ?f u = Some wss" using mapM_opt_total [of u ?f] by blast
  then have ex: "\<exists>u'. useful_apply_constructor u c ty = Some u'"
    by (simp add: useful_apply_constructor_def)
  then obtain u' where u': "useful_apply_constructor u c ty = Some u'" by blast
  have "length w = Suc n" if "w \<in> set u'" for w
    using useful_apply_mem [OF u' that] app1 by fastforce
  with u' show ?thesis by blast
qed

lemma wildcards_total:
  assumes "\<forall>row\<in>set rows. stack_wf tys row" and "list_all type_ok tys"
  shows "\<exists>u. is_useful (map dp_wildcard tys) rows = Some u \<and> (\<forall>w\<in>set u. length w = length tys)"
  using assms
proof (induction "stack_weight (map dp_wildcard tys)" arbitrary: tys rows rule: less_induct)
  case less
  show ?case
  proof (cases tys)
    case Nil
    then show ?thesis by (simp add: is_useful_Nil)
  next
    case (Cons ty tys')
    note wf = less.prems(1) [unfolded Cons]
    have ok: "type_ok ty" using less.prems(2) Cons by simp
    have "\<exists>c. map_option dp_ctor (stack_head row) = Some c" if "row \<in> set rows" for row
      using bspec [OF wf that] by (cases row) (auto simp: stack_wf_def stack_head_def)
    then obtain others where heads: "mapM_opt (\<lambda>row. map_option dp_ctor (stack_head row)) rows = Some others"
      using mapM_opt_total [of rows "\<lambda>row. map_option dp_ctor (stack_head row)"] by blast
    note oks = heads_ok [OF heads wf]
    obtain ctors where split: "split_wildcard ty others = Some ctors"
      using split_wildcard_total [OF ok oks] by blast
    let ?ps = "dp_wildcard ty # map dp_wildcard tys'"
    let ?f = "\<lambda>c. Option.bind (pop_head ?ps c) (\<lambda>pattern'.
            Option.bind (matrix_specialize rows c) (\<lambda>specialized.
            Option.bind (is_useful pattern' specialized) (\<lambda>usefulness.
              useful_apply_constructor usefulness c ty)))"
    have step: "\<exists>u. ?f c = Some u \<and> (\<forall>w\<in>set u. length w = length tys)" if c: "c \<in> set ctors" for c
    proof -
      have piece: "ctor_piece ty c"
        using ctor_split_pieces [of Ctor_Wildcard ty others ctors c] split c oks
        by (simp add: ctor_ok_def)
      obtain ftys where ftys: "ctor_fields c ty = Some ftys"
        using split_wildcard_fields [OF split ok c oks] by blast
      have pop: "pop_head ?ps c = Some (map dp_wildcard (ftys @ tys'))"
        using ftys by (simp add: pop_head_def dp_specialize_def wild_from_ctor_def)
      obtain spec where spec: "matrix_specialize rows c = Some spec"
        using matrix_specialize_total [OF wf piece ftys] by blast
      have "stack_weight (map dp_wildcard (ftys @ tys')) < stack_weight (map dp_wildcard tys)"
        using pop_head_weight [OF pop] Cons by simp
      then obtain u where u: "is_useful (map dp_wildcard (ftys @ tys')) spec = Some u"
        "\<forall>w\<in>set u. length w = length (ftys @ tys')"
        using less.hyps [OF _ matrix_specialize_wf [OF spec wf ftys]] ok less.prems(2) Cons
          type_ok_fields [OF ftys ok] by (auto simp: list_all_iff)
      then show ?thesis
        using useful_apply_total [OF piece ftys, of u "length tys'"] pop spec Cons by simp
    qed
    then obtain us where us: "mapM_opt ?f ctors = Some us" using mapM_opt_total [of ctors ?f] by blast
    have "\<forall>w\<in>set (concat us). length w = length tys"
    proof
      fix w assume "w \<in> set (concat us)"
      then obtain u where "u \<in> set us" "w \<in> set u" by auto
      with mapM_opt_SomeD2 [OF us] step show "length w = length tys" by fastforce
    qed
    moreover have "is_useful ?ps rows = Some (concat us)"
      by (subst is_useful.simps) (simp add: heads split us fold_useful_extend)
    ultimately show ?thesis using Cons by simp
  qed
qed

section \<open>Matches\<close>

text \<open>The check of a match or a binding: a wildcard against one-element rows.\<close>

definition check_patterns :: "concrete_type \<Rightarrow> dpat list \<Rightarrow> usefulness option" where
  "check_patterns ty pats = is_useful [dp_wildcard ty] (map (\<lambda>p. [p]) pats)"

definition pats_wf :: "concrete_type \<Rightarrow> dpat list \<Rightarrow> bool" where
  "pats_wf ty pats \<longleftrightarrow> (\<forall>p\<in>set pats. pat_wf p \<and> dp_ty p = ty)"

lemma pats_wf_rows: "pats_wf ty pats \<Longrightarrow> \<forall>row\<in>set (map (\<lambda>p. [p]) pats). stack_wf [ty] row"
  by (auto simp: pats_wf_def stack_wf_def)

lemma check_sound:
  assumes "check_patterns ty pats = Some []" and "pats_wf ty pats"
    and "wt_value v ty" and "transparent v"
  shows "\<exists>p\<in>set pats. pat_matches p v"
  using useless_covers [OF assms(1) [unfolded check_patterns_def] _ pats_wf_rows [OF assms(2)], of "[v]"]
    assms(3,4) by (auto simp: stack_wf_def dp_wildcard_def)

lemma check_complete:
  assumes "check_patterns ty pats = Some u" and "w \<in> set u" and "pats_wf ty pats" and "int_free ty"
  shows "\<exists>pat. w = [pat] \<and> (\<exists>v. wt_value v ty \<and> pat_matches pat v) \<and>
    (\<forall>v. wt_value v ty \<and> pat_matches pat v \<longrightarrow> (\<forall>p\<in>set pats. \<not> pat_matches p v))"
proof -
  note missed = useful_missed [OF assms(1) [unfolded check_patterns_def] assms(2) _
      pats_wf_rows [OF assms(3)], unfolded stack_wf_def, simplified, OF assms(4)]
  then obtain vs where vs: "wt_values vs [ty]" "pats_match (rev w) vs" by blast
  then have "length vs = 1" using wt_values_length by fastforce
  then obtain pat where w: "w = [pat]"
    using pats_match_length [OF vs(2)] by (auto simp: length_Suc_conv)
  have "\<forall>p\<in>set pats. \<not> pat_matches p v" if "wt_value v ty" "pat_matches pat v" for v
    using missed that w by (force dest: spec [of _ "[v]"])
  moreover obtain v where "vs = [v]" using \<open>length vs = 1\<close> by (auto simp: length_Suc_conv)
  ultimately show ?thesis using vs w by auto
qed

lemma check_total:
  assumes "pats_wf ty pats" and "type_ok ty"
  shows "\<exists>u. check_patterns ty pats = Some u \<and> (\<forall>w\<in>set u. length w = 1)"
  using wildcards_total [OF pats_wf_rows [OF assms(1)]] assms(2) by (simp add: check_patterns_def)

text \<open>The meaning of a pattern of the source.\<close>

fun hir_matches :: "pat_context \<Rightarrow> hir_pattern \<Rightarrow> pvalue \<Rightarrow> bool"
  and hirs_match :: "pat_context \<Rightarrow> hir_pattern list \<Rightarrow> pvalue list \<Rightarrow> bool" where
  "hir_matches ctx (HirPat i k l) v =
     (case k of
        HPat_Integer n \<Rightarrow> v = PV_Int n
      | HPat_Bool b \<Rightarrow> v = PV_Bool b
      | HPat_Name x d \<Rightarrow> True
      | HPat_Tuple ps \<Rightarrow> ctor_admits Ctor_Single v \<and> hirs_match ctx ps (subvalues v)
      | HPat_Array ps \<Rightarrow> ctor_admits Ctor_Single v \<and> hirs_match ctx ps (subvalues v)
      | HPat_Type x args \<Rightarrow>
          ctor_admits
            (case patternable_type_by_id ctx x of
               PK_Struct \<Rightarrow> Ctor_Single
             | PK_Enum \<Rightarrow> Ctor_Variant (enum_variant_option ctx x)) v \<and>
          hirs_match ctx (map pa_value args) (subvalues v))"
| "hirs_match ctx [] [] = True"
| "hirs_match ctx (p # ps) (v # vs) = (hir_matches ctx p v \<and> hirs_match ctx ps vs)"
| "hirs_match ctx [] (v # vs) = False"
| "hirs_match ctx (p # ps) [] = False"

fun no_integers :: "hir_pattern \<Rightarrow> bool" where
  "no_integers (HirPat i (HPat_Integer n) l) = False"
| "no_integers (HirPat i (HPat_Tuple ps) l) = list_all no_integers ps"
| "no_integers (HirPat i (HPat_Array ps) l) = list_all no_integers ps"
| "no_integers (HirPat i (HPat_Type x args) l) = list_all (\<lambda>a. no_integers (pa_value a)) args"
| "no_integers (HirPat i k l) = True"

lemma from_hir_matches:
  "from_hir ctx p = Some d \<Longrightarrow> no_integers p \<Longrightarrow> pat_matches d v \<longleftrightarrow> hir_matches ctx p v"
  and from_hirs_match:
  "mapM_opt (from_hir ctx) ps = Some ds \<Longrightarrow> list_all no_integers ps \<Longrightarrow>
     pats_match ds vs \<longleftrightarrow> hirs_match ctx ps vs"
proof (induction ctx p v and ctx ps vs arbitrary: d and ds rule: hir_matches_hirs_match.induct)
  case (1 ctx i k l v)
  show ?case
  proof (cases k)
    case (HPat_Bool b)
    with 1 show ?thesis by (cases v) auto
  next
    case (HPat_Type x args)
    with 1 show ?thesis
      by (auto simp: mapM_opt_map list_all_iff bind_eq_Some_conv split: patternable_kind.splits if_splits)
  qed (use 1 in auto)
qed (auto split: option.splits)

lemma from_hirs_matches:
  assumes "mapM_opt (from_hir ctx) branches = Some pats" and "list_all no_integers branches"
  shows "(\<exists>p\<in>set pats. pat_matches p v) \<longleftrightarrow> (\<exists>b\<in>set branches. hir_matches ctx b v)"
proof -
  have match: "pat_matches d v \<longleftrightarrow> hir_matches ctx b v" if "b \<in> set branches" "from_hir ctx b = Some d" for b d
    using from_hir_matches [OF that(2)] assms(2) that(1) by (simp add: list_all_iff)
  show ?thesis
    using match mapM_opt_SomeD [OF assms(1)] mapM_opt_SomeD2 [OF assms(1)] by metis
qed

text \<open>C10: a match that the check accepts is exhaustive. When no missing pattern is reported for
  branches without integer literals, every value of the operand's type that holds no value of a
  type without constructors is matched by a branch.\<close>

theorem match_exhaustive:
  assumes "missing_patterns ctx ty branches = Some []"
    and "mapM_opt (from_hir ctx) branches = Some pats" and "pats_wf ty pats"
    and "list_all no_integers branches" and "wt_value v ty" and "transparent v"
  shows "\<exists>b\<in>set branches. hir_matches ctx b v"
proof -
  have "check_patterns ty pats = Some []"
    using assms(1,2) by (simp add: missing_patterns_def check_patterns_def)
  from check_sound [OF this assms(3,5,6)] show ?thesis
    using from_hirs_matches [OF assms(2,4)] by blast
qed

text \<open>The context of the witnesses: \<open>Option<bool>\<close> under the id 0, \<open>bool\<close> under 1, a pair of them under 2.\<close>

definition option_bool :: concrete_type where
  "option_bool =
     CT_Enum [(NameID 0 [''Some''], [(''val'', CT_Single PT_Bool [])]), (NameID 1 [''None''], [])]"

definition option_ctx :: pat_context where
  "option_ctx =
     \<lparr>patternable_type_by_id = (\<lambda>_. PK_Enum), enum_variant_option = nid_num,
      type_of_id = (\<lambda>i. if i = 0 then option_bool else if i = 1 then CT_Single PT_Bool []
         else CT_Tuple [option_bool, CT_Single PT_Bool []])\<rparr>"

definition some_pat :: "hir_pattern \<Rightarrow> hir_pattern" where
  "some_pat p = HirPat 0 (HPat_Type (NameID 0 [''Some'']) [PatArg ''val'' p AK_Positional]) loc_nowhere"

definition none_pat :: hir_pattern where
  "none_pat = HirPat 0 (HPat_Type (NameID 1 [''None'']) []) loc_nowhere"

definition any_pat :: "nat \<Rightarrow> hir_pattern" where
  "any_pat i = HirPat i (HPat_Name (NameID 9 [''x'']) False) loc_nowhere"

definition pair_pat :: "hir_pattern \<Rightarrow> hir_pattern \<Rightarrow> hir_pattern" where
  "pair_pat p q = HirPat 2 (HPat_Tuple [p, q]) loc_nowhere"

definition bool_pat :: "bool \<Rightarrow> hir_pattern" where
  "bool_pat b = HirPat 1 (HPat_Bool b) loc_nowhere"

theorem match_exhaustive_witness:
  "\<exists>b\<in>set [pair_pat (some_pat (any_pat 1)) (bool_pat True), pair_pat none_pat (any_pat 1),
       pair_pat (some_pat (bool_pat True)) (any_pat 1), pair_pat (any_pat 0) (bool_pat False)].
     hir_matches option_ctx b (PV_Struct [PV_Variant 0 [PV_Bool False], PV_Bool False])"
proof -
  let ?bs = "[pair_pat (some_pat (any_pat 1)) (bool_pat True), pair_pat none_pat (any_pat 1),
       pair_pat (some_pat (bool_pat True)) (any_pat 1), pair_pat (any_pat 0) (bool_pat False)]"
  let ?ty = "CT_Tuple [option_bool, CT_Single PT_Bool []]"
  obtain pats where pats: "mapM_opt (from_hir option_ctx) ?bs = Some pats" and wf: "pats_wf ?ty pats"
    by (simp add: pair_pat_def some_pat_def any_pat_def none_pat_def bool_pat_def option_ctx_def
        option_bool_def is_enum_type_def pats_wf_def ctor_ok_def single_type_def ctor_fields_def
        is_bool_type_def)
  have "missing_patterns option_ctx ?ty ?bs = Some []" by code_simp
  moreover have "list_all no_integers ?bs"
    by (simp add: pair_pat_def some_pat_def any_pat_def none_pat_def bool_pat_def)
  ultimately show ?thesis
    using match_exhaustive [OF _ pats wf, of "PV_Struct [PV_Variant 0 [PV_Bool False], PV_Bool False]"]
    by (simp add: single_type_def ctor_fields_def option_bool_def is_bool_type_def)
qed



text \<open>C32: the check of a match returns. On well-formed branches and a type whose integer and
  array sizes are in bounds, it does not panic, and every witness is one pattern.\<close>

theorem match_check_total:
  assumes "mapM_opt (from_hir ctx) branches = Some pats" and "pats_wf ty pats" and "type_ok ty"
  shows "\<exists>u. missing_patterns ctx ty branches = Some u \<and> (\<forall>w\<in>set u. length w = 1)"
  using check_total [OF assms(2,3)] assms(1) by (simp add: missing_patterns_def check_patterns_def)

theorem match_check_total_witness:
  "\<exists>u. missing_patterns option_ctx option_bool [some_pat (any_pat 1)] = Some u \<and>
     (\<forall>w\<in>set u. length w = 1)"
proof (rule match_check_total)
  show "mapM_opt (from_hir option_ctx) [some_pat (any_pat 1)] =
      Some [DP (Ctor_Variant 0) [DP Ctor_Wildcard [] (CT_Single PT_Bool [])] option_bool]"
    by (simp add: some_pat_def any_pat_def option_ctx_def option_bool_def is_enum_type_def)
  show "pats_wf option_bool
      [DP (Ctor_Variant 0) [DP Ctor_Wildcard [] (CT_Single PT_Bool [])] option_bool]"
    by (simp add: pats_wf_def option_bool_def ctor_ok_def is_enum_type_def ctor_fields_def)
  show "type_ok option_bool" by (simp add: option_bool_def)
qed

definition uint2 :: concrete_type where
  "uint2 = CT_Single PT_Uint [CT_Integer 2]"

definition uint2_ctx :: pat_context where
  "uint2_ctx = option_ctx\<lparr>type_of_id := \<lambda>_. uint2\<rparr>"

text \<open>
  integer literals are taken one too wide. The pattern \<open>n\<close> becomes the range from \<open>n\<close> to
  \<open>n + 1\<close>, of which both bounds count as matched, so a match of a two bit unsigned integer against
  0, 1 and 2 is accepted although 3 matches no branch.
\<close>

theorem integer_match_not_exhaustive:
  "missing_patterns uint2_ctx uint2 (map (\<lambda>n. HirPat 0 (HPat_Integer n) loc_nowhere) [0, 1, 2]) = Some [] \<and>
   wt_value (PV_Int 3) uint2 \<and>
   \<not> (\<exists>b\<in>set (map (\<lambda>n. HirPat 0 (HPat_Integer n) loc_nowhere) [0, 1, 2]).
        hir_matches uint2_ctx b (PV_Int 3))"
proof -
  have "missing_patterns uint2_ctx uint2 (map (\<lambda>n. HirPat 0 (HPat_Integer n) loc_nowhere) [0, 1, 2]) = Some []"
    by code_simp
  then show ?thesis by (simp add: uint2_def int_bounds_def size_param_def)
qed

definition bit_bool :: concrete_type where
  "bit_bool = CT_Tuple [CT_Single PT_Bit [], CT_Single PT_Bool []]"

definition bit_ctx :: pat_context where
  "bit_ctx = option_ctx\<lparr>type_of_id := \<lambda>i. if i = 0 then CT_Single PT_Bit []
     else if i = 1 then CT_Single PT_Bool [] else bit_bool\<rparr>"

text \<open>
  a component of a type without constructors switches the check off. The split of a wildcard
  of type \<open>bit\<close> is empty, so a match of a pair of a bit and a boolean against \<open>(_, true)\<close> alone is
  accepted although \<open>false\<close> matches no branch.
\<close>

theorem opaque_match_not_exhaustive:
  "missing_patterns bit_ctx bit_bool [pair_pat (any_pat 0) (bool_pat True)] = Some [] \<and>
   wt_value (PV_Struct [PV_Opaque, PV_Bool False]) bit_bool \<and>
   \<not> hir_matches bit_ctx (pair_pat (any_pat 0) (bool_pat True)) (PV_Struct [PV_Opaque, PV_Bool False])"
proof -
  have "missing_patterns bit_ctx bit_bool [pair_pat (any_pat 0) (bool_pat True)] = Some []"
    by code_simp
  then show ?thesis
    by (simp add: bit_bool_def single_type_def ctor_fields_def is_opaque_type_def is_bool_type_def
        opaque_base_def pair_pat_def any_pat_def bool_pat_def)
qed

end
