(* ===== verification/Statement_List.thy ===== *)
theory Statement_List
  imports Mir
begin

text \<open>
  spade-hir-lowering, \<open>statement_list.rs\<close> and \<open>name_map.rs\<close>: the statements that lowering emits, with
  the source construct that every emitted name stands for.
\<close>

datatype name_origin = NO_Name name_id | NO_Expr nat

definition show_name_origin :: "name_origin \<Rightarrow> string" where
  "show_name_origin o' = (case o' of NO_Name n \<Rightarrow> show_name_id n | NO_Expr i \<Rightarrow> ''e'' @ show_nat i)"

datatype named_value = NV_Primary name_origin | NV_Secondary name_origin string

definition show_named_value :: "named_value \<Rightarrow> string" where
  "show_named_value v =
     (case v of
        NV_Primary n \<Rightarrow> show_name_origin n
      | NV_Secondary n descr \<Rightarrow> show_name_origin n @ ''('' @ descr @ '')'')"

type_synonym name_source_map = "vkey \<rightharpoonup> named_value"

definition insert_primary :: "value_name \<Rightarrow> name_origin \<Rightarrow> name_source_map \<Rightarrow> name_source_map" where
  "insert_primary name unmangled m = m(vn_key name \<mapsto> NV_Primary unmangled)"

definition insert_secondary ::
  "value_name \<Rightarrow> name_origin \<Rightarrow> string \<Rightarrow> name_source_map \<Rightarrow> name_source_map" where
  "insert_secondary name unmangled description m = m(vn_key name \<mapsto> NV_Secondary unmangled description)"

definition merge_names :: "name_source_map \<Rightarrow> name_source_map \<Rightarrow> name_source_map" where
  "merge_names self other = self ++ other"

record statement_list =
  sl_stmts :: "statement list"
  sl_names :: name_source_map

definition sl_new :: statement_list where
  "sl_new = \<lparr>sl_stmts = [], sl_names = Map.empty\<rparr>"

definition push_anonymous :: "statement \<Rightarrow> statement_list \<Rightarrow> statement_list" where
  "push_anonymous stmt sl = sl\<lparr>sl_stmts := sl_stmts sl @ [stmt]\<rparr>"

definition pushed_name :: "statement \<Rightarrow> value_name option" where
  "pushed_name stmt =
     (case stmt of
        St_Binding b \<Rightarrow> Some (b_name b)
      | St_Register r \<Rightarrow> Some (r_name r)
      | St_Constant i _ _ \<Rightarrow> Some (VN_Expr i)
      | St_Assert _ \<Rightarrow> None
      | St_Set _ _ \<Rightarrow> None
      | St_WalTrace _ _ _ _ \<Rightarrow> None)"

definition push_primary :: "statement \<Rightarrow> name_origin \<Rightarrow> statement_list \<Rightarrow> statement_list" where
  "push_primary stmt src sl =
     \<lparr>sl_stmts = sl_stmts sl @ [stmt],
      sl_names = (case pushed_name stmt of
                    None \<Rightarrow> sl_names sl
                  | Some name \<Rightarrow> insert_primary name src (sl_names sl))\<rparr>"

definition push_secondary :: "statement \<Rightarrow> name_origin \<Rightarrow> string \<Rightarrow> statement_list \<Rightarrow> statement_list" where
  "push_secondary stmt src description sl =
     \<lparr>sl_stmts = sl_stmts sl @ [stmt],
      sl_names = (case pushed_name stmt of
                    None \<Rightarrow> sl_names sl
                  | Some name \<Rightarrow> insert_secondary name src description (sl_names sl))\<rparr>"

definition append_secondary :: "statement list \<Rightarrow> name_origin \<Rightarrow> string \<Rightarrow> statement_list \<Rightarrow> statement_list" where
  "append_secondary other src description sl = fold (\<lambda>s. push_secondary s src description) other sl"

definition sl_append :: "statement_list \<Rightarrow> statement_list \<Rightarrow> statement_list" where
  "sl_append self other =
     \<lparr>sl_stmts = sl_stmts self @ sl_stmts other, sl_names = merge_names (sl_names self) (sl_names other)\<rparr>"

definition sl_to_vec :: "statement_list \<Rightarrow> name_source_map \<Rightarrow> statement list \<times> name_source_map" where
  "sl_to_vec sl m = (sl_stmts sl, merge_names m (sl_names sl))"

definition show_statement_list :: "statement_list \<Rightarrow> string" where
  "show_statement_list sl = [CHR 0x0A] @ join_strs [CHR 0x0A] (map show_statement (sl_stmts sl)) @ [CHR 0x0A]"

definition sl_concat :: "statement_list list \<Rightarrow> statement_list" where
  "sl_concat sls = foldl sl_append sl_new sls"

named_theorems stmts

lemma sl_stmts_simps [simp, stmts]:
  "sl_stmts sl_new = []"
  "sl_stmts (push_anonymous s sl) = sl_stmts sl @ [s]"
  "sl_stmts (push_primary s src sl) = sl_stmts sl @ [s]"
  "sl_stmts (push_secondary s src d sl) = sl_stmts sl @ [s]"
  "sl_stmts (sl_append sl sl') = sl_stmts sl @ sl_stmts sl'"
  by (simp_all add: sl_new_def push_anonymous_def push_primary_def push_secondary_def sl_append_def)

lemma sl_stmts_append_secondary [simp, stmts]:
  "sl_stmts (append_secondary ss src d sl) = sl_stmts sl @ ss"
  by (induction ss arbitrary: sl) (simp_all add: append_secondary_def)

lemma sl_stmts_concat [simp, stmts]: "sl_stmts (sl_concat sls) = concat (map sl_stmts sls)"
proof -
  have "sl_stmts (foldl sl_append sl sls) = sl_stmts sl @ concat (map sl_stmts sls)" for sl
    by (induction sls arbitrary: sl) simp_all
  then show ?thesis by (simp add: sl_concat_def)
qed

end
