(* ===== verification/Type_Lowering.thy ===== *)
theory Type_Lowering
  imports Spade_Types Mir_Types
begin

text \<open>
  spade-hir-lowering, \<open>lib.rs\<close>: the MIR type of a concrete type. An invalid generic parameter, a
  negative size and an integer in the place of a type panic: \<open>None\<close>.
\<close>

definition to_biguint :: "int \<Rightarrow> nat option" where
  "to_biguint i = (if i < 0 then None else Some (nat i))"

fun to_mir_type :: "concrete_type \<Rightarrow> mir_type option" where
  "to_mir_type (CT_Tuple inner) = map_option Ty_Tuple (mapM_opt to_mir_type inner)"
| "to_mir_type (CT_Array inner sz) =
     Option.bind (to_mir_type inner) (\<lambda>t. map_option (Ty_Array t) (to_biguint sz))"
| "to_mir_type (CT_Single PT_Bool params) = Some Ty_Bool"
| "to_mir_type (CT_Single PT_Clock params) = Some Ty_Bool"
| "to_mir_type (CT_Single PT_Bit params) = Some Ty_Bool"
| "to_mir_type (CT_Single PT_Int params) =
     (case params of [CT_Integer val] \<Rightarrow> map_option Ty_Int (to_biguint val) | _ \<Rightarrow> None)"
| "to_mir_type (CT_Single PT_Uint params) =
     (case params of [CT_Integer val] \<Rightarrow> map_option Ty_UInt (to_biguint val) | _ \<Rightarrow> None)"
| "to_mir_type (CT_Single PT_Memory params) =
     (case params of
        [inner, CT_Integer len] \<Rightarrow>
          Option.bind (to_mir_type inner) (\<lambda>t. map_option (Ty_Memory t) (to_biguint len))
      | _ \<Rightarrow> None)"
| "to_mir_type (CT_Single PT_Void params) = Some Ty_Void"
| "to_mir_type (CT_Single PT_InOut params) =
     (case params of [inner] \<Rightarrow> map_option Ty_InOut (to_mir_type inner) | _ \<Rightarrow> None)"
| "to_mir_type (CT_Integer i) = None"
| "to_mir_type (CT_Enum options) =
     map_option Ty_Enum (mapM_opt (\<lambda>(_, ps). mapM_opt (\<lambda>(_, t). to_mir_type t) ps) options)"
| "to_mir_type (CT_Struct name members) =
     map_option Ty_Struct (mapM_opt (\<lambda>(n, t). map_option (Pair n) (to_mir_type t)) members)"
| "to_mir_type (CT_Backward inner) = map_option Ty_Backward (to_mir_type inner)"
| "to_mir_type (CT_Wire inner) = to_mir_type inner"

definition mir_size :: "concrete_type \<Rightarrow> nat option" where
  "mir_size t = map_option ty_size (to_mir_type t)"

lemma mir_size_tuple: "mir_size (CT_Tuple ts) = map_option sum_list (mapM_opt mir_size ts)"
  by (induction ts) (auto simp: mir_size_def split: option.splits)

lemma mir_size_struct:
  "mir_size (CT_Struct n ms) = map_option sum_list (mapM_opt (\<lambda>(_, t). mir_size t) ms)"
  by (induction ms) (auto simp: mir_size_def split: option.splits)

lemma mir_size_array:
  "mir_size (CT_Array t sz) = Option.bind (mir_size t) (\<lambda>n. map_option ((*) n) (to_biguint sz))"
  by (auto simp: mir_size_def to_biguint_def split: option.splits bind_split)

end
