(* ===== verification/Hir_Items.thy ===== *)
theory Hir_Items
  imports Hir "HOL-Library.Multiset"
begin

text \<open>
  spade-hir, \<open>lib.rs\<close> and \<open>param_util.rs\<close>: parameter lists, unit heads and items, and the matching of
  the arguments of a call with the parameters of its callee, which type inference and lowering share.
\<close>

section \<open>Items\<close>

record parameter =
  par_no_mangle :: "loc option"
  par_name :: ident
  par_ty :: type_spec

type_synonym parameter_list = "parameter list"

record type_param =
  tp_ident :: ident
  tp_name_id :: name_id
  tp_trait_bounds :: "trait_spec list"
  tp_meta :: meta_type

datatype function_kind = FK_Fn | FK_Struct | FK_Enum

datatype unit_kind = UK_Function function_kind | UK_Entity | UK_Pipeline type_expression nat

fun unit_kind_name :: "unit_kind \<Rightarrow> string" where
  "unit_kind_name (UK_Function FK_Fn) = ''function''"
| "unit_kind_name (UK_Function FK_Struct) = ''struct''"
| "unit_kind_name (UK_Function FK_Enum) = ''enum variant''"
| "unit_kind_name UK_Entity = ''entity''"
| "unit_kind_name (UK_Pipeline _ _) = ''pipeline''"

definition is_pipeline :: "unit_kind \<Rightarrow> bool" where
  "is_pipeline k = (case k of UK_Pipeline _ _ \<Rightarrow> True | _ \<Rightarrow> False)"

record unit_head =
  uh_name :: ident
  uh_inputs :: parameter_list
  uh_output_type :: "type_spec option"
  uh_unit_type_params :: "type_param list"
  uh_scope_type_params :: "type_param list"
  uh_unit_kind :: unit_kind
  uh_where_clauses :: "where_clause list"

definition output_type :: "unit_head \<Rightarrow> type_spec" where
  "output_type h = (case uh_output_type h of Some t \<Rightarrow> t | None \<Rightarrow> TS_Unit)"

definition get_type_params :: "unit_head \<Rightarrow> type_param list" where
  "get_type_params h = uh_unit_type_params h @ uh_scope_type_params h"

definition try_get_arg_type :: "parameter_list \<Rightarrow> ident \<Rightarrow> type_spec option" where
  "try_get_arg_type ps name = find_map (\<lambda>p. if par_name p = name then Some (par_ty p) else None) ps"

text \<open>A list with two parameters of the same name panics.\<close>

definition arg_index :: "parameter_list \<Rightarrow> ident \<Rightarrow> nat option option" where
  "arg_index ps target =
     (let indices = map fst (filter (\<lambda>(i, p). par_name p = target) (zip [0..<length ps] ps))
      in if length indices > 1 then None
         else Some (case indices of [] \<Rightarrow> None | i # _ \<Rightarrow> Some i))"

datatype hir_unit_name =
    HUN_WithID name_id
  | HUN_FullPath name_id
  | HUN_Unmangled string name_id

definition hir_unit_name_id :: "hir_unit_name \<Rightarrow> name_id" where
  "hir_unit_name_id n =
     (case n of HUN_WithID name \<Rightarrow> name | HUN_FullPath name \<Rightarrow> name | HUN_Unmangled _ name \<Rightarrow> name)"

record hir_unit =
  hu_name :: hir_unit_name
  hu_head :: unit_head
  hu_attributes :: "attribute list"
  hu_inputs :: "(name_id \<times> type_spec) list"
  hu_body :: expression

datatype executable_item =
    EI_EnumInstance name_id nat
  | EI_StructInstance
  | EI_Unit hir_unit
  | EI_BuiltinUnit hir_unit_name unit_head

section \<open>Argument matching\<close>

text \<open>The errors keep what they name; the locations they point at are left out.\<close>

datatype 'a argument_error =
    ArgErr_TooFew nat nat "ident list"
  | ArgErr_TooMany nat nat "'a list"
  | ArgErr_NoSuchArgument ident
  | ArgErr_Missing "ident set"
  | ArgErr_DuplicateNamedBindings ident

record ('a, 't) argument =
  arg_target :: ident
  arg_value :: 'a
  arg_target_type :: 't
  arg_kind :: argument_kind

type_synonym 't param_wrapper = "(ident \<times> 't) list"

definition wrapper_arg_type :: "'t param_wrapper \<Rightarrow> ident \<Rightarrow> 't option" where
  "wrapper_arg_type ps name = find_map (\<lambda>(aname, val). if aname = name then Some val else None) ps"

definition wrapper_arg_index :: "'t param_wrapper \<Rightarrow> ident \<Rightarrow> nat option" where
  "wrapper_arg_index ps name =
     find_map (\<lambda>(i, aname, _). if aname = name then Some i else None) (zip [0..<length ps] ps)"

definition params_as_listlike :: "parameter_list \<Rightarrow> type_spec param_wrapper" where
  "params_as_listlike ps = map (\<lambda>p. (par_name p, par_ty p)) ps"

definition type_params_as_listlike :: "type_param list \<Rightarrow> unit param_wrapper" where
  "type_params_as_listlike ps = map (\<lambda>p. (tp_ident p, ())) ps"

definition named_parts :: "'a named_argument \<Rightarrow> ident \<times> 'a \<times> argument_kind" where
  "named_parts arg =
     (case arg of
        NA_Full i e \<Rightarrow> (i, e, AK_Named)
      | NA_Short i e \<Rightarrow> (i, e, AK_ShortNamed))"

fun bind_named ::
  "'t param_wrapper \<Rightarrow> 'a named_argument list \<Rightarrow> ident list \<Rightarrow> ident set \<Rightarrow>
     ('a argument_error + (nat \<times> ('a, 't) argument) list \<times> ident set) option" where
  "bind_named params [] bound unbound = Some (Inr ([], unbound))"
| "bind_named params (arg # rest) bound unbound =
     (case named_parts arg of
        (target, expr, kind) \<Rightarrow>
          if target \<in> set bound then Some (Inl (ArgErr_DuplicateNamedBindings target))
          else case wrapper_arg_type params target of
            None \<Rightarrow> Some (Inl (ArgErr_NoSuchArgument target))
          | Some target_type \<Rightarrow>
              Option.bind (wrapper_arg_index params target) (\<lambda>index.
                map_option
                  (\<lambda>r. res_bind r (\<lambda>(result, unbound).
                     Inr ((index, \<lparr>arg_target = target, arg_value = expr, arg_target_type = target_type,
                               arg_kind = kind\<rparr>) # result, unbound)))
                  (bind_named params rest (target # bound) (unbound - {target}))))"

definition match_args_with_params ::
  "'a argument_list \<Rightarrow> 't param_wrapper \<Rightarrow> bool \<Rightarrow>
     ('a argument_error + ('a, 't) argument list) option" where
  "match_args_with_params arg_list params is_method =
     (case arg_list of
        AL_Positional inner \<Rightarrow>
          let self_arg = (if is_method then 1 else 0)
          in if length inner < length params
             then Option.bind (nat_minus (length inner) self_arg) (\<lambda>got.
                    Option.bind (nat_minus (length params) self_arg) (\<lambda>expected.
                      Some (Inl (ArgErr_TooFew got expected (map fst (drop (length inner) params))))))
             else if length inner > length params
             then Option.bind (nat_minus (length inner) self_arg) (\<lambda>got.
                    Option.bind (nat_minus (length params) self_arg) (\<lambda>expected.
                      Some (Inl (ArgErr_TooMany got expected (drop (length params) inner)))))
             else Some (Inr (map2
                    (\<lambda>arg param. \<lparr>arg_target = fst param, arg_value = arg,
                       arg_target_type = snd param, arg_kind = AK_Positional\<rparr>) inner params))
      | AL_Named inner \<Rightarrow>
          map_option
            (\<lambda>r. case r of
               Inl e \<Rightarrow> Inl e
             | Inr (result, unbound) \<Rightarrow>
                 if unbound \<noteq> {} then Inl (ArgErr_Missing unbound)
                 else Inr (map snd (sort_key fst result)))
            (bind_named params inner [] (set (map fst params))))"

section \<open>What a match gives\<close>

lemma find_map_None: "find_map f xs = None \<longleftrightarrow> (\<forall>x\<in>set xs. f x = None)"
  by (induction xs) (auto split: option.splits)

lemma find_map_Some: "find_map f xs = Some y \<Longrightarrow> \<exists>x\<in>set xs. f x = Some y"
  by (induction xs) (auto split: option.splits)

lemma wrapper_arg_index_Some:
  "wrapper_arg_index ps n = Some i \<Longrightarrow> i < length ps \<and> fst (ps ! i) = n"
  unfolding wrapper_arg_index_def
  by (drule find_map_Some) (auto simp: set_zip split: if_splits prod.splits dest: sym)

lemma wrapper_arg_index_None: "wrapper_arg_index ps n = None \<longleftrightarrow> n \<notin> fst ` set ps"
proof
  assume "wrapper_arg_index ps n = None"
  then have none: "\<forall>x\<in>set (zip [0..<length ps] ps). fst (snd x) \<noteq> n"
    by (auto simp: wrapper_arg_index_def find_map_None split: if_splits)
  have "fst (ps ! i) \<noteq> n" if "i < length ps" for i
  proof -
    have "(i, ps ! i) \<in> set (zip [0..<length ps] ps)" using that by (auto simp: set_zip intro!: exI [of _ i])
    then show ?thesis using none by auto
  qed
  then show "n \<notin> fst ` set ps" by (fastforce simp: in_set_conv_nth)
next
  assume "n \<notin> fst ` set ps"
  then show "wrapper_arg_index ps n = None"
    by (cases "wrapper_arg_index ps n") (force dest: wrapper_arg_index_Some)+
qed

lemma wrapper_arg_type_Some: "wrapper_arg_type ps n = Some t \<Longrightarrow> (n, t) \<in> set ps"
  unfolding wrapper_arg_type_def by (drule find_map_Some) (auto split: if_splits)

lemma wrapper_arg_type_None: "wrapper_arg_type ps n = None \<longleftrightarrow> n \<notin> fst ` set ps"
  by (force simp: wrapper_arg_type_def find_map_None split: if_splits)

lemma wrapper_lookups_agree:
  assumes "distinct (map fst ps)" and "wrapper_arg_index ps n = Some i" and "wrapper_arg_type ps n = Some t"
  shows "i < length ps \<and> ps ! i = (n, t)"
proof -
  have i: "i < length ps" "fst (ps ! i) = n" using wrapper_arg_index_Some [OF assms(2)] by auto
  then have "(n, snd (ps ! i)) \<in> set ps" by (metis nth_mem prod.collapse)
  then have "snd (ps ! i) = t"
    using wrapper_arg_type_Some [OF assms(3)] assms(1) by (metis eq_key_imp_eq_value)
  then show ?thesis using i by (metis prod.collapse)
qed

abbreviation named_target :: "'a named_argument \<Rightarrow> ident" where
  "named_target arg \<equiv> fst (named_parts arg)"

lemma count_list_distinct: "distinct xs \<Longrightarrow> count_list xs x \<le> 1"
  by (induction xs) (auto simp: count_list_0_iff)

text \<open>The result of binding one argument.\<close>

definition bound_to :: "'t param_wrapper \<Rightarrow> 'a named_argument \<Rightarrow> nat \<times> ('a, 't) argument \<Rightarrow> bool" where
  "bound_to params arg r \<longleftrightarrow>
     fst r < length params \<and> params ! fst r = (arg_target (snd r), arg_target_type (snd r)) \<and>
     named_parts arg = (arg_target (snd r), arg_value (snd r), arg_kind (snd r))"

lemma bind_named_Inr:
  assumes "distinct (map fst params)" and "bind_named params args bound unbound = Some (Inr (res, unb))"
  shows "list_all2 (bound_to params) args res \<and> unb = unbound - named_target ` set args \<and>
    distinct (map named_target args) \<and> named_target ` set args \<inter> set bound = {}"
  using assms(2)
proof (induction args arbitrary: bound unbound res)
  case (Cons arg rest)
  obtain target expr kind where parts: "named_parts arg = (target, expr, kind)" by (metis surj_pair)
  with Cons.prems obtain t i res' where new: "target \<notin> set bound"
    and t: "wrapper_arg_type params target = Some t" and i: "wrapper_arg_index params target = Some i"
    and rest: "bind_named params rest (target # bound) (unbound - {target}) = Some (Inr (res', unb))"
    and res: "res = (i, \<lparr>arg_target = target, arg_value = expr, arg_target_type = t, arg_kind = kind\<rparr>) # res'"
    by (auto simp: bind_eq_Some_conv res_bind_Inr split: if_splits option.splits)
  have "bound_to params arg (hd res)"
    using wrapper_lookups_agree [OF assms(1) i t] parts res by (simp add: bound_to_def)
  then show ?case using Cons.IH [OF rest] new parts res by auto
qed auto

text \<open>Binding reports the first target that is no parameter or is bound again.\<close>

lemma bind_named_total:
  "(\<exists>r. bind_named params args bound unbound = Some (Inr r)) \<and> named_target ` set args \<subseteq> fst ` set params \<or>
   (\<exists>t. bind_named params args bound unbound = Some (Inl (ArgErr_NoSuchArgument t)) \<and>
      t \<in> named_target ` set args \<and> t \<notin> fst ` set params) \<or>
   (\<exists>t. bind_named params args bound unbound = Some (Inl (ArgErr_DuplicateNamedBindings t)) \<and>
      2 \<le> of_bool (t \<in> set bound) + count_list (map named_target args) t)"
proof (induction args arbitrary: bound unbound)
  case (Cons arg rest)
  obtain target expr kind where parts: "named_parts arg = (target, expr, kind)" by (metis surj_pair)
  show ?case
  proof (cases "target \<in> set bound \<or> target \<notin> fst ` set params")
    case True
    then show ?thesis using parts wrapper_arg_type_None [of params target]
      by (auto simp: image_iff)
  next
    case False
    then obtain t i where "wrapper_arg_type params target = Some t" "wrapper_arg_index params target = Some i"
      using wrapper_arg_type_None [of params target] wrapper_arg_index_None [of params target] by auto
    then have step: "bind_named params (arg # rest) bound unbound =
        map_option (\<lambda>r. res_bind r (\<lambda>(result, unbound).
          Inr ((i, \<lparr>arg_target = target, arg_value = expr, arg_target_type = t, arg_kind = kind\<rparr>) # result, unbound)))
          (bind_named params rest (target # bound) (unbound - {target}))"
      using False parts by simp
    from Cons.IH [of "target # bound" "unbound - {target}"]
    consider r where "bind_named params rest (target # bound) (unbound - {target}) = Some (Inr r)"
        "named_target ` set rest \<subseteq> fst ` set params"
      | u where "bind_named params rest (target # bound) (unbound - {target}) = Some (Inl (ArgErr_NoSuchArgument u))"
        "u \<in> named_target ` set rest" "u \<notin> fst ` set params"
      | u where "bind_named params rest (target # bound) (unbound - {target}) = Some (Inl (ArgErr_DuplicateNamedBindings u))"
        "2 \<le> of_bool (u \<in> set (target # bound)) + count_list (map named_target rest) u"
      by blast
    then show ?thesis
    proof cases
      case 1
      then show ?thesis using step False parts by (auto simp: res_bind_def split: prod.splits)
    next
      case 2
      then show ?thesis using step by auto
    next
      case 3
      then have "2 \<le> of_bool (u \<in> set bound) + count_list (map named_target (arg # rest)) u"
        using False parts by (cases "u = target") auto
      then show ?thesis using step 3(1) by auto
    qed
  qed
qed simp

lemma bound_to_map:
  "list_all2 (bound_to params) args res \<Longrightarrow>
     map named_parts args = map (\<lambda>r. (arg_target (snd r), arg_value (snd r), arg_kind (snd r))) res"
  by (induction rule: list_all2_induct) (auto simp: bound_to_def)

lemma bound_to_nth:
  "list_all2 (bound_to params) args res \<Longrightarrow> r \<in> set res \<Longrightarrow>
     fst r < length params \<and> params ! fst r = (arg_target (snd r), arg_target_type (snd r))"
  by (induction rule: list_all2_induct) (auto simp: bound_to_def)

lemma bound_in_order:
  assumes bound: "list_all2 (bound_to params) args res" and d: "distinct (map fst params)"
    and da: "distinct (map named_target args)" and all: "fst ` set params \<subseteq> named_target ` set args"
  shows "map (\<lambda>r. (arg_target (snd r), arg_target_type (snd r))) (sort_key fst res) = params"
proof -
  let ?s = "sort_key fst res"
  have at: "fst r < length params \<and> params ! fst r = (arg_target (snd r), arg_target_type (snd r))"
    if "r \<in> set res" for r using bound_to_nth [OF bound that] .
  have targets: "map named_target args = map (\<lambda>r. fst (params ! fst r)) res"
    using arg_cong [OF bound_to_map [OF bound], of "map fst"] at by (simp add: comp_def cong: map_cong)
  then have "distinct (map (\<lambda>i. fst (params ! i)) (map fst res))" using da by (simp add: comp_def)
  then have "distinct (map fst res)" by (simp only: distinct_map)
  moreover have "set (map fst res) = {..<length params}"
  proof (intro equalityI subsetI)
    fix i assume "i \<in> {..<length params}"
    then have i: "i < length params" by simp
    then have "fst (params ! i) \<in> set (map named_target args)" using all by (auto dest: nth_mem)
    then obtain r where r: "r \<in> set res" "fst (params ! fst r) = fst (params ! i)"
      by (auto simp: targets)
    then have "fst r = i" using d i at nth_eq_iff_index_eq [OF d, of "fst r" i] by simp
    then show "i \<in> set (map fst res)" using r(1) by force
  qed (use at in auto)
  ultimately have "map fst ?s = [0..<length params]"
    by (intro sorted_distinct_set_unique) (auto simp: distinct_map inj_on_def)
  moreover have "map (\<lambda>r. (arg_target (snd r), arg_target_type (snd r))) ?s = map (\<lambda>r. params ! fst r) ?s"
    using at by (intro map_cong) auto
  moreover have "map (\<lambda>r. params ! fst r) ?s = map ((!) params) (map fst ?s)" by simp
  ultimately show ?thesis by (simp only: map_nth)
qed

text \<open>
  C21: A match of arguments gives one argument per parameter, in the order of the parameters and with
  their names and types; every expression of the call is used exactly once, a positional one for the
  parameter at its place and a named one for the parameter it names.
\<close>
theorem args_matched:
  assumes "match_args_with_params args params is_method = Some (Inr res)" and "distinct (map fst params)"
  shows "map (\<lambda>a. (arg_target a, arg_target_type a)) res = params \<and>
    mset (map arg_value res) = mset (arg_expressions args) \<and>
    (case args of
       AL_Positional es \<Rightarrow> map arg_value res = es
     | AL_Named as \<Rightarrow> (\<lambda>a. (arg_target a, arg_value a, arg_kind a)) ` set res = named_parts ` set as)"
proof (cases args)
  case (AL_Positional es)
  then have "length es = length params"
    and res: "res = map2 (\<lambda>arg param. \<lparr>arg_target = fst param, arg_value = arg,
      arg_target_type = snd param, arg_kind = AK_Positional\<rparr>) es params"
    using assms(1) by (auto simp: match_args_with_params_def Let_def bind_eq_Some_conv split: if_splits)
  then have "map arg_value res = es" "map (\<lambda>a. (arg_target a, arg_target_type a)) res = params"
    by (simp_all add: comp_def case_prod_unfold map_fst_zip map_snd_zip)
  then show ?thesis by (simp add: AL_Positional arg_expressions_def flip: mset_map)
next
  case (AL_Named as)
  then obtain z where z: "bind_named params as [] (set (map fst params)) = Some z"
    and "(case z of Inl e \<Rightarrow> Inl e | Inr (result, unbound) \<Rightarrow>
      if unbound \<noteq> {} then Inl (ArgErr_Missing unbound) else Inr (map snd (sort_key fst result))) = Inr res"
    using assms(1) by (auto simp: match_args_with_params_def simp del: set_map)
  then obtain r unb where b: "bind_named params as [] (set (map fst params)) = Some (Inr (r, unb))"
    and unb: "unb = {}" and res: "res = map snd (sort_key fst r)"
    by (cases z) (auto split: if_splits)
  have r: "list_all2 (bound_to params) as r" "distinct (map named_target as)"
    "fst ` set params \<subseteq> named_target ` set as"
    using bind_named_Inr [OF assms(2) b] unb by auto
  have parts: "map named_parts as = map (\<lambda>r. (arg_target (snd r), arg_value (snd r), arg_kind (snd r))) r"
    by (rule bound_to_map [OF r(1)])
  have "arg_expressions args = map (\<lambda>a. fst (snd (named_parts a))) as"
    by (auto simp: AL_Named arg_expressions_def named_parts_def split: named_argument.splits)
  also have "\<dots> = map (\<lambda>r. arg_value (snd r)) r"
    using arg_cong [OF parts, of "map (\<lambda>p. fst (snd p))"] by (simp add: comp_def)
  finally have "mset (map arg_value res) = mset (arg_expressions args)"
    by (simp add: res image_mset.compositionality comp_def)
  moreover have "named_parts ` set as = (\<lambda>a. (arg_target a, arg_value a, arg_kind a)) ` set res"
    using arg_cong [OF parts, of set] by (simp add: res image_image)
  ultimately show ?thesis
    using bound_in_order [OF r(1) assms(2) r(2,3)] by (simp add: AL_Named res comp_def)
qed

definition example_params :: "type_spec param_wrapper" where
  "example_params = [(''a'', TS_Unit), (''b'', TS_Wildcard)]"

definition example_args :: "nat argument_list" where
  "example_args = AL_Named [NA_Full ''b'' 7, NA_Short ''a'' 3]"

definition example_matched :: "(nat, type_spec) argument list" where
  "example_matched =
     [\<lparr>arg_target = ''a'', arg_value = 3, arg_target_type = TS_Unit, arg_kind = AK_ShortNamed\<rparr>,
      \<lparr>arg_target = ''b'', arg_value = 7, arg_target_type = TS_Wildcard, arg_kind = AK_Named\<rparr>]"

lemma args_matched_witness:
  "map (\<lambda>a. (arg_target a, arg_target_type a)) example_matched = example_params \<and>
     mset (map arg_value example_matched) = {#7, 3#}"
proof -
  have "match_args_with_params example_args example_params False = Some (Inr example_matched)" by code_simp
  moreover have "distinct (map fst example_params)" by (simp add: example_params_def)
  ultimately show ?thesis
    using args_matched [of example_args example_params False example_matched]
    by (simp add: example_args_def arg_expressions_def add.commute)
qed

text \<open>The arguments that fit the parameters, and what each error says of the others.\<close>

definition args_fit :: "'a argument_list \<Rightarrow> 't param_wrapper \<Rightarrow> bool" where
  "args_fit args params =
     (case args of
        AL_Positional es \<Rightarrow> length es = length params
      | AL_Named as \<Rightarrow> distinct (map named_target as) \<and> named_target ` set as = fst ` set params)"

definition args_fault :: "'a argument_list \<Rightarrow> 't param_wrapper \<Rightarrow> bool \<Rightarrow> 'a argument_error \<Rightarrow> bool" where
  "args_fault args params is_method e =
     (case args of
        AL_Positional es \<Rightarrow>
          let got = length es - of_bool is_method; expected = length params - of_bool is_method
          in length es < length params \<and> e = ArgErr_TooFew got expected (map fst (drop (length es) params)) \<or>
             length params < length es \<and> e = ArgErr_TooMany got expected (drop (length params) es)
      | AL_Named as \<Rightarrow>
          (case e of
             ArgErr_NoSuchArgument t \<Rightarrow> t \<in> named_target ` set as \<and> t \<notin> fst ` set params
           | ArgErr_DuplicateNamedBindings t \<Rightarrow> 2 \<le> count_list (map named_target as) t
           | ArgErr_Missing missing \<Rightarrow>
               missing = fst ` set params - named_target ` set as \<and> missing \<noteq> {} \<and>
               distinct (map named_target as) \<and> named_target ` set as \<subseteq> fst ` set params
           | _ \<Rightarrow> False))"

text \<open>
  C24: Arguments are accepted exactly when they fit the parameters. Otherwise the error names the reason: a
  wrong number of positional arguments, a name that is no parameter, a name given twice, or exactly
  the parameters without an argument. Nothing panics when the arguments and the parameters of a
  method contain \<open>self\<close>.
\<close>
theorem args_rejected:
  assumes "distinct (map fst params)" and "is_method \<longrightarrow> arg_expressions args \<noteq> [] \<and> params \<noteq> []"
  shows "if args_fit args params
    then \<exists>res. match_args_with_params args params is_method = Some (Inr res)
    else \<exists>e. match_args_with_params args params is_method = Some (Inl e) \<and> args_fault args params is_method e"
proof (cases args)
  case (AL_Positional es)
  then show ?thesis
    using assms(2)
    by (auto simp: match_args_with_params_def args_fit_def args_fault_def nat_minus_def arg_expressions_def
        Suc_le_eq split: bind_splits)
next
  case (AL_Named as)
  let ?b = "bind_named params as [] (fst ` set params)"
  from bind_named_total [of params as "[]" "fst ` set params"]
  consider r where "?b = Some (Inr r)" "named_target ` set as \<subseteq> fst ` set params"
    | t where "?b = Some (Inl (ArgErr_NoSuchArgument t))" "t \<in> named_target ` set as" "t \<notin> fst ` set params"
    | t where "?b = Some (Inl (ArgErr_DuplicateNamedBindings t))" "2 \<le> count_list (map named_target as) t"
    by auto
  then show ?thesis
  proof cases
    case 1
    obtain res unb where r: "r = (res, unb)" by (metis surj_pair)
    then have "unb = fst ` set params - named_target ` set as" "distinct (map named_target as)"
      using bind_named_Inr [OF assms(1), of as "[]" "fst ` set params" res unb] 1 by auto
    then show ?thesis
      using 1 r by (auto simp: AL_Named match_args_with_params_def args_fit_def args_fault_def)
  next
    case 2
    then show ?thesis by (auto simp: AL_Named match_args_with_params_def args_fit_def args_fault_def)
  next
    case 3
    then have "\<not> distinct (map named_target as)" using count_list_distinct [of "map named_target as" t] by auto
    then show ?thesis using 3 by (auto simp: AL_Named match_args_with_params_def args_fit_def args_fault_def)
  qed
qed

lemma args_rejected_witness:
  "\<exists>e. match_args_with_params (AL_Named [NA_Full ''b'' (7 :: nat)]) example_params False = Some (Inl e) \<and>
     args_fault (AL_Named [NA_Full ''b'' (7 :: nat)]) example_params False e"
proof -
  have "\<not> args_fit (AL_Named [NA_Full ''b'' (7 :: nat)]) example_params"
    by (simp add: args_fit_def example_params_def named_parts_def)
  then show ?thesis
    using args_rejected [of example_params False "AL_Named [NA_Full ''b'' (7 :: nat)]"]
    by (simp add: example_params_def)
qed

end
