(* ===== verification/Pattern_Lowering.thy ===== *)
theory Pattern_Lowering
  imports Statement_List Type_Lowering Hir_Items Usefulness_Sound "HOL-Library.Log_Nat"
begin

text \<open>
  spade-hir-lowering, \<open>lib.rs\<close>: the statements that take a pattern apart and the condition under which
  a value matches it. What the code asks of the symbol table and of the types of ids is in the
  environment. A diagnostic is the error of its message; a panic is an error too.
\<close>

datatype lower_error =
    LE_Panic
  | LE_Bug string
  | LE_Error string
  | LE_Undefined name_id
  | LE_UseBeforeReady name_id nat nat
  | LE_Refutable usefulness string
  | LE_NonExhaustive usefulness
  | LE_Argument "expression argument_error"

definition or_panic :: "'a option \<Rightarrow> lower_error + 'a" where
  "or_panic x = (case x of None \<Rightarrow> Inl LE_Panic | Some y \<Rightarrow> Inr y)"

lemma or_panic_Inr [simp]: "or_panic x = Inr y \<longleftrightarrow> x = Some y"
  by (simp add: or_panic_def split: option.split)

record pattern_env =
  pe_pat :: pat_context
  pe_struct_params :: "name_id \<Rightarrow> parameter_list"

text \<open>The MIR name of a name; the path of a \<open>NameID\<close> is not empty.\<close>

definition name_value_with :: "name_id \<Rightarrow> name_source \<Rightarrow> value_name" where
  "name_value_with n source = VN_Named (nid_num n) (last (nid_path n)) source"

definition name_value :: "name_id \<Rightarrow> value_name" where
  "name_value n = name_value_with n (NS_Name n)"

definition pat_value_name :: "hir_pattern \<Rightarrow> value_name" where
  "pat_value_name p = (case hp_kind p of HPat_Name name _ \<Rightarrow> name_value name | _ \<Rightarrow> VN_Expr (hp_id p))"

definition pat_is_alias :: "hir_pattern \<Rightarrow> bool" where
  "pat_is_alias p = (case hp_kind p of HPat_Name _ _ \<Rightarrow> True | _ \<Rightarrow> False)"

definition mir_type_of_id :: "'a pattern_env_scheme \<Rightarrow> nat \<Rightarrow> lower_error + mir_type" where
  "mir_type_of_id env i = or_panic (to_mir_type (type_of_id (pe_pat env) i))"

text \<open>The binding of a part of a pattern to what the operator takes out of the whole.\<close>

definition bind_part ::
  "'a pattern_env_scheme \<Rightarrow> hir_pattern \<Rightarrow> operator \<Rightarrow> value_name list \<Rightarrow> lower_error + statement_list" where
  "bind_part env p oper operands =
     res_bind (mir_type_of_id env (hp_id p)) (\<lambda>ty.
       Inr (push_primary (St_Binding (Binding (pat_value_name p) oper operands ty None)) (NO_Expr (hp_id p)) sl_new))"

definition array_index_type :: "nat \<Rightarrow> mir_type" where
  "array_index_type n = Ty_Int (floorlog 2 n)"

fun lower_pattern ::
  "'a pattern_env_scheme \<Rightarrow> hir_pattern \<Rightarrow> value_name \<Rightarrow> id_tracker \<Rightarrow> lower_error + statement_list \<times> id_tracker"
where
  "lower_pattern env (HirPat i k l) self_name tracker =
     (case k of
        HPat_Integer _ \<Rightarrow> Inr (sl_new, tracker)
      | HPat_Bool _ \<Rightarrow> Inr (sl_new, tracker)
      | HPat_Name _ _ \<Rightarrow> Inr (sl_new, tracker)
      | HPat_Tuple inner \<Rightarrow>
          (case to_mir_type (type_of_id (pe_pat env) i) of
             Some (Ty_Tuple inner_types) \<Rightarrow>
               res_bind (mapS_res (\<lambda>(j, p) tracker.
                   res_bind (bind_part env p (Op_IndexTuple j inner_types) [self_name]) (\<lambda>b.
                   res_bind (lower_pattern env p (pat_value_name p) tracker) (\<lambda>(s, tracker).
                     Inr (sl_append b s, tracker))))
                 (zip [0..<length inner] inner) tracker) (\<lambda>(sls, tracker). Inr (sl_concat sls, tracker))
           | _ \<Rightarrow> Inl LE_Panic)
      | HPat_Array inner \<Rightarrow>
          res_bind (mapS_res (\<lambda>(j, p) tracker.
              case tracker_next tracker of (idx_id, tracker) \<Rightarrow>
              res_bind (bind_part env p Op_IndexArray [self_name, VN_Expr idx_id]) (\<lambda>b.
              res_bind (lower_pattern env p (pat_value_name p) tracker) (\<lambda>(s, tracker).
                Inr (sl_append
                      (sl_append (push_secondary
                         (St_Constant idx_id (array_index_type (length inner)) (CV_Int (int j)))
                         (NO_Expr (hp_id p)) ''destructured array index'' sl_new) b) s, tracker))))
            (zip [0..<length inner] inner) tracker) (\<lambda>(sls, tracker). Inr (sl_concat sls, tracker))
      | HPat_Type p args \<Rightarrow>
          (case patternable_type_by_id (pe_pat env) p of
             PK_Struct \<Rightarrow>
               (case to_mir_type (type_of_id (pe_pat env) i) of
                  Some (Ty_Struct members) \<Rightarrow>
                    res_bind (mapS_res (\<lambda>a tracker.
                        res_bind (or_panic (Option.bind (arg_index (pe_struct_params env p) (pa_target a)) (\<lambda>j. j))) (\<lambda>j.
                        res_bind (bind_part env (pa_value a) (Op_IndexTuple j (map snd members)) [self_name]) (\<lambda>b.
                        res_bind (lower_pattern env (pa_value a) (pat_value_name (pa_value a)) tracker) (\<lambda>(s, tracker).
                          Inr (sl_append b s, tracker)))))
                      args tracker) (\<lambda>(sls, tracker). Inr (sl_concat sls, tracker))
                | _ \<Rightarrow> Inl LE_Panic)
           | PK_Enum \<Rightarrow>
               (case to_mir_type (type_of_id (pe_pat env) i) of
                  Some self_type \<Rightarrow>
                    res_bind (mapS_res (\<lambda>(j, a) tracker.
                        res_bind (bind_part env (pa_value a)
                          (Op_EnumMember self_type (enum_variant_option (pe_pat env) p) j) [self_name]) (\<lambda>b.
                        res_bind (lower_pattern env (pa_value a) (pat_value_name (pa_value a)) tracker) (\<lambda>(s, tracker).
                          Inr (sl_append b s, tracker))))
                      (zip [0..<length args] args) tracker) (\<lambda>(sls, tracker). Inr (sl_concat sls, tracker))
                | None \<Rightarrow> Inl LE_Panic)))"

section \<open>Conditions\<close>

fun and_chain :: "value_name \<Rightarrow> value_name list \<Rightarrow> id_tracker \<Rightarrow> (statement list \<times> value_name) \<times> id_tracker" where
  "and_chain result_name [] tracker = (([], result_name), tracker)"
| "and_chain result_name (oper # ops) tracker =
     (case tracker_next tracker of (i, tracker) \<Rightarrow>
      case and_chain (VN_Expr i) ops tracker of ((rest, result), tracker) \<Rightarrow>
        ((St_Binding (Binding (VN_Expr i) Op_LogicalAnd [result_name, oper] Ty_Bool None) # rest, result), tracker))"

definition all_conditions ::
  "value_name list \<Rightarrow> id_tracker \<Rightarrow> (statement list \<times> value_name) \<times> id_tracker" where
  "all_conditions ops tracker =
     (case ops of
        [] \<Rightarrow>
          (case tracker_next tracker of (i, tracker) \<Rightarrow>
            (([St_Constant i Ty_Bool (CV_Bool True)], VN_Expr i), tracker))
      | oper # rest \<Rightarrow> and_chain oper rest tracker)"

fun pat_condition ::
  "'a pattern_env_scheme \<Rightarrow> hir_pattern \<Rightarrow> value_name \<Rightarrow> id_tracker \<Rightarrow>
     lower_error + (statement list \<times> value_name) \<times> id_tracker" where
  "pat_condition env (HirPat i k l) val_name tracker =
     (case tracker_next tracker of (output_id, tracker) \<Rightarrow>
      let result_name = VN_Expr output_id in
      case k of
        HPat_Integer val \<Rightarrow>
          (case tracker_next tracker of (const_id, tracker) \<Rightarrow>
           res_bind (mir_type_of_id env i) (\<lambda>self_type.
             Inr (([St_Constant const_id self_type (CV_Int val),
                    St_Binding (Binding result_name Op_Eq [val_name, VN_Expr const_id] Ty_Bool None)],
                   result_name), tracker)))
      | HPat_Bool val \<Rightarrow>
          if val then Inr (([], val_name), tracker)
          else Inr (([St_Binding (Binding result_name Op_LogicalNot [val_name] Ty_Bool None)], result_name), tracker)
      | HPat_Name _ _ \<Rightarrow> Inr (([St_Constant output_id Ty_Bool (CV_Bool True)], result_name), tracker)
      | HPat_Tuple branches \<Rightarrow>
          if branches = [] then Inl LE_Panic
          else res_bind (mapS_res (\<lambda>p. pat_condition env p (pat_value_name p)) branches tracker) (\<lambda>(subs, tracker).
            case all_conditions (map snd subs) tracker of ((new_statements, result_name), tracker) \<Rightarrow>
              Inr ((concat (map fst subs) @ new_statements, result_name), tracker))
      | HPat_Array branches \<Rightarrow>
          if branches = [] then Inl LE_Panic
          else res_bind (mapS_res (\<lambda>p. pat_condition env p (pat_value_name p)) branches tracker) (\<lambda>(subs, tracker).
            case all_conditions (map snd subs) tracker of ((new_statements, result_name), tracker) \<Rightarrow>
              Inr ((concat (map fst subs) @ new_statements, result_name), tracker))
      | HPat_Type p args \<Rightarrow>
          res_bind (mir_type_of_id env i) (\<lambda>self_type.
          case tracker_next tracker of (cond_id, tracker) \<Rightarrow>
          let self_condition =
            (case patternable_type_by_id (pe_pat env) p of
               PK_Enum \<Rightarrow> St_Binding (Binding (VN_Expr cond_id)
                 (Op_IsEnumVariant (enum_variant_option (pe_pat env) p) self_type) [val_name] Ty_Bool None)
             | PK_Struct \<Rightarrow> St_Constant cond_id Ty_Bool (CV_Bool True))
          in res_bind (mapS_res (\<lambda>a. pat_condition env (pa_value a) (pat_value_name (pa_value a))) args tracker) (\<lambda>(subs, tracker).
            case all_conditions (VN_Expr cond_id # map snd subs) tracker of ((extra_statements, result_name), tracker) \<Rightarrow>
              Inr ((self_condition # concat (map fst subs) @ extra_statements, result_name), tracker))))"

end
