(* ===== verification/Mir_Meaning.thy ===== *)
theory Mir_Meaning
  imports Mir Usefulness_Sound
begin

text \<open>
  What the statements of the MIR say of the values of names at one moment. Values are those of
  \<open>Usefulness_Sound\<close>: tuples, structs and arrays are \<open>PV_Struct\<close>. Statements without a meaning here
  constrain nothing, so what is proved from the meaning of all statements holds for them too.
\<close>

text \<open>
  An operator constrains its result where its operands have the shape it is for: a member of an enum
  is only meaningful for values of its variant. Arithmetic is that of the integers where the result
  fits the type of the binding; the unsigned operators are for operands that are not negative.
\<close>

definition value_at :: "(vkey \<Rightarrow> pvalue) \<Rightarrow> value_name \<Rightarrow> pvalue" where
  "value_at \<rho> n = \<rho> (vn_key n)"

definition truth :: "pvalue \<Rightarrow> bool" where
  "truth v \<longleftrightarrow> v = PV_Bool True"

fun first_true :: "pvalue list \<Rightarrow> pvalue option" where
  "first_true (c # v # rest) = (if truth c then Some v else first_true rest)"
| "first_true _ = None"

definition member_of :: "pvalue \<Rightarrow> nat \<Rightarrow> pvalue \<Rightarrow> bool" where
  "member_of whole i part \<longleftrightarrow> (i < length (subvalues whole) \<longrightarrow> part = subvalues whole ! i)"

definition on_naturals :: "int \<Rightarrow> int \<Rightarrow> pvalue \<Rightarrow> pvalue option" where
  "on_naturals a b v = (if 0 \<le> a \<and> 0 \<le> b then Some v else None)"

fun int_result :: "plain_operator \<Rightarrow> int \<Rightarrow> int \<Rightarrow> pvalue option" where
  "int_result P_Add a b = Some (PV_Int (a + b))"
| "int_result P_Sub a b = Some (PV_Int (a - b))"
| "int_result P_Mul a b = Some (PV_Int (a * b))"
| "int_result P_Gt a b = Some (PV_Bool (a > b))"
| "int_result P_Lt a b = Some (PV_Bool (a < b))"
| "int_result P_Ge a b = Some (PV_Bool (a \<ge> b))"
| "int_result P_Le a b = Some (PV_Bool (a \<le> b))"
| "int_result P_UnsignedAdd a b = on_naturals a b (PV_Int (a + b))"
| "int_result P_UnsignedSub a b = on_naturals a b (PV_Int (a - b))"
| "int_result P_UnsignedMul a b = on_naturals a b (PV_Int (a * b))"
| "int_result P_UnsignedGt a b = on_naturals a b (PV_Bool (a > b))"
| "int_result P_UnsignedLt a b = on_naturals a b (PV_Bool (a < b))"
| "int_result P_UnsignedGe a b = on_naturals a b (PV_Bool (a \<ge> b))"
| "int_result P_UnsignedLe a b = on_naturals a b (PV_Bool (a \<le> b))"
| "int_result oper a b = None"

definition fits :: "mir_type \<Rightarrow> pvalue \<Rightarrow> bool" where
  "fits ty v =
     (case v of
        PV_Int n \<Rightarrow>
          (case ty of
             Ty_Int w \<Rightarrow> 0 < w \<and> - (2 ^ (w - 1)) \<le> n \<and> n < 2 ^ (w - 1)
           | Ty_UInt w \<Rightarrow> 0 \<le> n \<and> n < 2 ^ w
           | _ \<Rightarrow> False)
      | _ \<Rightarrow> True)"

definition arith_means :: "operator \<Rightarrow> mir_type \<Rightarrow> pvalue list \<Rightarrow> pvalue \<Rightarrow> bool" where
  "arith_means oper ty vs r =
     (case (oper, vs) of
        (Op_Plain P_USub, [PV_Int a]) \<Rightarrow> fits ty (PV_Int (- a)) \<longrightarrow> r = PV_Int (- a)
      | (Op_Plain p, [PV_Int a, PV_Int b]) \<Rightarrow>
          (case int_result p a b of Some v \<Rightarrow> fits ty v \<longrightarrow> r = v | None \<Rightarrow> True)
      | _ \<Rightarrow> True)"

definition plain_means :: "plain_operator \<Rightarrow> pvalue list \<Rightarrow> pvalue \<Rightarrow> bool" where
  "plain_means oper vs r =
     (case oper of
        P_Alias \<Rightarrow> vs = [r]
      | P_LogicalAnd \<Rightarrow> r = PV_Bool (list_all truth vs)
      | P_LogicalOr \<Rightarrow> r = PV_Bool (list_ex truth vs)
      | P_LogicalXor \<Rightarrow> (case vs of [a, b] \<Rightarrow> r = PV_Bool (truth a \<noteq> truth b) | _ \<Rightarrow> True)
      | P_LogicalNot \<Rightarrow> r = PV_Bool (\<not> list_all truth vs)
      | P_Not \<Rightarrow> (case vs of [PV_Bool b] \<Rightarrow> r = PV_Bool (\<not> b) | _ \<Rightarrow> True)
      | P_Eq \<Rightarrow> r = PV_Bool (length vs = 2 \<and> vs ! 0 = vs ! 1)
      | P_NotEq \<Rightarrow> r = PV_Bool (\<not> (length vs = 2 \<and> vs ! 0 = vs ! 1))
      | P_Select \<Rightarrow> (case vs of [c, a, b] \<Rightarrow> r = (if truth c then a else b) | _ \<Rightarrow> True)
      | P_Match \<Rightarrow> (case first_true vs of Some v \<Rightarrow> r = v | None \<Rightarrow> True)
      | P_IndexArray \<Rightarrow> (case vs of [whole, PV_Int i] \<Rightarrow> 0 \<le> i \<longrightarrow> member_of whole (nat i) r | _ \<Rightarrow> True)
      | P_ConstructTuple \<Rightarrow> r = PV_Struct vs
      | P_ConstructArray \<Rightarrow> r = PV_Struct vs
      | _ \<Rightarrow> True)"

definition op_means :: "operator \<Rightarrow> pvalue list \<Rightarrow> pvalue \<Rightarrow> bool" where
  "op_means oper vs r =
     (case oper of
        Op_Plain p \<Rightarrow> plain_means p vs r
      | Op_IndexTuple i _ \<Rightarrow> (case vs of [whole] \<Rightarrow> member_of whole i r | _ \<Rightarrow> True)
      | Op_RangeIndexArray start stop \<Rightarrow>
          (case vs of [PV_Struct es] \<Rightarrow> stop \<le> length es \<longrightarrow> r = PV_Struct (drop start (take stop es)) | _ \<Rightarrow> True)
      | Op_ConstructEnum variant _ \<Rightarrow> r = PV_Variant variant vs
      | Op_EnumMember _ variant i \<Rightarrow>
          (case vs of [PV_Variant k parts] \<Rightarrow> k = variant \<longrightarrow> member_of (PV_Variant k parts) i r | _ \<Rightarrow> True)
      | Op_IsEnumVariant variant _ \<Rightarrow>
          r = PV_Bool (case vs of [PV_Variant k _] \<Rightarrow> k = variant | _ \<Rightarrow> False)
      | _ \<Rightarrow> True)"

definition means :: "(vkey \<Rightarrow> pvalue) \<Rightarrow> statement \<Rightarrow> bool" where
  "means \<rho> s =
     (case s of
        St_Binding b \<Rightarrow>
          op_means (b_operator b) (map (value_at \<rho>) (b_operands b)) (value_at \<rho> (b_name b)) \<and>
          arith_means (b_operator b) (b_ty b) (map (value_at \<rho>) (b_operands b)) (value_at \<rho> (b_name b))
      | St_Constant i _ (CV_Int n) \<Rightarrow> value_at \<rho> (VN_Expr i) = PV_Int n
      | St_Constant i _ (CV_Bool b) \<Rightarrow> value_at \<rho> (VN_Expr i) = PV_Bool b
      | _ \<Rightarrow> True)"

lemma means_simps [simp]:
  "means \<rho> (St_Binding b) \<longleftrightarrow>
     op_means (b_operator b) (map (value_at \<rho>) (b_operands b)) (value_at \<rho> (b_name b)) \<and>
     arith_means (b_operator b) (b_ty b) (map (value_at \<rho>) (b_operands b)) (value_at \<rho> (b_name b))"
  "means \<rho> (St_Constant i ty (CV_Int n)) \<longleftrightarrow> value_at \<rho> (VN_Expr i) = PV_Int n"
  "means \<rho> (St_Constant i ty (CV_Bool c)) \<longleftrightarrow> value_at \<rho> (VN_Expr i) = PV_Bool c"
  by (simp_all add: means_def)

lemma truth_simps [simp]: "truth (PV_Bool b) \<longleftrightarrow> b"
  by (simp add: truth_def)

lemma op_means_simps [simp]:
  "op_means Op_Alias [a] r \<longleftrightarrow> r = a"
  "op_means Op_LogicalAnd vs r \<longleftrightarrow> r = PV_Bool (list_all truth vs)"
  "op_means Op_LogicalOr vs r \<longleftrightarrow> r = PV_Bool (list_ex truth vs)"
  "op_means Op_LogicalXor [a, b] r \<longleftrightarrow> r = PV_Bool (truth a \<noteq> truth b)"
  "op_means Op_LogicalNot vs r \<longleftrightarrow> r = PV_Bool (\<not> list_all truth vs)"
  "op_means Op_Not [PV_Bool d] r \<longleftrightarrow> r = PV_Bool (\<not> d)"
  "op_means Op_Eq [a, b] r \<longleftrightarrow> r = PV_Bool (a = b)"
  "op_means Op_NotEq [a, b] r \<longleftrightarrow> r = PV_Bool (a \<noteq> b)"
  "op_means Op_Select [c, a, b] r \<longleftrightarrow> r = (if truth c then a else b)"
  "op_means Op_Match vs r \<longleftrightarrow> (case first_true vs of Some v \<Rightarrow> r = v | None \<Rightarrow> True)"
  "op_means Op_IndexArray [whole, PV_Int i] r \<longleftrightarrow> (0 \<le> i \<longrightarrow> member_of whole (nat i) r)"
  "op_means Op_ConstructTuple vs r \<longleftrightarrow> r = PV_Struct vs"
  "op_means Op_ConstructArray vs r \<longleftrightarrow> r = PV_Struct vs"
  "op_means (Op_ConstructEnum variant n) vs r \<longleftrightarrow> r = PV_Variant variant vs"
  "op_means (Op_RangeIndexArray start stop) [PV_Struct es] r \<longleftrightarrow>
     (stop \<le> length es \<longrightarrow> r = PV_Struct (drop start (take stop es)))"
  "op_means (Op_IndexTuple j tys) [whole] r \<longleftrightarrow> member_of whole j r"
  "op_means (Op_IsEnumVariant variant ty) vs r \<longleftrightarrow>
     r = PV_Bool (case vs of [PV_Variant k _] \<Rightarrow> k = variant | _ \<Rightarrow> False)"
  "op_means (Op_EnumMember ty variant j) [PV_Variant variant parts] r \<longleftrightarrow> member_of (PV_Variant variant parts) j r"
  by (auto simp: op_means_def plain_means_def)

lemma arith_means_simps [simp]:
  "arith_means Op_USub ty [PV_Int a] r \<longleftrightarrow> (fits ty (PV_Int (- a)) \<longrightarrow> r = PV_Int (- a))"
  "arith_means (Op_Plain p) ty [PV_Int a, PV_Int b] r \<longleftrightarrow>
     (case int_result p a b of Some v \<Rightarrow> fits ty v \<longrightarrow> r = v | None \<Rightarrow> True)"
  by (auto simp: arith_means_def split: plain_operator.split)

end
