(* ===== verification/Pattern_Sound.thy ===== *)
theory Pattern_Sound
  imports Pattern_Lowering Mir_Meaning
begin

text \<open>
  The statements of a lowered pattern give its parts their values, and its condition holds exactly
  for the values that the pattern matches.
\<close>

section \<open>Conditions\<close>

lemma and_chain_means:
  assumes "and_chain r ops tracker = ((ss, result), tracker')" and "\<forall>s\<in>set ss. means \<rho> s"
  shows "truth (value_at \<rho> result) \<longleftrightarrow> truth (value_at \<rho> r) \<and> (\<forall>c\<in>set ops. truth (value_at \<rho> c))"
  using assms
  by (induction r ops tracker arbitrary: ss rule: and_chain.induct) (auto split: prod.splits)

lemma all_conditions_means:
  assumes "all_conditions ops tracker = ((ss, result), tracker')" and "\<forall>s\<in>set ss. means \<rho> s"
  shows "truth (value_at \<rho> result) \<longleftrightarrow> (\<forall>c\<in>set ops. truth (value_at \<rho> c))"
  using assms and_chain_means
  by (cases ops) (auto simp: all_conditions_def split: prod.splits)

lemma hirs_match_all2: "hirs_match ctx ps vs \<longleftrightarrow> list_all2 (hir_matches ctx) ps vs"
  by (induction ctx ps vs rule: hir_matches_hirs_match.induct(2) [where ?P = "\<lambda>_ _ _. True"]) auto

lemma wt_values_all2: "wt_values vs tys \<longleftrightarrow> list_all2 wt_value vs tys"
proof (induction vs arbitrary: tys)
  case (Cons v vs)
  then show ?case by (cases tys) auto
next
  case Nil
  then show ?case by (cases tys) auto
qed

lemma bool_values: "wt_value v ty \<Longrightarrow> is_bool_type ty \<Longrightarrow> \<exists>b. v = PV_Bool b"
  by (cases v) (auto simp: is_bool_type_def single_type_def ctor_fields_def int_bounds_def is_opaque_type_def
      opaque_base_def split: concrete_type.splits primitive_type.splits option.splits)

text \<open>The arguments of a struct pattern are in the order of the fields, as the lowering of calls leaves them.\<close>

fun args_in_order :: "'a pattern_env_scheme \<Rightarrow> hir_pattern \<Rightarrow> bool" where
  "args_in_order env (HirPat i (HPat_Tuple ps) l) = list_all (args_in_order env) ps"
| "args_in_order env (HirPat i (HPat_Array ps) l) = list_all (args_in_order env) ps"
| "args_in_order env (HirPat i (HPat_Type x args) l) =
     ((patternable_type_by_id (pe_pat env) x = PK_Struct \<longrightarrow>
         map (\<lambda>a. arg_index (pe_struct_params env x) (pa_target a)) args = map (\<lambda>j. Some (Some j)) [0..<length args]) \<and>
      list_all (\<lambda>a. args_in_order env (pa_value a)) args)"
| "args_in_order env (HirPat i k l) = True"

text \<open>The parts of a matched value, given that the names of the parts hold them.\<close>

lemma parts_match:
  assumes conds: "list_all2 (\<lambda>p sub. \<exists>tr tr'. pat_condition env p (pat_value_name p) tr = Inr (sub, tr')) ps subs"
    and all: "all_conditions (pre @ map snd subs) tracker = ((extra, result), tracker')"
    and holds: "\<forall>s\<in>set extra. means \<rho> s"
    and len: "length vs = length ps"
    and parts: "\<And>j sub tr tr'. j < length ps \<Longrightarrow> pat_condition env (ps ! j) (pat_value_name (ps ! j)) tr = Inr (sub, tr') \<Longrightarrow>
      sub \<in> set subs \<Longrightarrow> truth (value_at \<rho> (snd sub)) \<longleftrightarrow> hir_matches (pe_pat env) (ps ! j) (vs ! j)"
  shows "truth (value_at \<rho> result) \<longleftrightarrow>
    (\<forall>c\<in>set pre. truth (value_at \<rho> c)) \<and> hirs_match (pe_pat env) ps vs"
proof -
  have l: "length subs = length ps" using conds by (auto dest: list_all2_lengthD)
  have "truth (value_at \<rho> (snd (subs ! j))) \<longleftrightarrow> hir_matches (pe_pat env) (ps ! j) (vs ! j)" if "j < length ps" for j
    using parts [OF that] list_all2_nthD [OF conds that] l that by fastforce
  then have "(\<forall>c\<in>set (map snd subs). truth (value_at \<rho> c)) \<longleftrightarrow> hirs_match (pe_pat env) ps vs"
    using l len by (simp add: hirs_match_all2 list_all2_conv_all_nth all_set_conv_all_nth)
  then show ?thesis using all_conditions_means [OF all holds] by auto
qed

lemma mapS_nth:
  "mapS_res f xs s = Inr (ys, s') \<Longrightarrow>
     length ys = length xs \<and> (\<forall>j<length xs. \<exists>t t'. f (xs ! j) t = Inr (ys ! j, t'))"
  by (drule mapS_res_all2 [where P = "\<lambda>x y. \<exists>t t'. f x t = Inr (y, t')"])
    (auto simp: list_all2_conv_all_nth)

lemma mapS_res_map: "mapS_res f (map g xs) s = mapS_res (\<lambda>x. f (g x)) xs s"
  by (induction xs arbitrary: s) (auto simp: res_bind_def split: sum.split)

lemma mapS_zip:
  "mapS_res f (zip [0..<length xs] xs) s = Inr (ys, s') \<Longrightarrow>
     length ys = length xs \<and> (\<forall>j<length xs. \<exists>t t'. f (j, xs ! j) t = Inr (ys ! j, t'))"
  by (drule mapS_nth) simp

lemma bind_part_stmts:
  "bind_part env p oper operands = Inr b \<Longrightarrow>
     \<exists>ty. sl_stmts b = [St_Binding (Binding (pat_value_name p) oper operands ty None)]"
  by (auto simp: bind_part_def res_bind_Inr)

definition condition_sound :: "'a pattern_env_scheme \<Rightarrow> (vkey \<Rightarrow> pvalue) \<Rightarrow> hir_pattern \<Rightarrow> bool" where
  "condition_sound env \<rho> p \<longleftrightarrow>
     (\<forall>vn tr sl tr' tr1 ss r tr1' d.
        lower_pattern env p vn tr = Inr (sl, tr') \<and> pat_condition env p vn tr1 = Inr ((ss, r), tr1') \<and>
        (\<forall>s\<in>set (sl_stmts sl). means \<rho> s) \<and> (\<forall>s\<in>set ss. means \<rho> s) \<and>
        from_hir (pe_pat env) p = Some d \<and> pat_wf d \<and> wt_value (value_at \<rho> vn) (dp_ty d) \<and> args_in_order env p \<longrightarrow>
        (truth (value_at \<rho> r) \<longleftrightarrow> hir_matches (pe_pat env) p (value_at \<rho> vn)))"

text \<open>A compound pattern whose parts have their values and are lowered by themselves.\<close>

lemma compound_matches:
  assumes IH: "\<forall>q\<in>set ps. condition_sound env \<rho> q"
    and parts: "\<And>j. j < length ps \<Longrightarrow> \<exists>s tr tr'. lower_pattern env (ps ! j) (pat_value_name (ps ! j)) tr = Inr (s, tr') \<and>
      (\<forall>st\<in>set (sl_stmts s). means \<rho> st) \<and> value_at \<rho> (pat_value_name (ps ! j)) = vs ! j"
    and conds: "mapS_res (\<lambda>q. pat_condition env q (pat_value_name q)) ps tracker0 = Inr (subs, tracker1)"
    and all: "all_conditions (pre @ map snd subs) tracker = ((extra, result), tracker')"
    and holds: "\<forall>s\<in>set (concat (map fst subs)). means \<rho> s" "\<forall>s\<in>set extra. means \<rho> s"
    and wf: "mapM_opt (from_hir (pe_pat env)) ps = Some ds" "list_all pat_wf ds" "wt_values vs (map dp_ty ds)"
      "list_all (args_in_order env) ps"
  shows "truth (value_at \<rho> result) \<longleftrightarrow> (\<forall>c\<in>set pre. truth (value_at \<rho> c)) \<and> hirs_match (pe_pat env) ps vs"
proof (rule parts_match [OF _ all holds(2)])
  show "list_all2 (\<lambda>p sub. \<exists>tr tr'. pat_condition env p (pat_value_name p) tr = Inr (sub, tr')) ps subs"
    using mapS_nth [OF conds] by (simp add: list_all2_conv_all_nth)
  have ds: "list_all2 (\<lambda>q d. from_hir (pe_pat env) q = Some d) ps ds" using wf(1) by (simp add: mapM_opt_Some_iff)
  show len: "length vs = length ps" using wt_values_length [OF wf(3)] list_all2_lengthD [OF ds] by simp
  fix j sub tr tr'
  assume j: "j < length ps" and c: "pat_condition env (ps ! j) (pat_value_name (ps ! j)) tr = Inr (sub, tr')"
    and sub: "sub \<in> set subs"
  obtain s t t' where low: "lower_pattern env (ps ! j) (pat_value_name (ps ! j)) t = Inr (s, t')"
    "\<forall>st\<in>set (sl_stmts s). means \<rho> st" and val: "value_at \<rho> (pat_value_name (ps ! j)) = vs ! j"
    using parts [OF j] by blast
  have "from_hir (pe_pat env) (ps ! j) = Some (ds ! j)" "pat_wf (ds ! j)"
    using list_all2_nthD [OF ds j] wf(2) j list_all2_lengthD [OF ds] by (auto simp: list_all_length)
  moreover have "wt_value (value_at \<rho> (pat_value_name (ps ! j))) (dp_ty (ds ! j))"
    using wf(3) j len list_all2_lengthD [OF ds] val by (simp add: wt_values_all2 list_all2_conv_all_nth)
  moreover have "args_in_order env (ps ! j)" using wf(4) j by (simp add: list_all_length)
  moreover have "\<forall>st\<in>set (fst sub). means \<rho> st" using holds(1) sub by auto
  ultimately show "truth (value_at \<rho> (snd sub)) \<longleftrightarrow> hir_matches (pe_pat env) (ps ! j) (vs ! j)"
    using bspec [OF IH nth_mem [OF j], unfolded condition_sound_def] low c val
    by (metis prod.collapse)
qed

lemma part_stmts:
  "sl_append b s \<in> set sls \<Longrightarrow> \<forall>st\<in>set (sl_stmts (sl_concat sls)). means \<rho> st \<Longrightarrow>
     \<forall>st\<in>set (sl_stmts b) \<union> set (sl_stmts s). means \<rho> st"
  by fastforce

lemma struct_values: "wt_value v ty \<Longrightarrow> single_type ty \<Longrightarrow> \<exists>vs. v = PV_Struct vs"
  by (cases v) (auto simp: is_bool_type_def single_type_def ctor_fields_def int_bounds_def is_opaque_type_def
      split: concrete_type.splits)

lemma part_is_member:
  assumes "bind_part env q (Op_IndexTuple j tys) [vn] = Inr b" and "\<forall>s\<in>set (sl_stmts b). means \<rho> s"
    and "value_at \<rho> vn = PV_Struct vs" and "j < length vs"
  shows "value_at \<rho> (pat_value_name q) = vs ! j"
  using bind_part_stmts [OF assms(1)] assms(2-4) by (auto simp: member_of_def)

lemma part_is_element:
  assumes "bind_part env q Op_IndexArray [vn, VN_Expr idx] = Inr b" and "\<forall>s\<in>set (sl_stmts b). means \<rho> s"
    and "value_at \<rho> vn = PV_Struct vs" and "value_at \<rho> (VN_Expr idx) = PV_Int (int j)" and "j < length vs"
  shows "value_at \<rho> (pat_value_name q) = vs ! j"
  using bind_part_stmts [OF assms(1)] assms(2-5) by (auto simp: member_of_def)

lemma part_is_payload:
  assumes "bind_part env q (Op_EnumMember ty variant j) [vn] = Inr b" and "\<forall>s\<in>set (sl_stmts b). means \<rho> s"
    and "value_at \<rho> vn = PV_Variant variant vs" and "j < length vs"
  shows "value_at \<rho> (pat_value_name q) = vs ! j"
  using bind_part_stmts [OF assms(1)] assms(2-4) by (auto simp: member_of_def)

lemma members_condition:
  assumes "pat_condition env (HirPat i k l) vn tr = Inr ((ss, r), tr')" and "k = HPat_Tuple ps \<or> k = HPat_Array ps"
  shows "\<exists>tr2 subs tr3 extra. mapS_res (\<lambda>q. pat_condition env q (pat_value_name q)) ps tr2 = Inr (subs, tr3) \<and>
    all_conditions ([] @ map snd subs) tr3 = ((extra, r), tr') \<and> ss = concat (map fst subs) @ extra"
proof -
  obtain subs tr3 where conds: "mapS_res (\<lambda>q. pat_condition env q (pat_value_name q)) ps (snd (tracker_next tr)) = Inr (subs, tr3)"
    and "ss = concat (map fst subs) @ fst (fst (all_conditions (map snd subs) tr3))"
    and "r = snd (fst (all_conditions (map snd subs) tr3))" and "tr' = snd (all_conditions (map snd subs) tr3)"
    using assms by (auto simp: res_bind_Inr Let_def case_prod_unfold split: if_splits)
  then have "all_conditions ([] @ map snd subs) tr3 = ((fst (fst (all_conditions (map snd subs) tr3)), r), tr')"
    and "ss = concat (map fst subs) @ fst (fst (all_conditions (map snd subs) tr3))"
    by simp_all
  with conds show ?thesis by blast
qed

lemma type_condition:
  assumes "pat_condition env (HirPat i (HPat_Type x args) l) vn tr = Inr ((ss, r), tr')"
  shows "\<exists>tr2 subs tr3 extra cond_id self_type.
    mapS_res (\<lambda>q. pat_condition env q (pat_value_name q)) (map pa_value args) tr2 = Inr (subs, tr3) \<and>
    all_conditions ([VN_Expr cond_id] @ map snd subs) tr3 = ((extra, r), tr') \<and>
    ss = (case patternable_type_by_id (pe_pat env) x of
            PK_Enum \<Rightarrow> St_Binding (Binding (VN_Expr cond_id)
              (Op_IsEnumVariant (enum_variant_option (pe_pat env) x) self_type) [vn] Ty_Bool None)
          | PK_Struct \<Rightarrow> St_Constant cond_id Ty_Bool (CV_Bool True)) # concat (map fst subs) @ extra"
proof -
  let ?id = "fst (tracker_next (snd (tracker_next tr)))"
  obtain self_type subs tr3 where conds: "mapS_res (\<lambda>a. pat_condition env (pa_value a) (pat_value_name (pa_value a))) args
        (snd (tracker_next (snd (tracker_next tr)))) = Inr (subs, tr3)"
    and ss: "ss = (case patternable_type_by_id (pe_pat env) x of
            PK_Enum \<Rightarrow> St_Binding (Binding (VN_Expr ?id)
              (Op_IsEnumVariant (enum_variant_option (pe_pat env) x) self_type) [vn] Ty_Bool None)
          | PK_Struct \<Rightarrow> St_Constant ?id Ty_Bool (CV_Bool True)) #
        concat (map fst subs) @ fst (fst (all_conditions (VN_Expr ?id # map snd subs) tr3))"
    and "r = snd (fst (all_conditions (VN_Expr ?id # map snd subs) tr3))"
    and "tr' = snd (all_conditions (VN_Expr ?id # map snd subs) tr3)"
    using assms by (auto simp: res_bind_Inr Let_def case_prod_unfold)
  then have "all_conditions ([VN_Expr ?id] @ map snd subs) tr3 =
      ((fst (fst (all_conditions (VN_Expr ?id # map snd subs) tr3)), r), tr')" by simp
  moreover have "mapS_res (\<lambda>q. pat_condition env q (pat_value_name q)) (map pa_value args)
      (snd (tracker_next (snd (tracker_next tr)))) = Inr (subs, tr3)"
    using conds by (simp add: mapS_res_map)
  ultimately show ?thesis using ss by blast
qed

section \<open>The parts of a value\<close>

fun sub_patterns :: "hir_pattern_kind \<Rightarrow> hir_pattern list" where
  "sub_patterns (HPat_Tuple ps) = ps"
| "sub_patterns (HPat_Array ps) = ps"
| "sub_patterns (HPat_Type x args) = map pa_value args"
| "sub_patterns _ = []"

lemma sub_pattern_smaller: "q \<in> set (sub_patterns k) \<Longrightarrow> size q < size (HirPat i k l)"
  using pa_value_smaller size_list_estimation' [of q _ "size q" size]
  by (cases k) (fastforce simp: less_Suc_eq_le)+

lemma sub_patterns_in_order:
  "args_in_order env (HirPat i k l) \<Longrightarrow> q \<in> set (sub_patterns k) \<Longrightarrow> args_in_order env q"
  by (cases k) (auto simp: list_all_iff)

text \<open>The constructor that a value must have so that it has the parts of the pattern.\<close>

definition pattern_ctor :: "pat_context \<Rightarrow> hir_pattern_kind \<Rightarrow> ctor" where
  "pattern_ctor ctx k =
     (case k of
        HPat_Type x _ \<Rightarrow>
          (case patternable_type_by_id ctx x of
             PK_Struct \<Rightarrow> Ctor_Single
           | PK_Enum \<Rightarrow> Ctor_Variant (enum_variant_option ctx x))
      | _ \<Rightarrow> Ctor_Single)"

definition has_part :: "'a pattern_env_scheme \<Rightarrow> (vkey \<Rightarrow> pvalue) \<Rightarrow> hir_pattern \<Rightarrow> pvalue \<Rightarrow> bool" where
  "has_part env \<rho> q part \<longleftrightarrow>
     (\<exists>s t t'. lower_pattern env q (pat_value_name q) t = Inr (s, t') \<and> (\<forall>st\<in>set (sl_stmts s). means \<rho> st) \<and>
        value_at \<rho> (pat_value_name q) = part)"

lemma ctor_admits_values [simp]:
  "ctor_admits Ctor_Single v \<longleftrightarrow> (\<exists>vs. v = PV_Struct vs)"
  "ctor_admits (Ctor_Variant i) v \<longleftrightarrow> (\<exists>vs. v = PV_Variant i vs)"
  by (cases v; auto)+

lemma tuple_parts:
  assumes "lower_pattern env (HirPat i (HPat_Tuple ps) l) vn tr = Inr (sl, tr')" and "\<forall>s\<in>set (sl_stmts sl). means \<rho> s"
    and v: "value_at \<rho> vn = PV_Struct vs" and j: "j < length ps" "j < length vs"
  shows "has_part env \<rho> (ps ! j) (vs ! j)"
proof -
  obtain tys sls where low: "mapS_res (\<lambda>(j, q) tracker.
        res_bind (bind_part env q (Op_IndexTuple j tys) [vn]) (\<lambda>b.
        res_bind (lower_pattern env q (pat_value_name q) tracker) (\<lambda>(s, tracker). Inr (sl_append b s, tracker))))
      (zip [0..<length ps] ps) tr = Inr (sls, tr')" and sl: "sl = sl_concat sls"
    using assms(1) by (auto simp: res_bind_Inr split: option.splits mir_type.splits)
  obtain t b s t' where b: "bind_part env (ps ! j) (Op_IndexTuple j tys) [vn] = Inr b"
    and s: "lower_pattern env (ps ! j) (pat_value_name (ps ! j)) t = Inr (s, t')" and sj: "sls ! j = sl_append b s"
    using mapS_zip [OF low] j by (fastforce simp: res_bind_Inr)
  have "sls ! j \<in> set sls" using mapS_zip [OF low] j by simp
  then have m: "\<forall>st\<in>set (sl_stmts b) \<union> set (sl_stmts s). means \<rho> st"
    using assms(2) sj by (fastforce simp: sl)
  then show ?thesis using s part_is_member [OF b _ v] j by (auto simp: has_part_def)
qed

lemma array_parts:
  assumes "lower_pattern env (HirPat i (HPat_Array ps) l) vn tr = Inr (sl, tr')" and "\<forall>s\<in>set (sl_stmts sl). means \<rho> s"
    and v: "value_at \<rho> vn = PV_Struct vs" and j: "j < length ps" "j < length vs"
  shows "has_part env \<rho> (ps ! j) (vs ! j)"
proof -
  obtain sls where low: "mapS_res (\<lambda>(j, q) tracker.
        case tracker_next tracker of (idx_id, tracker) \<Rightarrow>
        res_bind (bind_part env q Op_IndexArray [vn, VN_Expr idx_id]) (\<lambda>b.
        res_bind (lower_pattern env q (pat_value_name q) tracker) (\<lambda>(s, tracker).
          Inr (sl_append (sl_append (push_secondary
            (St_Constant idx_id (array_index_type (length ps)) (CV_Int (int j)))
            (NO_Expr (hp_id q)) ''destructured array index'' sl_new) b) s, tracker))))
      (zip [0..<length ps] ps) tr = Inr (sls, tr')" and sl: "sl = sl_concat sls"
    using assms(1) by (auto simp: res_bind_Inr)
  obtain idx b t s t' where b: "bind_part env (ps ! j) Op_IndexArray [vn, VN_Expr idx] = Inr b"
    and s: "lower_pattern env (ps ! j) (pat_value_name (ps ! j)) t = Inr (s, t')"
    and sj: "sl_append (sl_append (push_secondary
          (St_Constant idx (array_index_type (length ps)) (CV_Int (int j)))
          (NO_Expr (hp_id (ps ! j))) ''destructured array index'' sl_new) b) s = sls ! j"
    using spec [OF conjunct2 [OF mapS_zip [OF low]], of j] j
    by (clarsimp simp: res_bind_Inr case_prod_unfold)
  note sj = arg_cong [OF sj, of sl_stmts, symmetric, simplified]
  have "sls ! j \<in> set sls" using mapS_zip [OF low] j by simp
  then have m: "\<forall>st\<in>set (sl_stmts (sls ! j)). means \<rho> st" using assms(2) by (fastforce simp: sl)
  then have "value_at \<rho> (VN_Expr idx) = PV_Int (int j)" by (simp add: sj)
  moreover have "\<forall>st\<in>set (sl_stmts b) \<union> set (sl_stmts s). means \<rho> st" using m by (simp add: sj)
  ultimately show ?thesis using s part_is_element [OF b _ v] j by (auto simp: has_part_def)
qed

lemma struct_parts:
  assumes "lower_pattern env (HirPat i (HPat_Type x args) l) vn tr = Inr (sl, tr')"
    and "\<forall>s\<in>set (sl_stmts sl). means \<rho> s" and kind: "patternable_type_by_id (pe_pat env) x = PK_Struct"
    and ordered: "args_in_order env (HirPat i (HPat_Type x args) l)"
    and v: "value_at \<rho> vn = PV_Struct vs" and j: "j < length args" "j < length vs"
  shows "has_part env \<rho> (pa_value (args ! j)) (vs ! j)"
proof -
  obtain members where ms: "to_mir_type (type_of_id (pe_pat env) i) = Some (Ty_Struct members)"
    using assms(1) kind by (auto split: option.splits mir_type.splits)
  obtain sls where low: "mapS_res (\<lambda>a tracker.
        res_bind (or_panic (Option.bind (arg_index (pe_struct_params env x) (pa_target a)) (\<lambda>j. j))) (\<lambda>j.
        res_bind (bind_part env (pa_value a) (Op_IndexTuple j (map snd members)) [vn]) (\<lambda>b.
        res_bind (lower_pattern env (pa_value a) (pat_value_name (pa_value a)) tracker) (\<lambda>(s, tracker).
          Inr (sl_append b s, tracker))))) args tr = Inr (sls, tr')" and sl: "sl = sl_concat sls"
    using assms(1) kind ms by (clarsimp simp: res_bind_Inr simp del: or_panic_Inr)
  have "map (\<lambda>a. arg_index (pe_struct_params env x) (pa_target a)) args ! j =
      map (\<lambda>j. Some (Some j)) [0..<length args] ! j"
    using ordered kind by simp
  then have index: "arg_index (pe_struct_params env x) (pa_target (args ! j)) = Some (Some j)" using j by simp
  obtain b t s t' where b: "bind_part env (pa_value (args ! j)) (Op_IndexTuple j (map snd members)) [vn] = Inr b"
    and s: "lower_pattern env (pa_value (args ! j)) (pat_value_name (pa_value (args ! j))) t = Inr (s, t')"
    and sj: "sl_append b s = sls ! j"
    using spec [OF conjunct2 [OF mapS_nth [OF low]], of j] j index
    by (clarsimp simp: res_bind_Inr case_prod_unfold)
  have "sls ! j \<in> set sls" using mapS_nth [OF low] j by simp
  then have m: "\<forall>st\<in>set (sl_stmts b) \<union> set (sl_stmts s). means \<rho> st"
    using part_stmts assms(2) sj sl by metis
  then show ?thesis using s part_is_member [OF b _ v] j by (auto simp: has_part_def)
qed

lemma payload_parts:
  assumes "lower_pattern env (HirPat i (HPat_Type x args) l) vn tr = Inr (sl, tr')"
    and "\<forall>s\<in>set (sl_stmts sl). means \<rho> s" and kind: "patternable_type_by_id (pe_pat env) x = PK_Enum"
    and v: "value_at \<rho> vn = PV_Variant (enum_variant_option (pe_pat env) x) vs" and j: "j < length args" "j < length vs"
  shows "has_part env \<rho> (pa_value (args ! j)) (vs ! j)"
proof -
  obtain ty sls where low: "mapS_res (\<lambda>(j, a) tracker.
        res_bind (bind_part env (pa_value a) (Op_EnumMember ty (enum_variant_option (pe_pat env) x) j) [vn]) (\<lambda>b.
        res_bind (lower_pattern env (pa_value a) (pat_value_name (pa_value a)) tracker) (\<lambda>(s, tracker).
          Inr (sl_append b s, tracker)))) (zip [0..<length args] args) tr = Inr (sls, tr')"
      and sl: "sl = sl_concat sls"
    using assms(1) kind by (auto simp: res_bind_Inr split: option.splits)
  obtain b t s t' where b: "bind_part env (pa_value (args ! j))
        (Op_EnumMember ty (enum_variant_option (pe_pat env) x) j) [vn] = Inr b"
    and s: "lower_pattern env (pa_value (args ! j)) (pat_value_name (pa_value (args ! j))) t = Inr (s, t')"
    and sj: "sl_append b s = sls ! j"
    using spec [OF conjunct2 [OF mapS_zip [OF low]], of j] j
    by (clarsimp simp: res_bind_Inr case_prod_unfold)
  have "sls ! j \<in> set sls" using mapS_zip [OF low] j by simp
  then have m: "\<forall>st\<in>set (sl_stmts b) \<union> set (sl_stmts s). means \<rho> st"
    using part_stmts assms(2) sj sl by metis
  then show ?thesis using s part_is_payload [OF b _ v] j by (auto simp: has_part_def)
qed

lemma lowered_parts:
  assumes "lower_pattern env (HirPat i k l) vn tr = Inr (sl, tr')" and "\<forall>s\<in>set (sl_stmts sl). means \<rho> s"
    and "args_in_order env (HirPat i k l)" and "ctor_admits (pattern_ctor (pe_pat env) k) (value_at \<rho> vn)"
    and "j < length (sub_patterns k)" and "j < length (subvalues (value_at \<rho> vn))"
  shows "has_part env \<rho> (sub_patterns k ! j) (subvalues (value_at \<rho> vn) ! j)"
proof (cases k)
  case (HPat_Tuple ps)
  then show ?thesis using assms tuple_parts by (auto simp: pattern_ctor_def)
next
  case (HPat_Array ps)
  then show ?thesis using assms array_parts by (auto simp: pattern_ctor_def)
next
  case (HPat_Type x args)
  show ?thesis
  proof (cases "patternable_type_by_id (pe_pat env) x")
    case PK_Struct
    then show ?thesis using assms struct_parts [of env i x args l] by (auto simp: HPat_Type pattern_ctor_def)
  next
    case PK_Enum
    then show ?thesis using assms payload_parts [of env i x args l] by (auto simp: HPat_Type pattern_ctor_def)
  qed
qed (use assms(5) in auto)

text \<open>The fields of a well-typed value of the right constructor have the types of the sub-patterns.\<close>

lemma compound_typed:
  assumes "from_hir ctx (HirPat i k l) = Some d" and "pat_wf d" and "wt_value v (dp_ty d)"
    and "ctor_admits (pattern_ctor ctx k) v" and "sub_patterns k \<noteq> [] \<or> (\<exists>ps. k = HPat_Tuple ps) \<or> (\<exists>ps. k = HPat_Array ps)
      \<or> (\<exists>x args. k = HPat_Type x args)"
  shows "\<exists>ds. mapM_opt (from_hir ctx) (sub_patterns k) = Some ds \<and> list_all pat_wf ds \<and>
    wt_values (subvalues v) (map dp_ty ds)"
  using assms
  by (cases k)
     (auto simp: pattern_ctor_def ctor_ok_def mapM_opt_map bind_eq_Some_conv split: patternable_kind.splits if_splits)

lemma single_pattern_value:
  assumes "from_hir ctx (HirPat i k l) = Some d" and "pat_wf d" and "wt_value v (dp_ty d)"
    and "pattern_ctor ctx k = Ctor_Single" and "(\<exists>ps. k = HPat_Tuple ps) \<or> (\<exists>ps. k = HPat_Array ps) \<or> (\<exists>x args. k = HPat_Type x args)"
  shows "\<exists>vs. v = PV_Struct vs"
  using assms struct_values [of v "dp_ty d"]
  by (cases k) (auto simp: pattern_ctor_def ctor_ok_def bind_eq_Some_conv split: patternable_kind.splits if_splits)

section \<open>The condition of a pattern\<close>

text \<open>A compound pattern on a value of its constructor.\<close>

lemma compound_condition:
  assumes IH: "\<forall>q. size q < size (HirPat i k l) \<longrightarrow> condition_sound env \<rho> q"
    and low: "lower_pattern env (HirPat i k l) vn tr = Inr (sl, tr')" "\<forall>s\<in>set (sl_stmts sl). means \<rho> s"
    and ok: "from_hir (pe_pat env) (HirPat i k l) = Some d" "pat_wf d" "wt_value (value_at \<rho> vn) (dp_ty d)"
      "args_in_order env (HirPat i k l)"
    and compound: "(\<exists>ps. k = HPat_Tuple ps) \<or> (\<exists>ps. k = HPat_Array ps) \<or> (\<exists>x args. k = HPat_Type x args)"
    and admits: "ctor_admits (pattern_ctor (pe_pat env) k) (value_at \<rho> vn)"
    and conds: "mapS_res (\<lambda>q. pat_condition env q (pat_value_name q)) (sub_patterns k) tr2 = Inr (subs, tr3)"
    and all: "all_conditions (pre @ map snd subs) tr3 = ((extra, r), tr1')"
    and holds: "\<forall>s\<in>set (concat (map fst subs)). means \<rho> s" "\<forall>s\<in>set extra. means \<rho> s"
  shows "truth (value_at \<rho> r) \<longleftrightarrow>
    (\<forall>c\<in>set pre. truth (value_at \<rho> c)) \<and> hirs_match (pe_pat env) (sub_patterns k) (subvalues (value_at \<rho> vn))"
proof -
  obtain ds where ds: "mapM_opt (from_hir (pe_pat env)) (sub_patterns k) = Some ds" "list_all pat_wf ds"
    "wt_values (subvalues (value_at \<rho> vn)) (map dp_ty ds)"
    using compound_typed [OF ok(1-3) admits] compound by blast
  then have len: "length (subvalues (value_at \<rho> vn)) = length (sub_patterns k)"
    using wt_values_length [OF ds(3)] mapM_opt_length [OF ds(1)] by simp
  show ?thesis
  proof (rule compound_matches [OF _ _ conds all holds ds])
    show "\<forall>q\<in>set (sub_patterns k). condition_sound env \<rho> q" using IH sub_pattern_smaller by blast
  next
    fix j assume "j < length (sub_patterns k)"
    then show "\<exists>s tr tr'. lower_pattern env (sub_patterns k ! j) (pat_value_name (sub_patterns k ! j)) tr = Inr (s, tr') \<and>
        (\<forall>st\<in>set (sl_stmts s). means \<rho> st) \<and>
        value_at \<rho> (pat_value_name (sub_patterns k ! j)) = subvalues (value_at \<rho> vn) ! j"
      using lowered_parts [OF low ok(4) admits] len by (auto simp: has_part_def)
  next
    show "list_all (args_in_order env) (sub_patterns k)"
      using sub_patterns_in_order [OF ok(4)] by (simp add: list_all_iff)
  qed
qed

lemma pattern_condition_sound: "condition_sound env \<rho> p"
proof (induction "size p" arbitrary: p rule: less_induct)
  case less
  obtain i k l where p: "p = HirPat i k l" by (cases p)
  show ?case
    unfolding condition_sound_def
  proof (intro allI impI, elim conjE)
    fix vn tr sl tr' tr1 ss r tr1' d
    assume prems: "lower_pattern env p vn tr = Inr (sl, tr')" "pat_condition env p vn tr1 = Inr ((ss, r), tr1')"
      "\<forall>s\<in>set (sl_stmts sl). means \<rho> s" "\<forall>s\<in>set ss. means \<rho> s" "from_hir (pe_pat env) p = Some d"
      "pat_wf d" "wt_value (value_at \<rho> vn) (dp_ty d)" "args_in_order env p"
    have "\<forall>q. size q < size (HirPat i k l) \<longrightarrow> condition_sound env \<rho> q" using less p by simp
    note compound = compound_condition [OF this prems(1) [unfolded p] prems(3)
      prems(5) [unfolded p] prems(6,7) prems(8) [unfolded p]]
    note single = single_pattern_value [OF prems(5) [unfolded p] prems(6,7)]
    show "truth (value_at \<rho> r) \<longleftrightarrow> hir_matches (pe_pat env) p (value_at \<rho> vn)"
    proof (cases k)
      case (HPat_Integer n)
      then show ?thesis using prems by (auto simp: p res_bind_Inr Let_def split: prod.splits)
    next
      case (HPat_Bool b)
      then have "is_bool_type (dp_ty d)" using prems(5,6) by (auto simp: p ctor_ok_def)
      then obtain c where "value_at \<rho> vn = PV_Bool c" using bool_values [OF prems(7)] by auto
      then show ?thesis using HPat_Bool prems(2,4) by (auto simp: p Let_def split: prod.splits if_splits)
    next
      case (HPat_Name n dec)
      then show ?thesis using prems by (auto simp: p Let_def split: prod.splits)
    next
      case (HPat_Tuple ps)
      obtain tr2 subs tr3 extra where "mapS_res (\<lambda>q. pat_condition env q (pat_value_name q)) ps tr2 = Inr (subs, tr3)"
        and "all_conditions ([] @ map snd subs) tr3 = ((extra, r), tr1')" and ss: "ss = concat (map fst subs) @ extra"
        using members_condition [OF prems(2) [unfolded p], of ps] HPat_Tuple by blast
      then show ?thesis using compound [of tr2 subs tr3 "[]" extra] prems(4) single
        by (auto simp: p HPat_Tuple pattern_ctor_def)
    next
      case (HPat_Array ps)
      obtain tr2 subs tr3 extra where "mapS_res (\<lambda>q. pat_condition env q (pat_value_name q)) ps tr2 = Inr (subs, tr3)"
        and "all_conditions ([] @ map snd subs) tr3 = ((extra, r), tr1')" and ss: "ss = concat (map fst subs) @ extra"
        using members_condition [OF prems(2) [unfolded p], of ps] HPat_Array by blast
      then show ?thesis using compound [of tr2 subs tr3 "[]" extra] prems(4) single
        by (auto simp: p HPat_Array pattern_ctor_def)
    next
      case (HPat_Type x args)
      obtain tr2 subs tr3 extra cond_id self_type
        where conds: "mapS_res (\<lambda>q. pat_condition env q (pat_value_name q)) (sub_patterns k) tr2 = Inr (subs, tr3)"
          and all: "all_conditions ([VN_Expr cond_id] @ map snd subs) tr3 = ((extra, r), tr1')"
          and ss: "ss = (case patternable_type_by_id (pe_pat env) x of
              PK_Enum \<Rightarrow> St_Binding (Binding (VN_Expr cond_id)
                (Op_IsEnumVariant (enum_variant_option (pe_pat env) x) self_type) [vn] Ty_Bool None)
            | PK_Struct \<Rightarrow> St_Constant cond_id Ty_Bool (CV_Bool True)) # concat (map fst subs) @ extra"
        using type_condition [OF prems(2) [unfolded p HPat_Type]] HPat_Type by auto
      have holds: "\<forall>s\<in>set (concat (map fst subs)). means \<rho> s" "\<forall>s\<in>set extra. means \<rho> s"
        using prems(4) by (auto simp: ss)
      have is_ctor: "truth (value_at \<rho> (VN_Expr cond_id)) \<longleftrightarrow> ctor_admits (pattern_ctor (pe_pat env) k) (value_at \<rho> vn)"
        using prems(4) single
        by (cases "patternable_type_by_id (pe_pat env) x")
           (auto simp: ss HPat_Type pattern_ctor_def split: pvalue.splits)
      show ?thesis
      proof (cases "truth (value_at \<rho> (VN_Expr cond_id))")
        case True
        then show ?thesis using compound [OF _ _ conds all holds] is_ctor
          by (auto simp: p HPat_Type pattern_ctor_def split: patternable_kind.splits)
      next
        case False
        then have "\<not> truth (value_at \<rho> r)" using all_conditions_means [OF all holds(2)] by simp
        then show ?thesis using False is_ctor
          by (auto simp: p HPat_Type pattern_ctor_def split: patternable_kind.splits)
      qed
    qed
  qed
qed

text \<open>
  C11: The condition of a lowered pattern. In every assignment of values to names that satisfies the
  statements of the pattern and of its condition, the condition is true exactly when the pattern
  matches the value, whatever the names of the members of other variants hold.
\<close>
theorem condition_matches:
  assumes "lower_pattern env p vn tr = Inr (sl, tr')" and "pat_condition env p vn tr1 = Inr ((ss, r), tr1')"
    and "\<forall>s\<in>set (sl_stmts sl). means \<rho> s" and "\<forall>s\<in>set ss. means \<rho> s"
    and "from_hir (pe_pat env) p = Some d" and "pat_wf d" and "wt_value (value_at \<rho> vn) (dp_ty d)"
    and "args_in_order env p"
  shows "truth (value_at \<rho> r) \<longleftrightarrow> hir_matches (pe_pat env) p (value_at \<rho> vn)"
  using pattern_condition_sound [of env \<rho> p] assms unfolding condition_sound_def by blast

theorem condition_matches_witness:
  "\<exists>r. truth r \<and> hir_matches option_ctx (some_pat (bool_pat True)) (PV_Variant 0 [PV_Bool True])"
proof -
  let ?env = "\<lparr>pe_pat = option_ctx, pe_struct_params = (\<lambda>_. [])\<rparr>"
  let ?p = "some_pat (bool_pat True)"
  let ?\<rho> = "\<lambda>k. if k = Inr 7 then PV_Variant 0 [PV_Bool True] else PV_Bool True"
  obtain sl tr where low: "lower_pattern ?env ?p (VN_Expr 7) \<lparr>next_id = 20\<rparr> = Inr (sl, tr)"
    and sl: "\<forall>s\<in>set (sl_stmts sl). means ?\<rho> s"
    by (simp add: some_pat_def bool_pat_def option_ctx_def option_bool_def bind_part_def mir_type_of_id_def
        pat_value_name_def or_panic_def res_bind_def value_at_def vn_key_def member_of_def arith_means_def)
  obtain ss r tr' where cond: "pat_condition ?env ?p (VN_Expr 7) \<lparr>next_id = 20\<rparr> = Inr ((ss, r), tr')"
    and ss: "\<forall>s\<in>set ss. means ?\<rho> s" and r: "truth (value_at ?\<rho> r)"
    by (simp add: some_pat_def bool_pat_def option_ctx_def option_bool_def mir_type_of_id_def all_conditions_def
        pat_value_name_def or_panic_def res_bind_def value_at_def vn_key_def member_of_def tracker_next_def truth_def arith_means_def)
  obtain d where d: "from_hir (pe_pat ?env) ?p = Some d" "pat_wf d" "dp_ty d = option_bool"
    by (simp add: some_pat_def bool_pat_def option_ctx_def option_bool_def is_enum_type_def ctor_ok_def
        ctor_fields_def is_bool_type_def)
  have "wt_value (value_at ?\<rho> (VN_Expr 7)) option_bool"
    by (simp add: value_at_def vn_key_def option_bool_def ctor_fields_def is_bool_type_def)
  moreover have "args_in_order ?env ?p" by (simp add: some_pat_def bool_pat_def option_ctx_def)
  ultimately show ?thesis
    using condition_matches [OF low cond sl ss d(1,2)] r d(3) by (auto simp: value_at_def vn_key_def)
qed

end
