(* ===== verification/Substitution.thy ===== *)
theory Substitution
  imports Type_Lowering "HOL-Library.Monad_Syntax"
begin

text \<open>
  spade-hir-lowering, \<open>substitution.rs\<close>: the name of every variable of a pipeline in every stage. Maps
  keyed by \<open>NameID\<close> are keyed by its number; the stages are a list, the first stage first. A
  panic (no stage, a variable that is live but not in the last stage, an empty path, a type that
  cannot be lowered) is \<open>None\<close>.
\<close>

text \<open>\<open>FrozenSymtab::new_name\<close> of spade-hir, \<open>symbol_table.rs\<close>: a new name from the id tracker.\<close>

definition new_name :: "path \<Rightarrow> id_tracker \<Rightarrow> name_id \<times> id_tracker" where
  "new_name description tracker =
     (case tracker_next tracker of (i, tracker) \<Rightarrow> (NameID i description, tracker))"

datatype substitution =
    Sub_Undefined
  | Sub_Waiting nat name_id
  | Sub_Available name_id
  | Sub_Port
  | Sub_ZeroSized

record sub_register =
  sr_original :: name_id
  sr_previous :: name_id
  sr_new :: name_id

type_synonym stage_subs = "nat \<rightharpoonup> substitution"

record substitutions =
  stages :: "stage_subs list"
  live_vars :: "name_id list"
  current_stage :: nat

definition subs_new :: substitutions where
  "subs_new = \<lparr>stages = [Map.empty], live_vars = [], current_stage = 0\<rparr>"

text \<open>
  The substitution of one live variable in the next stage, with the register that holds it when it is
  available already.
\<close>

definition next_sub ::
  "nat \<Rightarrow> name_id \<Rightarrow> substitution \<Rightarrow> id_tracker \<Rightarrow>
     (substitution \<times> sub_register list \<times> id_tracker) option" where
  "next_sub stage_num original sub tracker =
     (case sub of
        Sub_Undefined \<Rightarrow> None
      | Sub_Waiting time_left name \<Rightarrow>
          if time_left = 1 then Some (Sub_Available name, [], tracker)
          else map_option (\<lambda>n. (Sub_Waiting n name, [], tracker)) (nat_minus time_left 1)
      | Sub_Available previous \<Rightarrow> do {
          old_name \<leftarrow> path_tail (nid_path original);
          prefix \<leftarrow> path_pop (nid_path original);
          let new_path = path_push_ident prefix (''s'' @ show_nat stage_num @ ''_'' @ old_name);
          let (name, tracker') = new_name new_path tracker;
          Some (Sub_Available name,
            [\<lparr>sr_original = original, sr_previous = previous, sr_new = name\<rparr>], tracker')
        }
      | Sub_Port \<Rightarrow> Some (Sub_Port, [], tracker)
      | Sub_ZeroSized \<Rightarrow> Some (Sub_ZeroSized, [], tracker))"

text \<open>The loop over the live variables, with the stage built so far.\<close>

fun next_subs ::
  "nat \<Rightarrow> stage_subs \<Rightarrow> name_id list \<Rightarrow> stage_subs \<Rightarrow> id_tracker \<Rightarrow>
     (stage_subs \<times> sub_register list \<times> id_tracker) option" where
  "next_subs stage_num last_stage [] new_subs tracker = Some (new_subs, [], tracker)"
| "next_subs stage_num last_stage (original # rest) new_subs tracker = do {
     sub \<leftarrow> last_stage (nid_num original);
     (new_sub, regs, tracker) \<leftarrow> next_sub stage_num original sub tracker;
     (new_subs, more, tracker) \<leftarrow>
       next_subs stage_num last_stage rest (new_subs(nid_num original \<mapsto> new_sub)) tracker;
     Some (new_subs, regs @ more, tracker)
   }"

definition next_stage ::
  "substitutions \<Rightarrow> id_tracker \<Rightarrow> (sub_register list \<times> substitutions \<times> id_tracker) option" where
  "next_stage subs tracker =
     (if stages subs = [] then None
      else map_option
        (\<lambda>(new_subs, regs, tracker). (regs, subs\<lparr>stages := stages subs @ [new_subs]\<rparr>, tracker))
        (next_subs (length (stages subs)) (last (stages subs)) (live_vars subs) Map.empty tracker))"

definition availability :: "name_id \<Rightarrow> nat \<Rightarrow> concrete_type \<Rightarrow> substitution option" where
  "availability from time ty =
     (if is_port ty then Some Sub_Port
      else map_option
        (\<lambda>sz. if sz = 0 then Sub_ZeroSized
              else if time = 0 then Sub_Available from
              else Sub_Waiting time from)
        (mir_size ty))"

definition set_available ::
  "name_id \<Rightarrow> nat \<Rightarrow> concrete_type \<Rightarrow> substitutions \<Rightarrow> substitutions option" where
  "set_available from time ty subs =
     Option.bind (availability from time ty) (\<lambda>avail.
       if stages subs = [] then None
       else Some (subs\<lparr>live_vars := live_vars subs @ [from],
         stages := butlast (stages subs) @ [(last (stages subs))(nid_num from \<mapsto> avail)]\<rparr>))"

definition subs_lookup :: "substitutions \<Rightarrow> name_id \<Rightarrow> substitution option" where
  "subs_lookup subs original =
     map_option (\<lambda>stage. case stage (nid_num original) of None \<Rightarrow> Sub_Available original | Some s \<Rightarrow> s)
       (nth_opt (stages subs) (current_stage subs))"

definition lookup_referenced :: "substitutions \<Rightarrow> nat \<Rightarrow> name_id \<Rightarrow> substitution option" where
  "lookup_referenced subs in_stage original =
     map_option (\<lambda>stage. case stage (nid_num original) of None \<Rightarrow> Sub_Undefined | Some s \<Rightarrow> s)
       (nth_opt (stages subs) in_stage)"

section \<open>The delay of every name\<close>

text \<open>
  The body of a pipeline as the calls it makes: a variable becomes available after a number of
  cycles, or a stage ends. The registers of all stages are collected.
\<close>

datatype sub_event = Ev_Available name_id nat concrete_type | Ev_Stage

fun run_events ::
  "sub_event list \<Rightarrow> substitutions \<Rightarrow> id_tracker \<Rightarrow> (sub_register list \<times> substitutions \<times> id_tracker) option" where
  "run_events [] subs tracker = Some ([], subs, tracker)"
| "run_events (Ev_Available name time ty # evs) subs tracker =
     Option.bind (set_available name time ty subs) (\<lambda>subs. run_events evs subs tracker)"
| "run_events (Ev_Stage # evs) subs tracker = do {
     (regs, subs, tracker) \<leftarrow> next_stage subs tracker;
     (more, subs, tracker) \<leftarrow> run_events evs subs tracker;
     Some (regs @ more, subs, tracker)
   }"

text \<open>A trace of values, by the numbers of the names, obeys a register that is always enabled.\<close>

definition follows :: "(nat \<Rightarrow> nat \<Rightarrow> 'v) \<Rightarrow> sub_register \<Rightarrow> bool" where
  "follows trace r \<longleftrightarrow> (\<forall>t. trace (Suc t) (nid_num (sr_new r)) = trace t (nid_num (sr_previous r)))"

text \<open>
  What a stage knows of a variable that was given a number of stages ago, to be available after
  \<open>d\<close> cycles: it is still waited for, or has a name that holds the value of \<open>passed - d\<close> cycles before.
\<close>

definition known_as :: "(nat \<Rightarrow> nat \<Rightarrow> 'v) \<Rightarrow> name_id \<Rightarrow> nat \<Rightarrow> nat \<Rightarrow> substitution \<Rightarrow> bool" where
  "known_as trace x d passed sub \<longleftrightarrow>
     (if passed < d then sub = Sub_Waiting (d - passed) x
      else \<exists>n. sub = Sub_Available n \<and> (\<forall>t. trace (t + (passed - d)) (nid_num n) = trace t (nid_num x)))"

lemma next_sub_known:
  assumes "next_sub i original sub tracker = Some (sub', regs, tracker')" and "known_as trace x d p sub"
    and "\<forall>r\<in>set regs. follows trace r"
  shows "known_as trace x d (Suc p) sub'"
proof (cases "p < d")
  case True
  then show ?thesis
    using assms(1,2) by (auto simp: known_as_def next_sub_def nat_minus_def split: if_splits)
next
  case False
  then obtain n where sub: "sub = Sub_Available n"
    and n: "\<And>t. trace (t + (p - d)) (nid_num n) = trace t (nid_num x)"
    using assms(2) by (auto simp: known_as_def)
  then obtain new where new: "sub' = Sub_Available new"
    "regs = [\<lparr>sr_original = original, sr_previous = n, sr_new = new\<rparr>]"
    using assms(1) by (auto simp: next_sub_def Let_def bind_eq_Some_conv case_prod_unfold)
  then have "trace (Suc t) (nid_num new) = trace t (nid_num n)" for t
    using assms(3) by (simp add: follows_def)
  then have "trace (t + (Suc p - d)) (nid_num new) = trace t (nid_num x)" for t
    using n [of t] False by (simp add: Suc_diff_le)
  then show ?thesis using False new by (simp add: known_as_def)
qed

lemma next_subs_other:
  "next_subs i prev vars acc tracker = Some (ns, regs, tracker') \<Longrightarrow> key \<notin> nid_num ` set vars \<Longrightarrow> ns key = acc key"
  by (induction i prev vars acc tracker arbitrary: regs rule: next_subs.induct)
    (auto simp: bind_eq_Some_conv)

lemma next_subs_get:
  assumes "next_subs i prev vars acc tracker = Some (ns, regs, tracker')" and "key \<in> nid_num ` set vars"
  shows "\<exists>original sub sub' regs' tr1 tr2. prev key = Some sub \<and>
    next_sub i original sub tr1 = Some (sub', regs', tr2) \<and> set regs' \<subseteq> set regs \<and> ns key = Some sub'"
  using assms
proof (induction i prev vars acc tracker arbitrary: regs rule: next_subs.induct)
  case (2 i prev original rest acc tracker)
  then obtain sub sub' regs1 tr1 regs2 where sub: "prev (nid_num original) = Some sub"
    and step: "next_sub i original sub tracker = Some (sub', regs1, tr1)"
    and rest: "next_subs i prev rest (acc(nid_num original \<mapsto> sub')) tr1 = Some (ns, regs2, tracker')"
    and regs: "regs = regs1 @ regs2"
    by (auto simp: bind_eq_Some_conv)
  show ?case
  proof (cases "key \<in> nid_num ` set rest")
    case True
    then show ?thesis using 2(1) [OF sub step refl refl rest] regs by fastforce
  next
    case False
    then have "key = nid_num original" "ns key = Some sub'"
      using 2(3) next_subs_other [OF rest] by auto
    then show ?thesis using sub step regs by auto
  qed
qed simp

text \<open>The invariant of a run after the variable was given in stage \<open>j\<close>.\<close>

definition tracked :: "(nat \<Rightarrow> nat \<Rightarrow> 'v) \<Rightarrow> name_id \<Rightarrow> nat \<Rightarrow> nat \<Rightarrow> nat \<Rightarrow> substitutions \<Rightarrow> bool" where
  "tracked trace x d j p subs \<longleftrightarrow>
     length (stages subs) = j + p + 1 \<and> nid_num x \<in> nid_num ` set (live_vars subs) \<and>
     (\<forall>k<j. (stages subs ! k) (nid_num x) = None) \<and>
     (\<forall>k\<le>p. \<exists>sub. (stages subs ! (j + k)) (nid_num x) = Some sub \<and> known_as trace x d k sub)"

lemma next_stage_tracked:
  assumes "next_stage subs tracker = Some (regs, subs', tracker')" and "tracked trace x d j p subs"
    and "\<forall>r\<in>set regs. follows trace r"
  shows "tracked trace x d j (Suc p) subs'"
proof -
  have len: "length (stages subs) = j + p + 1" using assms(2) by (simp add: tracked_def)
  then have last: "last (stages subs) = stages subs ! (j + p)" by (subst last_conv_nth) auto
  obtain ns where ns: "next_subs (length (stages subs)) (last (stages subs)) (live_vars subs) Map.empty tracker =
      Some (ns, regs, tracker')" and subs': "subs' = subs\<lparr>stages := stages subs @ [ns]\<rparr>"
    using assms(1) by (auto simp: next_stage_def split: if_splits)
  obtain original sub sub' regs' tr1 tr2 where sub: "last (stages subs) (nid_num x) = Some sub"
    and step: "next_sub (length (stages subs)) original sub tr1 = Some (sub', regs', tr2)"
    and "set regs' \<subseteq> set regs" and "ns (nid_num x) = Some sub'"
    using next_subs_get [OF ns, of "nid_num x"] assms(2) by (auto simp: tracked_def)
  moreover have "known_as trace x d p sub" using assms(2) sub last by (force simp: tracked_def)
  ultimately have new: "ns (nid_num x) = Some sub'" "known_as trace x d (Suc p) sub'"
    using next_sub_known [OF step, of trace x d p] assms(3) by auto
  show ?thesis
    unfolding tracked_def
  proof (intro conjI allI impI)
    fix k assume "k \<le> Suc p"
    then show "\<exists>sub. (stages subs' ! (j + k)) (nid_num x) = Some sub \<and> known_as trace x d k sub"
      using new assms(2) len by (cases "k = Suc p") (auto simp: tracked_def subs' nth_append)
  qed (use assms(2) len in \<open>auto simp: tracked_def subs' nth_append\<close>)
qed

lemma set_available_tracked:
  assumes "set_available y time ty subs = Some subs'" and "tracked trace x d j p subs"
    and "nid_num y \<noteq> nid_num x"
  shows "tracked trace x d j p subs'"
proof -
  have len: "length (stages subs) = Suc (j + p)" using assms(2) by (simp add: tracked_def)
  then have "stages subs \<noteq> []" by auto
  then obtain avail where subs': "subs' = subs\<lparr>live_vars := live_vars subs @ [y],
      stages := butlast (stages subs) @ [(last (stages subs))(nid_num y \<mapsto> avail)]\<rparr>"
    using assms(1) by (auto simp: set_available_def bind_eq_Some_conv)
  have "(stages subs' ! k) (nid_num x) = (stages subs ! k) (nid_num x)" if "k \<le> j + p" for k
  proof (cases "k = j + p")
    case True
    then show ?thesis using assms(3) len \<open>stages subs \<noteq> []\<close>
      by (simp add: subs' nth_append last_conv_nth)
  next
    case False
    then show ?thesis using that len by (simp add: subs' nth_append nth_butlast)
  qed
  then show ?thesis using assms(2) len by (auto simp: tracked_def subs')
qed

fun event_num :: "sub_event \<Rightarrow> nat option" where
  "event_num (Ev_Available name time ty) = Some (nid_num name)"
| "event_num Ev_Stage = None"

definition stage_count :: "sub_event list \<Rightarrow> nat" where
  "stage_count evs = length (filter (\<lambda>e. e = Ev_Stage) evs)"

lemma run_tracked:
  assumes "run_events evs subs tracker = Some (regs, subs', tracker')" and "tracked trace x d j p subs"
    and "Some (nid_num x) \<notin> event_num ` set evs" and "\<forall>r\<in>set regs. follows trace r"
  shows "tracked trace x d j (p + stage_count evs) subs'"
  using assms
proof (induction evs subs tracker arbitrary: p regs rule: run_events.induct)
  case (2 name time ty evs subs tracker)
  then obtain subs1 where "set_available name time ty subs = Some subs1"
    and "run_events evs subs1 tracker = Some (regs, subs', tracker')"
    by (auto simp: bind_eq_Some_conv)
  with 2 show ?case
    using set_available_tracked by (fastforce simp: stage_count_def)
next
  case (3 evs subs tracker)
  then obtain regs1 subs1 tracker1 regs2 where st: "next_stage subs tracker = Some (regs1, subs1, tracker1)"
    and rest: "run_events evs subs1 tracker1 = Some (regs2, subs', tracker')" and regs: "regs = regs1 @ regs2"
    by (auto simp: bind_eq_Some_conv)
  have "tracked trace x d j (Suc p) subs1"
    using next_stage_tracked [OF st 3(3)] 3(5) regs by auto
  then show ?case
    using 3(1) [OF st refl refl rest, of "Suc p"] 3(4,5) regs by (auto simp: stage_count_def)
qed (simp add: stage_count_def)

text \<open>Before a variable is given, no stage knows it.\<close>

lemma run_before:
  assumes "run_events evs subs tracker = Some (regs, subs', tracker')"
    and "Some key \<notin> event_num ` set evs" and "key \<notin> nid_num ` set (live_vars subs)"
    and "\<forall>stage\<in>set (stages subs). stage key = None" and "stages subs \<noteq> []"
  shows "length (stages subs') = length (stages subs) + stage_count evs \<and>
    key \<notin> nid_num ` set (live_vars subs') \<and> (\<forall>stage\<in>set (stages subs'). stage key = None)"
  using assms
proof (induction evs subs tracker arbitrary: regs rule: run_events.induct)
  case (2 name time ty evs subs tracker)
  then obtain avail where rest: "run_events evs (subs\<lparr>live_vars := live_vars subs @ [name],
      stages := butlast (stages subs) @ [(last (stages subs))(nid_num name \<mapsto> avail)]\<rparr>) tracker =
        Some (regs, subs', tracker')"
    and set: "set_available name time ty subs = Some (subs\<lparr>live_vars := live_vars subs @ [name],
      stages := butlast (stages subs) @ [(last (stages subs))(nid_num name \<mapsto> avail)]\<rparr>)"
    by (auto simp: bind_eq_Some_conv set_available_def)
  show ?case
    using 2(1) [OF set rest] 2(3-) by (auto simp: stage_count_def dest: in_set_butlastD)
next
  case (3 evs subs tracker)
  then obtain regs1 subs1 tracker1 regs2 where st: "next_stage subs tracker = Some (regs1, subs1, tracker1)"
    and rest: "run_events evs subs1 tracker1 = Some (regs2, subs', tracker')"
    by (auto simp: bind_eq_Some_conv)
  then obtain ns where "next_subs (length (stages subs)) (last (stages subs)) (live_vars subs) Map.empty tracker =
      Some (ns, regs1, tracker1)" and subs1: "subs1 = subs\<lparr>stages := stages subs @ [ns]\<rparr>"
    by (auto simp: next_stage_def split: if_splits)
  then have "ns key = None" using next_subs_other 3(4) by fastforce
  then show ?case
    using 3(1) [OF st refl refl rest] 3(3-) by (auto simp: stage_count_def subs1)
qed (simp add: stage_count_def)

lemma run_events_append:
  "run_events (xs @ ys) subs tracker = do {
     (regs, subs, tracker) \<leftarrow> run_events xs subs tracker;
     (more, subs, tracker) \<leftarrow> run_events ys subs tracker;
     Some (regs @ more, subs, tracker)
   }"
  by (induction xs subs tracker rule: run_events.induct) (auto split: bind_split)

text \<open>
  C15: The delay of a variable. It is unknown in the stages before the one it is given in; it is waited
  for until the cycles it needs have passed; and from then on every stage has a name for it that
  holds, in every run of the registers, exactly the value the variable had as many cycles ago as
  stages have passed since it became available.
\<close>
theorem available_after_delay:
  assumes "run_events (pre @ Ev_Available x d ty # post) subs_new tracker = Some (regs, subs, tracker')"
    and "Some (nid_num x) \<notin> event_num ` set (pre @ post)"
    and "\<not> is_port ty" and "mir_size ty \<noteq> Some 0" and "\<forall>r\<in>set regs. follows trace r"
  shows "(\<forall>k<stage_count pre. lookup_referenced subs k x = Some Sub_Undefined) \<and>
    (\<forall>k\<le>stage_count post. \<exists>sub. lookup_referenced subs (stage_count pre + k) x = Some sub \<and>
       known_as trace x d k sub)"
proof -
  obtain regs1 subs1 tracker1 regs2 subs2 where pre: "run_events pre subs_new tracker = Some (regs1, subs1, tracker1)"
    and set: "set_available x d ty subs1 = Some subs2"
    and post: "run_events post subs2 tracker1 = Some (regs2, subs, tracker')" and regs: "regs = regs1 @ regs2"
    using assms(1) by (auto simp: run_events_append bind_eq_Some_conv)
  have before: "length (stages subs1) = 1 + stage_count pre" "\<forall>stage\<in>set (stages subs1). stage (nid_num x) = None"
    using run_before [OF pre, of "nid_num x"] assms(2) by (auto simp: subs_new_def)
  obtain avail where avail: "availability x d ty = Some avail"
    and subs2: "subs2 = subs1\<lparr>live_vars := live_vars subs1 @ [x],
      stages := butlast (stages subs1) @ [(last (stages subs1))(nid_num x \<mapsto> avail)]\<rparr>"
    using set by (auto simp: set_available_def bind_eq_Some_conv split: if_splits)
  have "known_as trace x d 0 avail"
    using avail assms(3,4) by (auto simp: availability_def known_as_def split: if_splits)
  then have "tracked trace x d (stage_count pre) 0 subs2"
    using before by (auto simp: tracked_def subs2 nth_append nth_butlast)
  from run_tracked [OF post this] have "tracked trace x d (stage_count pre) (stage_count post) subs"
    using assms(2,5) regs by auto
  then show ?thesis by (fastforce simp: tracked_def lookup_referenced_def nth_opt_def)
qed

definition example_body :: "sub_event list" where
  "example_body =
     [Ev_Available (NameID 0 [''a'']) 0 (CT_Single PT_Bool []), Ev_Stage,
      Ev_Available (NameID 1 [''x'']) 1 (CT_Single PT_Bool []), Ev_Stage, Ev_Stage]"

theorem available_after_delay_witness:
  "\<exists>regs subs tracker. run_events example_body subs_new (tracker_new_at 2) = Some (regs, subs, tracker) \<and>
     lookup_referenced subs 0 (NameID 1 [''x'']) = Some Sub_Undefined \<and>
     lookup_referenced subs 2 (NameID 1 [''x'']) = Some (Sub_Available (NameID 1 [''x''])) \<and>
     lookup_referenced subs 3 (NameID 1 [''x'']) = Some (Sub_Available (NameID 5 [''s3_x'']))"
proof -
  let ?x = "NameID 1 [''x'']"
  let ?pre = "[Ev_Available (NameID 0 [''a'']) 0 (CT_Single PT_Bool []), Ev_Stage]"
  let ?trace = "\<lambda>(t :: nat) (n :: nat). ()"
  have "map_option (\<lambda>(regs, subs, tracker). (lookup_referenced subs 2 ?x, lookup_referenced subs 3 ?x))
      (run_events example_body subs_new (tracker_new_at 2)) =
    Some (Some (Sub_Available ?x), Some (Sub_Available (NameID 5 [''s3_x''])))"
    by code_simp
  then obtain regs subs tracker where run: "run_events example_body subs_new (tracker_new_at 2) = Some (regs, subs, tracker)"
    and "lookup_referenced subs 2 ?x = Some (Sub_Available ?x)"
    and "lookup_referenced subs 3 ?x = Some (Sub_Available (NameID 5 [''s3_x'']))"
    by auto
  moreover have "lookup_referenced subs 0 ?x = Some Sub_Undefined"
    using available_after_delay [of ?pre ?x 1 "CT_Single PT_Bool []" "[Ev_Stage, Ev_Stage]" "tracker_new_at 2"
        regs subs tracker ?trace] run
    by (simp add: example_body_def stage_count_def mir_size_def follows_def)
  ultimately show ?thesis by blast
qed

end
