(* ===== verification/Type_Vars.thy ===== *)
theory Type_Vars
  imports Hir
begin

text \<open>
  spade-typeinference, \<open>equation.rs\<close>: type variables, the traits an unknown type has to satisfy and
  what equations are about. Locations are left out: no operation of the code compares them. The
  equality of the code ignores the traits of an unknown type, and compares names by number.
\<close>

datatype type_var =
    TV_Known known_type "type_var list"
  | TV_Unknown nat "trait_req list" meta_type
  and trait_req = TraitReq (tr_name: trait_name) (tr_params: "type_var list")

definition trait_name_eq :: "trait_name \<Rightarrow> trait_name \<Rightarrow> bool" where
  "trait_name_eq a b =
     (case (a, b) of
        (TN_Named m, TN_Named n) \<Rightarrow> nid_eq m n
      | (TN_Anonymous i, TN_Anonymous j) \<Rightarrow> i = j
      | _ \<Rightarrow> False)"

fun tv_eq :: "type_var \<Rightarrow> type_var \<Rightarrow> bool" where
  "tv_eq (TV_Known k ps) (TV_Known k' ps') \<longleftrightarrow> known_type_eq k k' \<and> list_all2 tv_eq ps ps'"
| "tv_eq (TV_Unknown i _ m) (TV_Unknown j _ n) \<longleftrightarrow> i = j \<and> m = n"
| "tv_eq _ _ \<longleftrightarrow> False"

type_synonym trait_list = "trait_req list"

definition get_trait :: "trait_list \<Rightarrow> trait_name \<Rightarrow> trait_req option" where
  "get_trait ts name = find (\<lambda>t. trait_name_eq (tr_name t) name) ts"

definition get_trait_with_type_params :: "trait_list \<Rightarrow> trait_name \<Rightarrow> type_var list \<Rightarrow> trait_req option" where
  "get_trait_with_type_params ts name params =
     find (\<lambda>t. trait_name_eq (tr_name t) name \<and> list_all2 tv_eq (tr_params t) params) ts"

definition tv_array :: "type_var \<Rightarrow> type_var \<Rightarrow> type_var" where
  "tv_array inner sz = TV_Known KT_Array [inner, sz]"

definition tv_tuple :: "type_var list \<Rightarrow> type_var" where
  "tv_tuple inner = TV_Known KT_Tuple inner"

definition tv_wire :: "type_var \<Rightarrow> type_var" where
  "tv_wire inner = TV_Known KT_Wire [inner]"

definition tv_backward :: "type_var \<Rightarrow> type_var" where
  "tv_backward inner = TV_Known KT_Backward [inner]"

definition tv_inverted :: "type_var \<Rightarrow> type_var" where
  "tv_inverted inner = TV_Known KT_Inverted [inner]"

section \<open>Case distinctions\<close>

text \<open>The visitors take what to do in each case; a panic is \<open>None\<close>.\<close>

definition expect_known :: "type_var \<Rightarrow> (known_type \<Rightarrow> type_var list \<Rightarrow> 'a) \<Rightarrow> 'a \<Rightarrow> 'a" where
  "expect_known v on_known on_unknown =
     (case v of TV_Unknown _ _ _ \<Rightarrow> on_unknown | TV_Known k ps \<Rightarrow> on_known k ps)"

definition expect_named ::
  "type_var \<Rightarrow> (name_id \<Rightarrow> type_var list \<Rightarrow> 'a) \<Rightarrow> 'a \<Rightarrow> (type_var \<Rightarrow> 'a) \<Rightarrow> 'a" where
  "expect_named v on_named on_unknown on_other =
     (case v of
        TV_Unknown _ _ _ \<Rightarrow> on_unknown
      | TV_Known (KT_Named name) ps \<Rightarrow> on_named name ps
      | _ \<Rightarrow> on_other v)"

fun expect_named_or_inverted ::
  "type_var \<Rightarrow> bool \<Rightarrow> (bool \<Rightarrow> name_id \<Rightarrow> type_var list \<Rightarrow> 'a) \<Rightarrow> 'a \<Rightarrow> (type_var \<Rightarrow> 'a) \<Rightarrow> 'a option" where
  "expect_named_or_inverted (TV_Unknown i ts m) inverted_now on_named on_unknown on_other = Some on_unknown"
| "expect_named_or_inverted (TV_Known KT_Inverted ps) inverted_now on_named on_unknown on_other =
     (case ps of
        [p] \<Rightarrow> expect_named_or_inverted p (\<not> inverted_now) on_named on_unknown on_other
      | _ \<Rightarrow> None)"
| "expect_named_or_inverted (TV_Known (KT_Named name) ps) inverted_now on_named on_unknown on_other =
     Some (on_named inverted_now name ps)"
| "expect_named_or_inverted v inverted_now on_named on_unknown on_other = Some (on_other v)"

definition expect_specific_named ::
  "type_var \<Rightarrow> name_id \<Rightarrow> (type_var list \<Rightarrow> 'a) \<Rightarrow> 'a \<Rightarrow> (type_var \<Rightarrow> 'a) \<Rightarrow> 'a" where
  "expect_specific_named v name on_correct on_unknown on_other =
     (case v of
        TV_Unknown _ _ _ \<Rightarrow> on_unknown
      | TV_Known k ps \<Rightarrow> if known_type_eq k (KT_Named name) then on_correct ps else on_other v)"

definition expect_integer ::
  "type_var \<Rightarrow> (int \<Rightarrow> 'a) \<Rightarrow> 'a \<Rightarrow> (type_var \<Rightarrow> 'a) \<Rightarrow> 'a option" where
  "expect_integer v on_integer on_unknown on_other =
     (case v of
        TV_Known (KT_Integer sz) ps \<Rightarrow> if ps = [] then Some (on_integer sz) else None
      | TV_Unknown _ _ _ \<Rightarrow> Some on_unknown
      | _ \<Rightarrow> Some (on_other v))"

section \<open>Text\<close>

text \<open>Indexing the parameters of a malformed type panics.\<close>

fun show_type_var :: "bool \<Rightarrow> type_var \<Rightarrow> string option"
  and show_trait_req :: "bool \<Rightarrow> trait_req \<Rightarrow> string option" where
  "show_type_var dm (TV_Known k ps) =
     (case k of
        KT_Named t \<Rightarrow>
          map_option (\<lambda>ss. show_name_id t @ (if ps = [] then [] else ''<'' @ join_strs '', '' ss @ ''>''))
            (mapM_opt (show_type_var dm) ps)
      | KT_Integer inner \<Rightarrow> Some (show_int inner)
      | KT_Tuple \<Rightarrow> map_option (\<lambda>ss. ''('' @ join_strs '', '' ss @ '')'') (mapM_opt (show_type_var dm) ps)
      | KT_Array \<Rightarrow>
          (case ps of
             p0 # p1 # _ \<Rightarrow>
               Option.bind (show_type_var dm p0) (\<lambda>s0. map_option (\<lambda>s1. ''['' @ s0 @ ''; '' @ s1 @ '']'') (show_type_var dm p1))
           | _ \<Rightarrow> None)
      | KT_Backward \<Rightarrow> (case ps of p0 # _ \<Rightarrow> map_option ((@) ''&mut '') (show_type_var dm p0) | [] \<Rightarrow> None)
      | KT_Wire \<Rightarrow> (case ps of p0 # _ \<Rightarrow> map_option ((@) ''&'') (show_type_var dm p0) | [] \<Rightarrow> None)
      | KT_Inverted \<Rightarrow> (case ps of p0 # _ \<Rightarrow> map_option ((@) ''~'') (show_type_var dm p0) | [] \<Rightarrow> None))"
| "show_type_var dm (TV_Unknown i traits meta) =
     (if traits = [] then Some (if dm then show_meta_type meta else ''_'')
      else map_option (join_strs ''+'') (mapM_opt (show_trait_req dm) traits))"
| "show_trait_req dm (TraitReq name ps) =
     (if ps = [] then Some (show_trait_name name)
      else map_option (\<lambda>ss. show_trait_name name @ ''<'' @ join_strs '', '' ss @ ''>'')
             (mapM_opt (show_type_var dm) ps))"

definition show_trait_list :: "bool \<Rightarrow> trait_list \<Rightarrow> string option" where
  "show_trait_list dm ts = map_option (join_strs '' + '') (mapM_opt (show_trait_req dm) ts)"

datatype typed_expression = TX_Id nat | TX_Name name_id

definition typed_expression_eq :: "typed_expression \<Rightarrow> typed_expression \<Rightarrow> bool" where
  "typed_expression_eq a b =
     (case (a, b) of
        (TX_Id i, TX_Id j) \<Rightarrow> i = j
      | (TX_Name m, TX_Name n) \<Rightarrow> nid_eq m n
      | _ \<Rightarrow> False)"

definition show_typed_expression :: "typed_expression \<Rightarrow> string" where
  "show_typed_expression e =
     (case e of
        TX_Id i \<Rightarrow> ''%'' @ show_nat i
      | TX_Name p \<Rightarrow> show_name_id p @ ''#'' @ show_nat (nid_num p))"

section \<open>Laws\<close>

lemma tv_eq_refl [simp]: "tv_eq v v"
proof (induction v rule: type_var.induct [where ?P2.0 = "\<lambda>_. True"])
  case (TV_Known k ps)
  then show ?case
    using equivp_reflp [OF known_type_eq_equiv, of k] by (simp add: list_all2_same)
qed auto

lemma tv_eq_sym: "tv_eq v w \<Longrightarrow> tv_eq w v"
proof (induction v w rule: tv_eq.induct)
  case (1 k ps k' ps')
  have "list_all2 tv_eq ps' ps"
    using 1 by (simp add: list_all2_conv_all_nth)
  moreover have "known_type_eq k' k"
    using 1(2) by (auto intro: equivp_symp [OF known_type_eq_equiv, of k k'])
  ultimately show ?case by simp
qed auto

lemma tv_eq_trans: "tv_eq u v \<Longrightarrow> tv_eq v w \<Longrightarrow> tv_eq u w"
proof (induction u v arbitrary: w rule: tv_eq.induct)
  case (1 k ps k' ps')
  then obtain k'' ps'' where w: "w = TV_Known k'' ps''" by (cases w) auto
  have "list_all2 tv_eq ps ps''"
  proof (rule list_all2_all_nthI)
    show "length ps = length ps''" using 1(2,3) w by (simp add: list_all2_conv_all_nth)
    fix i assume i: "i < length ps"
    then have "tv_eq (ps ! i) (ps' ! i)" and "tv_eq (ps' ! i) (ps'' ! i)"
      and "ps ! i \<in> set ps" and "ps' ! i \<in> set ps'"
      using 1(2,3) w by (auto simp: list_all2_conv_all_nth)
    then show "tv_eq (ps ! i) (ps'' ! i)" using 1(1) by blast
  qed
  moreover have "known_type_eq k k''"
    using 1(2,3) w by (auto intro: equivp_transp [OF known_type_eq_equiv, of k k' k''])
  ultimately show ?case using w by simp
next
  case (2 i ts m j ts' n)
  then show ?case by (cases w) auto
qed auto

text \<open>Type variables that are equal for the code differ at most in traits and in the paths of names.\<close>

lemma tv_eq_equivp: "equivp tv_eq"
  by (rule equivpI) (auto simp: reflp_def symp_def transp_def intro: tv_eq_sym tv_eq_trans)

end
