(* ===== verification/Constraints.thy ===== *)
theory Constraints
  imports Type_Vars "HOL-Library.Log_Nat"
begin

text \<open>
  spade-typeinference, \<open>constraints.rs\<close>: constraints between type level integers, their evaluation,
  and the removal of those that became known. \<open>f64\<close> arithmetic is outside the model: \<open>log2_floor n\<close>
  stands for \<open>n.to_f64().log2().floor() as i128\<close>.
\<close>

datatype constraint_expr =
    CE_Integer int
  | CE_Var type_var
  | CE_Sum constraint_expr constraint_expr
  | CE_Difference constraint_expr constraint_expr
  | CE_Product constraint_expr constraint_expr
  | CE_Sub constraint_expr
  | CE_UintBitsToRepresent constraint_expr

definition ce_binary ::
  "(int \<Rightarrow> int \<Rightarrow> int) \<Rightarrow> constraint_expr \<Rightarrow> constraint_expr \<Rightarrow> constraint_expr \<Rightarrow> constraint_expr" where
  "ce_binary f self l r =
     (case (l, r) of (CE_Integer a, CE_Integer b) \<Rightarrow> CE_Integer (f a b) | _ \<Rightarrow> self)"

text \<open>Adding one to the largest \<open>i128\<close>, which an infinite logarithm is cast to, panics.\<close>

fun ce_evaluate :: "(int \<Rightarrow> int) \<Rightarrow> constraint_expr \<Rightarrow> constraint_expr option" where
  "ce_evaluate log2_floor (CE_Integer i) = Some (CE_Integer i)"
| "ce_evaluate log2_floor (CE_Var v) = Some (CE_Var v)"
| "ce_evaluate log2_floor (CE_Sum lhs rhs) =
     Option.bind (ce_evaluate log2_floor lhs) (\<lambda>l.
     Option.bind (ce_evaluate log2_floor rhs) (\<lambda>r. Some (ce_binary (+) (CE_Sum lhs rhs) l r)))"
| "ce_evaluate log2_floor (CE_Difference lhs rhs) =
     Option.bind (ce_evaluate log2_floor lhs) (\<lambda>l.
     Option.bind (ce_evaluate log2_floor rhs) (\<lambda>r. Some (ce_binary (-) (CE_Difference lhs rhs) l r)))"
| "ce_evaluate log2_floor (CE_Product lhs rhs) =
     Option.bind (ce_evaluate log2_floor lhs) (\<lambda>l.
     Option.bind (ce_evaluate log2_floor rhs) (\<lambda>r. Some (ce_binary (*) (CE_Product lhs rhs) l r)))"
| "ce_evaluate log2_floor (CE_Sub inner) =
     Option.bind (ce_evaluate log2_floor inner) (\<lambda>v.
       Some (case v of CE_Integer val \<Rightarrow> CE_Integer (- val) | _ \<Rightarrow> CE_Sub inner))"
| "ce_evaluate log2_floor (CE_UintBitsToRepresent inner) =
     Option.bind (ce_evaluate log2_floor inner) (\<lambda>v.
       case v of
         CE_Integer val \<Rightarrow>
           if log2_floor val + 1 < 2 ^ 127 then Some (CE_Integer (log2_floor val + 1)) else None
       | _ \<Rightarrow> Some (CE_UintBitsToRepresent inner))"

definition ce_add :: "constraint_expr \<Rightarrow> constraint_expr \<Rightarrow> constraint_expr" where
  "ce_add l r = CE_Sum l r"

definition ce_neg :: "constraint_expr \<Rightarrow> constraint_expr" where
  "ce_neg e = CE_Sub e"

definition ce_sub :: "constraint_expr \<Rightarrow> constraint_expr \<Rightarrow> constraint_expr" where
  "ce_sub l r = CE_Sum l (ce_neg r)"

definition bits_to_store :: "constraint_expr \<Rightarrow> constraint_expr" where
  "bits_to_store inner = CE_UintBitsToRepresent inner"

fun show_constraint_expr :: "constraint_expr \<Rightarrow> string option" where
  "show_constraint_expr (CE_Integer val) = Some (show_int val)"
| "show_constraint_expr (CE_Var v) = show_type_var False v"
| "show_constraint_expr (CE_Sum a b) =
     Option.bind (show_constraint_expr a) (\<lambda>l. map_option (\<lambda>r. ''('' @ l @ '' + '' @ r @ '')'') (show_constraint_expr b))"
| "show_constraint_expr (CE_Difference a b) =
     Option.bind (show_constraint_expr a) (\<lambda>l. map_option (\<lambda>r. ''('' @ l @ '' - '' @ r @ '')'') (show_constraint_expr b))"
| "show_constraint_expr (CE_Product a b) =
     Option.bind (show_constraint_expr a) (\<lambda>l. map_option (\<lambda>r. ''('' @ l @ '' * '' @ r @ '')'') (show_constraint_expr b))"
| "show_constraint_expr (CE_Sub v) = map_option (\<lambda>s. ''(-'' @ s @ '')'') (show_constraint_expr v)"
| "show_constraint_expr (CE_UintBitsToRepresent v) =
     map_option (\<lambda>s. ''UintBitsToRepresent('' @ s @ '')'') (show_constraint_expr v)"

section \<open>The constraints of a type state\<close>

datatype constraint_source =
    CS_AdditionOutput | CS_MultOutput | CS_ArrayIndexing | CS_MemoryIndexing | CS_Concatenation
  | CS_PipelineRegOffset loc loc | CS_PipelineRegCount loc loc | CS_PipelineAvailDepth | CS_Where

fun show_constraint_source :: "constraint_source \<Rightarrow> string" where
  "show_constraint_source CS_AdditionOutput = ''AdditionOutput''"
| "show_constraint_source CS_MultOutput = ''MultiplicationOutput''"
| "show_constraint_source CS_ArrayIndexing = ''ArrayIndexing''"
| "show_constraint_source CS_MemoryIndexing = ''MemoryIndexing''"
| "show_constraint_source CS_Concatenation = ''Concatenation''"
| "show_constraint_source CS_Where = ''Where''"
| "show_constraint_source (CS_PipelineRegOffset _ _) = ''PipelineRegOffset''"
| "show_constraint_source (CS_PipelineRegCount _ _) = ''PipelineRegOffset''"
| "show_constraint_source CS_PipelineAvailDepth = ''PipelineAvailDepth''"

record constraint_context =
  cc_inside :: type_var
  cc_replaces :: type_var
  cc_source :: constraint_source

record constraint_rhs =
  cr_constraint :: constraint_expr
  cr_context :: constraint_context

record constraint_replacement =
  crp_val :: int
  crp_context :: constraint_context

type_synonym type_constraints = "(type_var \<times> constraint_rhs) list"

definition with_context :: "constraint_expr \<Rightarrow> type_var \<Rightarrow> type_var \<Rightarrow> constraint_source \<Rightarrow> constraint_rhs" where
  "with_context self replaces inside source =
     \<lparr>cr_constraint = self, cr_context = \<lparr>cc_inside = inside, cc_replaces = replaces, cc_source = source\<rparr>\<rparr>"

definition add_int_constraint :: "type_var \<Rightarrow> constraint_rhs \<Rightarrow> type_constraints \<Rightarrow> type_constraints" where
  "add_int_constraint lhs rhs cs = cs @ [(lhs, rhs)]"

fun update_int_constraints ::
  "(int \<Rightarrow> int) \<Rightarrow> type_constraints \<Rightarrow>
     ((type_var \<times> constraint_replacement) list \<times> type_constraints) option" where
  "update_int_constraints log2_floor [] = Some ([], [])"
| "update_int_constraints log2_floor ((expr, rhs) # rest) =
     Option.bind (ce_evaluate log2_floor (cr_constraint rhs)) (\<lambda>c.
     Option.bind (update_int_constraints log2_floor rest) (\<lambda>(new_known, kept).
       Some (case c of
          CE_Integer val \<Rightarrow> ((expr, \<lparr>crp_val = val, crp_context = cr_context rhs\<rparr>) # new_known, kept)
        | _ \<Rightarrow> (new_known, (expr, rhs\<lparr>cr_constraint := c\<rparr>) # kept))))"

fun show_type_constraints :: "type_constraints \<Rightarrow> string option" where
  "show_type_constraints [] = Some []"
| "show_type_constraints ((lhs, rhs) # cs) =
     Option.bind (show_type_var False lhs) (\<lambda>l.
     Option.bind (show_constraint_expr (cr_constraint rhs)) (\<lambda>r.
     map_option (\<lambda>rest. l @ '': { '' @ r @ '' }'' @ [CHR 0x0A] @ rest) (show_type_constraints cs)))"

section \<open>What constraints mean\<close>

text \<open>The integer that a type level expression stands for, given the integers type variables stand for.\<close>

fun ce_value :: "(int \<Rightarrow> int) \<Rightarrow> (type_var \<Rightarrow> int option) \<Rightarrow> constraint_expr \<Rightarrow> int option" where
  "ce_value log2_floor \<sigma> (CE_Integer i) = Some i"
| "ce_value log2_floor \<sigma> (CE_Var v) = \<sigma> v"
| "ce_value log2_floor \<sigma> (CE_Sum a b) = 
     Option.bind (ce_value log2_floor \<sigma> a) (\<lambda>l. map_option ((+) l) (ce_value log2_floor \<sigma> b))"
| "ce_value log2_floor \<sigma> (CE_Difference a b) =
     Option.bind (ce_value log2_floor \<sigma> a) (\<lambda>l. map_option ((-) l) (ce_value log2_floor \<sigma> b))"
| "ce_value log2_floor \<sigma> (CE_Product a b) =
     Option.bind (ce_value log2_floor \<sigma> a) (\<lambda>l. map_option ((*) l) (ce_value log2_floor \<sigma> b))"
| "ce_value log2_floor \<sigma> (CE_Sub a) = map_option uminus (ce_value log2_floor \<sigma> a)"
| "ce_value log2_floor \<sigma> (CE_UintBitsToRepresent a) =
     map_option (\<lambda>n. log2_floor n + 1) (ce_value log2_floor \<sigma> a)"

lemma ce_binary_cases:
  "ce_binary f self l r = self \<or> (\<exists>a b. l = CE_Integer a \<and> r = CE_Integer b \<and> ce_binary f self l r = CE_Integer (f a b))"
  by (simp add: ce_binary_def split: constraint_expr.split)

lemma ce_binary_value:
  assumes "ce_value log2_floor \<sigma> l = ce_value log2_floor \<sigma> lhs" "ce_value log2_floor \<sigma> r = ce_value log2_floor \<sigma> rhs"
    and "\<And>a b. ce_value log2_floor \<sigma> lhs = Some a \<Longrightarrow> ce_value log2_floor \<sigma> rhs = Some b \<Longrightarrow>
      ce_value log2_floor \<sigma> self = Some (f a b)"
  shows "ce_value log2_floor \<sigma> (ce_binary f self l r) = ce_value log2_floor \<sigma> self"
  using ce_binary_cases [of f self l r] assms by (metis ce_value.simps(1))

lemma ce_evaluate_value:
  "ce_evaluate log2_floor e = Some e' \<Longrightarrow> ce_value log2_floor \<sigma> e' = ce_value log2_floor \<sigma> e"
proof (induction e arbitrary: e')
  case (CE_Sum a b)
  then obtain l r where l: "ce_evaluate log2_floor a = Some l" and r: "ce_evaluate log2_floor b = Some r"
    and e': "e' = ce_binary (+) (CE_Sum a b) l r"
    by (auto simp: bind_eq_Some_conv)
  show ?case unfolding e' by (rule ce_binary_value [OF CE_Sum.IH(1) [OF l] CE_Sum.IH(2) [OF r]]) simp
next
  case (CE_Difference a b)
  then obtain l r where l: "ce_evaluate log2_floor a = Some l" and r: "ce_evaluate log2_floor b = Some r"
    and e': "e' = ce_binary (-) (CE_Difference a b) l r"
    by (auto simp: bind_eq_Some_conv)
  show ?case unfolding e' by (rule ce_binary_value [OF CE_Difference.IH(1) [OF l] CE_Difference.IH(2) [OF r]]) simp
next
  case (CE_Product a b)
  then obtain l r where l: "ce_evaluate log2_floor a = Some l" and r: "ce_evaluate log2_floor b = Some r"
    and e': "e' = ce_binary (*) (CE_Product a b) l r"
    by (auto simp: bind_eq_Some_conv)
  show ?case unfolding e' by (rule ce_binary_value [OF CE_Product.IH(1) [OF l] CE_Product.IH(2) [OF r]]) simp
next
  case (CE_Sub e)
  then obtain v where v: "ce_evaluate log2_floor e = Some v" by (auto simp: bind_eq_Some_conv)
  then have "ce_value log2_floor \<sigma> e = ce_value log2_floor \<sigma> v" using CE_Sub.IH by simp
  then show ?case using CE_Sub.prems v by (cases v) auto
next
  case (CE_UintBitsToRepresent e)
  then obtain v where v: "ce_evaluate log2_floor e = Some v" by (auto simp: bind_eq_Some_conv)
  then have "ce_value log2_floor \<sigma> e = ce_value log2_floor \<sigma> v" using CE_UintBitsToRepresent.IH by simp
  then show ?case using CE_UintBitsToRepresent.prems v by (cases v) (auto split: if_splits)
qed auto

definition satisfied :: "(int \<Rightarrow> int) \<Rightarrow> (type_var \<Rightarrow> int option) \<Rightarrow> type_constraints \<Rightarrow> bool" where
  "satisfied log2_floor \<sigma> cs \<longleftrightarrow>
     list_all (\<lambda>(v, rhs). \<exists>n. \<sigma> v = Some n \<and> ce_value log2_floor \<sigma> (cr_constraint rhs) = Some n) cs"

definition replaced :: "(type_var \<Rightarrow> int option) \<Rightarrow> (type_var \<times> constraint_replacement) list \<Rightarrow> bool" where
  "replaced \<sigma> rs \<longleftrightarrow> list_all (\<lambda>(v, r). \<sigma> v = Some (crp_val r)) rs"

text \<open>
  C23: Evaluation loses no constraint and invents none: the integers that satisfy the constraints before
  are those that satisfy the constraints left and agree with every replacement.
\<close>
theorem constraints_preserved:
  assumes "update_int_constraints log2_floor cs = Some (known, kept)"
  shows "satisfied log2_floor \<sigma> cs \<longleftrightarrow> replaced \<sigma> known \<and> satisfied log2_floor \<sigma> kept"
  using assms
proof (induction cs arbitrary: known kept)
  case (Cons c cs)
  obtain v rhs where c: "c = (v, rhs)" by (cases c)
  obtain e known' kept' where e: "ce_evaluate log2_floor (cr_constraint rhs) = Some e"
    and rest: "update_int_constraints log2_floor cs = Some (known', kept')"
    and res: "(known, kept) = (case e of
        CE_Integer val \<Rightarrow> ((v, \<lparr>crp_val = val, crp_context = cr_context rhs\<rparr>) # known', kept')
      | _ \<Rightarrow> (known', (v, rhs\<lparr>cr_constraint := e\<rparr>) # kept'))"
    using Cons.prems by (auto simp: c bind_eq_Some_conv)
  have "ce_value log2_floor \<sigma> (cr_constraint rhs) = ce_value log2_floor \<sigma> e"
    using ce_evaluate_value [OF e] by simp
  then show ?case
    using Cons.IH [OF rest] res by (cases e) (auto simp: c satisfied_def replaced_def)
qed (auto simp: satisfied_def replaced_def)

definition where_context :: constraint_context where
  "where_context =
     \<lparr>cc_inside = TV_Unknown 0 [] MT_Uint, cc_replaces = TV_Unknown 0 [] MT_Uint, cc_source = CS_Where\<rparr>"

theorem constraints_preserved_witness:
  "\<exists>known kept. replaced (\<lambda>_. Some 7) known \<and> satisfied (\<lambda>_. 0) (\<lambda>_. Some 7) kept \<and> length known = 1 \<and> length kept = 1"
proof -
  let ?v = "TV_Unknown 0 [] MT_Uint" and ?w = "TV_Unknown 1 [] MT_Uint"
  let ?cs = "[(?v, \<lparr>cr_constraint = ce_add (CE_Integer 3) (CE_Integer 4), cr_context = where_context\<rparr>),
    (?w, \<lparr>cr_constraint = CE_Var ?v, cr_context = where_context\<rparr>)]"
  obtain known kept where up: "update_int_constraints (\<lambda>_. 0) ?cs = Some (known, kept)"
    and len: "length known = 1" "length kept = 1"
    by (simp add: ce_add_def ce_binary_def)
  have "satisfied (\<lambda>_. 0) (\<lambda>_. Some 7) ?cs" by (simp add: satisfied_def ce_add_def)
  then show ?thesis using constraints_preserved [OF up] len by blast
qed

text \<open>
  Where the logarithm of \<open>f64\<close> is exact, \<open>bits_to_store\<close> counts the bits of a positive integer; the
  bits of zero are computed from an infinite logarithm.
\<close>

lemma bits_to_store_counts:
  assumes "\<And>n. 0 < n \<Longrightarrow> n < 2 ^ 47 \<Longrightarrow> log2_floor n = int (floorlog 2 (nat n)) - 1"
    and "0 < n" and "n < 2 ^ 47"
  shows "ce_value log2_floor \<sigma> (bits_to_store (CE_Integer n)) = Some (int (floorlog 2 (nat n)))"
  using assms by (simp add: bits_to_store_def)

end
