(* ===== verification/Type_Concrete.thy ===== *)
theory Type_Concrete
  imports Type_Vars Hir_Items
begin

text \<open>
  spade-typeinference, \<open>mir_type_lowering.rs\<close>: concrete types from type declarations and inferred
  types, with the declarations of spade-hir, \<open>lib.rs\<close>. Ports turn around under an inversion. The
  recursion through a declaration that contains itself does not end in the code; in the model
  \<open>depth\<close> bounds how many declarations may be nested, and \<open>None\<close> is a panic or a recursion that
  is deeper.
\<close>

section \<open>Declarations\<close>

record wal_traceable =
  wt_suffix :: path
  wt_uses_clk :: bool
  wt_uses_rst :: bool

record struct_decl =
  sd_members :: parameter_list
  sd_is_port :: bool
  sd_attributes :: "attribute list"
  sd_wal_traceable :: "wal_traceable option"

datatype type_decl_kind =
    TDK_Enum "(name_id \<times> parameter_list) list"
  | TDK_Primitive primitive_type
  | TDK_Struct struct_decl

definition type_decl_kind_name :: "type_decl_kind \<Rightarrow> string" where
  "type_decl_kind_name k =
     (case k of TDK_Enum _ \<Rightarrow> ''enum'' | TDK_Primitive _ \<Rightarrow> ''primitive'' | TDK_Struct _ \<Rightarrow> ''struct'')"

record type_declaration =
  td_name :: name_id
  td_kind :: type_decl_kind
  td_generic_args :: "type_param list"

type_synonym type_decls = "nat \<Rightarrow> type_declaration option"
type_synonym generic_subs = "nat \<Rightarrow> concrete_type option"

section \<open>Concrete types\<close>

text \<open>Later parameters of the same name replace earlier ones, as in a map collected from a list.\<close>

definition generic_subs_of :: "type_declaration \<Rightarrow> concrete_type list \<Rightarrow> generic_subs" where
  "generic_subs_of decl params =
     map_of (rev (zip (map (nid_num \<circ> tp_name_id) (td_generic_args decl)) params))"

text \<open>The struct and enum cases of \<open>type_decl_to_concrete\<close>, over the conversion of a field type.\<close>

definition concrete_fields ::
  "(type_spec \<Rightarrow> concrete_type option) \<Rightarrow> parameter_list \<Rightarrow> (ident \<times> concrete_type) list option" where
  "concrete_fields conv ps = mapM_opt (\<lambda>p. map_option (Pair (par_name p)) (conv (par_ty p))) ps"

definition decl_to_concrete_with ::
  "(generic_subs \<Rightarrow> bool \<Rightarrow> type_spec \<Rightarrow> concrete_type option) \<Rightarrow>
     type_declaration \<Rightarrow> concrete_type list \<Rightarrow> bool \<Rightarrow> concrete_type option" where
  "decl_to_concrete_with conv decl params invert =
     (if length params \<noteq> length (td_generic_args decl) then None
      else let subs = generic_subs_of decl params in
        case td_kind decl of
          TDK_Enum options \<Rightarrow>
            map_option CT_Enum
              (mapM_opt (\<lambda>(name, args). map_option (Pair name) (concrete_fields (conv subs False) args)) options)
        | TDK_Struct s \<Rightarrow>
            map_option (CT_Struct (td_name decl)) (concrete_fields (conv subs invert) (sd_members s))
        | TDK_Primitive primitive \<Rightarrow> Some (CT_Single primitive params))"

definition concrete_size :: "concrete_type \<Rightarrow> int option" where
  "concrete_size t = (case t of CT_Integer i \<Rightarrow> Some i | _ \<Rightarrow> None)"

text \<open>The conversions, over that of a declaration with its parameters.\<close>

fun type_expr_to_concrete_with ::
  "(type_declaration \<Rightarrow> concrete_type list \<Rightarrow> bool \<Rightarrow> concrete_type option) \<Rightarrow>
     type_decls \<Rightarrow> generic_subs \<Rightarrow> bool \<Rightarrow> type_expression \<Rightarrow> concrete_type option"
  and type_spec_to_concrete_with ::
  "(type_declaration \<Rightarrow> concrete_type list \<Rightarrow> bool \<Rightarrow> concrete_type option) \<Rightarrow>
     type_decls \<Rightarrow> generic_subs \<Rightarrow> bool \<Rightarrow> type_spec \<Rightarrow> concrete_type option" where
  "type_expr_to_concrete_with decl_conv types subs invert (TE_Integer val) = Some (CT_Integer val)"
| "type_expr_to_concrete_with decl_conv types subs invert (TE_TypeSpec inner) =
     type_spec_to_concrete_with decl_conv types subs invert inner"
| "type_expr_to_concrete_with decl_conv types subs invert (TE_ConstGeneric _) = None"
| "type_spec_to_concrete_with decl_conv types subs invert (TS_Declared name params) =
     Option.bind (mapM_opt (type_expr_to_concrete_with decl_conv types subs invert) params) (\<lambda>params.
     Option.bind (types (nid_num name)) (\<lambda>actual. decl_conv actual params invert))"
| "type_spec_to_concrete_with decl_conv types subs invert (TS_Generic name) = subs (nid_num name)"
| "type_spec_to_concrete_with decl_conv types subs invert (TS_Tuple t) =
     map_option CT_Tuple (mapM_opt (type_spec_to_concrete_with decl_conv types subs invert) t)"
| "type_spec_to_concrete_with decl_conv types subs invert (TS_Array inner sz) =
     Option.bind (type_expr_to_concrete_with decl_conv types subs invert sz) (\<lambda>size_type.
     Option.bind (concrete_size size_type) (\<lambda>n.
     map_option (\<lambda>t. CT_Array t n) (type_spec_to_concrete_with decl_conv types subs invert inner)))"
| "type_spec_to_concrete_with decl_conv types subs invert TS_Unit = None"
| "type_spec_to_concrete_with decl_conv types subs invert (TS_Backward inner) =
     map_option (if invert then CT_Wire else CT_Backward)
       (type_spec_to_concrete_with decl_conv types subs invert inner)"
| "type_spec_to_concrete_with decl_conv types subs invert (TS_Wire inner) =
     map_option (if invert then CT_Backward else CT_Wire)
       (type_spec_to_concrete_with decl_conv types subs invert inner)"
| "type_spec_to_concrete_with decl_conv types subs invert (TS_Inverted inner) =
     type_spec_to_concrete_with decl_conv types subs (\<not> invert) inner"
| "type_spec_to_concrete_with decl_conv types subs invert TS_TraitSelf = None"
| "type_spec_to_concrete_with decl_conv types subs invert TS_Wildcard = None"

fun type_decl_to_concrete ::
  "nat \<Rightarrow> type_decls \<Rightarrow> type_declaration \<Rightarrow> concrete_type list \<Rightarrow> bool \<Rightarrow> concrete_type option" where
  "type_decl_to_concrete 0 types decl params invert = None"
| "type_decl_to_concrete (Suc depth) types decl params invert =
     decl_to_concrete_with
       (\<lambda>subs inv. type_spec_to_concrete_with (type_decl_to_concrete depth types) types subs inv)
       decl params invert"

abbreviation type_spec_to_concrete ::
  "nat \<Rightarrow> type_decls \<Rightarrow> generic_subs \<Rightarrow> bool \<Rightarrow> type_spec \<Rightarrow> concrete_type option" where
  "type_spec_to_concrete depth types \<equiv> type_spec_to_concrete_with (type_decl_to_concrete depth types) types"

abbreviation type_expr_to_concrete ::
  "nat \<Rightarrow> type_decls \<Rightarrow> generic_subs \<Rightarrow> bool \<Rightarrow> type_expression \<Rightarrow> concrete_type option" where
  "type_expr_to_concrete depth types \<equiv> type_expr_to_concrete_with (type_decl_to_concrete depth types) types"

section \<open>Inferred types\<close>

text \<open>\<open>None\<close> of the code, a type that is not fully known, is \<open>CE_Unknown\<close>.\<close>

datatype concrete_error = CErr_Panic | CErr_Unknown

definition or_conc_panic :: "'a option \<Rightarrow> concrete_error + 'a" where
  "or_conc_panic x = (case x of None \<Rightarrow> Inl CErr_Panic | Some y \<Rightarrow> Inr y)"

text \<open>Both parts of an array are computed before either is looked at.\<close>

definition conc_array ::
  "concrete_error + concrete_type \<Rightarrow> concrete_error + concrete_type \<Rightarrow> concrete_error + concrete_type" where
  "conc_array v sz =
     (case (v, sz) of
        (Inl CErr_Panic, _) \<Rightarrow> Inl CErr_Panic
      | (_, Inl CErr_Panic) \<Rightarrow> Inl CErr_Panic
      | (_, Inr t) \<Rightarrow>
          (case concrete_size t of
             None \<Rightarrow> Inl CErr_Panic
           | Some n \<Rightarrow> res_bind v (\<lambda>inner. Inr (CT_Array inner n)))
      | (_, Inl CErr_Unknown) \<Rightarrow> Inl CErr_Unknown)"

fun inner_ungenerify_type ::
  "nat \<Rightarrow> type_decls \<Rightarrow> bool \<Rightarrow> type_var \<Rightarrow> concrete_error + concrete_type" where
  "inner_ungenerify_type depth types invert (TV_Known k ps) =
     (case k of
        KT_Named t \<Rightarrow>
          res_bind (mapM_res (inner_ungenerify_type depth types invert) ps) (\<lambda>params.
            case types (nid_num t) of
              None \<Rightarrow> Inl CErr_Unknown
            | Some decl \<Rightarrow> or_conc_panic (type_decl_to_concrete depth types decl params invert))
      | KT_Integer sz \<Rightarrow> if ps = [] then Inr (CT_Integer sz) else Inl CErr_Panic
      | KT_Array \<Rightarrow>
          (case ps of
             inner # sz # _ \<Rightarrow>
               conc_array (inner_ungenerify_type depth types invert inner)
                 (inner_ungenerify_type depth types False sz)
           | _ \<Rightarrow> Inl CErr_Panic)
      | KT_Tuple \<Rightarrow>
          res_bind (mapM_res (inner_ungenerify_type depth types invert) ps) (\<lambda>inner. Inr (CT_Tuple inner))
      | KT_Backward \<Rightarrow>
          (case ps of
             [] \<Rightarrow> Inl CErr_Panic
           | p # _ \<Rightarrow> res_bind (inner_ungenerify_type depth types invert p)
               (\<lambda>t. Inr ((if invert then CT_Wire else CT_Backward) t)))
      | KT_Wire \<Rightarrow>
          (case ps of
             [] \<Rightarrow> Inl CErr_Panic
           | p # _ \<Rightarrow> res_bind (inner_ungenerify_type depth types invert p)
               (\<lambda>t. Inr ((if invert then CT_Backward else CT_Wire) t)))
      | KT_Inverted \<Rightarrow>
          (case ps of
             [] \<Rightarrow> Inl CErr_Panic
           | p # _ \<Rightarrow> inner_ungenerify_type depth types (\<not> invert) p))"
| "inner_ungenerify_type depth types invert (TV_Unknown _ _ _) = Inl CErr_Unknown"

definition ungenerify_type :: "nat \<Rightarrow> type_decls \<Rightarrow> type_var \<Rightarrow> concrete_error + concrete_type" where
  "ungenerify_type depth types var = inner_ungenerify_type depth types False var"

section \<open>Well-formed declarations have concrete types\<close>

definition int_meta :: "meta_type \<Rightarrow> bool" where
  "int_meta m \<longleftrightarrow> m = MT_Int \<or> m = MT_Uint \<or> m = MT_Number"

definition is_size :: "concrete_type \<Rightarrow> bool" where
  "is_size t \<longleftrightarrow> concrete_size t \<noteq> None"

text \<open>
  The type parameters in scope, with \<open>True\<close> for the integers among them. A specification is well-formed
  below \<open>bound\<close> if it names declarations of a smaller rank with as many arguments of the right
  kind as they have parameters, and type parameters that are in scope.
\<close>

definition gens_of :: "type_declaration \<Rightarrow> nat \<Rightarrow> bool option" where
  "gens_of decl = map_of (rev (zip (map (nid_num \<circ> tp_name_id) (td_generic_args decl))
     (map (int_meta \<circ> tp_meta) (td_generic_args decl))))"

lemma zip_params_smaller [termination_simp]:
  "(p, k) \<in> set (zip ps ks) \<Longrightarrow> size p < Suc (size_list size ps)"
  "(p, k) \<in> set (zip ps ks) \<Longrightarrow> size p < Suc (Suc (size_list size ps))"
  by (meson set_zip_leftD size_list_estimation' order_refl le_imp_less_Suc less_SucI)+

fun expr_ok :: "type_decls \<Rightarrow> (nat \<Rightarrow> nat) \<Rightarrow> nat \<Rightarrow> (nat \<Rightarrow> bool option) \<Rightarrow> bool \<Rightarrow> type_expression \<Rightarrow> bool"
  and spec_ok :: "type_decls \<Rightarrow> (nat \<Rightarrow> nat) \<Rightarrow> nat \<Rightarrow> (nat \<Rightarrow> bool option) \<Rightarrow> type_spec \<Rightarrow> bool" where
  "expr_ok types rank bound gens want (TE_Integer v) \<longleftrightarrow> want"
| "expr_ok types rank bound gens want (TE_TypeSpec s) \<longleftrightarrow>
     (if want then (case s of TS_Generic g \<Rightarrow> gens (nid_num g) = Some True | _ \<Rightarrow> False)
      else spec_ok types rank bound gens s)"
| "expr_ok types rank bound gens want (TE_ConstGeneric _) \<longleftrightarrow> False"
| "spec_ok types rank bound gens (TS_Declared name params) \<longleftrightarrow>
     (case types (nid_num name) of
        None \<Rightarrow> False
      | Some decl \<Rightarrow> rank (nid_num name) < bound \<and> length params = length (td_generic_args decl) \<and>
          list_all (\<lambda>(p, k). expr_ok types rank bound gens k p) (zip params (map (int_meta \<circ> tp_meta) (td_generic_args decl))))"
| "spec_ok types rank bound gens (TS_Generic g) \<longleftrightarrow> gens (nid_num g) \<noteq> None"
| "spec_ok types rank bound gens (TS_Tuple ts) \<longleftrightarrow> list_all (spec_ok types rank bound gens) ts"
| "spec_ok types rank bound gens (TS_Array inner sz) \<longleftrightarrow>
     spec_ok types rank bound gens inner \<and> expr_ok types rank bound gens True sz"
| "spec_ok types rank bound gens (TS_Backward inner) \<longleftrightarrow> spec_ok types rank bound gens inner"
| "spec_ok types rank bound gens (TS_Wire inner) \<longleftrightarrow> spec_ok types rank bound gens inner"
| "spec_ok types rank bound gens (TS_Inverted inner) \<longleftrightarrow> spec_ok types rank bound gens inner"
| "spec_ok types rank bound gens _ \<longleftrightarrow> False"

definition field_specs :: "type_declaration \<Rightarrow> type_spec list" where
  "field_specs decl =
     (case td_kind decl of
        TDK_Enum options \<Rightarrow> concat (map (map par_ty \<circ> snd) options)
      | TDK_Struct s \<Rightarrow> map par_ty (sd_members s)
      | TDK_Primitive _ \<Rightarrow> [])"

definition types_ok :: "type_decls \<Rightarrow> (nat \<Rightarrow> nat) \<Rightarrow> bool" where
  "types_ok types rank \<longleftrightarrow>
     (\<forall>n decl. types n = Some decl \<longrightarrow>
        (\<forall>spec\<in>set (field_specs decl). spec_ok types rank (rank n) (gens_of decl) spec))"

definition subs_ok :: "(nat \<Rightarrow> bool option) \<Rightarrow> generic_subs \<Rightarrow> bool" where
  "subs_ok gens subs \<longleftrightarrow> (\<forall>g k. gens g = Some k \<longrightarrow> (\<exists>t. subs g = Some t \<and> (k \<longrightarrow> is_size t)))"

definition params_ok :: "type_declaration \<Rightarrow> concrete_type list \<Rightarrow> bool" where
  "params_ok decl params \<longleftrightarrow> list_all2 (\<lambda>tp t. int_meta (tp_meta tp) \<longrightarrow> is_size t) (td_generic_args decl) params"

lemma map_of_zip_all2:
  assumes "list_all2 P xs ys" and "length ns = length xs"
  shows "map_of (zip ns xs) n = Some x \<Longrightarrow> \<exists>y. map_of (zip ns ys) n = Some y \<and> P x y"
  using assms
proof (induction ns arbitrary: xs ys)
  case (Cons m ns)
  then show ?case by (cases xs; cases ys) (auto split: if_splits)
qed simp

lemma generic_subs_ok: "params_ok decl params \<Longrightarrow> subs_ok (gens_of decl) (generic_subs_of decl params)"
proof -
  assume "params_ok decl params"
  then have all: "list_all2 (\<lambda>k t. k \<longrightarrow> is_size t) (map (int_meta \<circ> tp_meta) (td_generic_args decl)) params"
    by (simp add: params_ok_def list_all2_map1)
  let ?ns = "map (nid_num \<circ> tp_name_id) (td_generic_args decl)"
  let ?ks = "map (int_meta \<circ> tp_meta) (td_generic_args decl)"
  have len: "length params = length (td_generic_args decl)" using list_all2_lengthD [OF all] by simp
  have "list_all2 (\<lambda>k t. k \<longrightarrow> is_size t) (rev ?ks) (rev params)" using all by simp
  then show ?thesis
    using map_of_zip_all2 [of _ "rev ?ks" "rev params" "rev ?ns"] len
    by (fastforce simp: subs_ok_def gens_of_def generic_subs_of_def zip_rev [symmetric])
qed

definition decls_total ::
  "type_decls \<Rightarrow> (nat \<Rightarrow> nat) \<Rightarrow> nat \<Rightarrow>
     (type_declaration \<Rightarrow> concrete_type list \<Rightarrow> bool \<Rightarrow> concrete_type option) \<Rightarrow> bool" where
  "decls_total types rank bound decl_conv \<longleftrightarrow>
     (\<forall>n decl params invert. types n = Some decl \<and> rank n < bound \<and> params_ok decl params \<longrightarrow>
        (\<exists>t. decl_conv decl params invert = Some t))"

lemma params_total:
  assumes "length params = length args"
    and "\<And>p a. (p, a) \<in> set (zip params args) \<Longrightarrow> \<exists>t. conv p = Some t \<and> (int_meta (tp_meta a) \<longrightarrow> is_size t)"
  shows "\<exists>ts. mapM_opt conv params = Some ts \<and> list_all2 (\<lambda>a t. int_meta (tp_meta a) \<longrightarrow> is_size t) args ts"
  using assms
proof (induction params args rule: list_induct2)
  case (Cons p params a args)
  from Cons.prems have "\<exists>t. conv p = Some t \<and> (int_meta (tp_meta a) \<longrightarrow> is_size t)" by simp
  moreover from Cons.prems have "\<exists>ts. mapM_opt conv params = Some ts \<and>
      list_all2 (\<lambda>a t. int_meta (tp_meta a) \<longrightarrow> is_size t) args ts"
    by (intro Cons.IH) simp
  ultimately show ?case by auto
qed simp

lemma spec_total:
  assumes "decls_total types rank bound decl_conv" and "subs_ok gens subs"
  shows "\<forall>want invert. expr_ok types rank bound gens want e \<longrightarrow>
      (\<exists>t. type_expr_to_concrete_with decl_conv types subs invert e = Some t \<and> (want \<longrightarrow> is_size t))"
    and "\<forall>invert. spec_ok types rank bound gens s \<longrightarrow>
      (\<exists>t. type_spec_to_concrete_with decl_conv types subs invert s = Some t)"
proof (induction e and s rule: type_expression.induct type_spec.induct)
  case (TE_TypeSpec s)
  then show ?case using assms(2) by (fastforce simp: subs_ok_def split: type_spec.splits if_splits)
next
  case (TS_Declared name params)
  show ?case
  proof (intro allI impI)
    fix invert assume "spec_ok types rank bound gens (TS_Declared name params)"
    then obtain decl where decl: "types (nid_num name) = Some decl" "rank (nid_num name) < bound"
      and len: "length params = length (td_generic_args decl)"
      and ok: "\<And>p a. (p, a) \<in> set (zip params (td_generic_args decl)) \<Longrightarrow>
        expr_ok types rank bound gens (int_meta (tp_meta a)) p"
      by (fastforce split: option.splits simp: list_all_iff zip_map2)
    obtain ts where "mapM_opt (type_expr_to_concrete_with decl_conv types subs invert) params = Some ts"
      and "params_ok decl ts"
      using params_total [OF len, of "type_expr_to_concrete_with decl_conv types subs invert"]
        TS_Declared ok set_zip_leftD by (metis params_ok_def)
    then show "\<exists>t. type_spec_to_concrete_with decl_conv types subs invert (TS_Declared name params) = Some t"
      using assms(1) decl by (auto simp: decls_total_def)
  qed
next
  case (TS_Generic g)
  then show ?case using assms(2) by (auto simp: subs_ok_def)
next
  case (TS_Tuple ts)
  then show ?case by (auto simp: list_all_iff intro!: mapM_opt_total)
next
  case (TS_Array inner sz)
  show ?case
  proof (intro allI impI)
    fix invert assume "spec_ok types rank bound gens (TS_Array inner sz)"
    then obtain t s where "type_spec_to_concrete_with decl_conv types subs invert inner = Some t"
      and "type_expr_to_concrete_with decl_conv types subs invert sz = Some s" and "is_size s"
      using TS_Array by (metis spec_ok.simps(4))
    then show "\<exists>t. type_spec_to_concrete_with decl_conv types subs invert (TS_Array inner sz) = Some t"
      by (auto simp: is_size_def)
  qed
qed (auto simp: is_size_def concrete_size_def)

lemma fields_total:
  "(\<And>p. p \<in> set ps \<Longrightarrow> \<exists>t. conv (par_ty p) = Some t) \<Longrightarrow> \<exists>fs. concrete_fields conv ps = Some fs"
  by (auto simp: concrete_fields_def intro!: mapM_opt_total)

lemma decl_total:
  assumes "types_ok types rank" and "types n = Some decl" and "decls_total types rank (rank n) decl_conv" and "params_ok decl params"
  shows "\<exists>t. decl_to_concrete_with (\<lambda>subs. type_spec_to_concrete_with decl_conv types subs) decl params invert = Some t"
proof -
  have fields: "\<exists>t. type_spec_to_concrete_with decl_conv types (generic_subs_of decl params) i spec = Some t"
    if "spec \<in> set (field_specs decl)" for spec i
    using spec_total(2) [OF assms(3) generic_subs_ok [OF assms(4)]] assms(1,2) that by (auto simp: types_ok_def)
  have len: "length params = length (td_generic_args decl)"
    using assms(4) by (auto simp: params_ok_def dest: list_all2_lengthD)
  show ?thesis
  proof (cases "td_kind decl")
    case (TDK_Enum options)
    let ?conv = "type_spec_to_concrete_with decl_conv types (generic_subs_of decl params) False"
    have "\<exists>fs. concrete_fields ?conv (snd x) = Some fs" if "x \<in> set options" for x
      using fields that by (intro fields_total) (force simp: field_specs_def TDK_Enum)
    then have "\<exists>ys. mapM_opt (\<lambda>(name, args). map_option (Pair name) (concrete_fields ?conv args)) options = Some ys"
      by (intro mapM_opt_total) (auto simp: case_prod_unfold)
    then show ?thesis using len by (auto simp: decl_to_concrete_with_def TDK_Enum Let_def)
  next
    case (TDK_Struct s)
    have "\<exists>fs. concrete_fields (type_spec_to_concrete_with decl_conv types (generic_subs_of decl params) invert)
        (sd_members s) = Some fs"
      using fields by (intro fields_total) (auto simp: field_specs_def TDK_Struct)
    then show ?thesis using len by (auto simp: decl_to_concrete_with_def TDK_Struct Let_def)
  qed (use len in \<open>simp add: decl_to_concrete_with_def Let_def\<close>)
qed

lemma depth_enough:
  assumes "types_ok types rank"
  shows "decls_total types rank depth (type_decl_to_concrete depth types)"
proof (induction depth)
  case (Suc depth)
  have "decls_total types rank (rank n) (type_decl_to_concrete depth types)" if "rank n < Suc depth" for n
    using Suc that unfolding decls_total_def by (meson less_Suc_eq_le order_less_le_trans)
  then show ?case
    unfolding decls_total_def [of types rank "Suc depth"]
    by (auto intro: decl_total [OF assms, of _])
qed (simp add: decls_total_def)

fun tv_ok :: "type_decls \<Rightarrow> (nat \<Rightarrow> nat) \<Rightarrow> nat \<Rightarrow> bool \<Rightarrow> type_var \<Rightarrow> bool" where
  "tv_ok types rank bound want (TV_Known k ps) \<longleftrightarrow>
     (case k of
        KT_Integer _ \<Rightarrow> want \<and> ps = []
      | KT_Named t \<Rightarrow> \<not> want \<and>
          (case types (nid_num t) of
             None \<Rightarrow> False
           | Some decl \<Rightarrow> rank (nid_num t) < bound \<and> length ps = length (td_generic_args decl) \<and>
               list_all (\<lambda>(p, i). tv_ok types rank bound i p) (zip ps (map (int_meta \<circ> tp_meta) (td_generic_args decl))))
      | KT_Tuple \<Rightarrow> \<not> want \<and> list_all (tv_ok types rank bound False) ps
      | KT_Array \<Rightarrow> \<not> want \<and>
          (case ps of [a, b] \<Rightarrow> tv_ok types rank bound False a \<and> tv_ok types rank bound True b | _ \<Rightarrow> False)
      | _ \<Rightarrow> \<not> want \<and> (case ps of [p] \<Rightarrow> tv_ok types rank bound False p | _ \<Rightarrow> False))"
| "tv_ok types rank bound want (TV_Unknown _ _ _) \<longleftrightarrow> False"

lemma mapM_res_total: "(\<And>x. x \<in> set xs \<Longrightarrow> \<exists>y. f x = Inr y) \<Longrightarrow> \<exists>ys. mapM_res f xs = Inr ys"
  by (induction xs) (fastforce simp: res_bind_def split: sum.splits)+

lemma res_params_total:
  assumes "length params = length args"
    and "\<And>p a. (p, a) \<in> set (zip params args) \<Longrightarrow> \<exists>t. conv p = Inr t \<and> (int_meta (tp_meta a) \<longrightarrow> is_size t)"
  shows "\<exists>ts. mapM_res conv params = Inr ts \<and> list_all2 (\<lambda>a t. int_meta (tp_meta a) \<longrightarrow> is_size t) args ts"
  using assms
proof (induction params args rule: list_induct2)
  case (Cons p params a args)
  from Cons.prems have "\<exists>t. conv p = Inr t \<and> (int_meta (tp_meta a) \<longrightarrow> is_size t)" by simp
  moreover from Cons.prems have "\<exists>ts. mapM_res conv params = Inr ts \<and>
      list_all2 (\<lambda>a t. int_meta (tp_meta a) \<longrightarrow> is_size t) args ts"
    by (intro Cons.IH) simp
  ultimately show ?case by auto
qed simp

lemma var_total:
  assumes "types_ok types rank" and "bound \<le> depth"
  shows "tv_ok types rank bound want v \<Longrightarrow>
    \<exists>t. inner_ungenerify_type depth types invert v = Inr t \<and> (want \<longrightarrow> is_size t)"
proof (induction v arbitrary: want invert rule: type_var.induct [where ?P2.0 = "\<lambda>_. True"])
  case (TV_Known k ps)
  let ?f = "inner_ungenerify_type depth types"
  note ok = TV_Known.prems
  have IH: "\<exists>t. ?f i p = Inr t \<and> (w \<longrightarrow> is_size t)" if "p \<in> set ps" "tv_ok types rank bound w p" for p w i
    using TV_Known.IH that by blast
  show ?case
  proof (cases k)
    case (KT_Named x)
    then obtain decl where decl: "types (nid_num x) = Some decl" "rank (nid_num x) < bound" "\<not> want"
      and len: "length ps = length (td_generic_args decl)"
      and args: "\<And>p a. (p, a) \<in> set (zip ps (td_generic_args decl)) \<Longrightarrow> tv_ok types rank bound (int_meta (tp_meta a)) p"
      using ok by (fastforce split: option.splits simp: list_all_iff zip_map2)
    have "\<exists>t. ?f invert p = Inr t \<and> (int_meta (tp_meta a) \<longrightarrow> is_size t)"
      if "(p, a) \<in> set (zip ps (td_generic_args decl))" for p a
      using IH args [OF that] set_zip_leftD [OF that] by blast
    then obtain ts where "mapM_res (?f invert) ps = Inr ts" "params_ok decl ts"
      using res_params_total [OF len, of "?f invert"] by (metis params_ok_def)
    moreover obtain t where "type_decl_to_concrete depth types decl ts invert = Some t"
      using depth_enough [OF assms(1), of depth] decl assms(2) \<open>params_ok decl ts\<close>
      unfolding decls_total_def by (meson order_less_le_trans)
    ultimately show ?thesis using decl by (auto simp: KT_Named or_conc_panic_def)
  next
    case (KT_Integer i)
    then show ?thesis using ok by (auto simp: is_size_def concrete_size_def)
  next
    case KT_Tuple
    then have "\<exists>ts. mapM_res (?f invert) ps = Inr ts"
      using ok IH by (intro mapM_res_total) (fastforce simp: list_all_iff)
    then show ?thesis using ok by (auto simp: KT_Tuple)
  next
    case KT_Array
    then obtain a b where ps: "ps = [a, b]" and "tv_ok types rank bound False a" "tv_ok types rank bound True b"
      and want: "\<not> want"
      using ok by (auto split: list.splits)
    then obtain t s where "?f invert a = Inr t" "?f False b = Inr s" "is_size s"
      using IH [of a False invert] IH [of b True False] by auto
    then show ?thesis using want by (auto simp: KT_Array ps conc_array_def is_size_def)
  next
    case KT_Backward
    then obtain p where "ps = [p]" "tv_ok types rank bound False p" "\<not> want" using ok by (auto split: list.splits)
    then show ?thesis using IH [of p False invert] by (auto simp: KT_Backward)
  next
    case KT_Wire
    then obtain p where "ps = [p]" "tv_ok types rank bound False p" "\<not> want" using ok by (auto split: list.splits)
    then show ?thesis using IH [of p False invert] by (auto simp: KT_Wire)
  next
    case KT_Inverted
    then obtain p where "ps = [p]" "tv_ok types rank bound False p" "\<not> want" using ok by (auto split: list.splits)
    then show ?thesis using IH [of p False "\<not> invert"] by (auto simp: KT_Inverted)
  qed
qed auto

text \<open>
  C22: Types are finite and found. When no declaration contains itself, so that every declaration can be
  ranked above those its fields name, a fully inferred type with the right arguments has a concrete
  type, found within as many nested declarations as the rank allows.
\<close>
theorem ungenerify_returns:
  assumes "types_ok types rank" and "tv_ok types rank bound False v" and "bound \<le> depth"
  shows "\<exists>t. ungenerify_type depth types v = Inr t"
  using var_total [OF assms(1,3,2)] by (auto simp: ungenerify_type_def)

definition example_param :: "nat \<Rightarrow> meta_type \<Rightarrow> type_param" where
  "example_param n m = \<lparr>tp_ident = ''T'', tp_name_id = NameID n [''T''], tp_trait_bounds = [], tp_meta = m\<rparr>"

definition example_field :: "ident \<Rightarrow> type_spec \<Rightarrow> parameter" where
  "example_field n t = \<lparr>par_no_mangle = None, par_name = n, par_ty = t\<rparr>"

definition example_struct :: "nat \<Rightarrow> parameter_list \<Rightarrow> type_param list \<Rightarrow> type_declaration" where
  "example_struct n members params =
     \<lparr>td_name = NameID n [''S''],
      td_kind = TDK_Struct \<lparr>sd_members = members, sd_is_port = True, sd_attributes = [], sd_wal_traceable = None\<rparr>,
      td_generic_args = params\<rparr>"

text \<open>A type \<open>bool\<close>, a pair of a value and an array of them, and a struct with an inverted field.\<close>

definition example_types :: type_decls where
  "example_types n =
     (if n = 1 then Some \<lparr>td_name = NameID 1 [''bool''], td_kind = TDK_Primitive PT_Bool, td_generic_args = []\<rparr>
      else if n = 2 then Some (example_struct 2
        [example_field ''a'' (TS_Generic (NameID 10 [''T''])),
         example_field ''b'' (TS_Array (TS_Generic (NameID 10 [''T''])) (TE_TypeSpec (TS_Generic (NameID 11 [''N'']))))]
        [example_param 10 MT_Type, example_param 11 MT_Uint])
      else if n = 3 then Some (example_struct 3
        [example_field ''x'' (TS_Inverted (TS_Generic (NameID 12 [''T''])))] [example_param 12 MT_Type])
      else None)"

lemmas example_type_defs =
  example_types_def example_struct_def example_field_def example_param_def

theorem ungenerify_returns_witness:
  "\<exists>t. ungenerify_type 2 example_types
     (TV_Known (KT_Named (NameID 2 [''S''])) [TV_Known (KT_Named (NameID 1 [''bool''])) [], TV_Known (KT_Integer 3) []]) =
   Inr t"
proof (rule ungenerify_returns [of example_types "\<lambda>n. if n = 1 then 0 else 1" 2])
  show "types_ok example_types (\<lambda>n. if n = 1 then 0 else 1)"
    by (simp add: types_ok_def example_type_defs field_specs_def gens_of_def int_meta_def)
qed (simp_all add: example_type_defs int_meta_def)

text \<open>
  An inverted type parameter keeps its direction: the field of the struct stays an output, although
  the type of the field alone, once the parameter is known, is an input.
\<close>

lemma inverted_parameter_kept:
  "ungenerify_type 2 example_types
     (TV_Known (KT_Named (NameID 3 [''S''])) [tv_backward (TV_Known (KT_Named (NameID 1 [''bool''])) [])]) =
   Inr (CT_Struct (NameID 3 [''S'']) [(''x'', CT_Backward (CT_Single PT_Bool []))])"
  "ungenerify_type 2 example_types (tv_inverted (tv_backward (TV_Known (KT_Named (NameID 1 [''bool''])) []))) =
   Inr (CT_Wire (CT_Single PT_Bool []))"
  by (simp_all add: ungenerify_type_def tv_backward_def tv_inverted_def or_conc_panic_def example_type_defs
      decl_to_concrete_with_def generic_subs_of_def concrete_fields_def eval_nat_numeral)

end
