(* ===== verification/Lower_Context.thy ===== *)
theory Lower_Context
  imports Pattern_Lowering Type_Concrete Substitution
begin

text \<open>
  spade-hir-lowering: what the lowering of expressions reads and changes (\<open>Context\<close> of lib.rs), the
  queue of units to compile (monomorphisation.rs), the errors (error.rs), the name of an expression
  (\<open>alias\<close> and \<open>variable\<close>) and the cycles until it is available (\<open>available_in\<close> of pipelines.rs).

  The environment is what earlier phases leave behind: the inferred type of every expression and name,
  the type arguments of every call, and the items of the symbol table. Lowering adds types only for
  the traces of waveforms, which it does not read back.
\<close>

section \<open>Units to compile\<close>

record mono_item =
  mi_source :: name_id
  mi_new :: hir_unit_name
  mi_params :: "type_var list"

definition hir_unit_name_eq :: "hir_unit_name \<Rightarrow> hir_unit_name \<Rightarrow> bool" where
  "hir_unit_name_eq a b =
     (case (a, b) of
        (HUN_WithID m, HUN_WithID n) \<Rightarrow> nid_eq m n
      | (HUN_FullPath m, HUN_FullPath n) \<Rightarrow> nid_eq m n
      | (HUN_Unmangled s m, HUN_Unmangled t n) \<Rightarrow> s = t \<and> nid_eq m n
      | _ \<Rightarrow> False)"

definition mono_item_eq :: "mono_item \<Rightarrow> mono_item \<Rightarrow> bool" where
  "mono_item_eq a b \<longleftrightarrow>
     nid_eq (mi_source a) (mi_source b) \<and> hir_unit_name_eq (mi_new a) (mi_new b) \<and>
     list_all2 tv_eq (mi_params a) (mi_params b)"

record mono_state =
  to_compile :: "mono_item list"
  translation :: "((name_id \<times> type_var list) \<times> name_id) list"
  request_points :: "(mono_item \<times> (mono_item \<times> loc) option) list"

definition mono_new :: mono_state where
  "mono_new = \<lparr>to_compile = [], translation = [], request_points = []\<rparr>"

definition translated :: "name_id \<Rightarrow> type_var list \<Rightarrow> mono_state \<Rightarrow> name_id option" where
  "translated name params ms =
     map_option snd (find (\<lambda>((n, ps), _). nid_eq n name \<and> list_all2 tv_eq ps params) (translation ms))"

definition insert_point ::
  "mono_item \<Rightarrow> (mono_item \<times> loc) option \<Rightarrow> mono_state \<Rightarrow> mono_state" where
  "insert_point item point ms =
     ms\<lparr>request_points := filter (\<lambda>(i, _). \<not> mono_item_eq i item) (request_points ms) @ [(item, point)]\<rparr>"

definition request_compilation ::
  "hir_unit_name \<Rightarrow> bool \<Rightarrow> type_var list \<Rightarrow> (mono_item \<times> loc) option \<Rightarrow> mono_state \<Rightarrow> id_tracker \<Rightarrow>
     name_id \<times> mono_state \<times> id_tracker" where
  "request_compilation source_name reuse_nameid params request_point ms tracker =
     (case translated (hir_unit_name_id source_name) params ms of
        Some prev \<Rightarrow> (prev, ms, tracker)
      | None \<Rightarrow>
          let (name, tracker) =
                (if reuse_nameid then (hir_unit_name_id source_name, tracker)
                 else new_name (nid_path (hir_unit_name_id source_name)) tracker);
              new_unit_name =
                (case source_name of
                   HUN_WithID _ \<Rightarrow> HUN_WithID name
                 | HUN_FullPath _ \<Rightarrow> HUN_FullPath name
                 | HUN_Unmangled source _ \<Rightarrow> HUN_Unmangled source name);
              item = \<lparr>mi_source = hir_unit_name_id source_name, mi_new = new_unit_name, mi_params = params\<rparr>;
              ms = insert_point item request_point ms
          in (name, ms\<lparr>to_compile := to_compile ms @ [item]\<rparr>, tracker))"

definition next_target :: "mono_state \<Rightarrow> mono_item option \<times> mono_state" where
  "next_target ms =
     (case to_compile ms of [] \<Rightarrow> (None, ms) | item # rest \<Rightarrow> (Some item, ms\<lparr>to_compile := rest\<rparr>))"

text \<open>The names of units in the output.\<close>

definition mangled :: "name_id \<Rightarrow> string" where
  "mangled n = join_strs ''_'' (nid_path n) @ ''_n'' @ show_nat (nid_num n)"

definition as_mir :: "hir_unit_name \<Rightarrow> unit_name" where
  "as_mir n =
     \<lparr>un_kind =
        (case n of
           HUN_WithID name \<Rightarrow>
             UK_Escaped (show_path (nid_path name) @ ''['' @ show_nat (nid_num name) @ '']'') (nid_path name)
         | HUN_FullPath name \<Rightarrow> UK_Escaped (show_path (nid_path name)) (nid_path name)
         | HUN_Unmangled name _ \<Rightarrow> UK_Unescaped name),
      un_source = hir_unit_name_id n\<rparr>"

section \<open>The context\<close>

record pipeline_context =
  ready_signals :: "value_name option list"
  valid_signals :: "value_name option list"

record lower_env =
  le_types :: type_decls
  le_depth :: nat
  le_exprs :: "nat \<Rightarrow> type_var option"
  le_names :: "nat \<Rightarrow> type_var option"
  le_generics :: "nat \<Rightarrow> (name_id \<times> type_var) list option"
  le_unit_generics :: "(name_id \<times> type_var) list option"
  le_units :: "nat \<Rightarrow> unit_head option"
  le_final_id :: "path \<Rightarrow> name_id option"
  le_executables :: "nat \<Rightarrow> executable_item option"
  le_patternable :: "name_id \<Rightarrow> patternable_kind"
  le_variant :: "name_id \<Rightarrow> nat"
  le_struct_params :: "name_id \<Rightarrow> parameter_list"
  le_self_item :: "mono_item option"

record lower_ctx =
  lc_names :: id_tracker
  lc_ids :: id_tracker
  lc_subs :: substitutions
  lc_pipeline :: "pipeline_context option"
  lc_mono :: mono_state

definition get_pipeline_context :: "lower_ctx \<Rightarrow> lower_error + pipeline_context" where
  "get_pipeline_context ctx =
     (case lc_pipeline ctx of
        None \<Rightarrow> Inl (LE_Bug ''Requesting pipeline context without pipeline'')
      | Some p \<Rightarrow> Inr p)"

section \<open>Types of expressions and names\<close>

definition expr_type_var :: "lower_env \<Rightarrow> nat \<Rightarrow> lower_error + type_var" where
  "expr_type_var env i = or_panic (le_exprs env i)"

definition concrete_or :: "lower_error \<Rightarrow> lower_env \<Rightarrow> type_var \<Rightarrow> lower_error + concrete_type" where
  "concrete_or e env v =
     (case ungenerify_type (le_depth env) (le_types env) v of
        Inr t \<Rightarrow> Inr t
      | Inl CErr_Unknown \<Rightarrow> Inl e
      | Inl CErr_Panic \<Rightarrow> Inl LE_Panic)"

definition expr_type :: "lower_env \<Rightarrow> nat \<Rightarrow> lower_error + concrete_type" where
  "expr_type env i =
     res_bind (expr_type_var env i) (concrete_or (LE_Error ''Type of expression is not fully known'') env)"

definition name_type :: "lower_env \<Rightarrow> name_id \<Rightarrow> lower_error + concrete_type" where
  "name_type env n =
     res_bind (or_panic (le_names env (nid_num n)))
       (concrete_or (LE_Error (''Type of '' @ show_name_id n @ '' is not fully known'')) env)"

text \<open>\<open>type_of_id\<close> panics on a type that is not known, \<open>try_get_type_of_id\<close> returns \<open>None\<close>.\<close>

definition lower_type_of_id :: "lower_env \<Rightarrow> nat \<Rightarrow> lower_error + concrete_type" where
  "lower_type_of_id env i = res_bind (expr_type_var env i) (concrete_or LE_Panic env)"

definition try_get_type_of_id :: "lower_env \<Rightarrow> nat \<Rightarrow> lower_error + concrete_type option" where
  "try_get_type_of_id env i =
     res_bind (expr_type_var env i) (\<lambda>v.
       case ungenerify_type (le_depth env) (le_types env) v of
         Inr t \<Rightarrow> Inr (Some t)
       | Inl CErr_Unknown \<Rightarrow> Inr None
       | Inl CErr_Panic \<Rightarrow> Inl LE_Panic)"

definition expr_mir_type :: "lower_env \<Rightarrow> nat \<Rightarrow> lower_error + mir_type" where
  "expr_mir_type env i = res_bind (expr_type env i) (\<lambda>t. or_panic (to_mir_type t))"

text \<open>
  What the functions on patterns read. They ask for the type of every part of a pattern, which panics
  where there is none.
\<close>

definition pat_context_of :: "lower_env \<Rightarrow> pat_context" where
  "pat_context_of env =
     \<lparr>patternable_type_by_id = le_patternable env, enum_variant_option = le_variant env,
      type_of_id = (\<lambda>i. case lower_type_of_id env i of Inr t \<Rightarrow> t | Inl _ \<Rightarrow> CT_Tuple [])\<rparr>"

definition pattern_env_of :: "lower_env \<Rightarrow> pattern_env" where
  "pattern_env_of env = \<lparr>pe_pat = pat_context_of env, pe_struct_params = le_struct_params env\<rparr>"

fun pattern_typed :: "lower_env \<Rightarrow> hir_pattern \<Rightarrow> bool" where
  "pattern_typed env (HirPat i k l) =
     (\<not> isl (lower_type_of_id env i) \<and>
      (case k of
         HPat_Tuple ps \<Rightarrow> list_all (pattern_typed env) ps
       | HPat_Array ps \<Rightarrow> list_all (pattern_typed env) ps
       | HPat_Type _ args \<Rightarrow> list_all (\<lambda>a. pattern_typed env (pa_value a)) args
       | _ \<Rightarrow> True))"

definition check_missing ::
  "lower_env \<Rightarrow> concrete_type \<Rightarrow> hir_pattern list \<Rightarrow> lower_error + usefulness" where
  "check_missing env operand_ty ps =
     (if list_all (pattern_typed env) ps then or_panic (missing_patterns (pat_context_of env) operand_ty ps)
      else Inl LE_Panic)"

definition is_refutable :: "lower_env \<Rightarrow> hir_pattern \<Rightarrow> lower_error + usefulness" where
  "is_refutable env p =
     res_bind (lower_type_of_id env (hp_id p)) (\<lambda>operand_ty. check_missing env operand_ty [p])"

definition lower_pattern_ctx ::
  "lower_env \<Rightarrow> hir_pattern \<Rightarrow> value_name \<Rightarrow> lower_ctx \<Rightarrow> lower_error + statement_list \<times> lower_ctx" where
  "lower_pattern_ctx env p self_name ctx =
     res_bind (lower_pattern (pattern_env_of env) p self_name (lc_ids ctx)) (\<lambda>(sl, ids).
       Inr (sl, ctx\<lparr>lc_ids := ids\<rparr>))"

definition pat_condition_ctx ::
  "lower_env \<Rightarrow> hir_pattern \<Rightarrow> value_name \<Rightarrow> lower_ctx \<Rightarrow>
     lower_error + (statement list \<times> value_name) \<times> lower_ctx" where
  "pat_condition_ctx env p self_name ctx =
     res_bind (pat_condition (pattern_env_of env) p self_name (lc_ids ctx)) (\<lambda>(c, ids).
       Inr (c, ctx\<lparr>lc_ids := ids\<rparr>))"

section \<open>Names of expressions\<close>

definition max_usize :: int where
  "max_usize = 2 ^ 64 - 1"

definition int_to_usize :: "int \<Rightarrow> nat option" where
  "int_to_usize i = (if 0 \<le> i \<and> i \<le> max_usize then Some (nat i) else None)"

definition stage_offset :: "lower_env \<Rightarrow> nat \<Rightarrow> lower_error + nat" where
  "stage_offset env depth_id =
     res_bind (try_get_type_of_id env depth_id) (\<lambda>t.
       case t of
         Some (CT_Integer val) \<Rightarrow>
           (case int_to_usize val of
              Some n \<Rightarrow> Inr n
            | None \<Rightarrow> Inl (LE_Bug (''Inferred a pipeline offset that does not fit in usize::MAX ('' @ show_int val @ '')'')))
       | Some _ \<Rightarrow> Inl (LE_Bug ''Inferred non-integer for pipeline ref offset'')
       | None \<Rightarrow> Inl (LE_Error ''Could not infer pipeline stage offset''))"

text \<open>The stage a reference is made from is \<open>current_stage - available_at\<close>, which can underflow.\<close>

definition referenced_name ::
  "lower_env \<Rightarrow> lower_ctx \<Rightarrow> name_id \<Rightarrow> nat \<Rightarrow> lower_error + value_name option" where
  "referenced_name env ctx name depth_id =
     res_bind (stage_offset env depth_id) (\<lambda>depth.
     res_bind (or_panic (lookup_referenced (lc_subs ctx) depth name)) (\<lambda>sub.
       case sub of
         Sub_Undefined \<Rightarrow> Inl (LE_Undefined name)
       | Sub_Waiting available_at _ \<Rightarrow>
           res_bind (or_panic (nat_minus (current_stage (lc_subs ctx)) available_at)) (\<lambda>stage.
             Inl (LE_UseBeforeReady name stage available_at))
       | Sub_Available name \<Rightarrow> Inr (Some (name_value name))
       | Sub_Port \<Rightarrow> Inr (Some (name_value name))
       | Sub_ZeroSized \<Rightarrow> Inr (Some (name_value name))))"

definition identifier_name :: "lower_ctx \<Rightarrow> name_id \<Rightarrow> lower_error + value_name option" where
  "identifier_name ctx ident =
     res_bind (or_panic (subs_lookup (lc_subs ctx) ident)) (\<lambda>sub.
       case sub of
         Sub_Undefined \<Rightarrow> Inl (LE_Undefined ident)
       | Sub_Waiting available_in name \<Rightarrow>
           Inl (LE_UseBeforeReady name (current_stage (lc_subs ctx)) available_in)
       | Sub_Available current \<Rightarrow> Inr (Some (name_value current))
       | Sub_Port \<Rightarrow> Inr (Some (name_value ident))
       | Sub_ZeroSized \<Rightarrow> Inr (Some (name_value ident)))"

fun expr_alias :: "lower_env \<Rightarrow> lower_ctx \<Rightarrow> expression \<Rightarrow> lower_error + value_name option"
  and variable :: "lower_env \<Rightarrow> lower_ctx \<Rightarrow> expression \<Rightarrow> lower_error + value_name" where
  "expr_alias env ctx (Expr k i l) =
     (case k of
        EK_Identifier ident \<Rightarrow> identifier_name ctx ident
      | EK_Block (Block _ (Some result)) \<Rightarrow> res_bind (variable env ctx result) (\<lambda>v. Inr (Some v))
      | EK_PipelineRef _ name _ depth_id \<Rightarrow> referenced_name env ctx name depth_id
      | EK_MethodCall _ _ _ _ _ \<Rightarrow> Inl (LE_Bug ''method call should have been lowered to function by this point'')
      | EK_Null \<Rightarrow> Inl (LE_Bug ''Null expression found during hir lowering'')
      | _ \<Rightarrow> Inr None)"
| "variable env ctx e =
     res_bind (expr_alias env ctx e) (\<lambda>a. Inr (case a of None \<Rightarrow> VN_Expr (ex_id e) | Some v \<Rightarrow> v))"

definition variables :: "lower_env \<Rightarrow> lower_ctx \<Rightarrow> expression list \<Rightarrow> lower_error + value_name list" where
  "variables env ctx es = mapM_res (variable env ctx) es"

section \<open>Availability\<close>

text \<open>The loop over the subexpressions, with the delay found so far.\<close>

fun same_delay :: "('a \<Rightarrow> lower_error + nat) \<Rightarrow> 'a list \<Rightarrow> nat option \<Rightarrow> lower_error + nat" where
  "same_delay f [] result = Inr (case result of None \<Rightarrow> 0 | Some n \<Rightarrow> n)"
| "same_delay f (e # es) result =
     res_bind (f e) (\<lambda>a.
       case result of
         None \<Rightarrow> same_delay f es (Some a)
       | Some prev \<Rightarrow>
           if a = prev then same_delay f es result
           else Inl (LE_Error ''All subexpressions need the same pipeline delay''))"

lemma same_delay_cong [fundef_cong]:
  "xs = ys \<Longrightarrow> r = r' \<Longrightarrow> (\<And>x. x \<in> set ys \<Longrightarrow> f x = g x) \<Longrightarrow> same_delay f xs r = same_delay g ys r'"
  by (induction xs arbitrary: ys r r') (auto simp: res_bind_def split: sum.split option.split)

definition pipeline_depth :: "lower_env \<Rightarrow> nat \<Rightarrow> lower_error + nat" where
  "pipeline_depth env depth_id =
     res_bind (try_get_type_of_id env depth_id) (\<lambda>t.
       case t of
         Some (CT_Integer val) \<Rightarrow>
           (case int_to_usize val of
              Some n \<Rightarrow> Inr n
            | None \<Rightarrow> Inl (LE_Bug ''Inferred more than `usize::MAX` pipeline stages''))
       | Some _ \<Rightarrow> Inl (LE_Bug ''Found non-integer for pipeline depth'')
       | None \<Rightarrow> Inl (LE_Error ''The latency of this pipeline instantiation is not known''))"

fun available_in :: "lower_env \<Rightarrow> expression \<Rightarrow> lower_error + nat" where
  "available_in env (Expr k i l) =
     (case k of
        EK_TupleLiteral inner \<Rightarrow> same_delay (available_in env) inner None
      | EK_ArrayLiteral inner \<Rightarrow> same_delay (available_in env) inner None
      | EK_ArrayShorthandLiteral inner _ \<Rightarrow> same_delay (available_in env) [inner] None
      | EK_Index lhs idx \<Rightarrow> same_delay (available_in env) [lhs, idx] None
      | EK_RangeIndex target _ _ \<Rightarrow> same_delay (available_in env) [target] None
      | EK_TupleIndex lhs _ \<Rightarrow> available_in env lhs
      | EK_FieldAccess lhs _ \<Rightarrow> available_in env lhs
      | EK_BinaryOperator lhs _ rhs \<Rightarrow> same_delay (available_in env) [lhs, rhs] None
      | EK_UnaryOperator _ val \<Rightarrow> available_in env val
      | EK_Match _ values \<Rightarrow> same_delay (\<lambda>v. available_in env (snd v)) values None
      | EK_Block (Block _ (Some result)) \<Rightarrow> available_in env result
      | EK_Call (CK_Pipeline _ depth_id) _ _ _ \<Rightarrow> pipeline_depth env depth_id
      | EK_If _ t f \<Rightarrow> same_delay (available_in env) [t, f] None
      | EK_MethodCall _ _ _ _ _ \<Rightarrow> Inl (LE_Bug ''Method call should already have been lowered by this point'')
      | EK_Null \<Rightarrow> Inl LE_Panic
      | _ \<Rightarrow> Inr 0)"

end
