(* ===== verification/Lower_Calls.thy ===== *)
theory Lower_Calls
  imports Lower_Context
begin

text \<open>
  spade-hir-lowering, \<open>lib.rs\<close>: the statements of a call once its arguments are lowered. Functions of
  the standard library that have an operator of their own are recognised by their names.
\<close>

section \<open>Statements for an expression\<close>

text \<open>The binding of the value of an expression to an operator, with the operands by name or by expression.\<close>

definition push_binding ::
  "lower_env \<Rightarrow> lower_ctx \<Rightarrow> expression \<Rightarrow> operator \<Rightarrow> value_name list \<Rightarrow> mir_type \<Rightarrow> loc option \<Rightarrow>
     statement_list \<Rightarrow> lower_error + statement_list" where
  "push_binding env ctx self oper operands ty l result =
     res_bind (variable env ctx self) (\<lambda>name.
       Inr (push_primary (St_Binding (Binding name oper operands ty l)) (NO_Expr (ex_id self)) result))"

definition push_op ::
  "lower_env \<Rightarrow> lower_ctx \<Rightarrow> expression \<Rightarrow> operator \<Rightarrow> expression list \<Rightarrow> mir_type \<Rightarrow> loc option \<Rightarrow>
     statement_list \<Rightarrow> lower_error + statement_list" where
  "push_op env ctx self oper args ty l result =
     res_bind (variables env ctx args) (\<lambda>operands. push_binding env ctx self oper operands ty l result)"

type_synonym call_args = "(expression, type_spec) argument list"

definition arg_at :: "call_args \<Rightarrow> nat \<Rightarrow> lower_error + expression" where
  "arg_at args i = or_panic (map_option arg_value (nth_opt args i))"

definition arg_exprs :: "call_args \<Rightarrow> expression list" where
  "arg_exprs args = map arg_value args"

section \<open>The standard library\<close>

datatype special_function =
    SF_ClockedMemory | SF_ClockedMemoryInit | SF_ReadMemory | SF_Trunc | SF_Sext | SF_Zext | SF_Concat
  | SF_UnsafeCast | SF_FlipArray | SF_DivPow2 | SF_GrayToBin | SF_ReduceAnd | SF_ReduceOr | SF_ReduceXor
  | SF_CombDiv | SF_CombMod | SF_NewMutWire | SF_ReadMutWire

text \<open>The paths in the order they are tried, and whether type arguments may be ports.\<close>

definition special_functions :: "(path \<times> special_function \<times> bool) list" where
  "special_functions =
     [([''std'', ''mem'', ''clocked_memory''], SF_ClockedMemory, False),
      ([''std'', ''mem'', ''clocked_memory_init''], SF_ClockedMemoryInit, False),
      ([''std'', ''mem'', ''read_memory''], SF_ReadMemory, False),
      ([''std'', ''conv'', ''trunc''], SF_Trunc, False),
      ([''std'', ''conv'', ''sext''], SF_Sext, False),
      ([''std'', ''conv'', ''zext''], SF_Zext, False),
      ([''std'', ''conv'', ''concat''], SF_Concat, False),
      ([''std'', ''conv'', ''unsafe'', ''unsafe_cast''], SF_UnsafeCast, True),
      ([''std'', ''conv'', ''flip_array''], SF_FlipArray, False),
      ([''std'', ''ops'', ''div_pow2''], SF_DivPow2, False),
      ([''std'', ''ops'', ''gray_to_bin''], SF_GrayToBin, False),
      ([''std'', ''ops'', ''reduce_and''], SF_ReduceAnd, False),
      ([''std'', ''ops'', ''reduce_or''], SF_ReduceOr, False),
      ([''std'', ''ops'', ''reduce_xor''], SF_ReduceXor, False),
      ([''std'', ''ops'', ''comb_div''], SF_CombDiv, False),
      ([''std'', ''ops'', ''comb_mod''], SF_CombMod, False),
      ([''std'', ''ports'', ''new_mut_wire''], SF_NewMutWire, False),
      ([''std'', ''ports'', ''read_mut_wire''], SF_ReadMutWire, False)]"

definition special_function_of :: "lower_env \<Rightarrow> name_id \<Rightarrow> (special_function \<times> bool) option" where
  "special_function_of env name =
     map_option snd
       (find (\<lambda>(path, _). case le_final_id env path of Some n \<Rightarrow> nid_eq n name | None \<Rightarrow> False) special_functions)"

fun generic_port_check :: "lower_env \<Rightarrow> (name_id \<times> type_var) list \<Rightarrow> lower_error + unit" where
  "generic_port_check env [] = Inr ()"
| "generic_port_check env ((name, ty) # rest) =
     (case ungenerify_type (le_depth env) (le_types env) ty of
        Inl CErr_Panic \<Rightarrow> Inl LE_Panic
      | Inr t \<Rightarrow>
          if is_port t then Inl (LE_Error ''Generic types cannot be ports'') else generic_port_check env rest
      | Inl CErr_Unknown \<Rightarrow> generic_port_check env rest)"

text \<open>Memories: the number of elements, the initial values if they are known, and the declaration.\<close>

definition memory_elems :: "lower_env \<Rightarrow> expression \<Rightarrow> lower_error + int" where
  "memory_elems env self =
     res_bind (expr_type env (ex_id self)) (\<lambda>t.
       case t of
         CT_Single PT_Memory params \<Rightarrow>
           (case nth_opt params 1 of Some (CT_Integer n) \<Rightarrow> Inr n | _ \<Rightarrow> Inl LE_Panic)
       | _ \<Rightarrow> Inl LE_Panic)"

definition initial_elems :: "call_args \<Rightarrow> lower_error + expression list" where
  "initial_elems args =
     res_bind (arg_at args 2) (\<lambda>e.
       case runtime_requirement_witness e of
         Some _ \<Rightarrow> Inl (LE_Error ''Memory initial values must be known at compile time'')
       | None \<Rightarrow>
           (case ex_kind e of
              EK_ArrayLiteral values \<Rightarrow> Inr values
            | _ \<Rightarrow> Inl (LE_Bug ''Memory initial value was not array'')))"

definition handle_clocked_memory ::
  "lower_env \<Rightarrow> lower_ctx \<Rightarrow> expression \<Rightarrow> call_args \<Rightarrow> int \<Rightarrow> statement list list option \<Rightarrow>
     statement_list \<Rightarrow> lower_error + statement_list" where
  "handle_clocked_memory env ctx self args elem_count initial result =
     res_bind (arg_at args 1) (\<lambda>ports.
     res_bind (expr_type env (ex_id ports)) (\<lambda>port_t.
       case port_t of
         CT_Array (CT_Tuple [we, a, v]) n_ports \<Rightarrow>
           res_bind (or_panic (to_mir_type a)) (\<lambda>addr_t.
           res_bind (or_panic (to_mir_type v)) (\<lambda>inner_t.
             if n_ports < 0 then Inl (LE_Bug ''Found negative number of write ports for memory'')
             else if elem_count < 0 then Inl (LE_Bug ''Found negative number of elements for memory'')
             else res_bind (expr_mir_type env (ex_id self)) (\<lambda>ty.
               push_op env ctx self
                 (Op_DeclClockedMemory (nat n_ports) (ty_size addr_t) (ty_size inner_t) (nat elem_count) initial)
                 (take 2 (arg_exprs args)) ty (Some (ex_loc self)) result)))
       | _ \<Rightarrow> Inl LE_Panic))"

text \<open>The other functions: an operator on the arguments with the type of the call.\<close>

definition backward_nonzero :: "mir_type \<Rightarrow> lower_error + bool" where
  "backward_nonzero t = res_bind (or_panic (backward_size t)) (\<lambda>n. Inr (n \<noteq> 0))"

definition handle_conversion ::
  "lower_env \<Rightarrow> lower_ctx \<Rightarrow> special_function \<Rightarrow> expression \<Rightarrow> call_args \<Rightarrow> statement_list \<Rightarrow>
     lower_error + statement_list" where
  "handle_conversion env ctx f self args result =
     res_bind (expr_mir_type env (ex_id self)) (\<lambda>self_type.
     res_bind (arg_at args 0) (\<lambda>arg0.
     res_bind (expr_mir_type env (ex_id arg0)) (\<lambda>input_type.
     let self_size = ty_size self_type; input_size = ty_size input_type
     in case f of
          SF_Trunc \<Rightarrow>
            if self_size > input_size then Inl (LE_Error ''Truncating to a larger value'')
            else push_op env ctx self Op_Truncate [arg0] self_type (Some (ex_loc self)) result
        | SF_Sext \<Rightarrow>
            if self_size < input_size then Inl (LE_Error ''Sign-extending to a shorter value'')
            else push_op env ctx self (Op_SignExtend (self_size - input_size) input_size) [arg0] self_type
                   (Some (ex_loc self)) result
        | SF_Zext \<Rightarrow>
            if self_size < input_size then Inl (LE_Error ''Zero-extending to a shorter value'')
            else push_op env ctx self (Op_ZeroExtend (self_size - input_size)) [arg0] self_type None result
        | SF_UnsafeCast \<Rightarrow>
            res_bind (backward_nonzero self_type) (\<lambda>out_mixed.
            if out_mixed then Inl (LE_Error ''Attempting to cast to type containing &mut value'')
            else res_bind (backward_nonzero input_type) (\<lambda>in_mixed.
              if in_mixed then Inl (LE_Error ''Attempting to cast from type containing &mut value'')
              else if self_size \<noteq> input_size then Inl (LE_Error ''Type size mismatch'')
              else push_op env ctx self (Op_ZeroExtend (self_size - input_size)) [arg0] self_type None result))
        | _ \<Rightarrow> Inl LE_Panic)))"

definition handle_concat ::
  "lower_env \<Rightarrow> lower_ctx \<Rightarrow> expression \<Rightarrow> call_args \<Rightarrow> statement_list \<Rightarrow> lower_error + statement_list" where
  "handle_concat env ctx self args result =
     res_bind (arg_at args 0) (\<lambda>arg0.
     res_bind (expr_mir_type env (ex_id arg0)) (\<lambda>arg0_type.
     res_bind (arg_at args 1) (\<lambda>arg1.
     res_bind (expr_mir_type env (ex_id arg1)) (\<lambda>arg1_type.
     res_bind (expr_mir_type env (ex_id self)) (\<lambda>self_type.
       if ty_size self_type \<noteq> ty_size arg0_type + ty_size arg1_type
       then Inl (LE_Bug ''Concatenation produces the wrong number of bits'')
       else push_op env ctx self Op_Concat [arg0, arg1] self_type None result)))))"

definition comb_operator :: "operator \<Rightarrow> operator \<Rightarrow> mir_type \<Rightarrow> lower_error + operator" where
  "comb_operator signed unsigned ty =
     (case ty of
        Ty_Int _ \<Rightarrow> Inr signed
      | Ty_UInt _ \<Rightarrow> Inr unsigned
      | _ \<Rightarrow> Inl (LE_Bug (''Inferred non-integer type ('' @ show_mir_type ty @ '')'')))"

definition push_args ::
  "lower_env \<Rightarrow> lower_ctx \<Rightarrow> expression \<Rightarrow> call_args \<Rightarrow> nat \<Rightarrow> operator \<Rightarrow> loc option \<Rightarrow> statement_list \<Rightarrow>
     lower_error + statement_list" where
  "push_args env ctx self args n oper l result =
     res_bind (expr_mir_type env (ex_id self)) (\<lambda>self_type.
     res_bind (mapM_res (arg_at args) [0..<n]) (\<lambda>es. push_op env ctx self oper es self_type l result))"

definition handle_special ::
  "lower_env \<Rightarrow> lower_ctx \<Rightarrow> special_function \<Rightarrow> expression \<Rightarrow> call_args \<Rightarrow> statement list list option \<Rightarrow>
     statement_list \<Rightarrow> lower_error + statement_list" where
  "handle_special env ctx f self args initial result =
     (let here = Some (ex_loc self)
      in case f of
           SF_ClockedMemory \<Rightarrow>
             res_bind (memory_elems env self) (\<lambda>n. handle_clocked_memory env ctx self args n None result)
         | SF_ClockedMemoryInit \<Rightarrow>
             res_bind (memory_elems env self) (\<lambda>n. handle_clocked_memory env ctx self args n initial result)
         | SF_ReadMemory \<Rightarrow> push_args env ctx self args 2 Op_IndexMemory here result
         | SF_Concat \<Rightarrow> handle_concat env ctx self args result
         | SF_FlipArray \<Rightarrow>
             if length args \<noteq> 1 then Inl LE_Panic else push_args env ctx self args 1 Op_Bitreverse None result
         | SF_DivPow2 \<Rightarrow> push_args env ctx self args 2 Op_DivPow2 here result
         | SF_GrayToBin \<Rightarrow>
             res_bind (expr_mir_type env (ex_id self)) (\<lambda>t.
               push_args env ctx self args 1 (Op_Gray2Bin (ty_size t)) here result)
         | SF_ReduceAnd \<Rightarrow> push_args env ctx self args 1 Op_ReduceAnd here result
         | SF_ReduceOr \<Rightarrow> push_args env ctx self args 1 Op_ReduceOr here result
         | SF_ReduceXor \<Rightarrow> push_args env ctx self args 1 Op_ReduceXor here result
         | SF_CombDiv \<Rightarrow>
             res_bind (expr_mir_type env (ex_id self)) (\<lambda>t.
             res_bind (comb_operator Op_Div Op_UnsignedDiv t) (\<lambda>oper. push_args env ctx self args 2 oper here result))
         | SF_CombMod \<Rightarrow>
             res_bind (expr_mir_type env (ex_id self)) (\<lambda>t.
             res_bind (comb_operator Op_Mod Op_UnsignedMod t) (\<lambda>oper. push_args env ctx self args 2 oper here result))
         | SF_NewMutWire \<Rightarrow>
             if args \<noteq> [] then Inl LE_Panic else push_args env ctx self args 0 Op_Nop None result
         | SF_ReadMutWire \<Rightarrow>
             if length args \<noteq> 1 then Inl LE_Panic else push_args env ctx self args 1 Op_ReadPort None result
         | _ \<Rightarrow> handle_conversion env ctx f self args result)"

section \<open>Instances\<close>

definition instance_params :: "call_args \<Rightarrow> unit_head \<Rightarrow> param_name list" where
  "instance_params args head =
     map (\<lambda>(_, input). \<lparr>pn_name = par_name input, pn_no_mangle = par_no_mangle input\<rparr>) (zip args (uh_inputs head))"

definition generic_arg :: "(name_id \<times> type_var) list \<Rightarrow> type_param \<Rightarrow> lower_error + type_var" where
  "generic_arg instance_list param =
     or_panic (map_option snd (find (\<lambda>(n, _). nid_eq n (tp_name_id param)) instance_list))"

text \<open>The name of the unit to instantiate; a generic unit is requested with its type arguments.\<close>

definition instance_unit ::
  "lower_env \<Rightarrow> expression \<Rightarrow> (name_id \<times> type_var) list \<Rightarrow> hir_unit \<Rightarrow> lower_ctx \<Rightarrow>
     lower_error + hir_unit_name \<times> lower_ctx" where
  "instance_unit env self instance_list u ctx =
     (if get_type_params (hu_head u) = [] then Inr (hu_name u, ctx)
      else res_bind (mapM_res (generic_arg instance_list) (get_type_params (hu_head u))) (\<lambda>params.
        case request_compilation (hu_name u) False params
               (map_option (\<lambda>item. (item, ex_loc self)) (le_self_item env)) (lc_mono ctx) (lc_names ctx) of
          (name, ms, tracker) \<Rightarrow> Inr (HUN_WithID name, ctx\<lparr>lc_mono := ms, lc_names := tracker\<rparr>)))"

definition variant_count_of :: "lower_env \<Rightarrow> name_id \<Rightarrow> lower_error + nat" where
  "variant_count_of env base_enum =
     (case le_types env (nid_num base_enum) of
        Some decl \<Rightarrow> (case td_kind decl of TDK_Enum options \<Rightarrow> Inr (length options) | _ \<Rightarrow> Inl LE_Panic)
      | None \<Rightarrow> Inl LE_Panic)"

definition handle_item ::
  "lower_env \<Rightarrow> expression \<Rightarrow> name_id \<Rightarrow> call_args \<Rightarrow> (name_id \<times> type_var) list \<Rightarrow> statement_list \<Rightarrow> lower_ctx \<Rightarrow>
     lower_error + statement_list \<times> lower_ctx" where
  "handle_item env self name args instance_list result ctx =
     (let push = (\<lambda>oper ctx. res_bind (expr_mir_type env (ex_id self)) (\<lambda>ty.
            res_bind (push_op env ctx self oper (arg_exprs args) ty (Some (ex_loc self)) result) (\<lambda>sl. Inr (sl, ctx))))
      in case le_executables env (nid_num name) of
           Some (EI_EnumInstance base_enum variant) \<Rightarrow>
             res_bind (variant_count_of env base_enum) (\<lambda>n. push (Op_ConstructEnum variant n) ctx)
         | Some EI_StructInstance \<Rightarrow> push Op_ConstructTuple ctx
         | Some (EI_Unit u) \<Rightarrow>
             res_bind (instance_unit env self instance_list u ctx) (\<lambda>(instance_name, ctx).
               push (Op_Instance (as_mir instance_name) (instance_params args (hu_head u)) (Some (ex_loc self))) ctx)
         | Some (EI_BuiltinUnit unit_name head) \<Rightarrow>
             if get_type_params head \<noteq> [] then Inl (LE_Error ''Generic builtins cannot be instantiated'')
             else push (Op_Instance (as_mir unit_name) (instance_params args head) (Some (ex_loc self))) ctx
         | None \<Rightarrow> Inl LE_Panic)"

section \<open>Kinds of callees\<close>

definition callee_name :: "name_id \<Rightarrow> string" where
  "callee_name n = (case path_tail (nid_path n) of Some i \<Rightarrow> i | None \<Rightarrow> [])"

definition expect_function :: "name_id \<Rightarrow> unit_kind \<Rightarrow> lower_error" where
  "expect_function callee found =
     (case found of
        UK_Function _ \<Rightarrow> LE_Bug ''expected fn and got it''
      | _ \<Rightarrow> LE_Error (''Expected '' @ callee_name callee @ '' to be a function''))"

definition expect_entity :: "name_id \<Rightarrow> unit_kind \<Rightarrow> lower_error" where
  "expect_entity callee found =
     (case found of
        UK_Entity \<Rightarrow> LE_Bug ''expected entity and got it''
      | _ \<Rightarrow> LE_Error (''Expected '' @ callee_name callee @ '' to be an entity''))"

definition expect_pipeline :: "name_id \<Rightarrow> unit_kind \<Rightarrow> lower_error" where
  "expect_pipeline callee found =
     (case found of
        UK_Pipeline _ _ \<Rightarrow> LE_Bug ''expected pipeline and got it''
      | _ \<Rightarrow> LE_Error (''Expected '' @ callee_name callee @ '' to be a pipeline''))"

definition check_call_kind :: "call_kind \<Rightarrow> name_id \<Rightarrow> unit_kind \<Rightarrow> lower_error + unit" where
  "check_call_kind kind callee found =
     (case (kind, found) of
        (CK_Function, UK_Function _) \<Rightarrow> Inr ()
      | (CK_Entity, UK_Entity) \<Rightarrow> Inr ()
      | (CK_Pipeline _ _, UK_Pipeline _ _) \<Rightarrow> Inr ()
      | (CK_Function, other) \<Rightarrow> Inl (expect_function callee other)
      | (CK_Entity, other) \<Rightarrow> Inl (expect_entity callee other)
      | (CK_Pipeline _ _, other) \<Rightarrow> Inl (expect_pipeline callee other))"

definition match_call_args ::
  "lower_env \<Rightarrow> call_kind \<Rightarrow> name_id \<Rightarrow> expression argument_list \<Rightarrow> lower_error + call_args" where
  "match_call_args env kind callee args =
     res_bind (or_panic (le_units env (nid_num callee))) (\<lambda>head.
     res_bind (or_panic (match_args_with_params args (params_as_listlike (uh_inputs head)) False)) (\<lambda>matched.
       case matched of
         Inl e \<Rightarrow> Inl (LE_Argument e)
       | Inr matched \<Rightarrow> res_bind (check_call_kind kind callee (uh_unit_kind head)) (\<lambda>_. Inr matched)))"

text \<open>
  What a call does after its arguments are lowered, up to the initial values of a memory, which are
  lowered once more.
\<close>

datatype call_target = CTG_Special special_function | CTG_Item

definition call_target_of ::
  "lower_env \<Rightarrow> expression \<Rightarrow> name_id \<Rightarrow> lower_error + call_target \<times> (name_id \<times> type_var) list" where
  "call_target_of env self name =
     res_bind (or_panic (le_generics env (ex_id self))) (\<lambda>instance_list.
       case special_function_of env name of
         Some (f, allow_port) \<Rightarrow>
           res_bind (if allow_port then Inr () else generic_port_check env instance_list) (\<lambda>_.
             Inr (CTG_Special f, instance_list))
       | None \<Rightarrow> res_bind (generic_port_check env instance_list) (\<lambda>_. Inr (CTG_Item, instance_list)))"

definition relowered ::
  "lower_env \<Rightarrow> expression \<Rightarrow> call_args \<Rightarrow> call_target \<Rightarrow> lower_error + expression list" where
  "relowered env self args target =
     (case target of
        CTG_Special SF_ClockedMemoryInit \<Rightarrow> res_bind (memory_elems env self) (\<lambda>_. initial_elems args)
      | _ \<Rightarrow> Inr [])"

definition finish_call ::
  "lower_env \<Rightarrow> expression \<Rightarrow> name_id \<Rightarrow> call_args \<Rightarrow> call_target \<Rightarrow> (name_id \<times> type_var) list \<Rightarrow>
     statement list list \<Rightarrow> statement_list \<Rightarrow> lower_ctx \<Rightarrow> lower_error + statement_list \<times> lower_ctx" where
  "finish_call env self name args target instance_list initial result ctx =
     (case target of
        CTG_Special f \<Rightarrow>
          res_bind (handle_special env ctx f self args (Some initial) result) (\<lambda>sl. Inr (sl, ctx))
      | CTG_Item \<Rightarrow> handle_item env self name args instance_list result ctx)"

end
