(* ===== verification/Hir_Lowering.thy ===== *)
theory Hir_Lowering
  imports Lower_Calls
begin

text \<open>
  spade-hir-lowering, \<open>lib.rs\<close>: the statements of an expression and of a statement of a block.
\<close>

section \<open>Waveform traces\<close>

definition wal_signal ::
  "lower_env \<Rightarrow> lower_ctx \<Rightarrow> value_name \<Rightarrow> wal_traceable \<Rightarrow> expression option \<Rightarrow> bool \<Rightarrow> string \<Rightarrow> string \<Rightarrow>
     statement_list \<Rightarrow> lower_error + statement_list" where
  "wal_signal env ctx main_value_name w signal uses name suffix result =
     (case (signal, uses) of
        (None, False) \<Rightarrow> Inr result
      | (None, True) \<Rightarrow> Inl (LE_Error (''The '' @ name @ '' signal for this trace must be provided''))
      | (Some _, False) \<Rightarrow> Inl (LE_Error (''Unnecessary '' @ name @ '' signal''))
      | (Some signal, True) \<Rightarrow>
          res_bind (variable env ctx signal) (\<lambda>v.
            Inr (push_anonymous
              (St_WalTrace main_value_name v (''__'' @ suffix @ ''__'' @ show_path (wt_suffix w)) Ty_Bool) result)))"

text \<open>The members with their MIR types. A member with wires in both directions is an error.\<close>

definition wal_member_type :: "ident \<times> concrete_type \<Rightarrow> lower_error + ident \<times> mir_type" where
  "wal_member_type m = res_bind (or_panic (to_mir_type (snd m))) (\<lambda>t. Inr (fst m, t))"

definition wal_check_member :: "ident \<times> mir_type \<Rightarrow> lower_error + unit" where
  "wal_check_member m =
     res_bind (backward_nonzero (snd m)) (\<lambda>back.
       if back \<and> ty_size (snd m) \<noteq> 0
       then Inl (LE_Error ''Wal tracing does not work on types with mixed-direction fields'') else Inr ())"

definition wal_backward :: "(ident \<times> mir_type) list \<Rightarrow> (ident \<times> mir_type) list" where
  "wal_backward members =
     concat (map (\<lambda>(n, t). case t of Ty_Backward i \<Rightarrow> [(n, i)] | _ \<Rightarrow> []) members)"

text \<open>
  The loop over the members: the indices among all and among the backward members, and the ids drawn
  for the field and for the expressions that give it a type.
\<close>

fun wal_fields ::
  "value_name \<Rightarrow> nat \<Rightarrow> mir_type list \<Rightarrow> mir_type list \<Rightarrow> path \<Rightarrow> (ident \<times> mir_type) list \<Rightarrow> nat \<Rightarrow> nat \<Rightarrow>
     id_tracker \<Rightarrow> statement_list \<Rightarrow> statement_list \<times> id_tracker" where
  "wal_fields main_value_name flipped_id inner_types inner_backward_types suffix [] i_all i_backward ids result =
     (result, ids)"
| "wal_fields main_value_name flipped_id inner_types inner_backward_types suffix ((n, t) # members) i_all i_backward ids result =
     (let (new_id, ids) = tracker_next ids;
          is_backward = (case t of Ty_Backward _ \<Rightarrow> True | _ \<Rightarrow> False);
          mir_ty = (case t of Ty_Backward b \<Rightarrow> b | other \<Rightarrow> other);
          operand = (if is_backward then VN_Expr flipped_id else main_value_name);
          oper = (if is_backward then Op_IndexTuple i_backward inner_backward_types else Op_IndexTuple i_all inner_types);
          (_, ids) = tracker_next ids;
          ids = (if is_backward then snd (tracker_next ids) else ids);
          result = push_anonymous (St_Binding (Binding (VN_Expr new_id) oper [operand] mir_ty None)) result;
          result = push_anonymous
            (St_WalTrace main_value_name (VN_Expr new_id) (''__'' @ n @ ''__'' @ show_path suffix) mir_ty) result
      in wal_fields main_value_name flipped_id inner_types inner_backward_types suffix members (i_all + 1)
           (if is_backward then i_backward + 1 else i_backward) ids result)"

definition do_wal_trace_lowering ::
  "lower_env \<Rightarrow> value_name \<Rightarrow> wal_traceable \<Rightarrow> expression wal_trace \<Rightarrow> concrete_type \<Rightarrow> statement_list \<Rightarrow> lower_ctx \<Rightarrow>
     lower_error + statement_list \<times> lower_ctx" where
  "do_wal_trace_lowering env main_value_name w trace ty result ctx =
     res_bind (wal_signal env ctx main_value_name w (wtr_clk trace) (wt_uses_clk w) ''clock'' ''clk'' result) (\<lambda>result.
     res_bind (wal_signal env ctx main_value_name w (wtr_rst trace) (wt_uses_rst w) ''reset'' ''rst'' result) (\<lambda>result.
       case ty of
         CT_Struct _ members \<Rightarrow>
           res_bind (mapM_res wal_member_type members) (\<lambda>members.
           res_bind (mapM_res wal_check_member members) (\<lambda>_.
           let (flipped_id, ids) = tracker_next (lc_ids ctx);
               backward = wal_backward members;
               flipped_ty = Ty_Struct backward;
               result =
                 (if ty_size flipped_ty \<noteq> 0
                  then push_anonymous
                    (St_Binding (Binding (VN_Expr flipped_id) Op_ReadMutWires [main_value_name] flipped_ty None)) result
                  else result);
               (result, ids) =
                 wal_fields main_value_name flipped_id (map snd members) (map snd backward) (wt_suffix w) members 0 0 ids result
           in Inr (result, ctx\<lparr>lc_ids := ids\<rparr>)))
       | _ \<Rightarrow> Inl (LE_Bug ''Tracing on non-struct'')))"

definition lower_wal_trace ::
  "lower_env \<Rightarrow> hir_pattern \<Rightarrow> expression wal_trace \<Rightarrow> concrete_type \<Rightarrow> statement_list \<Rightarrow> lower_ctx \<Rightarrow>
     lower_error + statement_list \<times> lower_ctx" where
  "lower_wal_trace env p trace concrete_ty result ctx =
     res_bind (expr_type_var env (hp_id p)) (\<lambda>hir_ty.
       case hir_ty of
         TV_Known (KT_Named name) _ \<Rightarrow>
           (case map_option td_kind (le_types env (nid_num name)) of
              Some (TDK_Struct s) \<Rightarrow>
                (case sd_wal_traceable s of
                   Some suffix \<Rightarrow> do_wal_trace_lowering env (pat_value_name p) suffix trace concrete_ty result ctx
                 | None \<Rightarrow> Inl (LE_Error ''#[wal_trace] on struct without #[wal_traceable]''))
            | Some _ \<Rightarrow> Inl (LE_Error ''#[wal_trace] can only be applied to values of struct type'')
            | None \<Rightarrow> Inl (LE_Bug ''wal_trace on non-declared type''))
       | _ \<Rightarrow> Inl (LE_Error ''#[wal_trace] can only be applied to values of struct type''))"

section \<open>Operators\<close>

text \<open>Operators with one form for all types, and those with a signed and an unsigned form.\<close>

fun plain_binop :: "binary_operator \<Rightarrow> operator option" where
  "plain_binop BO_Eq = Some Op_Eq"
| "plain_binop BO_NotEq = Some Op_NotEq"
| "plain_binop BO_LogicalXor = Some Op_LogicalXor"
| "plain_binop BO_LeftShift = Some Op_LeftShift"
| "plain_binop BO_RightShift = Some Op_RightShift"
| "plain_binop BO_ArithmeticRightShift = Some Op_ArithmeticRightShift"
| "plain_binop BO_LogicalAnd = Some Op_LogicalAnd"
| "plain_binop BO_LogicalOr = Some Op_LogicalOr"
| "plain_binop BO_BitwiseAnd = Some Op_BitwiseAnd"
| "plain_binop BO_BitwiseOr = Some Op_BitwiseOr"
| "plain_binop BO_BitwiseXor = Some Op_BitwiseXor"
| "plain_binop _ = None"

fun dual_binop :: "binary_operator \<Rightarrow> (operator \<times> operator) option" where
  "dual_binop BO_Add = Some (Op_Add, Op_UnsignedAdd)"
| "dual_binop BO_Sub = Some (Op_Sub, Op_UnsignedSub)"
| "dual_binop BO_Mul = Some (Op_Mul, Op_UnsignedMul)"
| "dual_binop BO_Div = Some (Op_Div, Op_UnsignedDiv)"
| "dual_binop BO_Mod = Some (Op_Mod, Op_UnsignedMod)"
| "dual_binop BO_Gt = Some (Op_Gt, Op_UnsignedGt)"
| "dual_binop BO_Lt = Some (Op_Lt, Op_UnsignedLt)"
| "dual_binop BO_Ge = Some (Op_Ge, Op_UnsignedGe)"
| "dual_binop BO_Le = Some (Op_Le, Op_UnsignedLe)"
| "dual_binop _ = None"

definition binop_operator :: "lower_env \<Rightarrow> binary_operator \<Rightarrow> expression \<Rightarrow> lower_error + operator" where
  "binop_operator env oper lhs =
     (case dual_binop oper of
        Some (signed, unsigned) \<Rightarrow>
          res_bind (expr_mir_type env (ex_id lhs)) (\<lambda>t.
            case t of Ty_Int _ \<Rightarrow> Inr signed | Ty_UInt _ \<Rightarrow> Inr unsigned | _ \<Rightarrow> Inl LE_Panic)
      | None \<Rightarrow> or_panic (plain_binop oper))"

fun count_ones :: "nat \<Rightarrow> nat" where
  "count_ones n = (if n = 0 then 0 else n mod 2 + count_ones (n div 2))"

declare count_ones.simps [simp del]

definition to_u128 :: "int \<Rightarrow> nat option" where
  "to_u128 i = (if 0 \<le> i \<and> i < 2 ^ 128 then Some (nat i) else None)"

definition division_name :: "binary_operator \<Rightarrow> string" where
  "division_name oper = (if oper = BO_Div then ''Division'' else ''Modulo'')"

definition check_division :: "binary_operator \<Rightarrow> expression \<Rightarrow> lower_error + unit" where
  "check_division oper rhs =
     (if oper = BO_Div \<or> oper = BO_Mod
      then case ex_kind rhs of
             EK_IntLiteral val _ \<Rightarrow>
               (case to_u128 val of
                  None \<Rightarrow> Inl (LE_Error (division_name oper @ '' by constants larger than 2^128 is unsupported''))
                | Some n \<Rightarrow>
                    if count_ones n = 1 then Inr ()
                    else Inl (LE_Error (division_name oper @ '' can only be performed on powers of two'')))
           | _ \<Rightarrow> Inl (LE_Error (division_name oper @ '' can only be performed on constant powers of two''))
      else Inr ())"

fun unop_operator :: "unary_operator \<Rightarrow> operator" where
  "unop_operator UO_Sub = Op_USub"
| "unop_operator UO_Not = Op_Not"
| "unop_operator UO_FlipPort = Op_FlipPort"
| "unop_operator UO_BitwiseNot = Op_BitwiseNot"
| "unop_operator UO_Dereference = Op_Alias"
| "unop_operator UO_Reference = Op_Alias"

section \<open>Leaves\<close>

definition push_constant :: "expression \<Rightarrow> mir_type \<Rightarrow> const_value \<Rightarrow> statement_list" where
  "push_constant self ty cv = push_primary (St_Constant (ex_id self) ty cv) (NO_Expr (ex_id self)) sl_new"

definition type_level_integer :: "lower_env \<Rightarrow> name_id \<Rightarrow> lower_error + int" where
  "type_level_integer env name =
     (case le_unit_generics env of
        None \<Rightarrow> Inl (LE_Bug ''Attempted to use type level integer in non-generic function'')
      | Some generic_list \<Rightarrow>
          res_bind (or_panic (map_option snd (find (\<lambda>(n, _). nid_eq n name) generic_list))) (\<lambda>value.
            case ungenerify_type (le_depth env) (le_types env) value of
              Inr (CT_Integer value) \<Rightarrow> Inr value
            | Inr other \<Rightarrow> Inl (LE_Bug (''Inferred '' @ show_concrete_type other @ '' for type level integer''))
            | Inl CErr_Unknown \<Rightarrow> Inl (LE_Bug (''Did not find a type for '' @ show_name_id name))
            | Inl CErr_Panic \<Rightarrow> Inl LE_Panic))"

definition create_ports ::
  "lower_env \<Rightarrow> expression \<Rightarrow> concrete_type \<Rightarrow> mir_type \<Rightarrow> lower_ctx \<Rightarrow> lower_error + statement_list \<times> lower_ctx" where
  "create_ports env self hir_type self_type ctx =
     (case hir_type of
        CT_Tuple [inner_type, right] \<Rightarrow>
          res_bind (or_panic (to_mir_type right)) (\<lambda>right_mir_type.
            if \<not> is_port inner_type then Inl (LE_Error ''A port expression cannot create non-port values'')
            else res_bind (or_panic (to_mir_type inner_type)) (\<lambda>inner_mir_type.
              let (l, ids) = tracker_next (lc_ids ctx); (r, ids) = tracker_next ids;
                  ctx = ctx\<lparr>lc_ids := ids\<rparr>; here = Some (ex_loc self);
                  result = append_secondary
                    [St_Binding (Binding (VN_Expr l) Op_Nop [] inner_mir_type here),
                     St_Binding (Binding (VN_Expr r) Op_FlipPort [VN_Expr l] right_mir_type here)]
                    (NO_Expr (ex_id self)) ''Port construction'' sl_new
              in res_bind (push_binding env ctx self Op_ConstructTuple [VN_Expr l, VN_Expr r] self_type here result) (\<lambda>sl.
                   Inr (sl, ctx))))
      | CT_Tuple _ \<Rightarrow> Inl (LE_Bug (''port type was not 2-tuple. Got '' @ show_concrete_type hir_type))
      | _ \<Rightarrow> Inl (LE_Bug (''port type was not tuple. Got '' @ show_concrete_type hir_type)))"

definition tuple_types :: "lower_env \<Rightarrow> expression \<Rightarrow> lower_error + mir_type list" where
  "tuple_types env tup =
     res_bind (expr_mir_type env (ex_id tup)) (\<lambda>t. case t of Ty_Tuple inner \<Rightarrow> Inr inner | _ \<Rightarrow> Inl LE_Panic)"

text \<open>The index of a field and the types of all fields.\<close>

definition field_access :: "lower_env \<Rightarrow> expression \<Rightarrow> ident \<Rightarrow> lower_error + nat \<times> mir_type list" where
  "field_access env target field =
     res_bind (expr_type env (ex_id target)) (\<lambda>ctype.
     res_bind (or_panic (to_mir_type ctype)) (\<lambda>mtype.
       case (mtype, ctype) of
         (Ty_Struct member_types, CT_Struct _ members) \<Rightarrow>
           (case map fst (filter (\<lambda>(i, m). fst m = field) (zip [0..<length members] members)) of
              [i] \<Rightarrow> Inr (i, map snd member_types)
            | indices \<Rightarrow> Inl (LE_Bug (''Expected exactly 1 field with the name '' @ field @ '', got '' @ show_nat (length indices))))
       | _ \<Rightarrow> Inl LE_Panic))"

definition check_range :: "lower_env \<Rightarrow> expression \<Rightarrow> nat \<Rightarrow> nat \<Rightarrow> lower_error + unit" where
  "check_range env target start stop =
     res_bind (expr_type_var env (ex_id target)) (\<lambda>v.
       case v of
         TV_Known KT_Array inner \<Rightarrow>
           res_bind (or_panic (nth_opt inner 1)) (\<lambda>sz.
             case sz of
               TV_Known (KT_Integer n) _ \<Rightarrow>
                 if int start \<ge> n then Inl (LE_Error ''Array index out of bounds'')
                 else if int stop > n then Inl (LE_Error ''Array index out of bounds'')
                 else Inr ()
             | _ \<Rightarrow> Inl (LE_Bug ''Array size was not integer''))
       | _ \<Rightarrow> Inl (LE_Bug ''Range indexing on non-array''))"

text \<open>\<open>stage.ready\<close> and \<open>stage.valid\<close>: an alias of the signal of the stage, or true.\<close>

definition stage_signal ::
  "lower_env \<Rightarrow> lower_ctx \<Rightarrow> expression \<Rightarrow> (pipeline_context \<Rightarrow> value_name option list) \<Rightarrow> string \<Rightarrow>
     lower_error + statement_list" where
  "stage_signal env ctx self signals overflow =
     res_bind (get_pipeline_context ctx) (\<lambda>p.
       case nth_opt (signals p) (current_stage (lc_subs ctx)) of
         None \<Rightarrow> Inl (LE_Bug overflow)
       | Some None \<Rightarrow> Inr (push_constant self Ty_Bool (CV_Bool True))
       | Some (Some signal_name) \<Rightarrow>
           push_binding env ctx self Op_Alias [signal_name] Ty_Bool (Some (ex_loc self)) sl_new)"

fun reg_traced :: "attribute list \<Rightarrow> value_name option \<Rightarrow> lower_error + value_name option" where
  "reg_traced [] traced = Inr traced"
| "reg_traced (a # attrs) traced =
     (case a of
        Attr_Fsm state \<Rightarrow> reg_traced attrs (Some (name_value state))
      | _ \<Rightarrow> Inl (LE_Error (attribute_name a @ '' is not a valid attribute for register'')))"

definition check_refutable :: "lower_env \<Rightarrow> hir_pattern \<Rightarrow> string \<Rightarrow> lower_error + unit" where
  "check_refutable env p binding_kind =
     res_bind (is_refutable env p) (\<lambda>u. if u = [] then Inr () else Inl (LE_Refutable u binding_kind))"

definition check_exhaustive :: "lower_env \<Rightarrow> expression \<Rightarrow> hir_pattern list \<Rightarrow> lower_error + unit" where
  "check_exhaustive env operand ps =
     res_bind (expr_type env (ex_id operand)) (\<lambda>operand_ty.
     res_bind (check_missing env operand_ty ps) (\<lambda>u. if u = [] then Inr () else Inl (LE_NonExhaustive u)))"

section \<open>Expressions and statements\<close>

text \<open>The statement of a register, once its parts are lowered.\<close>

definition push_register ::
  "lower_env \<Rightarrow> lower_ctx \<Rightarrow> hir_pattern \<Rightarrow> expression \<Rightarrow> (expression \<times> expression) option \<Rightarrow>
     statement list option \<Rightarrow> expression \<Rightarrow> value_name option \<Rightarrow> statement_list \<Rightarrow> lower_error + statement_list" where
  "push_register env ctx p clock reset initial value traced result =
     res_bind (lower_type_of_id env (hp_id p)) (\<lambda>t.
     res_bind (or_panic (to_mir_type t)) (\<lambda>ty.
     res_bind (variable env ctx clock) (\<lambda>clk.
     res_bind (case reset of
                 None \<Rightarrow> Inr None
               | Some (trig, v) \<Rightarrow>
                   res_bind (variable env ctx trig) (\<lambda>t. res_bind (variable env ctx v) (\<lambda>v. Inr (Some (t, v))))) (\<lambda>rst.
     res_bind (variable env ctx value) (\<lambda>v.
       Inr (push_primary (St_Register (Register (pat_value_name p) ty clk rst initial v (Some (hp_loc p)) traced))
              (NO_Expr (hp_id p)) result))))))"

definition check_initial :: "expression option \<Rightarrow> lower_error + unit" where
  "check_initial initial =
     (case Option.bind initial runtime_requirement_witness of
        None \<Rightarrow> Inr ()
      | Some _ \<Rightarrow> Inl (LE_Error ''Register initial values must be known at compile time''))"

definition list_of_option :: "'a option \<Rightarrow> 'a list" where
  "list_of_option x = (case x of None \<Rightarrow> [] | Some y \<Rightarrow> [y])"

text \<open>The expressions of a register in the order they are lowered.\<close>

definition register_parts ::
  "expression \<Rightarrow> (expression \<times> expression) option \<Rightarrow> expression option \<Rightarrow> expression \<Rightarrow> expression list" where
  "register_parts clock reset initial value =
     clock # (case reset of None \<Rightarrow> [] | Some (trig, v) \<Rightarrow> [trig, v]) @ list_of_option initial @ [value]"

lemma prod_fst_smaller:
  "(a, b) \<in> set xs \<Longrightarrow> Suc (size_list (size_prod size f) xs + m) < n \<Longrightarrow> size a < n"
  using size_list_estimation' [of "(a, b)" xs "size a" "size_prod size f"] by simp

lemma prod_snd_smaller:
  "(a, b) \<in> set xs \<Longrightarrow> Suc (size_list (size_prod f size) xs + m) < n \<Longrightarrow> size b < n"
  using size_list_estimation' [of "(a, b)" xs "size b" "size_prod f size"] by simp

lemma kind_smaller: "ex_kind e = k \<Longrightarrow> size k < size e"
  by (cases e) auto

lemma bind_named_values:
  "bind_named params as bound unbound = Some (Inr (r, unb)) \<Longrightarrow>
     arg_value ` snd ` set r \<subseteq> set (arg_expressions (AL_Named as))"
proof (induction params as bound unbound arbitrary: r unb rule: bind_named.induct)
  case (2 params arg rest bound unbound)
  then show ?case
    by (cases arg)
       (fastforce simp: named_parts_def arg_expressions_def bind_eq_Some_conv res_bind_Inr split: if_splits option.splits)+
qed simp

lemma matched_values:
  "match_args_with_params args params m = Some (Inr res) \<Longrightarrow> arg_value ` set res \<subseteq> set (arg_expressions args)"
proof (cases args)
  case (AL_Named as)
  assume "match_args_with_params args params m = Some (Inr res)"
  then obtain z where "bind_named params as [] (set (map fst params)) = Some z"
    and "(case z of Inl e \<Rightarrow> Inl e | Inr (result, unbound) \<Rightarrow>
      if unbound \<noteq> {} then Inl (ArgErr_Missing unbound) else Inr (map snd (sort_key fst result))) = Inr res"
    by (auto simp: AL_Named match_args_with_params_def simp del: set_map)
  then obtain r unb where "bind_named params as [] (set (map fst params)) = Some (Inr (r, unb))"
    and "res = map snd (sort_key fst r)"
    by (cases z) (auto split: if_splits)
  then show ?thesis using bind_named_values [of params as "[]" _ r unb] by (simp add: AL_Named image_image)
next
  case (AL_Positional es)
  assume "match_args_with_params args params m = Some (Inr res)"
  then show ?thesis
    by (auto simp: AL_Positional match_args_with_params_def arg_expressions_def Let_def bind_eq_Some_conv
      dest!: set_zip_leftD split: if_splits)
qed

lemma match_call_args_values:
  "match_call_args env kind callee args = Inr res \<Longrightarrow> a \<in> set res \<Longrightarrow> arg_value a \<in> set (arg_expressions args)"
  using matched_values by (fastforce simp: match_call_args_def or_panic_def res_bind_Inr split: option.splits sum.splits)

lemma arg_expressions_smaller: "e \<in> set (arg_expressions args) \<Longrightarrow> size e < size_argument_list size args"
  by (cases args)
     (auto simp: arg_expressions_def less_Suc_eq_le split: named_argument.splits intro: size_list_estimation')

lemma relowered_smaller:
  assumes "relowered env self res target = Inr again" and "e \<in> set again"
  shows "\<exists>a \<in> set res. size e < size (arg_value a)"
proof -
  have "initial_elems res = Inr again"
    using assms
    by (cases target) (auto simp: relowered_def res_bind_Inr split: special_function.splits)
  then obtain f where f: "arg_at res 2 = Inr f" and k: "ex_kind f = EK_ArrayLiteral again"
    by (auto simp: initial_elems_def res_bind_Inr split: option.splits expr_kind.splits)
  have "f \<in> arg_value ` set res"
    using f by (auto simp: arg_at_def or_panic_def nth_opt_def split: option.splits if_splits)
  moreover have "size e < size (EK_ArrayLiteral again)"
    using assms(2) by (simp add: less_Suc_eq_le size_list_estimation')
  ultimately show ?thesis using kind_smaller [OF k] by (auto intro: less_trans)
qed

lemma register_parts_smaller:
  "e \<in> set (register_parts clock reset initial value) \<Longrightarrow>
     size e < Suc (size_option (size_prod size size) reset + size_option size initial + size clock + size value)"
  by (auto simp: register_parts_def list_of_option_def split: option.splits)

lemma list_elem_smaller: "x \<in> set xs \<Longrightarrow> Suc (size_list size xs) < n \<Longrightarrow> size x < n"
  using size_list_estimation' [of x xs "size x" size] by simp

lemma call_args_smaller:
  assumes "match_call_args env kind callee args = Inr res" and "Suc (size_argument_list size args) < n"
  shows "a \<in> set res \<Longrightarrow> size (arg_value a) < n"
    and "relowered env self res target = Inr again \<Longrightarrow> e \<in> set again \<Longrightarrow> size e < n"
proof -
  have "size (arg_value a) < n" if "a \<in> set res" for a
    using arg_expressions_smaller [OF match_call_args_values [OF assms(1) that]] assms(2) by simp
  then show "a \<in> set res \<Longrightarrow> size (arg_value a) < n"
    and "relowered env self res target = Inr again \<Longrightarrow> e \<in> set again \<Longrightarrow> size e < n"
    using relowered_smaller [of env self res target again e] by fastforce+
qed

function lower :: "lower_env \<Rightarrow> expression \<Rightarrow> lower_ctx \<Rightarrow> lower_error + statement_list \<times> lower_ctx"
  and lower_statement :: "lower_env \<Rightarrow> hir_statement \<Rightarrow> lower_ctx \<Rightarrow> lower_error + statement_list \<times> lower_ctx" where
  "lower env self ctx =
     res_bind (expr_type env (ex_id self)) (\<lambda>hir_type.
     res_bind (or_panic (to_mir_type hir_type)) (\<lambda>self_type.
     let here = Some (ex_loc self)
     in case ex_kind self of
       EK_Identifier _ \<Rightarrow> Inr (sl_new, ctx)
     | EK_IntLiteral value _ \<Rightarrow> Inr (push_constant self self_type (CV_Int value), ctx)
     | EK_TypeLevelInteger name \<Rightarrow>
         res_bind (type_level_integer env name) (\<lambda>value. Inr (push_constant self self_type (CV_Int value), ctx))
     | EK_BoolLiteral value \<Rightarrow> Inr (push_constant self self_type (CV_Bool value), ctx)
     | EK_BitLiteral value \<Rightarrow>
         Inr (push_constant self self_type
           (case value of BL_Low \<Rightarrow> CV_Bool False | BL_High \<Rightarrow> CV_Bool True | BL_HighImp \<Rightarrow> CV_HighImp), ctx)
     | EK_BinaryOperator lhs oper rhs \<Rightarrow>
         res_bind (check_division oper rhs) (\<lambda>_.
         res_bind (lower env lhs ctx) (\<lambda>(a, ctx).
         res_bind (lower env rhs ctx) (\<lambda>(b, ctx).
         res_bind (binop_operator env oper lhs) (\<lambda>m.
         res_bind (push_op env ctx self m [lhs, rhs] self_type here (sl_append a b)) (\<lambda>sl. Inr (sl, ctx))))))
     | EK_UnaryOperator oper operand \<Rightarrow>
         res_bind (lower env operand ctx) (\<lambda>(a, ctx).
         res_bind (push_op env ctx self (unop_operator oper) [operand] self_type here a) (\<lambda>sl. Inr (sl, ctx)))
     | EK_TupleLiteral es \<Rightarrow>
         res_bind (mapS_res (lower env) es ctx) (\<lambda>(sls, ctx).
         res_bind (push_op env ctx self Op_ConstructTuple es self_type here (sl_concat sls)) (\<lambda>sl. Inr (sl, ctx)))
     | EK_TupleIndex tup idx \<Rightarrow>
         res_bind (lower env tup ctx) (\<lambda>(a, ctx).
         res_bind (tuple_types env tup) (\<lambda>types.
         res_bind (push_op env ctx self (Op_IndexTuple idx types) [tup] self_type here a) (\<lambda>sl. Inr (sl, ctx))))
     | EK_CreatePorts \<Rightarrow> create_ports env self hir_type self_type ctx
     | EK_FieldAccess target field \<Rightarrow>
         res_bind (lower env target ctx) (\<lambda>(a, ctx).
         res_bind (field_access env target field) (\<lambda>(i, types).
         res_bind (push_op env ctx self (Op_IndexTuple i types) [target] self_type here a) (\<lambda>sl. Inr (sl, ctx))))
     | EK_ArrayLiteral es \<Rightarrow>
         res_bind (mapS_res (lower env) es ctx) (\<lambda>(sls, ctx).
         res_bind (push_op env ctx self Op_ConstructArray es self_type here (sl_concat sls)) (\<lambda>sl. Inr (sl, ctx)))
     | EK_ArrayShorthandLiteral value amount \<Rightarrow>
         (case int_to_usize (int amount) of
            None \<Rightarrow> Inl (LE_Error ''Array using shorthand initialization cannot contain more than usize::max elements'')
          | Some n \<Rightarrow>
              res_bind (lower env value ctx) (\<lambda>(a, ctx).
              res_bind (push_op env ctx self Op_ConstructArray (replicate n value) self_type here a) (\<lambda>sl. Inr (sl, ctx))))
     | EK_Index target index \<Rightarrow>
         res_bind (lower env target ctx) (\<lambda>(a, ctx).
         res_bind (lower env index ctx) (\<lambda>(b, ctx).
         res_bind (push_op env ctx self Op_IndexArray [target, index] self_type here (sl_append a b)) (\<lambda>sl. Inr (sl, ctx))))
     | EK_RangeIndex target start stop \<Rightarrow>
         res_bind (lower env target ctx) (\<lambda>(a, ctx).
         res_bind (check_range env target start stop) (\<lambda>_.
         res_bind (push_op env ctx self (Op_RangeIndexArray start stop) [target] self_type here a) (\<lambda>sl. Inr (sl, ctx))))
     | EK_Block (Block statements result) \<Rightarrow>
         res_bind (mapS_res (\<lambda>(s, _) ctx. lower_statement env s ctx) statements ctx) (\<lambda>(sls, ctx).
           case result of
             None \<Rightarrow> Inr (sl_concat sls, ctx)
           | Some block_result \<Rightarrow>
               res_bind (lower env block_result ctx) (\<lambda>(b, ctx). Inr (sl_append (sl_concat sls) b, ctx)))
     | EK_If cond on_true on_false \<Rightarrow>
         res_bind (lower env cond ctx) (\<lambda>(a, ctx).
         res_bind (lower env on_true ctx) (\<lambda>(b, ctx).
         res_bind (lower env on_false ctx) (\<lambda>(c, ctx).
         res_bind (push_op env ctx self Op_Select [cond, on_true, on_false] self_type here
           (sl_append (sl_append a b) c)) (\<lambda>sl. Inr (sl, ctx)))))
     | EK_Match operand branches \<Rightarrow>
         res_bind (check_exhaustive env operand (map fst branches)) (\<lambda>_.
         res_bind (lower env operand ctx) (\<lambda>(a, ctx).
         res_bind (mapS_res (\<lambda>(p, result_expr) ctx.
             res_bind (variable env ctx operand) (\<lambda>v.
             res_bind (lower_pattern_ctx env p v ctx) (\<lambda>(parts, ctx).
             res_bind (pat_condition_ctx env p v ctx) (\<lambda>((statements, cond), ctx).
             res_bind (lower env result_expr ctx) (\<lambda>(b, ctx).
             res_bind (variable env ctx result_expr) (\<lambda>r.
               Inr ((sl_append (append_secondary statements (NO_Expr (hp_id p)) ''Pattern condition'' parts) b,
                     [cond, r]), ctx)))))))
           branches ctx) (\<lambda>(bs, ctx).
         res_bind (push_binding env ctx self Op_Match (concat (map snd bs)) self_type here
           (sl_append a (sl_concat (map fst bs)))) (\<lambda>sl. Inr (sl, ctx)))))
     | EK_Call kind callee args _ \<Rightarrow>
         res_bind (match_call_args env kind callee args) (\<lambda>args.
         res_bind (mapS_res (\<lambda>a. lower env (arg_value a)) args ctx) (\<lambda>(sls, ctx).
         res_bind (call_target_of env self callee) (\<lambda>(target, instance_list).
         res_bind (relowered env self args target) (\<lambda>again.
         res_bind (mapS_res (lower env) again ctx) (\<lambda>(initial, ctx).
           finish_call env self callee args target instance_list (map sl_stmts initial) (sl_concat sls) ctx)))))
     | EK_PipelineRef _ _ _ _ \<Rightarrow> Inr (sl_new, ctx)
     | EK_StageReady \<Rightarrow>
         res_bind (stage_signal env ctx self ready_signals ''Pipeline ready signal overflow'') (\<lambda>sl. Inr (sl, ctx))
     | EK_StageValid \<Rightarrow>
         res_bind (stage_signal env ctx self valid_signals ''Pipeline valid signal overflow'') (\<lambda>sl. Inr (sl, ctx))
     | EK_MethodCall _ _ _ _ _ \<Rightarrow> Inl (LE_Bug ''Method should already have been lowered at this point'')
     | EK_Null \<Rightarrow> Inl (LE_Bug ''Null expression found during hir lowering'')))"
| "lower_statement env stmt ctx =
     (case stmt of
        HS_Binding p _ value trace \<Rightarrow>
          res_bind (lower env value ctx) (\<lambda>(a, ctx).
          res_bind (check_refutable env p ''let'') (\<lambda>_.
          res_bind (lower_type_of_id env (hp_id p)) (\<lambda>concrete_ty.
          res_bind (or_panic (to_mir_type concrete_ty)) (\<lambda>mir_ty.
          res_bind (variable env ctx value) (\<lambda>v.
          let result = push_primary
            (St_Binding (Binding (pat_value_name p) Op_Alias [v] mir_ty (Some (hp_loc p)))) (NO_Expr (hp_id p)) a
          in res_bind (case trace of
                         None \<Rightarrow> Inr (result, ctx)
                       | Some w \<Rightarrow> lower_wal_trace env p w concrete_ty result ctx) (\<lambda>(result, ctx).
             res_bind (variable env ctx value) (\<lambda>v.
             res_bind (lower_pattern_ctx env p v ctx) (\<lambda>(parts, ctx). Inr (sl_append result parts, ctx)))))))))
      | HS_Register p clock reset initial value _ attributes \<Rightarrow>
          res_bind (mapS_res (lower env) (register_parts clock reset initial value) ctx) (\<lambda>(sls, ctx).
          res_bind (check_refutable env p ''reg'') (\<lambda>_.
          res_bind (lower_type_of_id env (hp_id p)) (\<lambda>ty.
            if is_port ty then Inl (LE_Error ''Ports cannot be put in a register'')
            else res_bind (reg_traced attributes None) (\<lambda>traced.
              res_bind (check_initial initial) (\<lambda>_.
              res_bind (mapS_res (lower env) (list_of_option initial) ctx) (\<lambda>(init, ctx).
              res_bind (push_register env ctx p clock reset (map_option (\<lambda>_. concat (map sl_stmts init)) initial)
                value traced (sl_concat sls)) (\<lambda>result.
              res_bind (lower_pattern_ctx env p (pat_value_name p) ctx) (\<lambda>(parts, ctx).
                Inr (sl_append result parts, ctx)))))))))
      | HS_Declaration _ \<Rightarrow> Inr (sl_new, ctx)
      | HS_PipelineRegMarker _ \<Rightarrow>
          Inr (sl_new, ctx\<lparr>lc_subs := (lc_subs ctx)\<lparr>current_stage := current_stage (lc_subs ctx) + 1\<rparr>\<rparr>)
      | HS_Label _ \<Rightarrow> Inr (sl_new, ctx)
      | HS_Assert expr \<Rightarrow>
          res_bind (lower env expr ctx) (\<lambda>(a, ctx).
          res_bind (variable env ctx expr) (\<lambda>v. Inr (push_anonymous (St_Assert v) a, ctx)))
      | HS_WalSuffixed suffix target \<Rightarrow>
          res_bind (name_type env target) (\<lambda>t.
          res_bind (or_panic (to_mir_type t)) (\<lambda>ty.
            Inr (push_anonymous (St_WalTrace (name_value target) (name_value target) suffix ty) sl_new, ctx)))
      | HS_Set target value \<Rightarrow>
          res_bind (lower env target ctx) (\<lambda>(a, ctx).
          res_bind (lower env value ctx) (\<lambda>(b, ctx).
          res_bind (variable env ctx target) (\<lambda>t.
          res_bind (variable env ctx value) (\<lambda>v.
            Inr (push_anonymous (St_Set t v) (sl_append a b), ctx))))))"
  by pat_completeness auto


termination
proof (relation "measure (case_sum (\<lambda>(env, e, ctx). size e) (\<lambda>(env, s, ctx). size s))", goal_cases)
qed (simp_all, (auto dest!: kind_smaller
    simp: list_elem_smaller call_args_smaller register_parts_smaller list_of_option_def
    split: option.splits intro: prod_fst_smaller [OF _ Suc_lessD] prod_snd_smaller)?)

declare lower.simps [simp del] lower_statement.simps [simp del] variable.simps [simp del]

end
