(* ===== verification/Hir_Eval.thy ===== *)
theory Hir_Eval
  imports Hir_Lowering Pattern_Sound
begin

text \<open>
  What an expression of the HIR means, without its lowering: the value it has in an environment that
  gives names their values. An expression outside the fragment (an instance of a unit, a reference
  into another stage, a mutable wire), a value that does not have the shape its use asks for and an
  integer that does not fit its inferred type have no value. A register has the value that the
  environment holds for it.
\<close>

type_synonym env = "vkey \<Rightarrow> pvalue option"

section \<open>Bindings\<close>

fun pattern_binds :: "hir_pattern \<Rightarrow> pvalue \<Rightarrow> (vkey \<times> pvalue) list"
  and patterns_bind :: "hir_pattern list \<Rightarrow> pvalue list \<Rightarrow> (vkey \<times> pvalue) list" where
  "pattern_binds (HirPat i k l) v =
     (case k of
        HPat_Name n _ \<Rightarrow> [(vn_key (name_value n), v)]
      | HPat_Tuple ps \<Rightarrow> patterns_bind ps (subvalues v)
      | HPat_Array ps \<Rightarrow> patterns_bind ps (subvalues v)
      | HPat_Type x args \<Rightarrow> patterns_bind (map pa_value args) (subvalues v)
      | _ \<Rightarrow> [])"
| "patterns_bind (p # ps) (v # vs) = pattern_binds p v @ patterns_bind ps vs"
| "patterns_bind _ _ = []"

definition bind_pattern :: "hir_pattern \<Rightarrow> pvalue \<Rightarrow> env \<Rightarrow> env" where
  "bind_pattern p v \<sigma> = \<sigma> ++ map_of (pattern_binds p v)"

text \<open>A pattern that the exhaustiveness check can read, on a value of its type.\<close>

definition pattern_on :: "lower_env \<Rightarrow> hir_pattern \<Rightarrow> pvalue \<Rightarrow> bool" where
  "pattern_on env p v \<longleftrightarrow>
     args_in_order (pattern_env_of env) p \<and>
     (case from_hir (pat_context_of env) p of None \<Rightarrow> False | Some d \<Rightarrow> pat_wf d \<and> wt_value v (dp_ty d))"

text \<open>
  The branch of a match: the first whose pattern matches. A branch whose whole pattern is a name is
  left out, see \<open>match_name_undriven\<close>.
\<close>

fun chosen_branch :: "lower_env \<Rightarrow> pvalue \<Rightarrow> (hir_pattern \<times> expression) list \<Rightarrow> (hir_pattern \<times> expression) option" where
  "chosen_branch env v [] = None"
| "chosen_branch env v ((p, e) # branches) =
     (if \<not> pattern_on env p v \<or> pat_is_alias p then None
      else if hir_matches (pat_context_of env) p v then Some (p, e)
      else chosen_branch env v branches)"

lemma chosen_branch_mem: "chosen_branch env v branches = Some b \<Longrightarrow> b \<in> set branches"
  by (induction branches) (auto split: if_splits)

definition bind_binding :: "lower_env \<Rightarrow> hir_pattern \<Rightarrow> pvalue \<Rightarrow> env \<Rightarrow> env option" where
  "bind_binding env p v \<sigma> =
     (if pattern_on env p v \<and> hir_matches (pat_context_of env) p v then Some (bind_pattern p v \<sigma>) else None)"

section \<open>Operators\<close>

fun int_value :: "binary_operator \<Rightarrow> int \<Rightarrow> int \<Rightarrow> pvalue option" where
  "int_value BO_Add a b = Some (PV_Int (a + b))"
| "int_value BO_Sub a b = Some (PV_Int (a - b))"
| "int_value BO_Mul a b = Some (PV_Int (a * b))"
| "int_value BO_Gt a b = Some (PV_Bool (a > b))"
| "int_value BO_Lt a b = Some (PV_Bool (a < b))"
| "int_value BO_Ge a b = Some (PV_Bool (a \<ge> b))"
| "int_value BO_Le a b = Some (PV_Bool (a \<le> b))"
| "int_value _ a b = None"

definition fits_expr :: "lower_env \<Rightarrow> expression \<Rightarrow> pvalue \<Rightarrow> bool" where
  "fits_expr env e v = (case expr_mir_type env (ex_id e) of Inr t \<Rightarrow> fits t v | Inl _ \<Rightarrow> False)"

definition guard_fits :: "lower_env \<Rightarrow> expression \<Rightarrow> pvalue option \<Rightarrow> pvalue option" where
  "guard_fits env e v = (case v of Some x \<Rightarrow> if fits_expr env e x then Some x else None | None \<Rightarrow> None)"

text \<open>Operands of an unsigned type are not negative.\<close>

definition operands_ok :: "lower_env \<Rightarrow> expression \<Rightarrow> int \<Rightarrow> int \<Rightarrow> bool" where
  "operands_ok env lhs a b =
     (case expr_mir_type env (ex_id lhs) of
        Inr (Ty_Int _) \<Rightarrow> True
      | Inr (Ty_UInt _) \<Rightarrow> 0 \<le> a \<and> 0 \<le> b
      | _ \<Rightarrow> False)"

definition binary_value :: "lower_env \<Rightarrow> expression \<Rightarrow> expression \<Rightarrow> binary_operator \<Rightarrow> pvalue \<Rightarrow> pvalue \<Rightarrow> pvalue option"
where
  "binary_value env self lhs oper a b =
     (case (oper, a, b) of
        (BO_Eq, _, _) \<Rightarrow> Some (PV_Bool (a = b))
      | (BO_NotEq, _, _) \<Rightarrow> Some (PV_Bool (a \<noteq> b))
      | (BO_LogicalAnd, PV_Bool x, PV_Bool y) \<Rightarrow> Some (PV_Bool (x \<and> y))
      | (BO_LogicalOr, PV_Bool x, PV_Bool y) \<Rightarrow> Some (PV_Bool (x \<or> y))
      | (BO_LogicalXor, PV_Bool x, PV_Bool y) \<Rightarrow> Some (PV_Bool (x \<noteq> y))
      | (_, PV_Int x, PV_Int y) \<Rightarrow>
          if operands_ok env lhs x y then guard_fits env self (int_value oper x y) else None
      | _ \<Rightarrow> None)"

definition unary_value :: "lower_env \<Rightarrow> expression \<Rightarrow> unary_operator \<Rightarrow> pvalue \<Rightarrow> pvalue option" where
  "unary_value env self oper a =
     (case (oper, a) of
        (UO_Not, PV_Bool x) \<Rightarrow> Some (PV_Bool (\<not> x))
      | (UO_Sub, PV_Int x) \<Rightarrow> guard_fits env self (Some (PV_Int (- x)))
      | (UO_Dereference, _) \<Rightarrow> Some a
      | (UO_Reference, _) \<Rightarrow> Some a
      | _ \<Rightarrow> None)"

text \<open>Parts of a value. An element outside an array has no value.\<close>

definition element :: "pvalue \<Rightarrow> nat \<Rightarrow> pvalue option" where
  "element v i = (case v of PV_Struct vs \<Rightarrow> nth_opt vs i | _ \<Rightarrow> None)"

definition indexed :: "pvalue \<Rightarrow> pvalue \<Rightarrow> pvalue option" where
  "indexed v i = (case i of PV_Int n \<Rightarrow> if 0 \<le> n then element v (nat n) else None | _ \<Rightarrow> None)"

definition slice :: "pvalue \<Rightarrow> nat \<Rightarrow> nat \<Rightarrow> pvalue option" where
  "slice v start stop =
     (case v of
        PV_Struct vs \<Rightarrow> if stop \<le> length vs then Some (PV_Struct (drop start (take stop vs))) else None
      | _ \<Rightarrow> None)"

text \<open>The field of a struct by its name, in a struct that has it once.\<close>

definition field_value :: "lower_env \<Rightarrow> expression \<Rightarrow> ident \<Rightarrow> pvalue \<Rightarrow> pvalue option" where
  "field_value env target field v =
     (case (expr_type env (ex_id target), v) of
        (Inr (CT_Struct _ members), PV_Struct vs) \<Rightarrow>
          if length vs = length members then map_of (zip (map fst members) vs) field else None
      | _ \<Rightarrow> None)"

definition constructed :: "lower_env \<Rightarrow> name_id \<Rightarrow> pvalue list \<Rightarrow> pvalue option" where
  "constructed env callee vs =
     (if special_function_of env callee \<noteq> None then None
      else case le_executables env (nid_num callee) of
             Some (EI_EnumInstance _ variant) \<Rightarrow> Some (PV_Variant variant vs)
           | Some EI_StructInstance \<Rightarrow> Some (PV_Struct vs)
           | _ \<Rightarrow> None)"

section \<open>Expressions and statements\<close>

lemma fold_opt_cong [fundef_cong]:
  "s = t \<Longrightarrow> xs = ys \<Longrightarrow> (\<And>x s. x \<in> set ys \<Longrightarrow> f s x = g s x) \<Longrightarrow> fold_opt f s xs = fold_opt g t ys"
  by (induction xs arbitrary: ys s t) (auto intro: option.case_cong simp: bind_eq_Some_conv split: option.split)

function heval :: "lower_env \<Rightarrow> expression \<Rightarrow> env \<Rightarrow> pvalue option"
  and hexec :: "lower_env \<Rightarrow> hir_statement \<Rightarrow> env \<Rightarrow> env option" where
  "heval env self \<sigma> =
     (case ex_kind self of
        EK_Identifier n \<Rightarrow> \<sigma> (vn_key (name_value n))
      | EK_IntLiteral n _ \<Rightarrow> Some (PV_Int n)
      | EK_BoolLiteral b \<Rightarrow> Some (PV_Bool b)
      | EK_BitLiteral BL_Low \<Rightarrow> Some (PV_Bool False)
      | EK_BitLiteral BL_High \<Rightarrow> Some (PV_Bool True)
      | EK_TypeLevelInteger name \<Rightarrow>
          (case type_level_integer env name of Inr n \<Rightarrow> Some (PV_Int n) | Inl _ \<Rightarrow> None)
      | EK_TupleLiteral es \<Rightarrow> map_option PV_Struct (mapM_opt (\<lambda>e. heval env e \<sigma>) es)
      | EK_ArrayLiteral es \<Rightarrow> map_option PV_Struct (mapM_opt (\<lambda>e. heval env e \<sigma>) es)
      | EK_ArrayShorthandLiteral e n \<Rightarrow> map_option (\<lambda>v. PV_Struct (replicate n v)) (heval env e \<sigma>)
      | EK_Index target index \<Rightarrow>
          Option.bind (heval env target \<sigma>) (\<lambda>v. Option.bind (heval env index \<sigma>) (\<lambda>i. indexed v i))
      | EK_RangeIndex target start stop \<Rightarrow> Option.bind (heval env target \<sigma>) (\<lambda>v. slice v start stop)
      | EK_TupleIndex tup i \<Rightarrow> Option.bind (heval env tup \<sigma>) (\<lambda>v. element v i)
      | EK_FieldAccess target field \<Rightarrow> Option.bind (heval env target \<sigma>) (\<lambda>v. field_value env target field v)
      | EK_BinaryOperator lhs oper rhs \<Rightarrow>
          Option.bind (heval env lhs \<sigma>) (\<lambda>a. Option.bind (heval env rhs \<sigma>) (\<lambda>b.
            binary_value env self lhs oper a b))
      | EK_UnaryOperator oper operand \<Rightarrow> Option.bind (heval env operand \<sigma>) (\<lambda>a. unary_value env self oper a)
      | EK_If cond on_true on_false \<Rightarrow>
          Option.bind (heval env cond \<sigma>) (\<lambda>c.
            case c of PV_Bool b \<Rightarrow> if b then heval env on_true \<sigma> else heval env on_false \<sigma> | _ \<Rightarrow> None)
      | EK_Match operand branches \<Rightarrow>
          Option.bind (heval env operand \<sigma>) (\<lambda>v.
            case chosen_branch env v branches of
              None \<Rightarrow> None
            | Some b \<Rightarrow> heval env (snd b) (bind_pattern (fst b) v \<sigma>))
      | EK_Block (Block statements (Some result)) \<Rightarrow>
          Option.bind (fold_opt (\<lambda>\<sigma> s. hexec env (fst s) \<sigma>) \<sigma> statements) (\<lambda>\<sigma>. heval env result \<sigma>)
      | EK_Call kind callee args _ \<Rightarrow>
          (case match_call_args env kind callee args of
             Inl _ \<Rightarrow> None
           | Inr args \<Rightarrow> Option.bind (mapM_opt (\<lambda>a. heval env (arg_value a) \<sigma>) args) (constructed env callee))
      | _ \<Rightarrow> None)"
| "hexec env s \<sigma> =
     (case s of
        HS_Binding p _ value _ \<Rightarrow> Option.bind (heval env value \<sigma>) (\<lambda>v. bind_binding env p v \<sigma>)
      | HS_Register p _ _ _ _ _ _ \<Rightarrow> Option.bind (\<sigma> (vn_key (pat_value_name p))) (\<lambda>v. bind_binding env p v \<sigma>)
      | HS_Declaration _ \<Rightarrow> Some \<sigma>
      | HS_Label _ \<Rightarrow> Some \<sigma>
      | HS_Assert _ \<Rightarrow> Some \<sigma>
      | HS_WalSuffixed _ _ \<Rightarrow> Some \<sigma>
      | _ \<Rightarrow> None)"
  by pat_completeness auto

termination
proof (relation "measure (case_sum (\<lambda>(env, e, \<sigma>). size e) (\<lambda>(env, s, \<sigma>). size s))", goal_cases)
qed (simp_all, (auto dest!: kind_smaller chosen_branch_mem simp: list_elem_smaller call_args_smaller
    intro: prod_fst_smaller [OF _ Suc_lessD [OF Suc_lessD]] prod_snd_smaller)?)

declare heval.simps [simp del] hexec.simps [simp del]

end
