(* ===== verification/Lower_Sound.thy ===== *)
theory Lower_Sound
  imports Hir_Eval
begin

text \<open>
  The statements of a lowered expression give its name the value that the expression has.
\<close>

section \<open>Bindings of patterns\<close>

definition agrees :: "(vkey \<Rightarrow> pvalue) \<Rightarrow> env \<Rightarrow> bool" where
  "agrees \<rho> \<sigma> \<longleftrightarrow> (\<forall>k v. \<sigma> k = Some v \<longrightarrow> \<rho> k = v)"

lemma patterns_bind_mem:
  "(k, v) \<in> set (patterns_bind ps vs) \<Longrightarrow>
     \<exists>j. j < length ps \<and> j < length vs \<and> (k, v) \<in> set (pattern_binds (ps ! j) (vs ! j))"
proof (induction ps arbitrary: vs)
  case (Cons p ps)
  then obtain w ws where vs: "vs = w # ws" by (cases vs) auto
  then consider "(k, v) \<in> set (pattern_binds p w)" | "(k, v) \<in> set (patterns_bind ps ws)" using Cons.prems by auto
  then show ?case
  proof cases
    case 2
    then obtain j where "j < length ps" "j < length ws" "(k, v) \<in> set (pattern_binds (ps ! j) (ws ! j))"
      using Cons.IH by blast
    then show ?thesis using vs by (intro exI [of _ "Suc j"]) simp
  qed (use vs in \<open>auto intro!: exI [of _ 0]\<close>)
qed simp

lemma pattern_binds_parts:
  "pattern_binds (HirPat i k l) v =
     (case k of HPat_Name n _ \<Rightarrow> [(vn_key (name_value n), v)] | _ \<Rightarrow> patterns_bind (sub_patterns k) (subvalues v))"
  by (cases k) auto

lemma matched_compound:
  assumes "hir_matches ctx (HirPat i k l) v" and "sub_patterns k \<noteq> []"
  shows "ctor_admits (pattern_ctor ctx k) v" and "list_all2 (hir_matches ctx) (sub_patterns k) (subvalues v)"
  using assms by (cases k; auto simp: pattern_ctor_def hirs_match_all2 split: patternable_kind.splits)+

lemma bindings_hold:
  assumes "lower_pattern env p vn tr = Inr (sl, tr')" and "\<forall>s\<in>set (sl_stmts sl). means \<rho> s"
    and "from_hir (pe_pat env) p = Some d" and "pat_wf d" and "wt_value (value_at \<rho> vn) (dp_ty d)"
    and "args_in_order env p" and "hir_matches (pe_pat env) p (value_at \<rho> vn)"
    and "pat_is_alias p \<longrightarrow> value_at \<rho> (pat_value_name p) = value_at \<rho> vn"
    and "(key, v) \<in> set (pattern_binds p (value_at \<rho> vn))"
  shows "\<rho> key = v"
  using assms
proof (induction "size p" arbitrary: p vn tr sl tr' d rule: less_induct)
  case less
  obtain i k l where p: "p = HirPat i k l" by (cases p)
  show ?case
  proof (cases "\<exists>n dec. k = HPat_Name n dec")
    case True
    then show ?thesis using less.prems(8,9) by (auto simp: p pat_is_alias_def pat_value_name_def value_at_def)
  next
    case False
    then have "(key, v) \<in> set (patterns_bind (sub_patterns k) (subvalues (value_at \<rho> vn)))"
      using less.prems(9) by (auto simp: p pattern_binds_parts simp del: pattern_binds.simps split: hir_pattern_kind.splits)
    then obtain j where j: "j < length (sub_patterns k)" "j < length (subvalues (value_at \<rho> vn))"
      and kv: "(key, v) \<in> set (pattern_binds (sub_patterns k ! j) (subvalues (value_at \<rho> vn) ! j))"
      using patterns_bind_mem by blast
    let ?q = "sub_patterns k ! j" and ?part = "subvalues (value_at \<rho> vn) ! j"
    have ne: "sub_patterns k \<noteq> []" using j by auto
    have admits: "ctor_admits (pattern_ctor (pe_pat env) k) (value_at \<rho> vn)"
      and matches: "hir_matches (pe_pat env) ?q ?part"
      using matched_compound [OF less.prems(7) [unfolded p] ne] j by (auto dest: list_all2_nthD)
    obtain s t t' where q: "lower_pattern env ?q (pat_value_name ?q) t = Inr (s, t')" "\<forall>st\<in>set (sl_stmts s). means \<rho> st"
      "value_at \<rho> (pat_value_name ?q) = ?part"
      using lowered_parts [OF less.prems(1) [unfolded p] less.prems(2) less.prems(6) [unfolded p] admits j]
      by (auto simp: has_part_def)
    obtain ds where ds: "mapM_opt (from_hir (pe_pat env)) (sub_patterns k) = Some ds" "list_all pat_wf ds"
      "wt_values (subvalues (value_at \<rho> vn)) (map dp_ty ds)"
      using compound_typed [OF less.prems(3) [unfolded p] less.prems(4,5) admits] ne by blast
    have d: "from_hir (pe_pat env) ?q = Some (ds ! j)" "pat_wf (ds ! j)" "wt_value ?part (dp_ty (ds ! j))"
      using ds j mapM_opt_length [OF ds(1)]
      by (auto simp: mapM_opt_Some_iff wt_values_all2 list_all_length list_all2_conv_all_nth)
    have sz: "size ?q < size p" using sub_pattern_smaller [of ?q k i l] j by (simp add: p)
    moreover have "args_in_order env ?q" by (rule sub_patterns_in_order [OF less.prems(6) [unfolded p]]) (use j in simp)
    ultimately show ?thesis
      using less.hyps [OF sz q(1,2) d(1,2)] q(3) d(3) matches kv by simp
  qed
qed

section \<open>Names\<close>

text \<open>Outside of a pipeline no name stands for another: the stages have no substitutions.\<close>

definition plain :: "lower_ctx \<Rightarrow> bool" where
  "plain ctx \<longleftrightarrow> (\<forall>m\<in>set (stages (lc_subs ctx)). m = Map.empty)"

fun plain_name :: "expression \<Rightarrow> value_name" where
  "plain_name (Expr k i l) =
     (case k of
        EK_Identifier n \<Rightarrow> name_value n
      | EK_Block (Block _ (Some result)) \<Rightarrow> plain_name result
      | _ \<Rightarrow> VN_Expr i)"

lemma nth_opt_mem: "nth_opt xs i = Some x \<Longrightarrow> x \<in> set xs"
  by (auto simp: nth_opt_def split: if_splits)

lemma identifier_name_plain: "plain ctx \<Longrightarrow> identifier_name ctx n = Inr a \<Longrightarrow> a = Some (name_value n)"
  by (auto simp: identifier_name_def subs_lookup_def res_bind_Inr plain_def dest!: nth_opt_mem)

lemma referenced_name_plain: "plain ctx \<Longrightarrow> referenced_name env ctx n d \<noteq> Inr a"
  by (auto simp: referenced_name_def lookup_referenced_def res_bind_Inr plain_def dest!: nth_opt_mem)

lemma variable_plain:
  "variable env ctx e = Inr x \<Longrightarrow> plain ctx \<Longrightarrow> x = plain_name e"
proof (induction "size e" arbitrary: e x rule: less_induct)
  case less
  obtain k i l where e: "e = Expr k i l" by (cases e)
  show ?case
  proof (cases "\<exists>ss result. k = EK_Block (Block ss (Some result))")
    case True
    then obtain ss result where k: "k = EK_Block (Block ss (Some result))" by blast
    then show ?thesis
      using less.prems less.hyps [of result] by (auto simp: variable.simps [of env ctx "Expr _ _ _"] e res_bind_Inr)
  next
    case False
    then show ?thesis
      using less.prems identifier_name_plain [OF less.prems(2)] referenced_name_plain [OF less.prems(2)]
      by (fastforce simp: e variable.simps res_bind_Inr split: expr_kind.splits hir_block.splits option.splits)
  qed
qed

lemma variables_plain: "variables env ctx es = Inr xs \<Longrightarrow> plain ctx \<Longrightarrow> xs = map plain_name es"
  unfolding variables_def mapM_res_Inr list_all2_conv_all_nth
  by (metis length_map nth_equalityI nth_map variable_plain)

lemma push_binding_plain:
  "push_binding env ctx self oper operands ty l result = Inr sl \<Longrightarrow> plain ctx \<Longrightarrow>
     sl_stmts sl = sl_stmts result @ [St_Binding (Binding (plain_name self) oper operands ty l)]"
  by (auto simp: push_binding_def res_bind_Inr dest!: variable_plain)

lemma push_op_plain:
  "push_op env ctx self oper args ty l result = Inr sl \<Longrightarrow> plain ctx \<Longrightarrow>
     sl_stmts sl = sl_stmts result @ [St_Binding (Binding (plain_name self) oper (map plain_name args) ty l)]"
  by (auto simp: push_op_def res_bind_Inr dest!: variables_plain push_binding_plain)

section \<open>Lowering keeps the stages\<close>

lemma mapS_res_invariant:
  assumes "mapS_res f xs s = Inr (ys, s')" and "P s"
    and "\<And>x s y s'. x \<in> set xs \<Longrightarrow> f x s = Inr (y, s') \<Longrightarrow> P s \<Longrightarrow> P s'"
  shows "P s'"
  using assms
proof (induction xs arbitrary: s ys)
  case (Cons x xs)
  then show ?case by (fastforce simp: res_bind_Inr)
qed simp


lemma lower_pattern_ctx_subs: "lower_pattern_ctx env p v ctx = Inr (sl, ctx') \<Longrightarrow> lc_subs ctx' = lc_subs ctx"
  by (auto simp: lower_pattern_ctx_def res_bind_Inr)

lemma pat_condition_ctx_subs: "pat_condition_ctx env p v ctx = Inr (c, ctx') \<Longrightarrow> lc_subs ctx' = lc_subs ctx"
  by (auto simp: pat_condition_ctx_def res_bind_Inr)

lemma create_ports_subs: "create_ports env self t ty ctx = Inr (sl, ctx') \<Longrightarrow> lc_subs ctx' = lc_subs ctx"
  by (auto simp: create_ports_def res_bind_Inr Let_def case_prod_unfold
    split: concrete_type.splits list.splits if_splits)

lemma do_wal_trace_subs: "do_wal_trace_lowering env n w t c sl ctx = Inr (sl', ctx') \<Longrightarrow> lc_subs ctx' = lc_subs ctx"
  unfolding do_wal_trace_lowering_def
  apply (elim res_bind_Inr [THEN iffD1, elim_format] exE conjE)
  apply (cases c; simp only: concrete_type.case sum.distinct)
  apply (elim res_bind_Inr [THEN iffD1, elim_format] exE conjE)
  apply (simp only: Let_def case_prod_unfold)
  apply (clarsimp)
  done

lemma lower_wal_trace_subs: "lower_wal_trace env p w t sl ctx = Inr (sl', ctx') \<Longrightarrow> lc_subs ctx' = lc_subs ctx"
  unfolding lower_wal_trace_def
  apply (elim res_bind_Inr [THEN iffD1, elim_format] exE conjE)
  apply (simp only: split: type_var.split_asm known_type.split_asm option.split_asm type_decl_kind.split_asm)
  apply (simp_all add: do_wal_trace_subs)
  done
lemma finish_call_subs: "finish_call env self n args target il init r ctx = Inr (sl, ctx') \<Longrightarrow> lc_subs ctx' = lc_subs ctx"
  by (auto simp: finish_call_def handle_item_def instance_unit_def res_bind_Inr Let_def case_prod_unfold
    split: call_target.splits option.splits executable_item.splits if_splits)

abbreviation same_stages :: "lower_ctx \<Rightarrow> lower_ctx \<Rightarrow> bool" where
  "same_stages ctx ctx' \<equiv>
     stages (lc_subs ctx') = stages (lc_subs ctx) \<and> live_vars (lc_subs ctx') = live_vars (lc_subs ctx)"

lemmas ctx_subs = lower_pattern_ctx_subs pat_condition_ctx_subs create_ports_subs lower_wal_trace_subs finish_call_subs

lemma mapS_same_stages:
  "mapS_res f xs ctx = Inr (ys, ctx') \<Longrightarrow>
     (\<And>x ctx y ctx'. x \<in> set xs \<Longrightarrow> f x ctx = Inr (y, ctx') \<Longrightarrow> same_stages ctx ctx') \<Longrightarrow> same_stages ctx ctx'"
  by (rule mapS_res_invariant [where P = "same_stages ctx"]) auto



lemma lower_call_parts:
  assumes "lower env e ctx = Inr (sl, ctx')" and "ex_kind e = EK_Call kind callee args t"
  obtains args' sls c1 target il again initial c2 where
    "match_call_args env kind callee args = Inr args'"
    "mapS_res (\<lambda>a. lower env (arg_value a)) args' ctx = Inr (sls, c1)"
    "relowered env e args' target = Inr again" "mapS_res (lower env) again c1 = Inr (initial, c2)"
    "finish_call env e callee args' target il (map sl_stmts initial) (sl_concat sls) c2 = Inr (sl, ctx')"
    "call_target_of env e callee = Inr (target, il)"
  using assms by (fastforce simp: lower.simps [of env e] res_bind_Inr Let_def)

lemma lower_same_stages:
  "lower env e ctx = Inr (sl, ctx') \<Longrightarrow> same_stages ctx ctx'"
  "lower_statement env s ctx = Inr (sl, ctx') \<Longrightarrow> same_stages ctx ctx'"
proof -
  have IH: "(\<forall>e ctx sl ctx'. size e < n \<longrightarrow> lower env e ctx = Inr (sl, ctx') \<longrightarrow> same_stages ctx ctx') \<and>
    (\<forall>s ctx sl ctx'. size s < n \<longrightarrow> lower_statement env s ctx = Inr (sl, ctx') \<longrightarrow> same_stages ctx ctx')" for n
  proof (induction n)
    case (Suc n)
    have e: "same_stages ctx ctx'" if "size e = n" "lower env e ctx = Inr (sl, ctx')" for e ctx sl ctx'
    proof -
      have IHe: "size x < size e \<Longrightarrow> lower env x c = Inr (l, c') \<Longrightarrow> same_stages c c'" for x c l c'
        using Suc that(1) by blast
      have IHs: "size x < size e \<Longrightarrow> lower_statement env x c = Inr (l, c') \<Longrightarrow> same_stages c c'" for x c l c'
        using Suc that(1) by blast
      have IHm: "\<forall>x\<in>set es. size x < size e \<Longrightarrow> mapS_res (lower env) es c = Inr (l, c') \<Longrightarrow> same_stages c c'" for es c l c'
        by (erule mapS_same_stages) (use IHe in blast)
      show ?thesis
      proof (cases "ex_kind e")
        case (EK_BinaryOperator l oper r)
        then show ?thesis using that(2) kind_smaller [OF EK_BinaryOperator]
         by (auto simp: lower.simps [of env e] res_bind_Inr Let_def dest!: IHe [rotated])
      next
        case (EK_Match operand bs)
        have branch: "same_stages c c'"
          if "x \<in> set bs" and "(case x of (p, result_expr) \<Rightarrow> \<lambda>ctx.
             res_bind (variable env ctx operand) (\<lambda>v.
             res_bind (lower_pattern_ctx env p v ctx) (\<lambda>(parts, ctx).
             res_bind (pat_condition_ctx env p v ctx) (\<lambda>((statements, cond), ctx).
             res_bind (lower env result_expr ctx) (\<lambda>(b, ctx).
             res_bind (variable env ctx result_expr) (\<lambda>r.
               Inr ((sl_append (append_secondary statements (NO_Expr (hp_id p)) ''Pattern condition'' parts) b,
                     [cond, r]), ctx))))))) c = Inr (y, c')" for x c y c'
        proof -
          have "size (snd x) < size e"
            using prod_snd_smaller [of "fst x" "snd x" bs "\<lambda>_. 0" "size operand"] kind_smaller [OF EK_Match] that(1) by simp
          then show ?thesis
            using that(2) by (cases x) (auto simp: res_bind_Inr dest!: IHe [rotated] ctx_subs)
        qed
        then show ?thesis using that(2) kind_smaller [OF EK_Match] EK_Match
          by (auto simp: lower.simps [of env e] res_bind_Inr Let_def dest!: IHe [rotated] mapS_same_stages)
      next
        case (EK_Call kind callee args t)
        note lowered = that(2)
        obtain args' sls c1 target il again initial c2 where call: "match_call_args env kind callee args = Inr args'"
          "mapS_res (\<lambda>a. lower env (arg_value a)) args' ctx = Inr (sls, c1)"
          "relowered env e args' target = Inr again" "mapS_res (lower env) again c1 = Inr (initial, c2)"
          "finish_call env e callee args' target il (map sl_stmts initial) (sl_concat sls) c2 = Inr (sl, ctx')"
          by (rule lower_call_parts [OF lowered EK_Call])
        have "Suc (size_argument_list size args) < size e" using kind_smaller [OF EK_Call] by simp
        note smaller = call_args_smaller [OF call(1) this]
        have "same_stages ctx c1" by (rule mapS_same_stages [OF call(2)]) (use smaller(1) IHe in blast)
        moreover have "same_stages c1 c2" by (rule IHm [OF _ call(4)]) (use smaller(2) call(3) in blast)
        ultimately show ?thesis using finish_call_subs [OF call(5)] by simp
      next
        case (EK_Block b)
        obtain ss r where b: "b = Block ss r" by (cases b)
        have small: "size (fst x) < size e" if "x \<in> set ss" for x
          using kind_smaller [OF EK_Block] that b prod_fst_smaller [of "fst x" "snd x" ss "\<lambda>_. 0" "size_option size r"]
          by auto
        have block: "same_stages c c'"
          if "mapS_res (\<lambda>(s, _). lower_statement env s) ss c = Inr (l, c')" for c l c'
          by (rule mapS_same_stages [OF that]) (use IHs [OF small] in \<open>force split: prod.splits\<close>)
        show ?thesis using that(2) kind_smaller [OF EK_Block] EK_Block b
          by (auto simp: lower.simps [of env e] res_bind_Inr Let_def dest!: IHe [rotated] block split: option.splits)
      qed (use that(2) in \<open>auto simp: lower.simps [of env e] res_bind_Inr Let_def list_elem_smaller
          dest!: IHe [rotated] IHm [rotated] create_ports_subs dest: kind_smaller [THEN less_trans [rotated]] kind_smaller split: option.splits\<close>)
    qed
    have st: "same_stages ctx ctx'" if "size s = n" "lower_statement env s ctx = Inr (sl, ctx')" for s ctx sl ctx'
    proof -
      have IHe: "size x < size s \<Longrightarrow> lower env x c = Inr (l, c') \<Longrightarrow> same_stages c c'" for x c l c'
        using Suc that(1) by blast
      have IHm: "\<forall>x\<in>set es. size x < size s \<Longrightarrow> mapS_res (lower env) es c = Inr (l, c') \<Longrightarrow> same_stages c c'" for es c l c'
        by (erule mapS_same_stages) (use IHe in blast)
      show ?thesis
        using that(2)
        by (cases s) (auto simp: lower_statement.simps res_bind_Inr Let_def register_parts_def list_of_option_def
          dest!: IHe [rotated] IHm [rotated] ctx_subs split: option.splits if_splits)
    qed
    show ?case using e st Suc by (metis less_Suc_eq)
  qed simp
  show "lower env e ctx = Inr (sl, ctx') \<Longrightarrow> same_stages ctx ctx'"
    using IH [of "Suc (size e)"] by blast
  show "lower_statement env s ctx = Inr (sl, ctx') \<Longrightarrow> same_stages ctx ctx'"
    using IH [of "Suc (size s)"] by blast
qed


lemma same_stages_plain: "same_stages ctx ctx' \<Longrightarrow> plain ctx \<Longrightarrow> plain ctx'"
  by (simp add: plain_def)

lemmas lower_plain = lower_same_stages [THEN same_stages_plain]

lemma mapS_lower_plain: "mapS_res (lower env) es ctx = Inr (sls, ctx') \<Longrightarrow> plain ctx \<Longrightarrow> plain ctx'"
  by (rule same_stages_plain [OF mapS_same_stages]) (assumption, rule lower_same_stages)

lemma ctx_plain: "lc_subs ctx' = lc_subs ctx \<Longrightarrow> plain ctx \<Longrightarrow> plain ctx'"
  by (simp add: plain_def)

section \<open>Operators\<close>

lemma binary_means:
  assumes "binary_value env self lhs oper a b = Some v" and "binop_operator env oper lhs = Inr m"
    and "expr_mir_type env (ex_id self) = Inr ty" and "op_means m [a, b] r" and "arith_means m ty [a, b] r"
  shows "r = v"
  using assms
  by (cases oper; cases a; cases b)
     (auto simp: binary_value_def binop_operator_def guard_fits_def fits_expr_def operands_ok_def on_naturals_def
       or_panic_def res_bind_Inr split: if_splits option.splits mir_type.splits sum.splits)

lemma unary_means:
  assumes "unary_value env self oper a = Some v"
    and "expr_mir_type env (ex_id self) = Inr ty" and "op_means (unop_operator oper) [a] r"
    and "arith_means (unop_operator oper) ty [a] r"
  shows "r = v"
  using assms by (cases oper; cases a) (auto simp: unary_value_def guard_fits_def fits_expr_def split: if_splits)

lemma element_means: "element w i = Some v \<Longrightarrow> member_of w i r \<Longrightarrow> r = v"
  by (auto simp: element_def member_of_def nth_opt_def split: pvalue.splits if_splits)

lemma slice_means: "slice w start stop = Some v \<Longrightarrow> op_means (Op_RangeIndexArray start stop) [w] r \<Longrightarrow> r = v"
  by (auto simp: slice_def split: pvalue.splits if_splits)

lemma indexed_means: "indexed w i = Some v \<Longrightarrow> op_means Op_IndexArray [w, i] r \<Longrightarrow> r = v"
  by (auto simp: indexed_def split: pvalue.splits if_splits intro: element_means)

lemma single_field:
  assumes "map fst (filter (\<lambda>(i, m). fst m = field) (zip [0..<length members] members)) = [i]"
    and "length vs = length members" and "map_of (zip (map fst members) vs) field = Some v"
  shows "i < length vs \<and> vs ! i = v"
proof -
  obtain j where j: "j < length members" "fst (members ! j) = field" "vs ! j = v"
    using map_of_SomeD [OF assms(3)] assms(2) by (auto simp: set_zip)
  then have "j \<in> set (map fst (filter (\<lambda>(i, m). fst m = field) (zip [0..<length members] members)))"
    by (force simp: set_zip)
  then have "j = i" by (simp add: assms(1))
  then show ?thesis using j assms(2) by simp
qed

lemma field_means:
  assumes "field_access env target field = Inr (i, types)" and "field_value env target field w = Some v"
    and "member_of w i r"
  shows "r = v"
proof -
  obtain name members vs where "expr_type env (ex_id target) = Inr (CT_Struct name members)" and w: "w = PV_Struct vs"
    and len: "length vs = length members" and v: "map_of (zip (map fst members) vs) field = Some v"
    using assms(2) by (auto simp: field_value_def split: sum.splits concrete_type.splits pvalue.splits if_splits)
  then obtain ms where "to_mir_type (CT_Struct name members) = Some (Ty_Struct ms)"
    and "expr_type env (ex_id target) = Inr (CT_Struct name members)"
    using assms(1) by (auto simp: field_access_def res_bind_Inr)
  then have "map fst (filter (\<lambda>(i, m). fst m = field) (zip [0..<length members] members)) = [i]"
    using assms(1)
    by (cases "map fst (filter (\<lambda>(i, m). fst m = field) (zip [0..<length members] members))")
       (auto simp: field_access_def or_panic_def simp del: map_eq_Cons_conv to_mir_type.simps split: list.split_asm)
  from single_field [OF this len v] show ?thesis using assms(3) by (simp add: w member_of_def)
qed


section \<open>The value of a lowered expression\<close>

definition sound_at :: "(vkey \<Rightarrow> pvalue) \<Rightarrow> lower_env \<Rightarrow> expression \<Rightarrow> bool" where
  "sound_at \<rho> env e \<longleftrightarrow>
     (\<forall>\<sigma> v ctx sl ctx'. heval env e \<sigma> = Some v \<and> lower env e ctx = Inr (sl, ctx') \<and> plain ctx \<and>
        (\<forall>s\<in>set (sl_stmts sl). means \<rho> s) \<and> agrees \<rho> \<sigma> \<longrightarrow> value_at \<rho> (plain_name e) = v)"

lemma sound_atD:
  "sound_at \<rho> env e \<Longrightarrow> heval env e \<sigma> = Some v \<Longrightarrow> lower env e ctx = Inr (sl, ctx') \<Longrightarrow> plain ctx \<Longrightarrow>
     \<forall>s\<in>set (sl_stmts sl). means \<rho> s \<Longrightarrow> agrees \<rho> \<sigma> \<Longrightarrow> value_at \<rho> (plain_name e) = v"
  unfolding sound_at_def by blast

definition step_sound_at :: "(vkey \<Rightarrow> pvalue) \<Rightarrow> lower_env \<Rightarrow> hir_statement \<Rightarrow> bool" where
  "step_sound_at \<rho> env s \<longleftrightarrow>
     (\<forall>\<sigma> \<sigma>' ctx sl ctx'. hexec env s \<sigma> = Some \<sigma>' \<and> lower_statement env s ctx = Inr (sl, ctx') \<and> plain ctx \<and>
        (\<forall>s\<in>set (sl_stmts sl). means \<rho> s) \<and> agrees \<rho> \<sigma> \<longrightarrow> agrees \<rho> \<sigma>')"

lemma sound_values:
  assumes "\<forall>e\<in>set es. sound_at \<rho> env e" and "mapS_res (lower env) es ctx = Inr (sls, ctx')" and "plain ctx"
    and "\<forall>s\<in>set (concat (map sl_stmts sls)). means \<rho> s" and "mapM_opt (\<lambda>e. heval env e \<sigma>) es = Some vs"
    and "agrees \<rho> \<sigma>"
  shows "map (\<lambda>e. value_at \<rho> (plain_name e)) es = vs"
  using assms
proof (induction es arbitrary: ctx sls vs)
  case (Cons e es)
  obtain sl c1 sls' where l: "lower env e ctx = Inr (sl, c1)" "mapS_res (lower env) es c1 = Inr (sls', ctx')"
    "sls = sl # sls'"
    using Cons.prems(2) by (auto simp: res_bind_Inr)
  obtain v vs' where v: "heval env e \<sigma> = Some v" "mapM_opt (\<lambda>e. heval env e \<sigma>) es = Some vs'" "vs = v # vs'"
    using Cons.prems(5) by (auto simp: bind_eq_Some_conv split: option.splits)
  have "value_at \<rho> (plain_name e) = v" using Cons.prems l v by (auto intro: sound_atD)
  moreover have "map (\<lambda>e. value_at \<rho> (plain_name e)) es = vs'"
    by (rule Cons.IH [OF _ l(2)]) (use Cons.prems l v lower_plain(1) in auto)
  ultimately show ?case by (simp add: v)
qed simp

lemma agrees_binds:
  "agrees \<rho> \<sigma> \<Longrightarrow> (\<And>k w. (k, w) \<in> set (pattern_binds p v) \<Longrightarrow> \<rho> k = w) \<Longrightarrow> agrees \<rho> (bind_pattern p v \<sigma>)"
  by (auto simp: agrees_def bind_pattern_def map_add_Some_iff dest: map_of_SomeD)

lemma pattern_agrees:
  assumes "lower_pattern_ctx env p vn ctx = Inr (sl, ctx')" and "\<forall>s\<in>set (sl_stmts sl). means \<rho> s"
    and "pattern_on env p (value_at \<rho> vn)" and "hir_matches (pat_context_of env) p (value_at \<rho> vn)"
    and "pat_is_alias p \<longrightarrow> value_at \<rho> (pat_value_name p) = value_at \<rho> vn" and "agrees \<rho> \<sigma>"
  shows "agrees \<rho> (bind_pattern p (value_at \<rho> vn) \<sigma>)"
proof (rule agrees_binds [OF assms(6)])
  fix k w assume "(k, w) \<in> set (pattern_binds p (value_at \<rho> vn))"
  moreover obtain t where "lower_pattern (pattern_env_of env) p vn (lc_ids ctx) = Inr (sl, t)"
    using assms(1) by (auto simp: lower_pattern_ctx_def res_bind_Inr)
  ultimately show "\<rho> k = w"
    using bindings_hold [of "pattern_env_of env" p vn "lc_ids ctx" sl t \<rho>] assms(2-5)
    by (auto simp: pattern_on_def pattern_env_of_def split: option.splits)
qed


text \<open>The branches of a match: the operands of the operator are the conditions with the results.\<close>

definition lower_branch :: "lower_env \<Rightarrow> expression \<Rightarrow> hir_pattern \<times> expression \<Rightarrow> lower_ctx \<Rightarrow>
    lower_error + (statement_list \<times> value_name list) \<times> lower_ctx" where
  "lower_branch env operand = (\<lambda>(p, result_expr) ctx.
     res_bind (variable env ctx operand) (\<lambda>v.
     res_bind (lower_pattern_ctx env p v ctx) (\<lambda>(parts, ctx).
     res_bind (pat_condition_ctx env p v ctx) (\<lambda>((statements, cond), ctx).
     res_bind (lower env result_expr ctx) (\<lambda>(b, ctx).
     res_bind (variable env ctx result_expr) (\<lambda>r.
       Inr ((sl_append (append_secondary statements (NO_Expr (hp_id p)) ''Pattern condition'' parts) b,
             [cond, r]), ctx)))))))"

lemma lower_branch_parts:
  assumes "lower_branch env operand (p, e) ctx = Inr (b, ctx')" and "plain ctx"
  obtains parts c1 ss cond c2 sl where "lower_pattern_ctx env p (plain_name operand) ctx = Inr (parts, c1)"
    "pat_condition_ctx env p (plain_name operand) c1 = Inr ((ss, cond), c2)" "lower env e c2 = Inr (sl, ctx')"
    "plain c2" "plain ctx'" "sl_stmts (fst b) = sl_stmts parts @ ss @ sl_stmts sl" "snd b = [cond, plain_name e]"
proof -
  obtain v parts c1 ss cond c2 sl r where l: "variable env ctx operand = Inr v" "lower_pattern_ctx env p v ctx = Inr (parts, c1)"
    "pat_condition_ctx env p v c1 = Inr ((ss, cond), c2)" "lower env e c2 = Inr (sl, ctx')" "variable env ctx' e = Inr r"
    and b: "b = (sl_append (append_secondary ss (NO_Expr (hp_id p)) ''Pattern condition'' parts) sl, [cond, r])"
    using assms(1) by (auto simp: lower_branch_def res_bind_Inr)
  have "plain c2" using assms(2) l(2,3) by (auto dest!: ctx_subs intro: ctx_plain)
  moreover from this have "plain ctx'" using lower_plain(1) [OF l(4)] by blast
  ultimately show thesis using that l b variable_plain [OF l(1) assms(2)] variable_plain [OF l(5)] by simp
qed

lemma condition_at:
  assumes "lower_pattern_ctx env p vn ctx = Inr (sl, ctx')" and "pat_condition_ctx env p vn c1 = Inr ((ss, r), c2)"
    and "\<forall>s\<in>set (sl_stmts sl). means \<rho> s" and "\<forall>s\<in>set ss. means \<rho> s" and "pattern_on env p (value_at \<rho> vn)"
  shows "truth (value_at \<rho> r) \<longleftrightarrow> hir_matches (pat_context_of env) p (value_at \<rho> vn)"
proof -
  obtain t t' where "lower_pattern (pattern_env_of env) p vn (lc_ids ctx) = Inr (sl, t)"
    and "pat_condition (pattern_env_of env) p vn (lc_ids c1) = Inr ((ss, r), t')"
    using assms(1,2) by (auto simp: lower_pattern_ctx_def pat_condition_ctx_def res_bind_Inr)
  moreover obtain d where "from_hir (pat_context_of env) p = Some d" "pat_wf d" "wt_value (value_at \<rho> vn) (dp_ty d)"
    "args_in_order (pattern_env_of env) p"
    using assms(5) by (auto simp: pattern_on_def split: option.splits)
  moreover have "pe_pat (pattern_env_of env) = pat_context_of env" by (simp add: pattern_env_of_def)
  ultimately show ?thesis
    using pattern_condition_sound [of "pattern_env_of env" \<rho> p, unfolded condition_sound_def] assms(3,4) by metis
qed

lemma sound_match:
  assumes "\<forall>b\<in>set branches. sound_at \<rho> env (snd b)" and "mapS_res (lower_branch env operand) branches ctx = Inr (bs, ctx')"
    and "plain ctx" and "\<forall>s\<in>set (concat (map (\<lambda>b. sl_stmts (fst b)) bs)). means \<rho> s"
    and "value_at \<rho> (plain_name operand) = w" and "chosen_branch env w branches = Some (p, e)"
    and "heval env e (bind_pattern p w \<sigma>) = Some v" and "agrees \<rho> \<sigma>"
  shows "first_true (map (value_at \<rho>) (concat (map snd bs))) = Some v"
  using assms
proof (induction branches arbitrary: ctx bs)
  case (Cons x branches)
  obtain q f where x: "x = (q, f)" by (cases x)
  obtain b c1 bs' where l: "lower_branch env operand (q, f) ctx = Inr (b, c1)"
    "mapS_res (lower_branch env operand) branches c1 = Inr (bs', ctx')" "bs = b # bs'"
    using Cons.prems(2) by (auto simp: res_bind_Inr x)
  obtain parts ca ss cond cb sl where b: "lower_pattern_ctx env q (plain_name operand) ctx = Inr (parts, ca)"
    "pat_condition_ctx env q (plain_name operand) ca = Inr ((ss, cond), cb)" "lower env f cb = Inr (sl, c1)"
    "plain cb" "plain c1" "sl_stmts (fst b) = sl_stmts parts @ ss @ sl_stmts sl" "snd b = [cond, plain_name f]"
    by (rule lower_branch_parts [OF l(1) Cons.prems(3)])
  have m: "\<forall>s\<in>set (sl_stmts parts). means \<rho> s" "\<forall>s\<in>set ss. means \<rho> s" "\<forall>s\<in>set (sl_stmts sl). means \<rho> s"
    using Cons.prems(4) b(6) l(3) by auto
  have on: "pattern_on env q w" "\<not> pat_is_alias q" using Cons.prems(6) by (auto simp: x split: if_splits)
  have cond: "truth (value_at \<rho> cond) \<longleftrightarrow> hir_matches (pat_context_of env) q w"
    using condition_at [OF b(1,2) m(1,2)] on(1) Cons.prems(5) by simp
  show ?case
  proof (cases "hir_matches (pat_context_of env) q w")
    case True
    then have eq: "p = q" "e = f" using Cons.prems(6) on by (auto simp: x)
    have "agrees \<rho> (bind_pattern q w \<sigma>)"
      using pattern_agrees [OF b(1) m(1)] on True Cons.prems(5,8) by simp
    then have "value_at \<rho> (plain_name f) = v"
      using Cons.prems(1,7) eq b(3,4) m(3) by (auto simp: x intro: sound_atD)
    then show ?thesis using True cond by (simp add: l(3) b(7))
  next
    case False
    then have "chosen_branch env w branches = Some (p, e)" using Cons.prems(6) on by (simp add: x)
    then have "first_true (map (value_at \<rho>) (concat (map snd bs'))) = Some v"
      using Cons.IH [OF _ l(2) b(5)] Cons.prems(1,4,5,7,8) l(3) by simp
    then show ?thesis using False cond by (simp add: l(3) b(7))
  qed
qed simp

lemma sound_steps:
  assumes "\<forall>s\<in>set statements. step_sound_at \<rho> env (fst s)"
    and "mapS_res (\<lambda>(s, _) ctx. lower_statement env s ctx) statements ctx = Inr (sls, ctx')" and "plain ctx"
    and "\<forall>s\<in>set (concat (map sl_stmts sls)). means \<rho> s"
    and "fold_opt (\<lambda>\<sigma> s. hexec env (fst s) \<sigma>) \<sigma> statements = Some \<sigma>'" and "agrees \<rho> \<sigma>"
  shows "agrees \<rho> \<sigma>' \<and> plain ctx'"
  using assms
proof (induction statements arbitrary: ctx sls \<sigma>)
  case (Cons s statements)
  obtain sl c1 sls' where l: "lower_statement env (fst s) ctx = Inr (sl, c1)"
    "mapS_res (\<lambda>(s, _) ctx. lower_statement env s ctx) statements c1 = Inr (sls', ctx')" "sls = sl # sls'"
    using Cons.prems(2) by (cases s) (auto simp: res_bind_Inr)
  obtain \<sigma>1 where h: "hexec env (fst s) \<sigma> = Some \<sigma>1"
    "fold_opt (\<lambda>\<sigma> s. hexec env (fst s) \<sigma>) \<sigma>1 statements = Some \<sigma>'"
    using Cons.prems(5) by (auto simp: bind_eq_Some_conv)
  have "agrees \<rho> \<sigma>1"
    using Cons.prems(1,3,4,6) l(1,3) h(1) by (fastforce simp: step_sound_at_def)
  then show ?case
    using Cons.IH [OF _ l(2) _ _ h(2)] Cons.prems(1,4) lower_plain(2) [OF l(1) Cons.prems(3)] l(3) by simp
qed simp


lemma plain_name_expr:
  "ex_kind e = k \<Longrightarrow> (\<forall>n. k \<noteq> EK_Identifier n) \<Longrightarrow> (\<forall>ss r. k \<noteq> EK_Block (Block ss (Some r))) \<Longrightarrow>
     plain_name e = VN_Expr (ex_id e)"
  by (cases e) (auto split: expr_kind.split hir_block.split option.split)

lemma plain_name_block: "ex_kind e = EK_Block (Block ss (Some r)) \<Longrightarrow> plain_name e = plain_name r"
  by (cases e) auto

lemma plain_name_identifier: "ex_kind e = EK_Identifier n \<Longrightarrow> plain_name e = name_value n"
  by (cases e) auto

lemma constructed_means:
  assumes "constructed env callee vs = Some v" and "call_target_of env self callee = Inr (target, il)"
    and "finish_call env self callee args target il initial result ctx = Inr (sl, ctx')" and "plain ctx"
  shows "\<exists>oper ty. sl_stmts sl = sl_stmts result @
      [St_Binding (Binding (plain_name self) oper (map plain_name (arg_exprs args)) ty (Some (ex_loc self)))] \<and>
    (\<forall>r. op_means oper vs r \<longrightarrow> r = v)"
proof -
  have "special_function_of env callee = None" using assms(1) by (simp add: constructed_def del: not_None_eq split: if_splits)
  then have "target = CTG_Item" using assms(2) by (auto simp: call_target_of_def res_bind_Inr)
  then show ?thesis
    using assms(1,3,4)
    by (auto simp: constructed_def finish_call_def handle_item_def res_bind_Inr Let_def dest!: push_op_plain
      split: if_splits option.splits executable_item.splits)
qed

text \<open>
  One expression, given that smaller expressions and statements are sound: the value it has in an
  environment, its statements, and names for which the statements hold.
\<close>

definition below_sound :: "(vkey \<Rightarrow> pvalue) \<Rightarrow> lower_env \<Rightarrow> expression \<Rightarrow> bool" where
  "below_sound \<rho> env e \<longleftrightarrow>
     (\<forall>x. size x < size e \<longrightarrow> sound_at \<rho> env x) \<and> (\<forall>s. size s < size e \<longrightarrow> step_sound_at \<rho> env s)"

lemma below_sound_list:
  "below_sound \<rho> env e \<Longrightarrow> Suc (size_list size es) < size e \<Longrightarrow> \<forall>x\<in>set es. sound_at \<rho> env x"
  using list_elem_smaller by (fastforce simp: below_sound_def)

definition evaluated ::
  "(vkey \<Rightarrow> pvalue) \<Rightarrow> lower_env \<Rightarrow> expression \<Rightarrow> env \<Rightarrow> pvalue \<Rightarrow> lower_ctx \<Rightarrow> statement_list \<Rightarrow> lower_ctx \<Rightarrow> bool" where
  "evaluated \<rho> env e \<sigma> v ctx sl ctx' \<longleftrightarrow>
     heval env e \<sigma> = Some v \<and> lower env e ctx = Inr (sl, ctx') \<and> plain ctx \<and> plain ctx' \<and>
     (\<forall>s\<in>set (sl_stmts sl). means \<rho> s) \<and> agrees \<rho> \<sigma>"

lemma evaluatedD:
  assumes "evaluated \<rho> env e \<sigma> v ctx sl ctx'"
  shows "heval env e \<sigma> = Some v" "lower env e ctx = Inr (sl, ctx')" "plain ctx" "plain ctx'"
    "\<forall>s\<in>set (sl_stmts sl). means \<rho> s" "agrees \<rho> \<sigma>"
  using assms by (simp_all add: evaluated_def)

lemma below_value:
  assumes "below_sound \<rho> env e" and "agrees \<rho> \<sigma>" and "size x < size e" and "heval env x \<sigma> = Some v"
    and "lower env x ctx = Inr (sl, ctx')" and "plain ctx" and "\<forall>s\<in>set (sl_stmts sl). means \<rho> s"
  shows "value_at \<rho> (plain_name x) = v" and "plain ctx'"
  using sound_atD [OF _ assms(4-7,2)] lower_plain(1) [OF assms(5,6)] assms(1,3) by (auto simp: below_sound_def)

text \<open>One and two operands.\<close>

lemma one_operand:
  assumes "below_sound \<rho> env e" and "evaluated \<rho> env e \<sigma> v ctx sl ctx'" and "size x < size e"
    and "heval env x \<sigma> = Some a" and "lower env x ctx = Inr (ca, ctx')"
    and "push_op env ctx' e oper (replicate n x) ty here ca = Inr sl"
  shows "op_means oper (replicate n a) (value_at \<rho> (plain_name e)) \<and>
    arith_means oper ty (replicate n a) (value_at \<rho> (plain_name e))"
proof -
  note ev = evaluatedD [OF assms(2)]
  have st: "sl_stmts sl = sl_stmts ca @ [St_Binding (Binding (plain_name e) oper (replicate n (plain_name x)) ty here)]"
    using push_op_plain [OF assms(6) ev(4)] by simp
  have "value_at \<rho> (plain_name x) = a"
    by (rule below_value(1) [OF assms(1) ev(6) assms(3,4,5) ev(3)]) (use ev(5) st in auto)
  then show ?thesis using ev(5) st by simp
qed

lemma two_operands:
  assumes "below_sound \<rho> env e" and "evaluated \<rho> env e \<sigma> v ctx sl ctx'" and "size x < size e" "size y < size e"
    and "heval env x \<sigma> = Some a" "heval env y \<sigma> = Some b"
    and "lower env x ctx = Inr (ca, c1)" "lower env y c1 = Inr (cb, ctx')"
    and "push_op env ctx' e oper [x, y] ty here (sl_append ca cb) = Inr sl"
  shows "op_means oper [a, b] (value_at \<rho> (plain_name e)) \<and> arith_means oper ty [a, b] (value_at \<rho> (plain_name e))"
proof -
  note ev = evaluatedD [OF assms(2)]
  have st: "sl_stmts sl = sl_stmts ca @ sl_stmts cb @ [St_Binding (Binding (plain_name e) oper [plain_name x, plain_name y] ty here)]"
    using push_op_plain [OF assms(9) ev(4)] by simp
  have m: "\<forall>s\<in>set (sl_stmts ca). means \<rho> s" "\<forall>s\<in>set (sl_stmts cb). means \<rho> s" using ev(5) st by auto
  note x = below_value [OF assms(1) ev(6) assms(3,5,7) ev(3) m(1)]
  have "value_at \<rho> (plain_name y) = b" by (rule below_value(1) [OF assms(1) ev(6) assms(4,6,8) x(2) m(2)])
  then show ?thesis using ev(5) st x(1) by simp
qed

lemma literal_sound:
  assumes "evaluated \<rho> env e \<sigma> v ctx sl ctx'" and k: "ex_kind e = EK_TupleLiteral es \<or> ex_kind e = EK_ArrayLiteral es"
    and "below_sound \<rho> env e"
  shows "value_at \<rho> (plain_name e) = v"
proof -
  note ev = evaluatedD [OF assms(1)]
  obtain vs where vs: "mapM_opt (\<lambda>x. heval env x \<sigma>) es = Some vs" "v = PV_Struct vs"
    using ev(1) k by (auto simp: heval.simps [of env e])
  obtain sls oper ty where lo: "mapS_res (lower env) es ctx = Inr (sls, ctx')"
      "push_op env ctx' e oper es ty (Some (ex_loc e)) (sl_concat sls) = Inr sl"
    and oper: "oper = Op_ConstructTuple \<or> oper = Op_ConstructArray"
    using ev(2) k by (auto simp: lower.simps [of env e] res_bind_Inr Let_def)
  note st = push_op_plain [OF lo(2) ev(4)]
  have "Suc (size_list size es) < size e" using k kind_smaller [of e] by fastforce
  from sound_values [OF below_sound_list [OF assms(3) this] lo(1) ev(3) _ vs(1) ev(6)]
  show ?thesis using ev(5) st oper vs(2) by (auto simp: comp_def)
qed

lemma if_sound:
  assumes "evaluated \<rho> env e \<sigma> v ctx sl ctx'" and k: "ex_kind e = EK_If cond on_true on_false" and "below_sound \<rho> env e"
  shows "value_at \<rho> (plain_name e) = v"
proof -
  note ev = evaluatedD [OF assms(1)]
  obtain a c1 b c2 d ty where lo: "lower env cond ctx = Inr (a, c1)" "lower env on_true c1 = Inr (b, c2)"
    "lower env on_false c2 = Inr (d, ctx')" "push_op env ctx' e Op_Select [cond, on_true, on_false] ty (Some (ex_loc e))
      (sl_append (sl_append a b) d) = Inr sl"
    using ev(2) by (auto simp: lower.simps [of env e] res_bind_Inr Let_def k)
  note st = push_op_plain [OF lo(4) ev(4)]
  have c: "plain c1" "plain c2" using lower_plain(1) lo(1,2) ev(3) by blast+
  obtain w where w: "heval env cond \<sigma> = Some w"
      "(case w of PV_Bool b \<Rightarrow> if b then heval env on_true \<sigma> else heval env on_false \<sigma> | _ \<Rightarrow> None) = Some v"
    using ev(1) by (auto simp: heval.simps [of env e] bind_eq_Some_conv k)
  then obtain t where t: "heval env cond \<sigma> = Some (PV_Bool t)" "heval env (if t then on_true else on_false) \<sigma> = Some v"
    by (cases w) (auto split: if_splits)
  have small: "size cond < size e" "size on_true < size e" "size on_false < size e" using kind_smaller [OF k] by auto
  note D = below_value(1) [OF assms(3) ev(6)]
  have "value_at \<rho> (plain_name cond) = PV_Bool t" by (rule D [OF small(1) t(1) lo(1) ev(3)]) (use ev(5) st in auto)
  moreover have "value_at \<rho> (plain_name (if t then on_true else on_false)) = v"
    using D [OF small(2) _ lo(2) c(1)] D [OF small(3) _ lo(3) c(2)] t(2) ev(5) st by (cases t) auto
  ultimately show ?thesis using ev(5) st by (auto split: if_splits)
qed

lemma call_sound:
  assumes "evaluated \<rho> env e \<sigma> v ctx sl ctx'" and k: "ex_kind e = EK_Call kind callee args t" and "below_sound \<rho> env e"
  shows "value_at \<rho> (plain_name e) = v"
proof -
  note ev = evaluatedD [OF assms(1)]
  obtain args' sls c1 target il again initial c2 where call: "match_call_args env kind callee args = Inr args'"
      "mapS_res (\<lambda>a. lower env (arg_value a)) args' ctx = Inr (sls, c1)"
      "relowered env e args' target = Inr again" "mapS_res (lower env) again c1 = Inr (initial, c2)"
      "finish_call env e callee args' target il (map sl_stmts initial) (sl_concat sls) c2 = Inr (sl, ctx')"
      "call_target_of env e callee = Inr (target, il)"
    by (rule lower_call_parts [OF ev(2) k])
  have es: "mapS_res (lower env) (map arg_value args') ctx = Inr (sls, c1)" using call(2) by (simp add: mapS_res_map)
  obtain vs where vs: "mapM_opt (\<lambda>x. heval env x \<sigma>) (map arg_value args') = Some vs" "constructed env callee vs = Some v"
    using ev(1) call(1) by (auto simp: heval.simps [of env e] k mapM_opt_map bind_eq_Some_conv)
  have c: "plain c1" "plain c2" using mapS_lower_plain es call(4) ev(3) by blast+
  obtain oper ty where oper: "sl_stmts sl = sl_stmts (sl_concat sls) @
      [St_Binding (Binding (plain_name e) oper (map plain_name (arg_exprs args')) ty (Some (ex_loc e)))]"
      "\<forall>r. op_means oper vs r \<longrightarrow> r = v"
    using constructed_means [OF vs(2) call(6,5) c(2)] by blast
  have "Suc (size_argument_list size args) < size e" using kind_smaller [OF k] by simp
  from call_args_smaller(1) [OF call(1) this] have "\<forall>x\<in>set (map arg_value args'). sound_at \<rho> env x"
    using assms(3) by (auto simp: below_sound_def)
  from sound_values [OF this es ev(3) _ vs(1) ev(6)] have "map (\<lambda>x. value_at \<rho> (plain_name x)) (map arg_value args') = vs"
    using ev(5) oper(1) by simp
  then show ?thesis using ev(5) oper by (auto simp: arg_exprs_def comp_def)
qed

lemma block_sound:
  assumes "evaluated \<rho> env e \<sigma> v ctx sl ctx'" and k: "ex_kind e = EK_Block (Block ss (Some r))" and "below_sound \<rho> env e"
  shows "value_at \<rho> (plain_name e) = v"
proof -
  note ev = evaluatedD [OF assms(1)]
  obtain \<sigma>' where \<sigma>': "fold_opt (\<lambda>\<sigma> s. hexec env (fst s) \<sigma>) \<sigma> ss = Some \<sigma>'" "heval env r \<sigma>' = Some v"
    using ev(1) by (auto simp: heval.simps [of env e] bind_eq_Some_conv k)
  obtain sls c1 sr where lo: "mapS_res (\<lambda>(s, _) ctx. lower_statement env s ctx) ss ctx = Inr (sls, c1)"
    "lower env r c1 = Inr (sr, ctx')" "sl = sl_append (sl_concat sls) sr"
    using ev(2) by (auto simp: lower.simps [of env e] res_bind_Inr Let_def k)
  have "size (fst x) < size e" if "x \<in> set ss" for x
    using kind_smaller [OF k] that prod_fst_smaller [of "fst x" "snd x" ss "\<lambda>_. 0" "size_option size (Some r)"] by auto
  then have "agrees \<rho> \<sigma>' \<and> plain c1"
    by (intro sound_steps [OF _ lo(1) ev(3) _ \<sigma>'(1) ev(6)]) (use assms(3) ev(5) lo(3) in \<open>auto simp: below_sound_def\<close>)
  then have "value_at \<rho> (plain_name r) = v"
    by (intro below_value(1) [OF assms(3) _ _ \<sigma>'(2) lo(2)]) (use kind_smaller [OF k] ev(5) lo(3) in auto)
  then show ?thesis by (simp add: plain_name_block [OF k])
qed

lemma match_sound:
  assumes "evaluated \<rho> env e \<sigma> v ctx sl ctx'" and k: "ex_kind e = EK_Match operand branches" and "below_sound \<rho> env e"
  shows "value_at \<rho> (plain_name e) = v"
proof -
  note ev = evaluatedD [OF assms(1)]
  obtain w pat f where w: "heval env operand \<sigma> = Some w" "chosen_branch env w branches = Some (pat, f)"
    "heval env f (bind_pattern pat w \<sigma>) = Some v"
    using ev(1) by (auto simp: heval.simps [of env e] bind_eq_Some_conv k split: option.splits)
  obtain a c1 bs ty where lo: "lower env operand ctx = Inr (a, c1)"
    "mapS_res (lower_branch env operand) branches c1 = Inr (bs, ctx')"
    "push_binding env ctx' e Op_Match (concat (map snd bs)) ty (Some (ex_loc e)) (sl_append a (sl_concat (map fst bs))) = Inr sl"
    using ev(2) by (auto simp: lower.simps [of env e] res_bind_Inr Let_def k lower_branch_def)
  note st = push_binding_plain [OF lo(3) ev(4)]
  have m: "\<forall>s\<in>set (sl_stmts a). means \<rho> s" "\<forall>s\<in>set (concat (map (\<lambda>b. sl_stmts (fst b)) bs)). means \<rho> s"
    using ev(5) st by (auto simp: comp_def)
  have "size operand < size e" using kind_smaller [OF k] by simp
  note w' = below_value [OF assms(3) ev(6) this w(1) lo(1) ev(3) m(1)]
  have "size (snd x) < size e" if "x \<in> set branches" for x
    using prod_snd_smaller [of "fst x" "snd x" branches "\<lambda>_. 0" "size operand"] kind_smaller [OF k] that by simp
  then have "\<forall>b\<in>set branches. sound_at \<rho> env (snd b)" using assms(3) by (simp add: below_sound_def)
  from sound_match [OF this lo(2) w'(2) m(2) w'(1) w(2,3) ev(6)] show ?thesis using ev(5) st by simp
qed

lemma expression_sound:
  assumes IH: "below_sound \<rho> env e"
  shows "sound_at \<rho> env e"
  unfolding sound_at_def
proof (intro allI impI)
  fix \<sigma> v ctx sl ctx'
  assume "heval env e \<sigma> = Some v \<and> lower env e ctx = Inr (sl, ctx') \<and> plain ctx \<and>
    (\<forall>s\<in>set (sl_stmts sl). means \<rho> s) \<and> agrees \<rho> \<sigma>"
  then have E: "evaluated \<rho> env e \<sigma> v ctx sl ctx'" by (auto simp: evaluated_def dest: lower_plain(1))
  note ev = evaluatedD [OF E]
  note h = ev(1) [unfolded heval.simps [of env e]] and l = ev(2) [unfolded lower.simps [of env e] Let_def]
  note one = one_operand [OF IH E _ _ _, of _ _ _ _ 1, simplified]
  show "value_at \<rho> (plain_name e) = v"
  proof (cases "ex_kind e")
    case (EK_Identifier n)
    then show ?thesis using h ev(6) by (auto simp: plain_name_identifier agrees_def value_at_def)
  next
    case (EK_Block b)
    then obtain ss r where "b = Block ss (Some r)" using h by (cases b) (auto split: option.splits)
    then show ?thesis using block_sound [OF E _ IH] EK_Block by simp
  next
    case (EK_BinaryOperator lhs oper rhs)
    then show ?thesis using h l two_operands [OF IH E, of lhs rhs] kind_smaller [OF EK_BinaryOperator]
      by (fastforce simp: res_bind_Inr bind_eq_Some_conv expr_mir_type_def intro: binary_means)
  next
    case (EK_UnaryOperator oper x)
    then show ?thesis using h l one [of x] kind_smaller [OF EK_UnaryOperator]
      by (fastforce simp: res_bind_Inr bind_eq_Some_conv expr_mir_type_def intro: unary_means)
  next
    case (EK_Index x y)
    then show ?thesis using h l two_operands [OF IH E, of x y] kind_smaller [OF EK_Index]
      by (fastforce simp: res_bind_Inr bind_eq_Some_conv intro: indexed_means)
  next
    case (EK_ArrayShorthandLiteral x n)
    then show ?thesis using h l one_operand [OF IH E, of x _ _ _ n] kind_smaller [OF EK_ArrayShorthandLiteral]
      by (fastforce simp: res_bind_Inr int_to_usize_def split: if_splits)
  next
    case (EK_RangeIndex x start stop)
    then show ?thesis using h l one [of x] kind_smaller [OF EK_RangeIndex]
      by (fastforce simp: res_bind_Inr bind_eq_Some_conv intro: slice_means)
  next
    case (EK_TupleIndex x i)
    then show ?thesis using h l one [of x] kind_smaller [OF EK_TupleIndex]
      by (fastforce simp: res_bind_Inr bind_eq_Some_conv intro: element_means)
  next
    case (EK_FieldAccess x field)
    then show ?thesis using h l one [of x] kind_smaller [OF EK_FieldAccess]
      by (fastforce simp: res_bind_Inr bind_eq_Some_conv intro: field_means)
  next
    case EK_If
    then show ?thesis by (rule if_sound [OF E _ IH])
  next
    case EK_Match
    then show ?thesis by (rule match_sound [OF E _ IH])
  next
    case EK_Call
    then show ?thesis by (rule call_sound [OF E _ IH])
  next
    case (EK_TupleLiteral es)
    then show ?thesis by (intro literal_sound [OF E _ IH]) simp
  next
    case (EK_ArrayLiteral es)
    then show ?thesis by (intro literal_sound [OF E _ IH]) simp
  qed (use h l ev(5) in \<open>auto simp: push_constant_def plain_name_expr res_bind_Inr
    split: bit_literal.splits sum.splits\<close>)
qed

text \<open>Traces only add statements.\<close>

abbreviation stmts_in :: "statement_list \<Rightarrow> statement_list \<Rightarrow> bool" where
  "stmts_in sl sl' \<equiv> set (sl_stmts sl) \<subseteq> set (sl_stmts sl')"

lemma wal_fields_keeps:
  "wal_fields n flipped tys btys suffix members i j ids sl = (sl', ids') \<Longrightarrow> stmts_in sl sl'"
proof (induction n flipped tys btys suffix members i j ids sl rule: wal_fields.induct)
  case (2 n flipped tys btys suffix name t members i j ids sl)
  then show ?case by (fastforce simp: Let_def split: prod.splits)
qed simp

lemma wal_signal_keeps: "wal_signal env ctx n w signal uses name suffix sl = Inr sl' \<Longrightarrow> stmts_in sl sl'"
  by (auto simp: wal_signal_def res_bind_Inr split: option.splits bool.splits)

lemma do_wal_trace_keeps: "do_wal_trace_lowering env n w t c sl ctx = Inr (sl', ctx') \<Longrightarrow> stmts_in sl sl'"
  unfolding do_wal_trace_lowering_def
  apply (elim res_bind_Inr [THEN iffD1, elim_format] exE conjE)
  apply (cases c; simp only: concrete_type.case sum.distinct)
  apply (elim res_bind_Inr [THEN iffD1, elim_format] exE conjE)
  subgoal premises prems for r1 r2 name members
  proof -
    have "stmts_in r2 sl'"
      using prems(6) by (auto simp: Let_def split: prod.split_asm if_split_asm dest!: wal_fields_keeps)
    then show ?thesis using wal_signal_keeps [OF prems(1)] wal_signal_keeps [OF prems(2)] by blast
  qed
  done

lemma lower_wal_trace_keeps: "lower_wal_trace env p w t sl ctx = Inr (sl', ctx') \<Longrightarrow> stmts_in sl sl'"
  unfolding lower_wal_trace_def
  apply (elim res_bind_Inr [THEN iffD1, elim_format] exE conjE)
  apply (simp only: split: type_var.split_asm known_type.split_asm option.split_asm type_decl_kind.split_asm)
  apply (simp_all add: do_wal_trace_keeps)
  done

lemma lower_binding_parts:
  assumes "lower_statement env (HS_Binding p t e trace) ctx = Inr (sl, ctx')" and "plain ctx"
  obtains a c1 ty c2 parts where "lower env e ctx = Inr (a, c1)" "lower_pattern_ctx env p (plain_name e) c2 = Inr (parts, ctx')"
    "set (sl_stmts a) \<union> {St_Binding (Binding (pat_value_name p) Op_Alias [plain_name e] ty (Some (hp_loc p)))} \<union>
       set (sl_stmts parts) \<subseteq> set (sl_stmts sl)"
proof -
  obtain a c1 ty x y result c2 parts concrete_ty where lo: "lower env e ctx = Inr (a, c1)" "variable env c1 e = Inr x"
    "(case trace of
        None \<Rightarrow> Inr (push_primary (St_Binding (Binding (pat_value_name p) Op_Alias [x] ty (Some (hp_loc p)))) (NO_Expr (hp_id p)) a, c1)
      | Some w \<Rightarrow> lower_wal_trace env p w concrete_ty
          (push_primary (St_Binding (Binding (pat_value_name p) Op_Alias [x] ty (Some (hp_loc p)))) (NO_Expr (hp_id p)) a) c1) =
      Inr (result, c2)"
    "variable env c2 e = Inr y" "lower_pattern_ctx env p y c2 = Inr (parts, ctx')" "sl = sl_append result parts"
    using assms(1) by (auto simp: lower_statement.simps res_bind_Inr Let_def)
  have c1: "plain c1" using lower_plain(1) [OF lo(1) assms(2)] .
  then have "plain c2" using lo(3) by (auto split: option.splits dest!: ctx_subs intro: ctx_plain)
  then have xy: "x = plain_name e" "y = plain_name e" using variable_plain lo(2,4) c1 by blast+
  have "stmts_in (push_primary (St_Binding (Binding (pat_value_name p) Op_Alias [x] ty (Some (hp_loc p)))) (NO_Expr (hp_id p)) a) result"
    using lo(3) by (cases trace) (auto dest!: lower_wal_trace_keeps)
  then show thesis using that [OF lo(1) lo(5) [unfolded xy]] lo(6) xy by auto
qed

lemma lower_register_parts:
  assumes "lower_statement env (HS_Register p clock reset initial e t attrs) ctx = Inr (sl, ctx')"
  obtains c1 parts where "lower_pattern_ctx env p (pat_value_name p) c1 = Inr (parts, ctx')"
    "set (sl_stmts parts) \<subseteq> set (sl_stmts sl)"
  using assms by (auto simp: lower_statement.simps res_bind_Inr split: if_splits)

lemma statement_sound:
  assumes IH: "\<And>x. size x < size s \<Longrightarrow> sound_at \<rho> env x"
  shows "step_sound_at \<rho> env s"
  unfolding step_sound_at_def
proof (intro allI impI, elim conjE)
  fix \<sigma> \<sigma>' ctx sl ctx'
  assume h: "hexec env s \<sigma> = Some \<sigma>'" and l: "lower_statement env s ctx = Inr (sl, ctx')" and c: "plain ctx"
    and m: "\<forall>s\<in>set (sl_stmts sl). means \<rho> s" and ag: "agrees \<rho> \<sigma>"
  show "agrees \<rho> \<sigma>'"
  proof (cases s)
    case (HS_Binding p t e trace)
    obtain v where v: "heval env e \<sigma> = Some v" "pattern_on env p v" "hir_matches (pat_context_of env) p v"
      "\<sigma>' = bind_pattern p v \<sigma>"
      using h by (auto simp: hexec.simps HS_Binding bind_eq_Some_conv bind_binding_def split: if_splits)
    obtain a c1 ty c2 parts where lo: "lower env e ctx = Inr (a, c1)" "lower_pattern_ctx env p (plain_name e) c2 = Inr (parts, ctx')"
      and sub: "set (sl_stmts a) \<union> {St_Binding (Binding (pat_value_name p) Op_Alias [plain_name e] ty (Some (hp_loc p)))} \<union>
        set (sl_stmts parts) \<subseteq> set (sl_stmts sl)"
      by (rule lower_binding_parts [OF l [unfolded HS_Binding] c])
    have "value_at \<rho> (plain_name e) = v"
      by (rule sound_atD [OF IH v(1) lo(1) c _ ag]) (use m sub in \<open>auto simp: HS_Binding\<close>)
    moreover have "means \<rho> (St_Binding (Binding (pat_value_name p) Op_Alias [plain_name e] ty (Some (hp_loc p))))"
      using m sub by blast
    ultimately have "value_at \<rho> (plain_name e) = v" "value_at \<rho> (pat_value_name p) = v" by auto
    then show ?thesis using pattern_agrees [OF lo(2), of \<rho> \<sigma>] m sub v ag by auto
  next
    case (HS_Register p clock reset initial e t attrs)
    obtain v where v: "\<sigma> (vn_key (pat_value_name p)) = Some v" "pattern_on env p v" "hir_matches (pat_context_of env) p v"
      "\<sigma>' = bind_pattern p v \<sigma>"
      using h by (auto simp: hexec.simps HS_Register bind_eq_Some_conv bind_binding_def split: if_splits)
    obtain c1 parts where "lower_pattern_ctx env p (pat_value_name p) c1 = Inr (parts, ctx')"
      "set (sl_stmts parts) \<subseteq> set (sl_stmts sl)"
      by (rule lower_register_parts [OF l [unfolded HS_Register]])
    moreover have "value_at \<rho> (pat_value_name p) = v" using ag v(1) by (auto simp: agrees_def value_at_def)
    ultimately show ?thesis using pattern_agrees [of env p "pat_value_name p" c1 parts ctx' \<rho> \<sigma>] m v ag by auto
  qed (use h ag in \<open>auto simp: hexec.simps\<close>)
qed

lemma lowering_sound: "sound_at \<rho> env e" and "step_sound_at \<rho> env s"
proof -
  have "(\<forall>e. size e < n \<longrightarrow> sound_at \<rho> env e) \<and> (\<forall>s. size s < n \<longrightarrow> step_sound_at \<rho> env s)" for n
  proof (induction n)
    case (Suc n)
    have "sound_at \<rho> env e" if "size e = n" for e
      by (rule expression_sound) (use Suc that in \<open>simp add: below_sound_def\<close>)
    moreover have "step_sound_at \<rho> env s" if "size s = n" for s
      by (rule statement_sound) (use Suc that in simp)
    ultimately show ?case using Suc by (auto simp: less_Suc_eq)
  qed simp
  then show "sound_at \<rho> env e" and "step_sound_at \<rho> env s" by blast+
qed


text \<open>\<open>match (a, b) { (true, y) => y, (x, z) => x }\<close> for booleans.\<close>

definition ex_bool_var :: type_var where
  "ex_bool_var = TV_Known (KT_Named (NameID 1 [''bool''])) []"

definition ex_types :: type_decls where
  "ex_types n = (if n = 1 then Some \<lparr>td_name = NameID 1 [''bool''], td_kind = TDK_Primitive PT_Bool, td_generic_args = []\<rparr> else None)"

definition ex_env :: lower_env where
  "ex_env =
     \<lparr>le_types = ex_types, le_depth = 1,
      le_exprs = (\<lambda>i. if i \<in> {3, 10, 20} then Some (TV_Known KT_Tuple [ex_bool_var, ex_bool_var]) else Some ex_bool_var),
      le_names = (\<lambda>_. Some ex_bool_var), le_generics = (\<lambda>_. None), le_unit_generics = None, le_units = (\<lambda>_. None),
      le_final_id = (\<lambda>_. None), le_executables = (\<lambda>_. None), le_patternable = (\<lambda>_. PK_Struct),
      le_variant = (\<lambda>_. 0), le_struct_params = (\<lambda>_. []), le_self_item = None\<rparr>"

definition ex_ctx :: lower_ctx where
  "ex_ctx = \<lparr>lc_names = \<lparr>next_id = 200\<rparr>, lc_ids = \<lparr>next_id = 100\<rparr>, lc_subs = subs_new, lc_pipeline = None, lc_mono = mono_new\<rparr>"

definition ex_name :: "nat \<Rightarrow> name_id" where
  "ex_name i = NameID i [[char_of (96 + i)]]"

definition ex_var :: "nat \<Rightarrow> nat \<Rightarrow> expression" where
  "ex_var i n = Expr (EK_Identifier (ex_name n)) i loc_nowhere"

definition ex_name_pat :: "nat \<Rightarrow> nat \<Rightarrow> hir_pattern" where
  "ex_name_pat i n = HirPat i (HPat_Name (ex_name n) False) loc_nowhere"

definition ex_match :: expression where
  "ex_match =
     Expr (EK_Match (Expr (EK_TupleLiteral [ex_var 1 1, ex_var 2 2]) 3 loc_nowhere)
       [(HirPat 10 (HPat_Tuple [HirPat 11 (HPat_Bool True) loc_nowhere, ex_name_pat 12 3]) loc_nowhere, ex_var 30 3),
        (HirPat 20 (HPat_Tuple [ex_name_pat 21 4, ex_name_pat 22 5]) loc_nowhere, ex_var 31 4)]) 40 loc_nowhere"

definition ex_values :: env where
  "ex_values = [vn_key (name_value (ex_name 1)) \<mapsto> PV_Bool True, vn_key (name_value (ex_name 2)) \<mapsto> PV_Bool False]"

definition ex_rho :: "vkey \<Rightarrow> pvalue" where
  "ex_rho k =
     (case k of
        Inl (n, _) \<Rightarrow> PV_Bool (n = 1 \<or> n = 4)
      | Inr i \<Rightarrow> if i = 3 then PV_Struct [PV_Bool True, PV_Bool False] else PV_Bool (i \<noteq> 40))"


definition ex_name_match :: expression where
  "ex_name_match = Expr (EK_Match (ex_var 1 1) [(ex_name_pat 12 3, ex_var 30 3)]) 40 loc_nowhere"

text \<open>
  \<open>match a { c => c }\<close>: a branch whose whole pattern is a name refers to the name, and nothing drives it.
\<close>

theorem match_name_undriven:
  "case lower ex_env ex_name_match ex_ctx of
     Inr (sl, _) \<Rightarrow>
       (\<exists>b. St_Binding b \<in> set (sl_stmts sl) \<and> name_value (ex_name 3) \<in> set (b_operands b)) \<and>
       (\<forall>s\<in>set (sl_stmts sl). pushed_name s \<noteq> Some (name_value (ex_name 3)))
   | Inl _ \<Rightarrow> False"
proof -
  have "case lower ex_env ex_name_match ex_ctx of
      Inr (sl, _) \<Rightarrow> sl_stmts sl =
        [St_Constant 100 Ty_Bool (CV_Bool True),
         St_Binding (Binding (VN_Expr 40) Op_Match [VN_Expr 100, name_value (ex_name 3)] Ty_Bool (Some loc_nowhere))]
    | Inl _ \<Rightarrow> False"
    by code_simp
  then show ?thesis by (auto simp: pushed_name_def name_value_def name_value_with_def split: sum.splits prod.splits)
qed

end
