(* ===== verification/Pipelines.thy ===== *)
theory Pipelines
  imports Lower_Sound
begin

text \<open>
  spade-hir-lowering, \<open>pipelines.rs\<close>: the registers between the stages of a pipeline, the signals that
  enable them and the signals that say which stages hold a value of an input that was accepted.
\<close>

section \<open>Signals that may be constant\<close>

datatype maybe_const = MC_Val value_name | MC_Const bool

type_synonym 'a emitted = "'a \<times> statement_list \<times> id_tracker"

definition to_value_name :: "maybe_const \<Rightarrow> statement_list \<Rightarrow> id_tracker \<Rightarrow> value_name emitted" where
  "to_value_name c sl ids =
     (case c of
        MC_Val n \<Rightarrow> (n, sl, ids)
      | MC_Const v \<Rightarrow>
          (case tracker_next ids of (i, ids) \<Rightarrow>
            (VN_Expr i, push_anonymous (St_Constant i Ty_Bool (CV_Bool v)) sl, ids)))"

definition or_const_true :: "value_name option \<Rightarrow> maybe_const" where
  "or_const_true v = (case v of Some v \<Rightarrow> MC_Val v | None \<Rightarrow> MC_Const True)"

definition push_signal ::
  "operator \<Rightarrow> value_name list \<Rightarrow> nat \<Rightarrow> statement_list \<Rightarrow> statement_list" where
  "push_signal oper operands i sl = push_anonymous (St_Binding (Binding (VN_Expr i) oper operands Ty_Bool None)) sl"

fun constexpr_and :: "maybe_const \<Rightarrow> maybe_const \<Rightarrow> statement_list \<Rightarrow> id_tracker \<Rightarrow> maybe_const emitted" where
  "constexpr_and (MC_Val l) (MC_Val r) sl ids =
     (case tracker_next ids of (i, ids) \<Rightarrow> (MC_Val (VN_Expr i), push_signal Op_LogicalAnd [l, r] i sl, ids))"
| "constexpr_and (MC_Const False) _ sl ids = (MC_Const False, sl, ids)"
| "constexpr_and _ (MC_Const False) sl ids = (MC_Const False, sl, ids)"
| "constexpr_and l (MC_Const True) sl ids = (l, sl, ids)"
| "constexpr_and (MC_Const True) r sl ids = (r, sl, ids)"

fun constexpr_select ::
  "maybe_const \<Rightarrow> maybe_const \<Rightarrow> maybe_const \<Rightarrow> statement_list \<Rightarrow> id_tracker \<Rightarrow> maybe_const emitted" where
  "constexpr_select t f (MC_Val sel) sl ids =
     (case tracker_next ids of (i, ids) \<Rightarrow>
      case to_value_name t sl ids of (t, sl, ids) \<Rightarrow>
      case to_value_name f sl ids of (f, sl, ids) \<Rightarrow>
        (MC_Val (VN_Expr i), push_signal Op_Select [sel, t, f] i sl, ids))"
| "constexpr_select t _ (MC_Const True) sl ids = (t, sl, ids)"
| "constexpr_select _ f (MC_Const False) sl ids = (f, sl, ids)"

fun constexpr_inv :: "maybe_const \<Rightarrow> statement_list \<Rightarrow> id_tracker \<Rightarrow> maybe_const emitted" where
  "constexpr_inv (MC_Val name) sl ids =
     (case tracker_next ids of (i, ids) \<Rightarrow> (MC_Val (VN_Expr i), push_signal Op_Not [name] i sl, ids))"
| "constexpr_inv (MC_Const True) sl ids = (MC_Const False, sl, ids)"
| "constexpr_inv (MC_Const False) sl ids = (MC_Const True, sl, ids)"

section \<open>The statements of the body\<close>

definition handle_pattern :: "hir_pattern \<Rightarrow> name_id list \<Rightarrow> name_id list" where
  "handle_pattern p live = live @ get_names p"

text \<open>What the loop over the statements changes.\<close>

record pipe_state =
  ps_ctx :: lower_ctx
  ps_stmts :: statement_list
  ps_name_map :: "nat \<rightharpoonup> name_id"
  ps_conds :: "value_name option list"
  ps_stage :: nat

fun names_available :: "lower_env \<Rightarrow> name_id list \<Rightarrow> nat \<Rightarrow> lower_ctx \<Rightarrow> lower_error + lower_ctx" where
  "names_available env [] time ctx = Inr ctx"
| "names_available env (name # names) time ctx =
     res_bind (name_type env name) (\<lambda>ty.
     res_bind (or_panic (set_available name time ty (lc_subs ctx))) (\<lambda>subs.
       names_available env names time (ctx\<lparr>lc_subs := subs\<rparr>)))"

text \<open>The register of one variable, which keeps its value while the stage is not enabled.\<close>

definition pipeline_register ::
  "lower_env \<Rightarrow> name_id \<Rightarrow> value_name option \<Rightarrow> loc \<Rightarrow> sub_register \<Rightarrow> pipe_state \<Rightarrow> lower_error + pipe_state" where
  "pipeline_register env clock enable l reg st =
     (if ps_name_map st (nid_num (sr_new reg)) \<noteq> None then Inl LE_Panic
      else res_bind (name_type env (sr_original reg)) (\<lambda>t.
        res_bind (or_panic (to_mir_type t)) (\<lambda>reg_type.
          let origin = NO_Name (sr_original reg);
              (next_val, sl, ids) =
                (case enable of
                   Some enable \<Rightarrow>
                     (case tracker_next (lc_ids (ps_ctx st)) of (i, ids) \<Rightarrow>
                       (VN_Expr i,
                        push_secondary
                          (St_Binding (Binding (VN_Expr i) Op_Select
                             [enable, name_value (sr_previous reg), name_value (sr_new reg)] reg_type (Some l)))
                          origin ''Pipeline enable mux'' (ps_stmts st), ids))
                 | None \<Rightarrow> (name_value (sr_previous reg), ps_stmts st, lc_ids (ps_ctx st)));
              register =
                Register (name_value_with (sr_new reg) (NS_Name (sr_original reg))) reg_type (name_value clock)
                  None None next_val (Some l) None
          in Inr (st\<lparr>ps_ctx := (ps_ctx st)\<lparr>lc_ids := ids\<rparr>,
                     ps_stmts := push_secondary (St_Register register) origin ''Pipelined'' sl,
                     ps_name_map := (ps_name_map st)(nid_num (sr_new reg) \<mapsto> sr_original reg)\<rparr>))))"

fun pipeline_registers ::
  "lower_env \<Rightarrow> name_id \<Rightarrow> value_name option \<Rightarrow> loc \<Rightarrow> sub_register list \<Rightarrow> pipe_state \<Rightarrow> lower_error + pipe_state" where
  "pipeline_registers env clock enable l [] st = Inr st"
| "pipeline_registers env clock enable l (reg # regs) st =
     res_bind (pipeline_register env clock enable l reg st) (pipeline_registers env clock enable l regs)"

definition local_condition ::
  "lower_env \<Rightarrow> expression reg_marker_extra option \<Rightarrow> pipe_state \<Rightarrow> lower_error + value_name option \<times> pipe_state" where
  "local_condition env extra st =
     (case extra of
        Some (RM_Condition cond) \<Rightarrow>
          res_bind (lower env cond (ps_ctx st)) (\<lambda>(sl, ctx).
          res_bind (variable env ctx cond) (\<lambda>v.
            Inr (Some v, st\<lparr>ps_ctx := ctx, ps_stmts := sl_append (ps_stmts st) sl\<rparr>)))
      | Some (RM_Count _ _) \<Rightarrow> Inl (LE_Bug ''Expected to have lowered multiplied pipeline stage'')
      | None \<Rightarrow> Inr (None, st))"

definition next_stage_of :: "pipe_state \<Rightarrow> lower_error + sub_register list \<times> pipe_state" where
  "next_stage_of st =
     res_bind (or_panic (next_stage (lc_subs (ps_ctx st)) (lc_names (ps_ctx st)))) (\<lambda>(regs, subs, names).
       Inr (regs, st\<lparr>ps_ctx := (ps_ctx st)\<lparr>lc_subs := subs, lc_names := names\<rparr>\<rparr>))"

definition handle_statement ::
  "lower_env \<Rightarrow> name_id \<Rightarrow> value_name option list \<Rightarrow> hir_statement \<times> loc \<Rightarrow> pipe_state \<Rightarrow> lower_error + pipe_state" where
  "handle_statement env clock stage_enable_names statement st =
     (case fst statement of
        HS_Binding p _ expr _ \<Rightarrow>
          res_bind (available_in env expr) (\<lambda>time.
          res_bind (names_available env (get_names p) time (ps_ctx st)) (\<lambda>ctx. Inr (st\<lparr>ps_ctx := ctx\<rparr>)))
      | HS_Register p _ _ _ val _ _ \<Rightarrow>
          res_bind (available_in env val) (\<lambda>time.
          res_bind (names_available env (get_names p) time (ps_ctx st)) (\<lambda>ctx. Inr (st\<lparr>ps_ctx := ctx\<rparr>)))
      | HS_Declaration _ \<Rightarrow> Inl LE_Panic
      | HS_PipelineRegMarker extra \<Rightarrow>
          res_bind (local_condition env extra st) (\<lambda>(local_cond, st).
          res_bind (next_stage_of (st\<lparr>ps_conds := ps_conds st @ [local_cond]\<rparr>)) (\<lambda>(regs, st).
          res_bind (if regs = [] then Inr None else or_panic (nth_opt stage_enable_names (ps_stage st))) (\<lambda>enable.
          res_bind (pipeline_registers env clock enable (snd statement) regs st) (\<lambda>st.
            Inr (st\<lparr>ps_stage := ps_stage st + 1\<rparr>)))))
      | _ \<Rightarrow> Inr st)"

fun handle_statements ::
  "lower_env \<Rightarrow> name_id \<Rightarrow> value_name option list \<Rightarrow> (hir_statement \<times> loc) list \<Rightarrow> pipe_state \<Rightarrow> lower_error + pipe_state" where
  "handle_statements env clock enables [] st = Inr st"
| "handle_statements env clock enables (s # ss) st =
     res_bind (handle_statement env clock enables s st) (handle_statements env clock enables ss)"

section \<open>Enable and valid signals\<close>

definition markers :: "(hir_statement \<times> loc) list \<Rightarrow> expression reg_marker_extra option list" where
  "markers ss = concat (map (\<lambda>(s, _). case s of HS_PipelineRegMarker extra \<Rightarrow> [extra] | _ \<Rightarrow> []) ss)"

text \<open>The names of the signals, from the last stage to the first.\<close>

fun enable_names ::
  "nat \<Rightarrow> expression reg_marker_extra option list \<Rightarrow> bool \<Rightarrow> nat \<Rightarrow> id_tracker \<Rightarrow> value_name option list \<times> id_tracker"
where
  "enable_names num_stages [] has_enable len names = ([], names)"
| "enable_names num_stages (extra # extras) has_enable len names =
     (let has_enable = (has_enable \<or> extra \<noteq> None);
          (name, names) =
            (if has_enable
             then case new_name [''#s'' @ show_nat (num_stages - len) @ ''_enable''] names of
                    (name, names) \<Rightarrow> (Some (name_value name), names)
             else (None, names));
          (rest, names) = enable_names num_stages extras has_enable (len + 1) names
      in (name # rest, names))"

definition push_enable :: "value_name \<Rightarrow> operator \<Rightarrow> value_name list \<Rightarrow> statement_list \<Rightarrow> statement_list" where
  "push_enable name oper operands sl = push_anonymous (St_Binding (Binding name oper operands Ty_Bool None)) sl"

fun enable_signals ::
  "(value_name option \<times> value_name option) list \<Rightarrow> value_name option \<Rightarrow> statement_list \<Rightarrow> lower_error + statement_list"
where
  "enable_signals [] current_enable sl = Inr sl"
| "enable_signals ((local_cond, enable_name) # rest) current_enable sl =
     (case (local_cond, current_enable) of
        (Some local, None) \<Rightarrow>
          res_bind (or_panic enable_name) (\<lambda>name.
            enable_signals rest (Some name) (push_enable name Op_Alias [local] sl))
      | (None, Some prev) \<Rightarrow>
          res_bind (or_panic enable_name) (\<lambda>name.
            enable_signals rest (Some name) (push_enable name Op_Alias [prev] sl))
      | (Some local, Some prev) \<Rightarrow>
          res_bind (or_panic enable_name) (\<lambda>name.
            enable_signals rest (Some name) (push_enable name Op_LogicalAnd [local, prev] sl))
      | (None, None) \<Rightarrow> enable_signals rest current_enable sl)"

text \<open>The signal after the register of stage \<open>i\<close>.\<close>

definition next_valid ::
  "value_name option \<Rightarrow> value_name \<Rightarrow> value_name option \<Rightarrow> value_name option \<Rightarrow> value_name option \<Rightarrow>
     statement_list \<Rightarrow> id_tracker \<Rightarrow> maybe_const emitted" where
  "next_valid prev_valid valid_name valid_select downstream local_cond sl ids =
     (case constexpr_select (or_const_true prev_valid) (MC_Val valid_name) (or_const_true valid_select) sl ids of
        (valid_mux, sl, ids) \<Rightarrow>
      case constexpr_inv (or_const_true local_cond) sl ids of
        (local_cond_inv, sl, ids) \<Rightarrow>
      case constexpr_and local_cond_inv (or_const_true downstream) sl ids of
        (stall_here, sl, ids) \<Rightarrow>
      case constexpr_inv stall_here sl ids of
        (stall_here_inv, sl, ids) \<Rightarrow> constexpr_and valid_mux stall_here_inv sl ids)"

fun valid_loop ::
  "name_id \<Rightarrow> value_name option list \<Rightarrow> nat \<Rightarrow> value_name option list \<Rightarrow> value_name option \<Rightarrow> statement_list \<Rightarrow>
     id_tracker \<Rightarrow> id_tracker \<Rightarrow> lower_error + value_name option list \<times> statement_list \<times> id_tracker \<times> id_tracker" where
  "valid_loop clock ready i [] prev_valid sl names ids = Inr ([], sl, names, ids)"
| "valid_loop clock ready i (local_cond # conds) prev_valid sl names ids =
     res_bind (or_panic (nth_opt ready i)) (\<lambda>valid_select.
       let downstream = Option.bind (nth_opt ready (i + 1)) (\<lambda>x. x);
           (name, names) = new_name [''#s'' @ show_nat (i + 1) @ ''_valid''] names;
           valid_name = name_value name
       in case next_valid prev_valid valid_name valid_select downstream local_cond sl ids of
            (MC_Val next_val, sl, ids) \<Rightarrow>
              let sl = push_anonymous
                    (St_Register (Register valid_name Ty_Bool (name_value clock) None None next_val None None)) sl
              in res_bind (valid_loop clock ready (i + 1) conds (Some valid_name) sl names ids) (\<lambda>(valids, rest).
                   Inr (Some valid_name # valids, rest))
          | (MC_Const True, sl, ids) \<Rightarrow>
              res_bind (valid_loop clock ready (i + 1) conds prev_valid sl names ids) (\<lambda>(valids, rest).
                Inr (None # valids, rest))
          | (MC_Const False, _, _) \<Rightarrow> Inl (LE_Bug ''Found a stage which is always invalid''))"

definition lower_pipeline ::
  "lower_env \<Rightarrow> name_id list \<Rightarrow> expression \<Rightarrow> statement_list \<Rightarrow> (nat \<rightharpoonup> name_id) \<Rightarrow> lower_ctx \<Rightarrow>
     lower_error + statement_list \<times> (nat \<rightharpoonup> name_id) \<times> lower_ctx" where
  "lower_pipeline env hir_inputs body sl name_map ctx =
     (case (hir_inputs, ex_kind body) of
        (clock # _, EK_Block (Block body_statements _)) \<Rightarrow>
          res_bind (names_available env hir_inputs 0 ctx) (\<lambda>ctx.
          let extras = markers body_statements;
              (reversed, names) = enable_names (length extras) (rev extras) False 0 (lc_names ctx);
              stage_enable_names = rev reversed
          in res_bind (handle_statements env clock stage_enable_names body_statements
               \<lparr>ps_ctx = ctx\<lparr>lc_names := names\<rparr>, ps_stmts = sl, ps_name_map = name_map, ps_conds = [], ps_stage = 0\<rparr>) (\<lambda>st.
             res_bind (enable_signals (rev (zip (ps_conds st) stage_enable_names)) None (ps_stmts st)) (\<lambda>sl.
             let ready = stage_enable_names @ [None]; ctx = ps_ctx st
             in res_bind (valid_loop clock ready 0 (ps_conds st) None sl (lc_names ctx) (lc_ids ctx)) (\<lambda>(valids, sl, names, ids).
                  Inr (sl, ps_name_map st,
                    ctx\<lparr>lc_names := names, lc_ids := ids,
                        lc_pipeline := Some \<lparr>ready_signals = ready, valid_signals = None # valids\<rparr>\<rparr>)))))
      | _ \<Rightarrow> Inl LE_Panic)"

end
