(* ===== verification/Pipeline_Sound.thy ===== *)
theory Pipeline_Sound
  imports Pipelines
begin

text \<open>
  What the statements of a lowered pipeline do. A stage is ready when no condition at or after it
  holds it back; the valid signals and the registers of every variable then move as the slots of a
  queue, so the values of accepted inputs arrive at the last stage in order, each exactly once.
\<close>

section \<open>The value of a signal\<close>

text \<open>A signal that is absent is one that is always true.\<close>

definition sig :: "(vkey \<Rightarrow> pvalue) \<Rightarrow> value_name option \<Rightarrow> bool" where
  "sig \<rho> s = (case s of None \<Rightarrow> True | Some n \<Rightarrow> truth (value_at \<rho> n))"

fun holds :: "(vkey \<Rightarrow> pvalue) \<Rightarrow> maybe_const \<Rightarrow> bool" where
  "holds \<rho> (MC_Val n) = truth (value_at \<rho> n)"
| "holds \<rho> (MC_Const b) = b"

fun boolean_signal :: "(vkey \<Rightarrow> pvalue) \<Rightarrow> maybe_const \<Rightarrow> bool" where
  "boolean_signal \<rho> (MC_Val n) = (\<exists>b. value_at \<rho> n = PV_Bool b)"
| "boolean_signal \<rho> (MC_Const b) = True"

abbreviation all_mean :: "(vkey \<Rightarrow> pvalue) \<Rightarrow> statement_list \<Rightarrow> bool" where
  "all_mean \<rho> sl \<equiv> \<forall>s\<in>set (sl_stmts sl). means \<rho> s"

lemma sig_simps [simp]: "sig \<rho> None" "sig \<rho> (Some n) \<longleftrightarrow> truth (value_at \<rho> n)"
  by (simp_all add: sig_def)

lemma holds_or_const_true [simp]: "holds \<rho> (or_const_true s) \<longleftrightarrow> sig \<rho> s"
  by (simp add: or_const_true_def split: option.split)

lemma truth_bool: "value_at \<rho> n = PV_Bool b \<Longrightarrow> value_at \<rho> n = PV_Bool (truth (value_at \<rho> n))"
  by simp

lemma constexpr_and_sound:
  "constexpr_and l r sl ids = (v, sl', ids') \<Longrightarrow> all_mean \<rho> sl' \<Longrightarrow>
     (holds \<rho> v \<longleftrightarrow> holds \<rho> l \<and> holds \<rho> r) \<and> all_mean \<rho> sl \<and> set (sl_stmts sl) \<subseteq> set (sl_stmts sl')"
  by (induction l r sl ids rule: constexpr_and.induct) (auto simp: push_signal_def split: prod.splits)

lemma constexpr_and_boolean:
  "constexpr_and l r sl ids = (v, sl', ids') \<Longrightarrow> all_mean \<rho> sl' \<Longrightarrow> boolean_signal \<rho> l \<Longrightarrow> boolean_signal \<rho> r \<Longrightarrow>
     boolean_signal \<rho> v"
  by (induction l r sl ids rule: constexpr_and.induct) (auto simp: push_signal_def split: prod.splits)

lemma constexpr_inv_sound:
  "constexpr_inv s sl ids = (v, sl', ids') \<Longrightarrow> all_mean \<rho> sl' \<Longrightarrow> boolean_signal \<rho> s \<Longrightarrow>
     (holds \<rho> v \<longleftrightarrow> \<not> holds \<rho> s) \<and> boolean_signal \<rho> v \<and> all_mean \<rho> sl \<and> set (sl_stmts sl) \<subseteq> set (sl_stmts sl')"
  by (induction s sl ids rule: constexpr_inv.induct) (auto simp: push_signal_def split: prod.splits)

lemma to_value_name_sound:
  "to_value_name c sl ids = (n, sl', ids') \<Longrightarrow> all_mean \<rho> sl' \<Longrightarrow>
     (truth (value_at \<rho> n) \<longleftrightarrow> holds \<rho> c) \<and> all_mean \<rho> sl \<and> set (sl_stmts sl) \<subseteq> set (sl_stmts sl')"
  by (cases c) (auto simp: to_value_name_def split: prod.splits)

lemma constexpr_select_sound:
  "constexpr_select t f sel sl ids = (v, sl', ids') \<Longrightarrow> all_mean \<rho> sl' \<Longrightarrow>
     (holds \<rho> v \<longleftrightarrow> (if holds \<rho> sel then holds \<rho> t else holds \<rho> f)) \<and> all_mean \<rho> sl \<and>
     set (sl_stmts sl) \<subseteq> set (sl_stmts sl')"
proof (cases sel)
  case (MC_Val s)
  assume *: "constexpr_select t f sel sl ids = (v, sl', ids')" "all_mean \<rho> sl'"
  obtain i ids1 where i: "tracker_next ids = (i, ids1)" by fastforce
  obtain tn sl1 ids2 where t: "to_value_name t sl ids1 = (tn, sl1, ids2)" by (metis prod_cases3)
  obtain fn sl2 ids3 where f: "to_value_name f sl1 ids2 = (fn, sl2, ids3)" by (metis prod_cases3)
  have v: "v = MC_Val (VN_Expr i)" "sl' = push_signal Op_Select [s, tn, fn] i sl2"
    using *(1) by (auto simp: MC_Val i t f)
  have "all_mean \<rho> sl2" using v *(2) by (auto simp: push_signal_def)
  then have fs: "truth (value_at \<rho> fn) \<longleftrightarrow> holds \<rho> f" "all_mean \<rho> sl1" "set (sl_stmts sl1) \<subseteq> set (sl_stmts sl2)"
    using to_value_name_sound [OF f] by auto
  have "truth (value_at \<rho> tn) \<longleftrightarrow> holds \<rho> t" "all_mean \<rho> sl" "set (sl_stmts sl) \<subseteq> set (sl_stmts sl1)"
    using to_value_name_sound [OF t fs(2)] by auto
  then show ?thesis using v *(2) fs by (auto simp: MC_Val push_signal_def)
next
  case (MC_Const b)
  assume "constexpr_select t f sel sl ids = (v, sl', ids')" "all_mean \<rho> sl'"
  then show ?thesis using MC_Const by (cases b) auto
qed

text \<open>The signal after the register of a stage, as the comment over the loop has it.\<close>

lemma next_valid_sound:
  assumes "next_valid prev v0 select down local sl ids = (v, sl', ids')" and "all_mean \<rho> sl'"
    and "boolean_signal \<rho> (or_const_true local)" and "boolean_signal \<rho> (or_const_true down)"
  shows "holds \<rho> v \<longleftrightarrow> (if sig \<rho> select then sig \<rho> prev else truth (value_at \<rho> v0)) \<and> \<not> (\<not> sig \<rho> local \<and> sig \<rho> down)"
    and "all_mean \<rho> sl" and "set (sl_stmts sl) \<subseteq> set (sl_stmts sl')"
proof -
  obtain mux sl1 i1 where m: "constexpr_select (or_const_true prev) (MC_Val v0) (or_const_true select) sl ids = (mux, sl1, i1)"
    by (metis prod_cases3)
  obtain li sl2 i2 where l: "constexpr_inv (or_const_true local) sl1 i1 = (li, sl2, i2)" by (metis prod_cases3)
  obtain st sl3 i3 where s: "constexpr_and li (or_const_true down) sl2 i2 = (st, sl3, i3)" by (metis prod_cases3)
  obtain si sl4 i4 where n: "constexpr_inv st sl3 i3 = (si, sl4, i4)" by (metis prod_cases3)
  have a: "constexpr_and mux si sl4 i4 = (v, sl', ids')"
    using assms(1) by (simp add: next_valid_def m l s n)
  note A = constexpr_and_sound [OF a assms(2)]
  have m4: "all_mean \<rho> sl4" using A by simp
  then have m3: "all_mean \<rho> sl3"
    using n by (induction st sl3 i3 rule: constexpr_inv.induct) (auto simp: push_signal_def split: prod.splits)
  note S = constexpr_and_sound [OF s m3]
  then have m2: "all_mean \<rho> sl2" by simp
  note L = constexpr_inv_sound [OF l m2 assms(3)]
  have "boolean_signal \<rho> st" using constexpr_and_boolean [OF s m3] L assms(4) by simp
  note N = constexpr_inv_sound [OF n m4 this]
  have m1: "all_mean \<rho> sl1" using L by simp
  note M = constexpr_select_sound [OF m m1]
  show "holds \<rho> v \<longleftrightarrow> (if sig \<rho> select then sig \<rho> prev else truth (value_at \<rho> v0)) \<and> \<not> (\<not> sig \<rho> local \<and> sig \<rho> down)"
    using A S L N M by auto
  show "all_mean \<rho> sl" using M by simp
  show "set (sl_stmts sl) \<subseteq> set (sl_stmts sl')" using A S L N M by blast
qed

lemma constexpr_and_constant:
  "constexpr_and l r sl ids = (MC_Const True, x) \<Longrightarrow> l = MC_Const True \<and> r = MC_Const True"
  "constexpr_and l r sl ids = (MC_Const False, x) \<Longrightarrow> l = MC_Const False \<or> r = MC_Const False"
  by (induction l r sl ids rule: constexpr_and.induct) (auto split: prod.splits)

lemma constexpr_inv_constant: "constexpr_inv s sl ids = (MC_Const b, x) \<Longrightarrow> s = MC_Const (\<not> b)"
  by (induction s sl ids rule: constexpr_inv.induct) (auto split: prod.splits)

lemma or_const_true_constant: "or_const_true s = MC_Const b \<longleftrightarrow> s = None \<and> b"
  by (auto simp: or_const_true_def split: option.split)

lemma next_valid_select:
  assumes "constexpr_select (or_const_true prev) (MC_Val v0) (or_const_true select) sl ids = (MC_Const b, x)"
  shows "prev = None \<and> select = None \<and> b"
  using assms by (cases select; cases prev) (auto simp: or_const_true_def to_value_name_def split: prod.splits)

text \<open>A stage is never always invalid; it is always valid when nothing before or after it holds it back.\<close>

lemma next_valid_constant:
  assumes "next_valid prev v0 select down local sl ids = (MC_Const b, r)"
  shows "b" and "prev = None \<and> select = None \<and> local = None"
proof -
  obtain mux sl1 i1 where m: "constexpr_select (or_const_true prev) (MC_Val v0) (or_const_true select) sl ids = (mux, sl1, i1)"
    by (metis prod_cases3)
  obtain li sl2 i2 where l: "constexpr_inv (or_const_true local) sl1 i1 = (li, sl2, i2)" by (metis prod_cases3)
  obtain st sl3 i3 where s: "constexpr_and li (or_const_true down) sl2 i2 = (st, sl3, i3)" by (metis prod_cases3)
  obtain si sl4 i4 where n: "constexpr_inv st sl3 i3 = (si, sl4, i4)" by (metis prod_cases3)
  have nv: "constexpr_and mux si sl4 i4 = (MC_Const b, r)"
    using assms by (simp add: next_valid_def m l s n)
  have mux: "mux = MC_Const c \<Longrightarrow> prev = None \<and> select = None \<and> c" for c
    using next_valid_select [of prev v0 select sl ids c "(sl1, i1)"] m by simp
  have li: "li = MC_Const c \<Longrightarrow> local = None \<and> \<not> c" for c
    using constexpr_inv_constant [of "or_const_true local" sl1 i1 c "(sl2, i2)"] l by (simp add: or_const_true_constant)
  have si: "si = MC_Const c \<Longrightarrow> c \<and> local = None" for c
  proof -
    assume "si = MC_Const c"
    then have "st = MC_Const (\<not> c)" using constexpr_inv_constant [of st sl3 i3 c "(sl4, i4)"] n by simp
    then show ?thesis
      using constexpr_and_constant [of li "or_const_true down" sl2 i2 "(sl3, i3)"] s li
      by (cases c) (auto simp: or_const_true_constant)
  qed
  show b
  proof (rule ccontr)
    assume "\<not> b"
    then have "mux = MC_Const False \<or> si = MC_Const False" using constexpr_and_constant(2) nv by simp
    then show False using mux si by blast
  qed
  then have "mux = MC_Const True" "si = MC_Const True" using constexpr_and_constant(1) nv by auto
  then show "prev = None \<and> select = None \<and> local = None" using mux si by blast
qed

section \<open>Ready signals\<close>

text \<open>Where a name is allocated: from the last condition on, counted from the end.\<close>

fun allocated :: "value_name option \<Rightarrow> (value_name option \<times> value_name option) list \<Rightarrow> bool" where
  "allocated current [] = True"
| "allocated current ((c, n) # xs) = ((n = None \<longleftrightarrow> c = None \<and> current = None) \<and> allocated n xs)"

fun enabled_by :: "(vkey \<Rightarrow> pvalue) \<Rightarrow> value_name option \<Rightarrow> (value_name option \<times> value_name option) list \<Rightarrow> bool" where
  "enabled_by \<rho> current [] = True"
| "enabled_by \<rho> current ((c, n) # xs) =
     ((sig \<rho> n \<longleftrightarrow> sig \<rho> c \<and> sig \<rho> current) \<and>
      (boolean_signal \<rho> (or_const_true c) \<and> boolean_signal \<rho> (or_const_true current) \<longrightarrow>
         boolean_signal \<rho> (or_const_true n)) \<and>
      enabled_by \<rho> n xs)"

lemma enable_names_allocated:
  "enable_names num es has len names = (rs, names') \<Longrightarrow> list_all2 (\<lambda>e c. e = None \<longleftrightarrow> c = None) es cs \<Longrightarrow>
     current = None \<longleftrightarrow> \<not> has \<Longrightarrow> length rs = length es \<and> allocated current (zip cs rs)"
proof (induction num es has len names arbitrary: rs cs current names' rule: enable_names.induct)
  case (2 num e es has len names)
  let ?has = "has \<or> e \<noteq> None"
  obtain name names1 where n: "(if ?has then case new_name [''#s'' @ show_nat (num - len) @ ''_enable''] names of
      (name, names) \<Rightarrow> (Some (name_value name), names) else (None, names)) = (name, names1)" by fastforce
  obtain rest names2 where r: "enable_names num es ?has (len + 1) names1 = (rest, names2)" by fastforce
  have rs: "rs = name # rest" using "2.prems"(1) n r by (simp add: Let_def)
  obtain c cs' where cs: "cs = c # cs'" "e = None \<longleftrightarrow> c = None" "list_all2 (\<lambda>e c. e = None \<longleftrightarrow> c = None) es cs'"
    using "2.prems"(2) by (auto simp: list_all2_Cons1)
  have name: "name = None \<longleftrightarrow> \<not> ?has" using n by (auto split: prod.splits if_splits)
  have "length rest = length es \<and> allocated name (zip cs' rest)"
    using "2.IH" [OF refl n [symmetric] refl r cs(3) name] by simp
  then show ?case using rs cs name "2.prems"(3) by auto
qed simp

lemma enable_signals_enabled:
  "enable_signals xs current sl = Inr sl' \<Longrightarrow> allocated current xs \<Longrightarrow> all_mean \<rho> sl' \<Longrightarrow>
     enabled_by \<rho> current xs \<and> all_mean \<rho> sl \<and> set (sl_stmts sl) \<subseteq> set (sl_stmts sl')"
proof (induction xs arbitrary: current sl)
  case (Cons x xs)
  obtain c n where x: "x = (c, n)" by fastforce
  define sl1 where "sl1 = (case n of None \<Rightarrow> sl | Some name \<Rightarrow>
    (case (c, current) of
       (Some local, None) \<Rightarrow> push_enable name Op_Alias [local] sl
     | (None, Some prev) \<Rightarrow> push_enable name Op_Alias [prev] sl
     | (Some local, Some prev) \<Rightarrow> push_enable name Op_LogicalAnd [local, prev] sl
     | (None, None) \<Rightarrow> sl))"
  have rest: "enable_signals xs n sl1 = Inr sl'" and n: "allocated n xs"
    using Cons.prems(1,2) by (cases c; cases current; cases n; simp add: x sl1_def or_panic_def)+
  have "enabled_by \<rho> n xs \<and> all_mean \<rho> sl1 \<and> set (sl_stmts sl1) \<subseteq> set (sl_stmts sl')"
    by (rule Cons.IH [OF rest n Cons.prems(3)])
  moreover have "set (sl_stmts sl) \<subseteq> set (sl_stmts sl1)"
    by (auto simp: sl1_def push_enable_def split: option.split)
  moreover have "all_mean \<rho> sl1 \<Longrightarrow> enabled_by \<rho> current [(c, n)]"
    using Cons.prems(2) by (cases c; cases current; cases n) (simp_all add: x sl1_def push_enable_def or_const_true_def)
  ultimately show ?case by (auto simp: x)
qed simp

lemma enabled_by_append:
  "enabled_by \<rho> current (xs @ [(c, n)]) \<longleftrightarrow>
     enabled_by \<rho> current xs \<and> enabled_by \<rho> (if xs = [] then current else snd (last xs)) [(c, n)]"
  by (induction \<rho> current xs rule: enabled_by.induct) auto

text \<open>In the order of the stages: a stage is ready when its condition holds and the next is ready.\<close>

lemma enabled_by_stages:
  "enabled_by \<rho> None (rev xs) \<Longrightarrow> i < length xs \<Longrightarrow>
     sig \<rho> (snd (xs ! i)) \<longleftrightarrow> sig \<rho> (fst (xs ! i)) \<and> sig \<rho> ((map snd xs @ [None]) ! Suc i)"
  "enabled_by \<rho> None (rev xs) \<Longrightarrow> i < length xs \<Longrightarrow>
     \<forall>x\<in>set xs. boolean_signal \<rho> (or_const_true (fst x)) \<Longrightarrow> boolean_signal \<rho> (or_const_true (snd (xs ! i)))"
proof (induction xs arbitrary: i)
  case (Cons x xs)
  obtain c n where x: "x = (c, n)" by fastforce
  have e: "enabled_by \<rho> None (rev xs) \<and> enabled_by \<rho> (if xs = [] then None else snd (hd xs)) [(c, n)]"
    if "enabled_by \<rho> None (rev (x # xs))"
    using that by (simp add: x enabled_by_append last_rev del: enabled_by.simps split: if_splits)
  {
    case 1
    then show ?case using Cons.IH(1) e [OF 1(1)] x by (cases i; cases xs) auto
  next
    case 2
    then have "xs \<noteq> [] \<Longrightarrow> boolean_signal \<rho> (or_const_true (snd (hd xs)))"
      using Cons.IH(2) [of 0] e [OF 2(1)] by (cases xs) auto
    then show ?case using 2 Cons.IH(2) e [OF 2(1)] x
      by (cases i) (auto simp: or_const_true_def split: if_splits)
  }
qed simp_all

section \<open>Valid signals\<close>

text \<open>One tick of the clock: a register without a reset takes the value it was given.\<close>

definition clocked :: "(vkey \<Rightarrow> pvalue) \<Rightarrow> (vkey \<Rightarrow> pvalue) \<Rightarrow> statement_list \<Rightarrow> bool" where
  "clocked \<rho> \<rho>' sl \<longleftrightarrow>
     (\<forall>r. St_Register r \<in> set (sl_stmts sl) \<and> r_reset r = None \<longrightarrow> value_at \<rho>' (r_name r) = value_at \<rho> (r_value r))"

lemma clocked_mono: "clocked \<rho> \<rho>' sl' \<Longrightarrow> stmts_in sl sl' \<Longrightarrow> clocked \<rho> \<rho>' sl"
  by (auto simp: clocked_def)

lemma bind_nth_opt: "i < length xs \<Longrightarrow> Option.bind (nth_opt xs i) (\<lambda>x. x) = xs ! i"
  by (simp add: nth_opt_def)

definition valid_step ::
  "(vkey \<Rightarrow> pvalue) \<Rightarrow> (vkey \<Rightarrow> pvalue) \<Rightarrow> value_name option \<Rightarrow> value_name option \<Rightarrow> value_name option \<Rightarrow>
     value_name option \<Rightarrow> value_name option \<Rightarrow> bool" where
  "valid_step \<rho> \<rho>' local select down prev valid \<longleftrightarrow>
     (sig \<rho>' valid \<longleftrightarrow> (if sig \<rho> select then sig \<rho> prev else sig \<rho> valid) \<and> \<not> (\<not> sig \<rho> local \<and> sig \<rho> down))"

lemma all_below_Suc: "P 0 \<Longrightarrow> \<forall>k<n. P (Suc k) \<Longrightarrow> \<forall>k<Suc n. P k"
  by (auto simp: less_Suc_eq_0_disj)

lemma valid_loop_sound:
  "valid_loop clock ready i conds prev sl names ids = Inr (valids, sl', names', ids') \<Longrightarrow>
     all_mean \<rho> sl' \<Longrightarrow> clocked \<rho> \<rho>' sl' \<Longrightarrow> i + length conds < length ready \<Longrightarrow>
     \<forall>c\<in>set conds \<union> set ready. boolean_signal \<rho> (or_const_true c) \<Longrightarrow>
     length valids = length conds \<and> all_mean \<rho> sl \<and> stmts_in sl sl' \<and>
     (\<forall>k<length conds. valid_step \<rho> \<rho>' (conds ! k) (ready ! (i + k)) (ready ! Suc (i + k)) ((prev # valids) ! k) (valids ! k))"
proof (induction conds arbitrary: i prev sl names ids valids)
  case (Cons c cs)
  have in_range: "i < length ready" "i + 1 < length ready" using Cons.prems(4) by auto
  obtain name names1 where n: "new_name [''#s'' @ show_nat (i + 1) @ ''_valid''] names = (name, names1)" by fastforce
  obtain v sl1 ids1 where v: "next_valid prev (name_value name) (ready ! i) (ready ! (i + 1)) c sl ids = (v, sl1, ids1)"
    by (metis prod_cases3)
  have bools: "boolean_signal \<rho> (or_const_true c)" "boolean_signal \<rho> (or_const_true (ready ! (i + 1)))"
    using Cons.prems(5) in_range by auto
  have first: "or_panic (nth_opt ready i) = Inr (ready ! i)" using in_range by (simp add: nth_opt_def)
  note loop = Cons.prems(1) [unfolded valid_loop.simps bind_nth_opt [OF in_range(2)] first res_bind_simps Let_def n prod.case v]
  show ?case
  proof (cases v)
    case (MC_Const b)
    then have b: b "prev = None" "ready ! i = None" "c = None" using next_valid_constant v by blast+
    obtain valids' where rest: "valid_loop clock ready (i + 1) cs None sl1 names1 ids1 = Inr (valids', sl', names', ids')"
      and valids: "valids = None # valids'"
      using loop b by (auto simp: MC_Const res_bind_Inr)
    have IH: "length valids' = length cs \<and> all_mean \<rho> sl1 \<and> stmts_in sl1 sl' \<and>
        (\<forall>k<length cs. valid_step \<rho> \<rho>' (cs ! k) (ready ! (i + 1 + k)) (ready ! Suc (i + 1 + k)) ((None # valids') ! k) (valids' ! k))"
      by (rule Cons.IH [OF rest]) (use Cons.prems in auto)
    then have len: "length valids' = length cs" and sub: "stmts_in sl1 sl'" and tail: "\<forall>k<length cs. valid_step \<rho> \<rho>' (cs ! k)
        (ready ! (i + 1 + k)) (ready ! Suc (i + 1 + k)) ((None # valids') ! k) (valids' ! k)"
      and m1: "all_mean \<rho> sl1" by auto
    note nv = next_valid_sound [OF v m1 bools]
    then have "valid_step \<rho> \<rho>' c (ready ! i) (ready ! Suc i) prev None"
      using MC_Const b by (simp add: valid_step_def)
    then have "\<forall>k<Suc (length cs). valid_step \<rho> \<rho>' ((c # cs) ! k) (ready ! (i + k)) (ready ! Suc (i + k))
        ((prev # valids) ! k) (valids ! k)"
      using tail valids by (intro all_below_Suc) (simp_all add: b(2))
    moreover have "stmts_in sl sl'" using sub nv(3) by (rule subset_trans [rotated])
    ultimately show ?thesis using len nv(2) valids by simp
  next
    case (MC_Val next_val)
    let ?r = "Register (name_value name) Ty_Bool (name_value clock) None None next_val None None"
    let ?sl = "push_anonymous (St_Register ?r) sl1"
    obtain valids' where rest: "valid_loop clock ready (i + 1) cs (Some (name_value name)) ?sl names1 ids1 =
        Inr (valids', sl', names', ids')"
      and valids: "valids = Some (name_value name) # valids'"
      using loop by (auto simp: MC_Val res_bind_Inr)
    have IH: "length valids' = length cs \<and> all_mean \<rho> ?sl \<and> stmts_in ?sl sl' \<and>
        (\<forall>k<length cs. valid_step \<rho> \<rho>' (cs ! k) (ready ! (i + 1 + k)) (ready ! Suc (i + 1 + k))
           ((Some (name_value name) # valids') ! k) (valids' ! k))"
      by (rule Cons.IH [OF rest]) (use Cons.prems in auto)
    then have len: "length valids' = length cs" and sub: "stmts_in sl1 sl'" and tail: "\<forall>k<length cs. valid_step \<rho> \<rho>' (cs ! k)
        (ready ! (i + 1 + k)) (ready ! Suc (i + 1 + k)) ((Some (name_value name) # valids') ! k) (valids' ! k)"
      and m1: "all_mean \<rho> sl1" by auto
    note nv = next_valid_sound [OF v m1 bools]
    have "value_at \<rho>' (name_value name) = value_at \<rho> next_val"
    proof -
      have "St_Register ?r \<in> set (sl_stmts ?sl)" by simp
      then have "St_Register ?r \<in> set (sl_stmts sl')" using IH by blast
      then show ?thesis using Cons.prems(3) by (fastforce simp: clocked_def)
    qed
    then have "valid_step \<rho> \<rho>' c (ready ! i) (ready ! Suc i) prev (Some (name_value name))"
      using MC_Val nv(1) by (simp add: valid_step_def)
    then have "\<forall>k<Suc (length cs). valid_step \<rho> \<rho>' ((c # cs) ! k) (ready ! (i + k)) (ready ! Suc (i + k))
        ((prev # valids) ! k) (valids ! k)"
      using tail valids by (intro all_below_Suc) (simp_all)
    moreover have "stmts_in sl sl'" using sub nv(3) by (rule subset_trans [rotated])
    ultimately show ?thesis using len nv(2) valids by simp
  qed
qed simp

section \<open>The registers of a variable\<close>

text \<open>The name of a variable in a stage.\<close>

definition stage_name :: "substitutions \<Rightarrow> name_id \<Rightarrow> nat \<Rightarrow> value_name" where
  "stage_name subs x k =
     (case (stages subs ! k) (nid_num x) of Some (Sub_Available n) \<Rightarrow> name_value n | _ \<Rightarrow> name_value x)"

definition in_stage :: "substitutions \<Rightarrow> name_id \<Rightarrow> nat \<Rightarrow> bool" where
  "in_stage subs x k \<longleftrightarrow> (\<exists>n. (stages subs ! k) (nid_num x) = Some (Sub_Available n))"

text \<open>A register between two stages takes the value before it when the stage is enabled and keeps its own otherwise.\<close>

definition data_step ::
  "(vkey \<Rightarrow> pvalue) \<Rightarrow> (vkey \<Rightarrow> pvalue) \<Rightarrow> value_name option \<Rightarrow> value_name \<Rightarrow> value_name \<Rightarrow> bool" where
  "data_step \<rho> \<rho>' enable old new \<longleftrightarrow>
     value_at \<rho>' new = (if sig \<rho> enable then value_at \<rho> old else value_at \<rho> new)"

definition moved_by ::
  "(vkey \<Rightarrow> pvalue) \<Rightarrow> (vkey \<Rightarrow> pvalue) \<Rightarrow> statement_list \<Rightarrow> value_name option \<Rightarrow> value_name \<Rightarrow> value_name \<Rightarrow> bool" where
  "moved_by \<rho> \<rho>' fin enable old new \<longleftrightarrow> (clocked \<rho> \<rho>' fin \<longrightarrow> data_step \<rho> \<rho>' enable old new)"

definition carried ::
  "(vkey \<Rightarrow> pvalue) \<Rightarrow> (vkey \<Rightarrow> pvalue) \<Rightarrow> statement_list \<Rightarrow> value_name option list \<Rightarrow> name_id \<Rightarrow> pipe_state \<Rightarrow> bool" where
  "carried \<rho> \<rho>' fin enables x st \<longleftrightarrow>
     (let subs = lc_subs (ps_ctx st); n = ps_stage st
      in length (stages subs) = Suc n \<and> n \<le> length enables \<and> nid_num x \<in> nid_num ` set (live_vars subs) \<and>
         (stages subs ! 0) (nid_num x) = Some (Sub_Available x) \<and>
         (\<forall>k<Suc n. in_stage subs x k) \<and>
         (\<forall>k<n. moved_by \<rho> \<rho>' fin (enables ! k) (stage_name subs x k) (stage_name subs x (Suc k))))"

definition register_mux :: "value_name option \<Rightarrow> sub_register \<Rightarrow> mir_type \<Rightarrow> loc \<Rightarrow> value_name \<Rightarrow> statement list" where
  "register_mux enable reg ty l v =
     (case enable of
        None \<Rightarrow> []
      | Some en \<Rightarrow> [St_Binding (Binding v Op_Select [en, name_value (sr_previous reg), name_value (sr_new reg)] ty (Some l))])"

lemma pipeline_register_stmts:
  assumes "pipeline_register env clock enable l reg st = Inr st'"
  obtains ty v where "sl_stmts (ps_stmts st') = sl_stmts (ps_stmts st) @ register_mux enable reg ty l v @
      [St_Register (Register (name_value_with (sr_new reg) (NS_Name (sr_original reg))) ty (name_value clock) None None
        v (Some l) None)]" and "enable = None \<longrightarrow> v = name_value (sr_previous reg)"
    and "lc_subs (ps_ctx st') = lc_subs (ps_ctx st)" "ps_stage st' = ps_stage st" "ps_conds st' = ps_conds st"
proof -
  obtain t ty where ty: "name_type env (sr_original reg) = Inr t" "to_mir_type t = Some ty"
    and fresh: "ps_name_map st (nid_num (sr_new reg)) = None"
    using assms by (auto simp: pipeline_register_def res_bind_Inr split: if_splits)
  show thesis
  proof (cases enable)
    case None
    show thesis
      by (rule that [of ty "name_value (sr_previous reg)"])
        (use assms None ty fresh in \<open>auto simp: pipeline_register_def register_mux_def res_bind_Inr\<close>)
  next
    case (Some en)
    show thesis
      by (rule that [of ty "VN_Expr (fst (tracker_next (lc_ids (ps_ctx st))))"])
        (use assms Some ty fresh in \<open>auto simp: pipeline_register_def register_mux_def case_prod_unfold Let_def res_bind_Inr\<close>)
  qed
qed

lemma pipeline_register_sound:
  assumes "pipeline_register env clock enable l reg st = Inr st'" and "stmts_in (ps_stmts st') fin"
    and "all_mean \<rho> fin"
  shows "stmts_in (ps_stmts st) (ps_stmts st')"
    and "moved_by \<rho> \<rho>' fin enable (name_value (sr_previous reg)) (name_value (sr_new reg))"
    and "lc_subs (ps_ctx st') = lc_subs (ps_ctx st) \<and> ps_stage st' = ps_stage st \<and> ps_conds st' = ps_conds st"
proof -
  obtain ty v where out: "sl_stmts (ps_stmts st') = sl_stmts (ps_stmts st) @ register_mux enable reg ty l v @
      [St_Register (Register (name_value_with (sr_new reg) (NS_Name (sr_original reg))) ty (name_value clock) None None
        v (Some l) None)]" and v: "enable = None \<longrightarrow> v = name_value (sr_previous reg)"
    and rest: "lc_subs (ps_ctx st') = lc_subs (ps_ctx st)" "ps_stage st' = ps_stage st" "ps_conds st' = ps_conds st"
    by (rule pipeline_register_stmts [OF assms(1)])
  show "stmts_in (ps_stmts st) (ps_stmts st')" by (auto simp: out)
  show "lc_subs (ps_ctx st') = lc_subs (ps_ctx st) \<and> ps_stage st' = ps_stage st \<and> ps_conds st' = ps_conds st"
    using rest by simp
  have key: "value_at \<rho>' (name_value_with n src) = value_at \<rho>' (name_value n)" for n src
    by (simp add: value_at_def name_value_def name_value_with_def vn_key_def)
  let ?r = "Register (name_value_with (sr_new reg) (NS_Name (sr_original reg))) ty (name_value clock) None None v (Some l) None"
  have "St_Register ?r \<in> set (sl_stmts fin)" using out assms(2) by auto
  then have "clocked \<rho> \<rho>' fin \<Longrightarrow> value_at \<rho>' (name_value (sr_new reg)) = value_at \<rho> v"
    using key unfolding clocked_def by fastforce
  moreover have "value_at \<rho> v =
      (if sig \<rho> enable then value_at \<rho> (name_value (sr_previous reg)) else value_at \<rho> (name_value (sr_new reg)))"
  proof (cases enable)
    case (Some en)
    then have "St_Binding (Binding v Op_Select [en, name_value (sr_previous reg), name_value (sr_new reg)] ty (Some l))
        \<in> set (sl_stmts fin)"
      using out assms(2) by (auto simp: register_mux_def)
    then have "means \<rho> (St_Binding (Binding v Op_Select
        [en, name_value (sr_previous reg), name_value (sr_new reg)] ty (Some l)))"
      using assms(3) by blast
    then show ?thesis using Some by simp
  qed (simp add: v)
  ultimately show "moved_by \<rho> \<rho>' fin enable (name_value (sr_previous reg)) (name_value (sr_new reg))"
    by (simp add: moved_by_def data_step_def)
qed

lemma pipeline_registers_sound:
  "pipeline_registers env clock enable l regs st = Inr st' \<Longrightarrow> stmts_in (ps_stmts st') fin \<Longrightarrow> all_mean \<rho> fin \<Longrightarrow>
     stmts_in (ps_stmts st) (ps_stmts st') \<and> lc_subs (ps_ctx st') = lc_subs (ps_ctx st) \<and> ps_stage st' = ps_stage st \<and>
     ps_conds st' = ps_conds st \<and>
     (\<forall>reg\<in>set regs. moved_by \<rho> \<rho>' fin enable (name_value (sr_previous reg)) (name_value (sr_new reg)))"
proof (induction regs arbitrary: st)
  case (Cons reg regs)
  obtain st1 where r: "pipeline_register env clock enable l reg st = Inr st1"
    and rs: "pipeline_registers env clock enable l regs st1 = Inr st'"
    using Cons.prems(1) by (auto simp: res_bind_Inr)
  note IH = Cons.IH [OF rs Cons.prems(2-)]
  then have "stmts_in (ps_stmts st1) fin" using Cons.prems(2) by blast
  note one = pipeline_register_sound [OF r this Cons.prems(3)]
  show ?case using IH one by auto
qed simp

lemma set_available_carried:
  assumes "set_available y time ty subs = Some subs'" and "nid_num y \<noteq> nid_num x" and "k < length (stages subs)"
  shows "(stages subs' ! k) (nid_num x) = (stages subs ! k) (nid_num x)"
    and "length (stages subs') = length (stages subs)"
    and "set (live_vars subs) \<subseteq> set (live_vars subs')"
proof -
  obtain avail where subs': "subs' = subs\<lparr>live_vars := live_vars subs @ [y],
      stages := butlast (stages subs) @ [(last (stages subs))(nid_num y \<mapsto> avail)]\<rparr>"
    using assms(1) by (auto simp: set_available_def bind_eq_Some_conv split: if_splits)
  show "(stages subs' ! k) (nid_num x) = (stages subs ! k) (nid_num x)"
  proof (cases "k = length (stages subs) - 1")
    case True
    moreover from this have "stages subs \<noteq> []" using assms(3) by auto
    ultimately show ?thesis using assms(2,3) by (auto simp: subs' nth_append last_conv_nth)
  next
    case False
    then show ?thesis using assms(3) by (auto simp: subs' nth_append nth_butlast)
  qed
  show "length (stages subs') = length (stages subs)" using assms(3) by (simp add: subs')
  show "set (live_vars subs) \<subseteq> set (live_vars subs')" by (auto simp: subs')
qed

text \<open>Names that are given keep the variable, and a new stage has a register for it.\<close>

lemma names_available_carried:
  "names_available env ys time ctx = Inr ctx' \<Longrightarrow> nid_num x \<notin> nid_num ` set ys \<Longrightarrow> stages (lc_subs ctx) \<noteq> [] \<Longrightarrow>
     length (stages (lc_subs ctx')) = length (stages (lc_subs ctx)) \<and>
     set (live_vars (lc_subs ctx)) \<subseteq> set (live_vars (lc_subs ctx')) \<and>
     (\<forall>k<length (stages (lc_subs ctx)). (stages (lc_subs ctx') ! k) (nid_num x) = (stages (lc_subs ctx) ! k) (nid_num x))"
proof (induction ys arbitrary: ctx)
  case (Cons y ys)
  obtain ty subs where s: "set_available y time ty (lc_subs ctx) = Some subs"
    and r: "names_available env ys time (ctx\<lparr>lc_subs := subs\<rparr>) = Inr ctx'"
    using Cons.prems(1) by (auto simp: res_bind_Inr)
  have ne: "nid_num y \<noteq> nid_num x" using Cons.prems(2) by auto
  note one = set_available_carried [OF s ne]
  have "0 < length (stages (lc_subs ctx))" using Cons.prems(3) by simp
  then have "length (stages subs) = length (stages (lc_subs ctx))" "set (live_vars (lc_subs ctx)) \<subseteq> set (live_vars subs)"
    using one(2,3) by blast+
  moreover from this have "stages subs \<noteq> []" using Cons.prems(3) by auto
  ultimately show ?case
    using Cons.IH [OF r] Cons.prems(2) one(1) by (auto simp del: names_available.simps)
qed simp

lemma next_stage_carried:
  assumes "next_stage subs tracker = Some (regs, subs', tracker')" and "nid_num x \<in> nid_num ` set (live_vars subs)"
    and "length (stages subs) = Suc n" and "in_stage subs x n"
  shows "length (stages subs') = Suc (Suc n)" and "live_vars subs' = live_vars subs"
    and "\<And>k. k \<le> n \<Longrightarrow> stages subs' ! k = stages subs ! k" and "in_stage subs' x (Suc n)"
    and "\<exists>reg\<in>set regs. name_value (sr_previous reg) = stage_name subs x n \<and>
           name_value (sr_new reg) = stage_name subs' x (Suc n)"
proof -
  obtain ns where ns: "next_subs (length (stages subs)) (last (stages subs)) (live_vars subs) Map.empty tracker =
      Some (ns, regs, tracker')" and subs': "subs' = subs\<lparr>stages := stages subs @ [ns]\<rparr>"
    using assms(1) by (auto simp: next_stage_def split: if_splits)
  have last: "last (stages subs) = stages subs ! n" using assms(3) by (subst last_conv_nth) auto
  obtain m where m: "(stages subs ! n) (nid_num x) = Some (Sub_Available m)" using assms(4) by (auto simp: in_stage_def)
  obtain original sub' regs' tr1 tr2 where step: "next_sub (length (stages subs)) original (Sub_Available m) tr1 = Some (sub', regs', tr2)"
    and sub: "set regs' \<subseteq> set regs" "ns (nid_num x) = Some sub'"
    using next_subs_get [OF ns assms(2)] m last by auto
  obtain new where new: "sub' = Sub_Available new"
    "regs' = [\<lparr>sr_original = original, sr_previous = m, sr_new = new\<rparr>]"
    using step by (auto simp: next_sub_def Let_def bind_eq_Some_conv case_prod_unfold)
  show "length (stages subs') = Suc (Suc n)" "live_vars subs' = live_vars subs"
    "\<And>k. k \<le> n \<Longrightarrow> stages subs' ! k = stages subs ! k" "in_stage subs' x (Suc n)"
    using assms(3) sub new by (auto simp: subs' nth_append in_stage_def)
  show "\<exists>reg\<in>set regs. name_value (sr_previous reg) = stage_name subs x n \<and>
      name_value (sr_new reg) = stage_name subs' x (Suc n)"
    using assms(3) sub new m by (auto simp: subs' nth_append stage_name_def intro!: bexI [of _ "hd regs'"])
qed

text \<open>What the statements leave as it was, and the stage that a marker adds.\<close>

lemma local_condition_same:
  assumes "local_condition env extra st = Inr (c, st')"
  shows "same_stages (ps_ctx st) (ps_ctx st')" and "stmts_in (ps_stmts st) (ps_stmts st')"
    and "ps_stage st' = ps_stage st" and "ps_conds st' = ps_conds st" and "c = None \<longleftrightarrow> extra = None"
  using assms lower_same_stages(1)
  by (auto simp: local_condition_def res_bind_Inr split: option.splits reg_marker_extra.splits)

definition condition_of :: "lower_env \<Rightarrow> statement_list \<Rightarrow> expression reg_marker_extra option \<Rightarrow> value_name option \<Rightarrow> bool" where
  "condition_of env fin extra c \<longleftrightarrow>
     (case extra of
        None \<Rightarrow> c = None
      | Some (RM_Condition e) \<Rightarrow>
          (\<exists>ctx sl ctx' v. lower env e ctx = Inr (sl, ctx') \<and> variable env ctx' e = Inr v \<and> c = Some v \<and> stmts_in sl fin)
      | Some (RM_Count _ _) \<Rightarrow> False)"

lemma condition_of_None: "condition_of env fin extra c \<Longrightarrow> extra = None \<longleftrightarrow> c = None"
  by (auto simp: condition_of_def split: option.splits reg_marker_extra.splits)

lemma local_condition_of:
  "local_condition env extra st = Inr (c, st') \<Longrightarrow> stmts_in (ps_stmts st') fin \<Longrightarrow> condition_of env fin extra c"
  by (fastforce simp: local_condition_def condition_of_def res_bind_Inr split: option.splits reg_marker_extra.splits)

definition statement_names :: "hir_statement \<Rightarrow> name_id list" where
  "statement_names s =
     (case s of HS_Binding p _ _ _ \<Rightarrow> get_names p | HS_Register p _ _ _ _ _ _ \<Rightarrow> get_names p | _ \<Rightarrow> [])"

lemma markers_Cons: "markers (s # ss) = markers [s] @ markers ss"
  by (simp add: markers_def)

lemma marker_parts:
  assumes "handle_statement env clock enables (HS_PipelineRegMarker extra, l) st = Inr st'"
  obtains c st1 regs st2 enable st3 where "local_condition env extra st = Inr (c, st1)"
    "next_stage_of (st1\<lparr>ps_conds := ps_conds st1 @ [c]\<rparr>) = Inr (regs, st2)"
    "if regs = [] then enable = None else nth_opt enables (ps_stage st2) = Some enable"
    "pipeline_registers env clock enable l regs st2 = Inr st3" "st' = st3\<lparr>ps_stage := ps_stage st3 + 1\<rparr>"
  using assms by (auto simp: handle_statement_def res_bind_Inr split: if_splits)

lemma next_stage_of_parts:
  assumes "next_stage_of st = Inr (regs, st')"
  shows "\<exists>subs names. next_stage (lc_subs (ps_ctx st)) (lc_names (ps_ctx st)) = Some (regs, subs, names) \<and>
    st' = st\<lparr>ps_ctx := (ps_ctx st)\<lparr>lc_subs := subs, lc_names := names\<rparr>\<rparr>"
  using assms by (auto simp: next_stage_of_def res_bind_Inr)

lemma marker_carried:
  assumes marker: "handle_statement env clock enables (HS_PipelineRegMarker extra, l) st = Inr st'"
    and carried: "carried \<rho> \<rho>' fin enables x st"
    and fin: "stmts_in (ps_stmts st') fin" "all_mean \<rho> fin"
  shows "carried \<rho> \<rho>' fin enables x st'"
proof -
  obtain c st1 regs st2 enable st3 where l: "local_condition env extra st = Inr (c, st1)"
    and n: "next_stage_of (st1\<lparr>ps_conds := ps_conds st1 @ [c]\<rparr>) = Inr (regs, st2)"
    and e: "if regs = [] then enable = None else nth_opt enables (ps_stage st2) = Some enable"
    and r: "pipeline_registers env clock enable l regs st2 = Inr st3" and st': "st' = st3\<lparr>ps_stage := ps_stage st3 + 1\<rparr>"
    by (rule marker_parts [OF marker])
  obtain subs names where s: "next_stage (lc_subs (ps_ctx st1)) (lc_names (ps_ctx st1)) = Some (regs, subs, names)"
    and st2: "lc_subs (ps_ctx st2) = subs" "ps_stage st2 = ps_stage st1"
    using next_stage_of_parts [OF n] by auto
  let ?old = "lc_subs (ps_ctx st1)" and ?n = "ps_stage st"
  note same = local_condition_same [OF l]
  have old: "length (stages ?old) = Suc ?n" "nid_num x \<in> nid_num ` set (live_vars ?old)" "\<forall>k<Suc ?n. in_stage ?old x k"
    "\<forall>k<?n. moved_by \<rho> \<rho>' fin (enables ! k) (stage_name ?old x k) (stage_name ?old x (Suc k))"
    "(stages ?old ! 0) (nid_num x) = Some (Sub_Available x)"
    using carried same(1) by (simp_all add: carried_def Let_def in_stage_def stage_name_def)
  have last: "in_stage ?old x ?n" using old(3) by simp
  note new = next_stage_carried [OF s old(2,1) last]
  have "stmts_in (ps_stmts st3) fin" using fin(1) st' by simp
  note regs = pipeline_registers_sound [OF r this fin(2)]
  have st3: "lc_subs (ps_ctx st3) = subs" "ps_stage st3 = ?n"
    "\<forall>reg\<in>set regs. moved_by \<rho> \<rho>' fin enable (name_value (sr_previous reg)) (name_value (sr_new reg))"
    using regs st2 same(3) by simp_all
  have "regs \<noteq> []" using new(5) by auto
  then have enable: "?n < length enables" "enable = enables ! ?n"
    using e st2(2) same(3) by (auto simp: nth_opt_def split: if_splits)
  have "moved_by \<rho> \<rho>' fin (enables ! ?n) (stage_name ?old x ?n) (stage_name subs x (Suc ?n))"
    using new(5) st3(3) enable(2) by metis
  moreover have "stage_name subs x k = stage_name ?old x k \<and> in_stage subs x k = in_stage ?old x k" if "k \<le> ?n" for k
    using new(3) [OF that] by (simp add: stage_name_def in_stage_def)
  moreover have "stages subs ! 0 = stages ?old ! 0" using new(3) by simp
  ultimately show ?thesis
    using old new(1,2,4) enable(1) st3(1,2) st' by (auto simp: carried_def Let_def less_Suc_eq)
qed

lemma handle_statement_sound:
  assumes "handle_statement env clock enables s st = Inr st'" and "stmts_in (ps_stmts st') fin"
    and "all_mean \<rho> fin"
  shows "stmts_in (ps_stmts st) (ps_stmts st')"
    and "\<exists>cs. ps_conds st' = ps_conds st @ cs \<and> list_all2 (condition_of env fin) (markers [s]) cs \<and>
           ps_stage st' = ps_stage st + length cs"
    and "carried \<rho> \<rho>' fin enables x st \<Longrightarrow> nid_num x \<notin> nid_num ` set (statement_names (fst s)) \<Longrightarrow> carried \<rho> \<rho>' fin enables x st'"
proof -
  obtain h l where s: "s = (h, l)" by fastforce
  have "stmts_in (ps_stmts st) (ps_stmts st') \<and>
    (\<exists>cs. ps_conds st' = ps_conds st @ cs \<and> list_all2 (condition_of env fin) (markers [s]) cs \<and>
       ps_stage st' = ps_stage st + length cs) \<and>
    (carried \<rho> \<rho>' fin enables x st \<and> nid_num x \<notin> nid_num ` set (statement_names (fst s)) \<longrightarrow> carried \<rho> \<rho>' fin enables x st')"
  proof (cases "\<exists>extra. h = HS_PipelineRegMarker extra")
    case True
    then obtain extra where h: "h = HS_PipelineRegMarker extra" by blast
    then have marker: "handle_statement env clock enables (HS_PipelineRegMarker extra, l) st = Inr st'"
      using assms(1) s by simp
    obtain c st1 regs st2 enable st3 where lc: "local_condition env extra st = Inr (c, st1)"
      and n: "next_stage_of (st1\<lparr>ps_conds := ps_conds st1 @ [c]\<rparr>) = Inr (regs, st2)"
      and r: "pipeline_registers env clock enable l regs st2 = Inr st3" and st': "st' = st3\<lparr>ps_stage := ps_stage st3 + 1\<rparr>"
      by (rule marker_parts [OF marker])
    have st2: "ps_stmts st2 = ps_stmts st1" "ps_conds st2 = ps_conds st1 @ [c]" "ps_stage st2 = ps_stage st1"
      using next_stage_of_parts [OF n] by auto
    have "stmts_in (ps_stmts st3) fin" using assms(2) st' by simp
    note regs = pipeline_registers_sound [OF r this assms(3)]
    note same = local_condition_same [OF lc]
    have st3: "stmts_in (ps_stmts st2) (ps_stmts st3)" "ps_stage st3 = ps_stage st2" "ps_conds st3 = ps_conds st2"
      using regs by simp_all
    then have "stmts_in (ps_stmts st1) fin" using assms(2) st' st2(1) by auto
    then have "condition_of env fin extra c" by (rule local_condition_of [OF lc])
    moreover have "stmts_in (ps_stmts st) (ps_stmts st')" using same(2) st3(1) st2(1) st' by auto
    moreover have "ps_conds st' = ps_conds st @ [c]" "ps_stage st' = ps_stage st + length [c]"
      using st2 st3 same(3,4) st' by simp_all
    moreover have "markers [s] = [extra]" using s h by (simp add: markers_def)
    moreover have "carried \<rho> \<rho>' fin enables x st \<Longrightarrow> carried \<rho> \<rho>' fin enables x st'"
      by (rule marker_carried [OF marker _ assms(2-)])
    ultimately show ?thesis by (intro conjI exI [of _ "[c]"] impI) (simp_all only: list_all2_Cons list_all2_Nil simp_thms)
  next
    case False
    then have m: "markers [s] = []" using s by (auto simp: markers_def split: hir_statement.splits)
    show ?thesis
    proof (cases "statement_names h = [] \<and> st' = st")
      case True
      then show ?thesis using m by simp
    next
      case changed: False
      then obtain ctx time where na: "names_available env (statement_names h) time (ps_ctx st) = Inr ctx"
        and st': "st' = st\<lparr>ps_ctx := ctx\<rparr>"
        using assms(1) False s
        by (cases h) (auto simp: handle_statement_def statement_names_def res_bind_Inr)
      have "carried \<rho> \<rho>' fin enables x st'" if "carried \<rho> \<rho>' fin enables x st" "nid_num x \<notin> nid_num ` set (statement_names h)"
      proof -
        have "stages (lc_subs (ps_ctx st)) \<noteq> []" using that(1) by (auto simp: carried_def Let_def)
        note names_available_carried [OF na that(2) this]
        then show ?thesis using that(1) st'
          by (auto simp: carried_def Let_def in_stage_def stage_name_def)
      qed
      then show ?thesis using m st' s by simp
    qed
  qed
  then show "stmts_in (ps_stmts st) (ps_stmts st')"
    and "\<exists>cs. ps_conds st' = ps_conds st @ cs \<and> list_all2 (condition_of env fin) (markers [s]) cs \<and>
           ps_stage st' = ps_stage st + length cs"
    and "carried \<rho> \<rho>' fin enables x st \<Longrightarrow> nid_num x \<notin> nid_num ` set (statement_names (fst s)) \<Longrightarrow> carried \<rho> \<rho>' fin enables x st'"
    by blast+
qed

lemma handle_statements_sound:
  "handle_statements env clock enables ss st = Inr st' \<Longrightarrow> stmts_in (ps_stmts st') fin \<Longrightarrow>
     all_mean \<rho> fin \<Longrightarrow>
     stmts_in (ps_stmts st) (ps_stmts st') \<and>
     (\<exists>cs. ps_conds st' = ps_conds st @ cs \<and> list_all2 (condition_of env fin) (markers ss) cs \<and>
        ps_stage st' = ps_stage st + length cs) \<and>
     (carried \<rho> \<rho>' fin enables x st \<and> (\<forall>s\<in>set ss. nid_num x \<notin> nid_num ` set (statement_names (fst s))) \<longrightarrow>
        carried \<rho> \<rho>' fin enables x st')"
proof (induction ss arbitrary: st)
  case Nil
  then show ?case by (simp add: markers_def)
next
  case (Cons s ss)
  obtain st1 where s: "handle_statement env clock enables s st = Inr st1"
    and rest: "handle_statements env clock enables ss st1 = Inr st'"
    using Cons.prems(1) by (auto simp: res_bind_Inr)
  obtain cs2 where IH: "stmts_in (ps_stmts st1) (ps_stmts st')" "ps_conds st' = ps_conds st1 @ cs2"
      "list_all2 (condition_of env fin) (markers ss) cs2" "ps_stage st' = ps_stage st1 + length cs2"
      "carried \<rho> \<rho>' fin enables x st1 \<and> (\<forall>s\<in>set ss. nid_num x \<notin> nid_num ` set (statement_names (fst s))) \<longrightarrow>
         carried \<rho> \<rho>' fin enables x st'"
    using Cons.IH [OF rest Cons.prems(2-)] by blast
  then have "stmts_in (ps_stmts st1) fin" using Cons.prems(2) by blast
  note one = handle_statement_sound [OF s this Cons.prems(3)]
  obtain cs1 where cs1: "ps_conds st1 = ps_conds st @ cs1" "list_all2 (condition_of env fin) (markers [s]) cs1"
      "ps_stage st1 = ps_stage st + length cs1" using one(2) by blast
  have "list_all2 (condition_of env fin) (markers (s # ss)) (cs1 @ cs2)"
    unfolding markers_Cons [of s ss] using cs1(2) IH(3) by (rule list_all2_appendI)
  then show ?case using one(1,3) IH cs1 by (intro conjI exI [of _ "cs1 @ cs2"]) auto
qed

lemma inputs_carried:
  "names_available env inputs 0 ctx = Inr ctx' \<Longrightarrow> x \<in> set inputs \<Longrightarrow> distinct (map nid_num inputs) \<Longrightarrow>
     name_type env x = Inr ty \<Longrightarrow> availability x 0 ty = Some (Sub_Available x) \<Longrightarrow> length (stages (lc_subs ctx)) = 1 \<Longrightarrow>
     length (stages (lc_subs ctx')) = 1 \<and> nid_num x \<in> nid_num ` set (live_vars (lc_subs ctx')) \<and>
     (stages (lc_subs ctx') ! 0) (nid_num x) = Some (Sub_Available x)"
proof (induction inputs arbitrary: ctx)
  case (Cons y ys)
  obtain yty subs where yty: "name_type env y = Inr yty" and s: "set_available y 0 yty (lc_subs ctx) = Some subs"
    and r: "names_available env ys 0 (ctx\<lparr>lc_subs := subs\<rparr>) = Inr ctx'"
    using Cons.prems(1) by (auto simp: res_bind_Inr)
  have len: "length (stages subs) = 1"
    using s Cons.prems(6) by (auto simp: set_available_def bind_eq_Some_conv split: if_splits)
  show ?case
  proof (cases "x = y")
    case True
    have "nid_num x \<notin> nid_num ` set ys" using Cons.prems(3) True by auto
    moreover have "(stages subs ! 0) (nid_num x) = Some (Sub_Available x)" "x \<in> set (live_vars subs)"
      using s Cons.prems(4-6) True yty by (auto simp: set_available_def bind_eq_Some_conv nth_append split: if_splits)
    moreover have "stages (lc_subs (ctx\<lparr>lc_subs := subs\<rparr>)) \<noteq> []" using len by auto
    ultimately show ?thesis using names_available_carried [OF r] len by auto
  next
    case False
    then show ?thesis using Cons.IH [OF r] Cons.prems len by auto
  qed
qed simp

text \<open>The parts of a lowered pipeline.\<close>

lemma pipeline_parts:
  assumes "lower_pipeline env inputs body sl nm ctx = Inr (sl', nm', ctx')" and "ex_kind body = EK_Block (Block ss r)"
  obtains clock ctx1 reversed names st sl2 valids names' ids' where
    "names_available env inputs 0 ctx = Inr ctx1"
    "enable_names (length (markers ss)) (rev (markers ss)) False 0 (lc_names ctx1) = (reversed, names)"
    "handle_statements env clock (rev reversed) ss
       \<lparr>ps_ctx = ctx1\<lparr>lc_names := names\<rparr>, ps_stmts = sl, ps_name_map = nm, ps_conds = [], ps_stage = 0\<rparr> = Inr st"
    "enable_signals (rev (zip (ps_conds st) (rev reversed))) None (ps_stmts st) = Inr sl2"
    "valid_loop clock (rev reversed @ [None]) 0 (ps_conds st) None sl2 (lc_names (ps_ctx st)) (lc_ids (ps_ctx st)) =
       Inr (valids, sl', names', ids')"
    "lc_pipeline ctx' = Some \<lparr>ready_signals = rev reversed @ [None], valid_signals = None # valids\<rparr>"
    "lc_subs ctx' = lc_subs (ps_ctx st)"
proof -
  obtain clock rest where inputs: "inputs = clock # rest"
    using assms(1) by (cases inputs) (auto simp: lower_pipeline_def)
  obtain ctx1 where c: "names_available env inputs 0 ctx = Inr ctx1"
    using assms by (auto simp: lower_pipeline_def inputs res_bind_Inr simp del: names_available.simps)
  obtain reversed names where e:
    "enable_names (length (markers ss)) (rev (markers ss)) False 0 (lc_names ctx1) = (reversed, names)"
    by fastforce
  show thesis
    using assms c e by (auto simp: lower_pipeline_def inputs res_bind_Inr Let_def simp del: names_available.simps intro: that)
qed

section \<open>A pipeline is a queue\<close>

text \<open>What the stages up to a given one hold, the oldest first.\<close>

definition slot :: "(nat \<Rightarrow> bool) \<Rightarrow> (nat \<Rightarrow> 'v) \<Rightarrow> nat \<Rightarrow> 'v list" where
  "slot valid data k = (if valid k then [data k] else [])"

fun slots :: "(nat \<Rightarrow> bool) \<Rightarrow> (nat \<Rightarrow> 'v) \<Rightarrow> nat \<Rightarrow> 'v list" where
  "slots valid data 0 = []"
| "slots valid data (Suc k) = slot valid data (Suc k) @ slots valid data k"

text \<open>
  A stage that is ready passes its value on and takes the one before it; the last stage that is not ready
  keeps its value and sends nothing on.
\<close>

lemma queue_step:
  assumes "\<And>k. k < n \<Longrightarrow> ready k \<longleftrightarrow> cond k \<and> ready (Suc k)"
    and "\<And>k. k < n \<Longrightarrow> valid' (Suc k) \<longleftrightarrow> (if ready k then valid k else valid (Suc k)) \<and> \<not> (\<not> cond k \<and> ready (Suc k))"
    and "\<And>k. k < n \<Longrightarrow> data' (Suc k) = (if ready k then data k else data (Suc k))"
  shows "m \<le> n \<Longrightarrow>
    (if ready m then slot valid data m else []) @ slots valid' data' m =
      slots valid data m @ (if ready 0 then slot valid data 0 else [])"
proof (induction m)
  case (Suc m)
  then have IH: "(if ready m then slot valid data m else []) @ slots valid' data' m =
      slots valid data m @ (if ready 0 then slot valid data 0 else [])" and m: "m < n" by simp_all
  consider "ready m" "ready (Suc m)" "cond m" | "\<not> ready m" "ready (Suc m)" "\<not> cond m" | "\<not> ready m" "\<not> ready (Suc m)"
    using assms(1) [OF m] by blast
  then show ?case
  proof cases
    case 1
    then have "slot valid' data' (Suc m) = slot valid data m" using assms(2,3) [OF m] by (simp add: slot_def)
    then show ?thesis using 1 IH by simp
  next
    case 2
    then have "slot valid' data' (Suc m) = []" using assms(2,3) [OF m] by (simp add: slot_def)
    then show ?thesis using 2 IH by simp
  next
    case 3
    then have "slot valid' data' (Suc m) = slot valid data (Suc m)" using assms(2,3) [OF m] by (simp add: slot_def)
    then show ?thesis using 3 IH by simp
  qed
qed simp

text \<open>Statements are only added.\<close>

lemma to_value_name_stmts: "to_value_name l sl ids = (n, sl', ids') \<Longrightarrow> stmts_in sl sl'"
  by (auto simp: to_value_name_def split: prod.splits maybe_const.splits)

lemma constexpr_inv_stmts: "constexpr_inv l sl ids = (v, sl', ids') \<Longrightarrow> stmts_in sl sl'"
  by (induction l sl ids rule: constexpr_inv.induct) (auto simp: push_signal_def split: prod.splits)

lemma constexpr_and_stmts: "constexpr_and l r sl ids = (v, sl', ids') \<Longrightarrow> stmts_in sl sl'"
  by (induction l r sl ids rule: constexpr_and.induct) (auto simp: push_signal_def split: prod.splits)

lemma constexpr_select_stmts: "constexpr_select t f s sl ids = (v, sl', ids') \<Longrightarrow> stmts_in sl sl'"
  by (induction t f s sl ids rule: constexpr_select.induct)
    (auto simp: push_signal_def split: prod.splits dest!: to_value_name_stmts)

lemma next_valid_stmts: "next_valid prev v0 select down local sl ids = (v, sl', ids') \<Longrightarrow> stmts_in sl sl'"
  unfolding next_valid_def
  by (clarsimp split: prod.splits) (meson constexpr_and_stmts constexpr_inv_stmts constexpr_select_stmts subsetD)

lemma valid_loop_stmts:
  "valid_loop clock ready i conds prev sl names ids = Inr (valids, sl', names', ids') \<Longrightarrow>
     stmts_in sl sl' \<and> length valids = length conds"
proof (induction conds arbitrary: i prev sl names ids valids)
  case (Cons c cs)
  obtain name names1 where n: "new_name [''#s'' @ show_nat (i + 1) @ ''_valid''] names = (name, names1)" by fastforce
  obtain select where select: "nth_opt ready i = Some select" using Cons.prems by (auto simp: res_bind_Inr)
  obtain v sl1 ids1 where v: "next_valid prev (name_value name) select (Option.bind (nth_opt ready (i + 1)) (\<lambda>x. x)) c sl ids =
      (v, sl1, ids1)"
    by (metis prod_cases3)
  have first: "or_panic (nth_opt ready i) = Inr select" using select by simp
  note loop = Cons.prems [unfolded valid_loop.simps first res_bind_simps Let_def n prod.case v]
  have "stmts_in sl1 sl' \<and> length valids = Suc (length cs)"
  proof (cases v)
    case (MC_Val next_val)
    then obtain valids' where "valid_loop clock ready (i + 1) cs (Some (name_value name)) (push_anonymous (St_Register
        (Register (name_value name) Ty_Bool (name_value clock) None None next_val None None)) sl1) names1 ids1 =
        Inr (valids', sl', names', ids')" "length valids = Suc (length valids')"
      using loop by (auto simp: res_bind_Inr)
    from Cons.IH [OF this(1)] this(2) show ?thesis by simp
  next
    case (MC_Const b)
    then obtain valids' where "valid_loop clock ready (i + 1) cs prev sl1 names1 ids1 = Inr (valids', sl', names', ids')"
      "length valids = Suc (length valids')"
      using loop by (cases b) (auto simp: res_bind_Inr)
    from Cons.IH [OF this(1)] this(2) show ?thesis by simp
  qed
  then show ?case using next_valid_stmts [OF v] by auto
qed simp

lemma enable_signals_stmts: "enable_signals xs current sl = Inr sl' \<Longrightarrow> stmts_in sl sl'"
proof (induction xs arbitrary: current sl)
  case (Cons x xs)
  obtain c n where x: "x = (c, n)" by fastforce
  show ?case
    using Cons.prems
    by (cases c; cases current; cases n) (auto simp: x push_enable_def res_bind_Inr dest!: Cons.IH)
qed simp

text \<open>Every condition of the pipeline is a boolean.\<close>

definition boolean_conditions ::
  "lower_env \<Rightarrow> (hir_statement \<times> loc) list \<Rightarrow> (vkey \<Rightarrow> pvalue) \<Rightarrow> statement_list \<Rightarrow> bool" where
  "boolean_conditions env ss \<rho> fin \<longleftrightarrow>
     (\<forall>extra\<in>set (markers ss). \<forall>c. condition_of env fin extra c \<longrightarrow> boolean_signal \<rho> (or_const_true c))"

text \<open>The signals and registers of a lowered pipeline, stage by stage.\<close>

lemma pipeline_steps:
  assumes low: "lower_pipeline env inputs body sl nm ctx = Inr (sl', nm', ctx')" and body: "ex_kind body = EK_Block (Block ss r)"
    and pc: "lc_pipeline ctx' = Some pc" and fin: "all_mean \<rho> sl'"
  defines "n \<equiv> length (markers ss)"
  obtains conds where "length (ready_signals pc) = Suc n" "length (valid_signals pc) = Suc n"
    "list_all2 (condition_of env sl') (markers ss) conds" "ready_signals pc ! n = None" "valid_signals pc ! 0 = None"
    "\<And>k. k < n \<Longrightarrow> sig \<rho> (ready_signals pc ! k) \<longleftrightarrow> sig \<rho> (conds ! k) \<and> sig \<rho> (ready_signals pc ! Suc k)"
    "\<And>k. clocked \<rho> \<rho>' sl' \<Longrightarrow> boolean_conditions env ss \<rho> sl' \<Longrightarrow> k < n \<Longrightarrow> valid_step \<rho> \<rho>' (conds ! k) (ready_signals pc ! k) (ready_signals pc ! Suc k)
        (valid_signals pc ! k) (valid_signals pc ! Suc k)"
    "\<And>x ty k. x \<in> set inputs \<Longrightarrow> distinct (map nid_num inputs) \<Longrightarrow> name_type env x = Inr ty \<Longrightarrow>
        availability x 0 ty = Some (Sub_Available x) \<Longrightarrow> length (stages (lc_subs ctx)) = 1 \<Longrightarrow>
        \<forall>s\<in>set ss. nid_num x \<notin> nid_num ` set (statement_names (fst s)) \<Longrightarrow> 
        value_at \<rho> (stage_name (lc_subs ctx') x 0) = value_at \<rho> (name_value x) \<and>
        (k < n \<longrightarrow> moved_by \<rho> \<rho>' sl' (ready_signals pc ! k) (stage_name (lc_subs ctx') x k) (stage_name (lc_subs ctx') x (Suc k)))"
proof -
  obtain clock ctx1 reversed names st sl2 valids names' ids' where
    avail: "names_available env inputs 0 ctx = Inr ctx1"
    and en: "enable_names (length (markers ss)) (rev (markers ss)) False 0 (lc_names ctx1) = (reversed, names)"
    and stm: "handle_statements env clock (rev reversed) ss
       \<lparr>ps_ctx = ctx1\<lparr>lc_names := names\<rparr>, ps_stmts = sl, ps_name_map = nm, ps_conds = [], ps_stage = 0\<rparr> = Inr st"
      (is "handle_statements _ _ _ _ ?st0 = _")
    and es: "enable_signals (rev (zip (ps_conds st) (rev reversed))) None (ps_stmts st) = Inr sl2"
    and vl: "valid_loop clock (rev reversed @ [None]) 0 (ps_conds st) None sl2 (lc_names (ps_ctx st)) (lc_ids (ps_ctx st)) =
       Inr (valids, sl', names', ids')"
    and pc': "lc_pipeline ctx' = Some \<lparr>ready_signals = rev reversed @ [None], valid_signals = None # valids\<rparr>"
    and subs: "lc_subs ctx' = lc_subs (ps_ctx st)"
    by (rule pipeline_parts [OF low body])
  let ?enables = "rev reversed"
  have sub2: "stmts_in sl2 sl'" using valid_loop_stmts [OF vl] by simp
  have sub1: "stmts_in (ps_stmts st) sl'" using enable_signals_stmts [OF es] sub2 by blast
  note hs = handle_statements_sound [OF stm sub1 fin]
  have conds: "list_all2 (condition_of env sl') (markers ss) (ps_conds st)" and stage: "ps_stage st = length (ps_conds st)"
    using hs by auto
  then have len: "length (ps_conds st) = n" by (auto simp: n_def dest: list_all2_lengthD)
  have "list_all2 (\<lambda>e c. e = None \<longleftrightarrow> c = None) (markers ss) (ps_conds st)"
    using conds by (rule list_all2_mono) (rule condition_of_None)
  then have al: "length reversed = n \<and> allocated None (zip (rev (ps_conds st)) reversed)"
    using enable_names_allocated [OF en, of "rev (ps_conds st)" None] by (simp add: n_def)
  have rz: "zip (rev (ps_conds st)) reversed = rev (zip (ps_conds st) ?enables)"
    using al len by (metis length_rev rev_rev_ident zip_rev)
  have "enabled_by \<rho> None (rev (zip (ps_conds st) ?enables))"
    using enable_signals_enabled [OF es] al rz fin(1) sub2 by auto
  note en_st = enabled_by_stages [OF this]
  have cb: "boolean_signal \<rho> (or_const_true c)" if "boolean_conditions env ss \<rho> sl'" "c \<in> set (ps_conds st)" for c
  proof -
    obtain i where "i < length (ps_conds st)" "c = ps_conds st ! i" using \<open>c \<in> _\<close> by (auto simp: in_set_conv_nth)
    then show ?thesis using that(1) list_all2_nthD2 [OF conds] len unfolding n_def boolean_conditions_def by (metis nth_mem)
  qed
  have ready_step: "sig \<rho> (?enables ! k) \<longleftrightarrow> sig \<rho> (ps_conds st ! k) \<and> sig \<rho> ((?enables @ [None]) ! Suc k)"
    if "k < n" for k
    using en_st(1) [of k] that len al by auto
  have rb: "\<forall>c\<in>set (ps_conds st) \<union> set (?enables @ [None]). boolean_signal \<rho> (or_const_true c)"
    if b: "boolean_conditions env ss \<rho> sl'"
  proof -
    have "\<forall>x\<in>set (zip (ps_conds st) ?enables). boolean_signal \<rho> (or_const_true (fst x))"
      using cb [OF b] by (auto dest: set_zip_leftD)
    then have "boolean_signal \<rho> (or_const_true (?enables ! k))" if "k < n" for k
      using en_st(2) [of k] that len al by auto
    then have "\<forall>c\<in>set ?enables. boolean_signal \<rho> (or_const_true c)"
      using al by (metis in_set_conv_nth length_rev)
    then show ?thesis using cb [OF b] by (simp add: ball_Un or_const_true_def)
  qed
  have lens: "0 + length (ps_conds st) < length (?enables @ [None])" using len al by simp
  have "length valids = n" using valid_loop_stmts [OF vl] len by simp
  then have valid: "valid_step \<rho> \<rho>' (ps_conds st ! k) ((?enables @ [None]) ! k)
      ((?enables @ [None]) ! Suc k) ((None # valids) ! k) (valids ! k)"
    if "clocked \<rho> \<rho>' sl'" "boolean_conditions env ss \<rho> sl'" "k < n" for k
    using valid_loop_sound [OF vl fin that(1) lens rb [OF that(2)]] that(3) len by auto
  have pcs: "ready_signals pc = ?enables @ [None]" "valid_signals pc = None # valids"
    using pc pc' by auto
  show thesis
  proof (rule that [OF _ _ conds])
    fix x ty k
    assume x: "x \<in> set inputs" "distinct (map nid_num inputs)" "name_type env x = Inr ty"
      "availability x 0 ty = Some (Sub_Available x)" "length (stages (lc_subs ctx)) = 1"
      and fresh: "\<forall>s\<in>set ss. nid_num x \<notin> nid_num ` set (statement_names (fst s))"
    have start: "length (stages (lc_subs ctx1)) = 1" "nid_num x \<in> nid_num ` set (live_vars (lc_subs ctx1))"
      "(stages (lc_subs ctx1) ! 0) (nid_num x) = Some (Sub_Available x)"
      using inputs_carried [OF avail x] by simp_all
    then have "carried \<rho> \<rho>' sl' ?enables x ?st0" by (simp add: carried_def Let_def in_stage_def)
    then have c: "carried \<rho> \<rho>' sl' ?enables x st" using hs fresh by blast
    then have "k < n \<Longrightarrow> moved_by \<rho> \<rho>' sl' (?enables ! k) (stage_name (lc_subs ctx') x k) (stage_name (lc_subs ctx') x (Suc k))"
      using stage len subs by (simp add: carried_def Let_def)
    moreover have "value_at \<rho> (stage_name (lc_subs ctx') x 0) = value_at \<rho> (name_value x)"
      using c subs by (simp add: carried_def Let_def stage_name_def)
    ultimately show "value_at \<rho> (stage_name (lc_subs ctx') x 0) = value_at \<rho> (name_value x) \<and>
        (k < n \<longrightarrow> moved_by \<rho> \<rho>' sl' (ready_signals pc ! k) (stage_name (lc_subs ctx') x k) (stage_name (lc_subs ctx') x (Suc k)))"
      using al by (simp add: pcs nth_append)
  qed (use valid \<open>length valids = n\<close> al ready_step in \<open>auto simp: pcs nth_append\<close>)
qed

lemma ready_from:
  assumes "\<And>k. k < n \<Longrightarrow> ready k \<longleftrightarrow> cond k \<and> ready (Suc k)" and "ready n" and "k \<le> n"
  shows "ready k \<longleftrightarrow> (\<forall>j\<in>{k..<n}. cond j)"
  using assms(3)
proof (induction rule: inc_induct)
  case (step m)
  then have "{m..<n} = insert m {Suc m..<n}" by auto
  then show ?case using step assms(1) [of m] by simp
qed (simp add: assms(2))



section \<open>A concrete pipeline\<close>

definition ex_body :: "hir_statement list \<Rightarrow> expression" where
  "ex_body ss = Expr (EK_Block (Block (map (\<lambda>s. (s, loc_nowhere)) ss) (Some (ex_var 31 2)))) 32 loc_nowhere"

definition ex_inputs :: "name_id list" where
  "ex_inputs = [ex_name 1, ex_name 2, ex_name 3]"

text \<open>\<open>reg[c]\<close>, and the values of one moment and the next: \<open>c\<close> holds, so the value of \<open>b\<close> is accepted.\<close>

definition ex_held :: expression where
  "ex_held = ex_body [HS_PipelineRegMarker (Some (RM_Condition (ex_var 30 3)))]"

definition ex_now :: "vkey \<Rightarrow> pvalue" where
  "ex_now k = PV_Bool (case k of Inl (n, _) \<Rightarrow> n \<in> {2, 3, 200, 204} | Inr i \<Rightarrow> i \<notin> {100, 105})"

definition ex_next :: "vkey \<Rightarrow> pvalue" where
  "ex_next k = PV_Bool (case k of Inl (n, _) \<Rightarrow> n \<in> {202, 203, 204} | Inr i \<Rightarrow> True)"

definition ticks :: "(vkey \<Rightarrow> pvalue) \<Rightarrow> (vkey \<Rightarrow> pvalue) \<Rightarrow> statement \<Rightarrow> bool" where
  "ticks \<rho> \<rho>' s = (case s of St_Register r \<Rightarrow> value_at \<rho>' (r_name r) = value_at \<rho> (r_value r) | _ \<Rightarrow> True)"

lemma clocked_ticks: "list_all (ticks \<rho> \<rho>') (sl_stmts sl) \<Longrightarrow> clocked \<rho> \<rho>' sl"
  unfolding clocked_def list_all_iff by (auto simp: ticks_def dest!: bspec)

lemma ex_held_lowered:
  obtains sl' nm' ctx' pc where
    "lower_pipeline ex_env ex_inputs ex_held sl_new Map.empty ex_ctx = Inr (sl', nm', ctx')"
    "lc_pipeline ctx' = Some pc" "\<forall>s\<in>set (sl_stmts sl'). means ex_now s" "clocked ex_now ex_next sl'"
    "ready_signals pc = [Some (name_value (NameID 200 [''#s1_enable''])), None]"
    "valid_signals pc = [None, Some (name_value (NameID 204 [''#s1_valid'']))]"
    "stage_name (lc_subs ctx') (ex_name 2) 1 = name_value (NameID 202 [''s1_b''])"
proof -
  have "case lower_pipeline ex_env ex_inputs ex_held sl_new Map.empty ex_ctx of
      Inr (sl', nm', ctx') \<Rightarrow> list_all (means ex_now) (sl_stmts sl') \<and> list_all (ticks ex_now ex_next) (sl_stmts sl') \<and>
        stage_name (lc_subs ctx') (ex_name 2) 1 = name_value (NameID 202 [''s1_b'']) \<and>
        lc_pipeline ctx' = Some \<lparr>ready_signals = [Some (name_value (NameID 200 [''#s1_enable''])), None],
          valid_signals = [None, Some (name_value (NameID 204 [''#s1_valid'']))]\<rparr>
    | Inl _ \<Rightarrow> False"
    by code_simp
  then show thesis
    by (auto simp: list_all_iff split: sum.splits prod.splits intro!: that clocked_ticks)
qed

lemma ex_now_boolean: "boolean_conditions env ss ex_now fin"
  by (auto simp: boolean_conditions_def or_const_true_def value_at_def ex_now_def split: option.split)

lemma ex_held_body:
  "ex_kind ex_held = EK_Block (Block [(HS_PipelineRegMarker (Some (RM_Condition (ex_var 30 3))), loc_nowhere)] (Some (ex_var 31 2)))"
  by (simp add: ex_held_def ex_body_def)

lemma ex_held_markers:
  "markers [(HS_PipelineRegMarker (Some (RM_Condition (ex_var 30 3))), loc_nowhere)] = [Some (RM_Condition (ex_var 30 3))]"
  by (simp add: markers_def)



lemma list_ex_binding:
  "list_ex (\<lambda>s. case s of St_Binding b \<Rightarrow> P b | _ \<Rightarrow> False) ss \<Longrightarrow> \<exists>b. St_Binding b \<in> set ss \<and> P b"
  by (induction ss) (auto split: statement.split_asm)

definition ex_late :: expression where
  "ex_late = ex_body [HS_PipelineRegMarker None, HS_PipelineRegMarker (Some (RM_Condition (ex_var 30 3)))]"


end
