(* ===== verification/Linear_State.thy ===== *)
theory Linear_State
  imports Hir_Lowering "HOL-Library.AList"
begin

text \<open>
  spade-hir-lowering, \<open>linear_check/linear_state.rs\<close>: which resources of linear type exist, under which
  names, and where they were used. A tree that the code shares by \<open>Rc\<close> and changes by \<open>RefCell\<close> is a
  tree of pointers here; what changes (the usage of a leaf, the aliases of a node) is kept in a heap.
  Hash maps are association lists, so of several errors the first in insertion order is reported.
\<close>

section \<open>Witnesses\<close>

datatype mut_wire_witness =
    MW_This
  | MW_Field ident mut_wire_witness
  | MW_TupleIndex nat mut_wire_witness
  | MW_ArrayIndex nat mut_wire_witness

fun motivation :: "mut_wire_witness \<Rightarrow> string" where
  "motivation MW_This = []"
| "motivation (MW_Field name rest) = ''.'' @ name @ motivation rest"
| "motivation (MW_TupleIndex i rest) = ''#'' @ show_nat i @ motivation rest"
| "motivation (MW_ArrayIndex i rest) = ''['' @ show_nat i @ '']'' @ motivation rest"

fun is_linear :: "concrete_type \<Rightarrow> bool" where
  "is_linear (CT_Tuple inner) = list_ex is_linear inner"
| "is_linear (CT_Struct name members) = list_ex (\<lambda>(_, t). is_linear t) members"
| "is_linear (CT_Array inner sz) = is_linear inner"
| "is_linear (CT_Enum options) = False"
| "is_linear (CT_Single base params) = (base = PT_InOut)"
| "is_linear (CT_Integer n) = False"
| "is_linear (CT_Backward inner) = True"
| "is_linear (CT_Wire inner) = False"

section \<open>Trees\<close>

datatype usage_info = UI_Unlimited | UI_Unused | UI_Consumed loc

datatype item_reference = IR_Name name_id | IR_Anonymous nat

definition ref_key :: "item_reference \<Rightarrow> nat + nat" where
  "ref_key r = (case r of IR_Name n \<Rightarrow> Inl (nid_num n) | IR_Anonymous i \<Rightarrow> Inr i)"

definition show_item_reference :: "item_reference \<Rightarrow> string" where
  "show_item_reference r = (case r of IR_Name n \<Rightarrow> show_name_id n | IR_Anonymous i \<Rightarrow> show_nat i)"

datatype linear_tree =
    LT_Leaf nat
  | LT_Struct nat "(ident \<times> linear_tree) list"
  | LT_Tuple nat "linear_tree list"
  | LT_Array nat "linear_tree list"

fun tree_ptr :: "linear_tree \<Rightarrow> nat" where
  "tree_ptr (LT_Leaf p) = p"
| "tree_ptr (LT_Struct p _) = p"
| "tree_ptr (LT_Tuple p _) = p"
| "tree_ptr (LT_Array p _) = p"

record linear_heap =
  lh_usage :: "nat \<Rightarrow> usage_info"
  lh_aliases :: "nat \<Rightarrow> item_reference list"
  lh_next :: nat

definition new_leaf :: "bool \<Rightarrow> linear_heap \<Rightarrow> linear_tree \<times> linear_heap" where
  "new_leaf is_limited h =
     (LT_Leaf (lh_next h),
      h\<lparr>lh_usage := (lh_usage h)(lh_next h := if is_limited then UI_Unused else UI_Unlimited),
        lh_aliases := (lh_aliases h)(lh_next h := []), lh_next := lh_next h + 1\<rparr>)"

definition new_node :: "(nat \<Rightarrow> linear_tree) \<Rightarrow> linear_heap \<Rightarrow> linear_tree \<times> linear_heap" where
  "new_node f h =
     (f (lh_next h), h\<lparr>lh_aliases := (lh_aliases h)(lh_next h := []), lh_next := lh_next h + 1\<rparr>)"

definition add_alias :: "item_reference \<Rightarrow> linear_tree \<Rightarrow> linear_heap \<Rightarrow> linear_heap" where
  "add_alias r t h = h\<lparr>lh_aliases := (lh_aliases h)(tree_ptr t := lh_aliases h (tree_ptr t) @ [r])\<rparr>"

text \<open>Collecting pairs into a \<open>HashMap\<close>: of pairs with the same key the last stays.\<close>

definition collect_fields :: "(ident \<times> linear_tree) list \<Rightarrow> (ident \<times> linear_tree) list" where
  "collect_fields ms = fold (\<lambda>(k, v). AList.update k v) ms []"

fun build_linear_tree :: "concrete_type \<Rightarrow> linear_heap \<Rightarrow> lower_error + linear_tree \<times> linear_heap" where
  "build_linear_tree (CT_Tuple inner) h =
     res_bind (mapS_res build_linear_tree inner h) (\<lambda>(ts, h). Inr (new_node (\<lambda>p. LT_Tuple p ts) h))"
| "build_linear_tree (CT_Struct name members) h =
     res_bind (mapS_res (\<lambda>(name, ty) h. res_bind (build_linear_tree ty h) (\<lambda>(t, h). Inr ((name, t), h))) members h)
       (\<lambda>(ts, h). Inr (new_node (\<lambda>p. LT_Struct p (collect_fields ts)) h))"
| "build_linear_tree (CT_Array inner sz) h =
     (if is_linear inner
      then res_bind (or_panic (int_to_usize sz)) (\<lambda>n.
           res_bind (mapS_res (\<lambda>_. build_linear_tree inner) [0..<n] h) (\<lambda>(ts, h).
             Inr (new_node (\<lambda>p. LT_Array p ts) h)))
      else Inr (new_leaf False h))"
| "build_linear_tree (CT_Enum options) h = Inr (new_leaf False h)"
| "build_linear_tree (CT_Single base params) h = Inr (new_leaf (base = PT_InOut) h)"
| "build_linear_tree (CT_Integer n) h = Inr (new_leaf False h)"
| "build_linear_tree (CT_Backward inner) h = Inr (new_leaf True h)"
| "build_linear_tree (CT_Wire inner) h = Inr (new_leaf False h)"

text \<open>
  Marks a tree as consumed, or gives the first leaf that was consumed before with the place of that
  use. What an error leaves marked is dropped with the error.
\<close>

type_synonym consumption_error = "mut_wire_witness \<times> loc"

definition in_part ::
  "(mut_wire_witness \<Rightarrow> mut_wire_witness) \<Rightarrow> consumption_error + linear_heap \<Rightarrow> consumption_error + linear_heap" where
  "in_part f r = (case r of Inl (w, prev) \<Rightarrow> Inl (f w, prev) | Inr h \<Rightarrow> Inr h)"

fun try_consume :: "linear_tree \<Rightarrow> loc \<Rightarrow> linear_heap \<Rightarrow> consumption_error + linear_heap"
  and consume_fields :: "(ident \<times> linear_tree) list \<Rightarrow> loc \<Rightarrow> linear_heap \<Rightarrow> consumption_error + linear_heap"
  and consume_members ::
    "(nat \<Rightarrow> mut_wire_witness \<Rightarrow> mut_wire_witness) \<Rightarrow> nat \<Rightarrow> linear_tree list \<Rightarrow> loc \<Rightarrow> linear_heap \<Rightarrow> consumption_error + linear_heap"
where
  "try_consume (LT_Leaf p) l h =
     (case lh_usage h p of
        UI_Unlimited \<Rightarrow> Inr h
      | UI_Unused \<Rightarrow> Inr (h\<lparr>lh_usage := (lh_usage h)(p := UI_Consumed l)\<rparr>)
      | UI_Consumed prev \<Rightarrow> Inl (MW_This, prev))"
| "try_consume (LT_Struct p members) l h = consume_fields members l h"
| "try_consume (LT_Tuple p members) l h = consume_members MW_TupleIndex 0 members l h"
| "try_consume (LT_Array p members) l h = consume_members MW_ArrayIndex 0 members l h"
| "consume_fields [] l h = Inr h"
| "consume_fields ((name, t) # ts) l h =
     res_bind (in_part (MW_Field name) (try_consume t l h)) (consume_fields ts l)"
| "consume_members f i [] l h = Inr h"
| "consume_members f i (t # ts) l h =
     res_bind (in_part (f i) (try_consume t l h)) (consume_members f (i + 1) ts l)"

text \<open>The first leaf that must be used and is not, if there is one.\<close>

fun tree_unused :: "linear_heap \<Rightarrow> linear_tree \<Rightarrow> mut_wire_witness option"
  and fields_unused :: "linear_heap \<Rightarrow> (ident \<times> linear_tree) list \<Rightarrow> mut_wire_witness option"
  and members_unused ::
    "(nat \<Rightarrow> mut_wire_witness \<Rightarrow> mut_wire_witness) \<Rightarrow> nat \<Rightarrow> linear_heap \<Rightarrow> linear_tree list \<Rightarrow> mut_wire_witness option"
where
  "tree_unused h (LT_Leaf p) = (if lh_usage h p = UI_Unused then Some MW_This else None)"
| "tree_unused h (LT_Struct p fs) = fields_unused h fs"
| "tree_unused h (LT_Tuple p ts) = members_unused MW_TupleIndex 0 h ts"
| "tree_unused h (LT_Array p ts) = members_unused MW_ArrayIndex 0 h ts"
| "fields_unused h [] = None"
| "fields_unused h ((name, t) # ts) =
     (case tree_unused h t of Some w \<Rightarrow> Some (MW_Field name w) | None \<Rightarrow> fields_unused h ts)"
| "members_unused f i h [] = None"
| "members_unused f i h (t # ts) =
     (case tree_unused h t of Some w \<Rightarrow> Some (f i w) | None \<Rightarrow> members_unused f (i + 1) h ts)"

section \<open>The state\<close>

record linear_state =
  ls_trees :: "((nat + nat) \<times> linear_tree) list"
  ls_heap :: linear_heap

definition linear_new :: linear_state where
  "linear_new = \<lparr>ls_trees = [], ls_heap = \<lparr>lh_usage = (\<lambda>_. UI_Unlimited), lh_aliases = (\<lambda>_. []), lh_next = 0\<rparr>\<rparr>"

definition tree_of :: "linear_state \<Rightarrow> item_reference \<Rightarrow> linear_tree option" where
  "tree_of st r = map_of (ls_trees st) (ref_key r)"

definition insert_tree :: "item_reference \<Rightarrow> linear_tree \<Rightarrow> linear_state \<Rightarrow> linear_state" where
  "insert_tree r t st = st\<lparr>ls_trees := AList.update (ref_key r) t (ls_trees st), ls_heap := add_alias r t (ls_heap st)\<rparr>"

text \<open>Names are better than expressions in an error.\<close>

definition best_alias :: "item_reference list \<Rightarrow> item_reference option" where
  "best_alias refs =
     (case filter (\<lambda>r. case r of IR_Name _ \<Rightarrow> True | IR_Anonymous _ \<Rightarrow> False) refs @ refs of
        [] \<Rightarrow> None
      | r # _ \<Rightarrow> Some r)"

fun unused_tree :: "linear_heap \<Rightarrow> ((nat + nat) \<times> linear_tree) list \<Rightarrow> lower_error + (item_reference \<times> mut_wire_witness) option" where
  "unused_tree h [] = Inr None"
| "unused_tree h ((_, t) # rest) =
     (case tree_unused h t of
        None \<Rightarrow> unused_tree h rest
      | Some w \<Rightarrow> res_bind (or_panic (best_alias (lh_aliases h (tree_ptr t)))) (\<lambda>r. Inr (Some (r, w))))"

definition check_unused :: "linear_state \<Rightarrow> lower_error + (item_reference \<times> mut_wire_witness) option" where
  "check_unused st = unused_tree (ls_heap st) (ls_trees st)"

definition push_type :: "item_reference \<Rightarrow> concrete_type \<Rightarrow> linear_state \<Rightarrow> lower_error + linear_state" where
  "push_type r ty st =
     res_bind (build_linear_tree ty (ls_heap st)) (\<lambda>(t, h). Inr (insert_tree r t (st\<lparr>ls_heap := h\<rparr>)))"

definition push_new_expression :: "lower_env \<Rightarrow> nat \<Rightarrow> linear_state \<Rightarrow> lower_error + linear_state" where
  "push_new_expression env i st =
     res_bind (try_get_type_of_id env i) (\<lambda>t.
       case t of None \<Rightarrow> Inr st | Some ty \<Rightarrow> push_type (IR_Anonymous i) ty st)"

definition try_get_type_of_name :: "lower_env \<Rightarrow> name_id \<Rightarrow> lower_error + concrete_type option" where
  "try_get_type_of_name env n =
     res_bind (or_panic (le_names env (nid_num n))) (\<lambda>v.
       case ungenerify_type (le_depth env) (le_types env) v of
         Inr t \<Rightarrow> Inr (Some t)
       | Inl CErr_Unknown \<Rightarrow> Inr None
       | Inl CErr_Panic \<Rightarrow> Inl LE_Panic)"

definition push_new_name :: "lower_env \<Rightarrow> name_id \<Rightarrow> linear_state \<Rightarrow> lower_error + linear_state" where
  "push_new_name env n st =
     res_bind (try_get_type_of_name env n) (\<lambda>t.
       case t of None \<Rightarrow> Inr st | Some ty \<Rightarrow> push_type (IR_Name n) ty st)"

definition merge :: "item_reference \<Rightarrow> item_reference \<Rightarrow> linear_state \<Rightarrow> lower_error + linear_state" where
  "merge lhs rhs st =
     (case (tree_of st lhs, tree_of st rhs) of
        (Some l, None) \<Rightarrow> Inr (insert_tree rhs l st)
      | (None, Some r) \<Rightarrow> Inr (insert_tree lhs r st)
      | (Some l, Some r) \<Rightarrow>
          if tree_ptr l = tree_ptr r then Inr st else Inl (LE_Bug ''unifying distinct linear trees'')
      | (None, None) \<Rightarrow>
          Inl (LE_Bug (''attempting to merge '' @ show_item_reference lhs @ '' with '' @ show_item_reference rhs @
            '' but neither had a previous tree'')))"

definition add_alias_name :: "nat \<Rightarrow> name_id \<Rightarrow> linear_state \<Rightarrow> lower_error + linear_state" where
  "add_alias_name from to st = merge (IR_Anonymous from) (IR_Name to) st"

text \<open>An index of type \<open>u128\<close> is cast to \<open>usize\<close> and wraps around.\<close>

definition as_usize :: "nat \<Rightarrow> nat" where
  "as_usize i = i mod 2 ^ 64"

definition tuple_member :: "nat \<Rightarrow> linear_tree \<Rightarrow> linear_tree option" where
  "tuple_member i t = (case t of LT_Tuple _ ts \<Rightarrow> nth_opt ts (as_usize i) | _ \<Rightarrow> None)"

definition array_member :: "nat \<Rightarrow> linear_tree \<Rightarrow> linear_tree option" where
  "array_member i t = (case t of LT_Array _ ts \<Rightarrow> nth_opt ts (as_usize i) | _ \<Rightarrow> None)"

definition struct_member :: "ident \<Rightarrow> linear_tree \<Rightarrow> linear_tree option" where
  "struct_member name t = (case t of LT_Struct _ fs \<Rightarrow> map_of fs name | _ \<Rightarrow> None)"

definition alias_subtree ::
  "(linear_tree \<Rightarrow> linear_tree option) \<Rightarrow> nat \<Rightarrow> nat \<Rightarrow> linear_state \<Rightarrow> lower_error + linear_state" where
  "alias_subtree idx to base_expr st =
     res_bind (or_panic (tree_of st (IR_Anonymous base_expr))) (\<lambda>base_tree.
     res_bind (or_panic (idx base_tree)) (\<lambda>subtree. Inr (insert_tree (IR_Anonymous to) subtree st)))"

fun fold_res :: "('a \<Rightarrow> 's \<Rightarrow> 'e + 's) \<Rightarrow> 'a list \<Rightarrow> 's \<Rightarrow> 'e + 's" where
  "fold_res f [] s = Inr s"
| "fold_res f (x # xs) s = res_bind (f x s) (fold_res f xs)"

lemma fold_res_cong [fundef_cong]:
  "xs = ys \<Longrightarrow> s = t \<Longrightarrow> (\<And>x s. x \<in> set ys \<Longrightarrow> f x s = g x s) \<Longrightarrow> fold_res f xs s = fold_res g ys t"
  by (induction xs arbitrary: ys s t) (auto simp: res_bind_def split: sum.split)

lemma fold_res_append: "fold_res f (xs @ ys) s = res_bind (fold_res f xs s) (fold_res f ys)"
  by (induction xs arbitrary: s) (auto simp: res_bind_def split: sum.split)

fun push_pattern :: "lower_env \<Rightarrow> hir_pattern \<Rightarrow> linear_state \<Rightarrow> lower_error + linear_state" where
  "push_pattern env (HirPat i kind l) st =
     (case kind of
        HPat_Integer _ \<Rightarrow> Inr st
      | HPat_Bool _ \<Rightarrow> Inr st
      | HPat_Name name pre_declared \<Rightarrow>
          res_bind (if pre_declared then Inr st else push_new_expression env i st)
            (merge (IR_Anonymous i) (IR_Name name))
      | HPat_Tuple inner \<Rightarrow> fold_res (push_pattern env) inner st
      | HPat_Array inner \<Rightarrow> fold_res (push_pattern env) inner st
      | HPat_Type _ args \<Rightarrow> fold_res (\<lambda>arg. push_pattern env (pa_value arg)) args st)"

lemma tree_of_mem: "tree_of st r = Some t \<Longrightarrow> tree_ptr t \<in> (tree_ptr \<circ> snd) ` set (ls_trees st)"
  by (force simp: tree_of_def dest: map_of_SomeD)

text \<open>
  The trees that a use of an expression consumes: the one it refers to, then those its aliases refer
  to, until one is met again. The references that are left form a stack.
\<close>

function consume_targets ::
  "linear_state \<Rightarrow> item_reference list \<Rightarrow> nat list \<Rightarrow> lower_error + linear_tree list" where
  "consume_targets st [] seen = Inr []"
| "consume_targets st (r # refs) seen =
     (case tree_of st r of
        None \<Rightarrow> Inl (LE_Bug (''Failed to get linear tree for '' @ show_item_reference r))
      | Some t \<Rightarrow>
          if tree_ptr t \<in> set seen then Inr []
          else res_bind (consume_targets st (rev (lh_aliases (ls_heap st) (tree_ptr t)) @ refs) (tree_ptr t # seen))
            (\<lambda>ts. Inr (t # ts)))"
  by pat_completeness auto

termination
proof (relation "measures [\<lambda>(st, refs, seen). card ((tree_ptr \<circ> snd) ` set (ls_trees st) - set seen)]", goal_cases)
  case (2 st r refs seen t)
  let ?ptrs = "(tree_ptr \<circ> snd) ` set (ls_trees st)"
  have "tree_ptr t \<in> ?ptrs" "tree_ptr t \<notin> set seen" using 2 tree_of_mem by blast+
  then have "?ptrs - set (tree_ptr t # seen) \<subset> ?ptrs - set seen" by auto
  then have "card (?ptrs - set (tree_ptr t # seen)) < card (?ptrs - set seen)"
    by (intro psubset_card_mono) simp_all
  then show ?case by (simp only: in_measures prod.case simp_thms)
qed simp

definition consume_trees :: "linear_tree list \<Rightarrow> loc \<Rightarrow> linear_heap \<Rightarrow> lower_error + linear_heap" where
  "consume_trees ts l h =
     fold_res (\<lambda>t h. case try_consume t l h of
         Inl _ \<Rightarrow> Inl (LE_Error ''Use of consumed resource'')
       | Inr h \<Rightarrow> Inr h) ts h"

definition consume_id :: "nat \<Rightarrow> loc \<Rightarrow> linear_state \<Rightarrow> lower_error + linear_state" where
  "consume_id i l st =
     res_bind (consume_targets st [IR_Anonymous i] []) (\<lambda>ts.
     res_bind (consume_trees ts l (ls_heap st)) (\<lambda>h. Inr (st\<lparr>ls_heap := h\<rparr>)))"

definition consume_expression :: "expression \<Rightarrow> linear_state \<Rightarrow> lower_error + linear_state" where
  "consume_expression e st = consume_id (ex_id e) (ex_loc e) st"

end
