(* ===== verification/Linear_Check.thy ===== *)
theory Linear_Check
  imports Linear_State
begin

text \<open>
  spade-hir-lowering, \<open>linear_check/mod.rs\<close>: the walk over a body that follows its resources of linear
  type, and the operations it amounts to.
\<close>

section \<open>The walk\<close>

definition produces_new_resource :: "expr_kind \<Rightarrow> bool" where
  "produces_new_resource k =
     (case k of
        EK_Identifier _ \<Rightarrow> False
      | EK_TupleIndex _ _ \<Rightarrow> False
      | EK_FieldAccess _ _ \<Rightarrow> False
      | EK_PipelineRef _ _ _ _ \<Rightarrow> False
      | EK_MethodCall _ _ _ _ _ \<Rightarrow> False
      | EK_Null \<Rightarrow> False
      | _ \<Rightarrow> True)"

text \<open>Arrays of linear resources are indexed by constants only.\<close>

definition constant_index :: "expression \<Rightarrow> lower_error + nat" where
  "constant_index e =
     (case ex_kind e of
        EK_IntLiteral i _ \<Rightarrow>
          if 0 \<le> i \<and> i < 2 ^ 128 then Inr (nat i)
          else Inl (LE_Error ''Array indices > 2^64 are not allowed on mutable wires'')
      | _ \<Rightarrow> Inl (LE_Error ''Array with mutable wires cannot be indexed by non-constant values''))"

text \<open>The function \<open>read_mut_wire\<close> leaves the port it reads.\<close>

definition consumes_args :: "lower_env \<Rightarrow> name_id \<Rightarrow> bool" where
  "consumes_args env callee =
     (case le_final_id env [''std'', ''ports'', ''read_mut_wire''] of
        None \<Rightarrow> True | Some n \<Rightarrow> \<not> nid_eq n callee)"

definition consuming_operator :: "unary_operator \<Rightarrow> bool" where
  "consuming_operator oper = (oper \<notin> {UO_Dereference, UO_FlipPort})"

function visit_expression :: "lower_env \<Rightarrow> expression \<Rightarrow> linear_state \<Rightarrow> lower_error + linear_state"
  and visit_statement :: "lower_env \<Rightarrow> hir_statement \<Rightarrow> linear_state \<Rightarrow> lower_error + linear_state" where
  "visit_expression env e st =
     res_bind (if produces_new_resource (ex_kind e) then push_new_expression env (ex_id e) st else Inr st) (\<lambda>st.
     case ex_kind e of
       EK_Identifier name \<Rightarrow> add_alias_name (ex_id e) name st
     | EK_TupleLiteral inner \<Rightarrow>
         fold_res (\<lambda>x st. res_bind (visit_expression env x st) (consume_expression x)) inner st
     | EK_ArrayLiteral inner \<Rightarrow>
         fold_res (\<lambda>x st. res_bind (visit_expression env x st) (consume_expression x)) inner st
     | EK_ArrayShorthandLiteral inner _ \<Rightarrow>
         res_bind (visit_expression env inner st) (\<lambda>st.
         res_bind (consume_expression inner st) (consume_expression inner))
     | EK_Index target idx_expr \<Rightarrow>
         res_bind (visit_expression env target st) (\<lambda>st.
         res_bind (visit_expression env idx_expr st) (\<lambda>st.
         res_bind (expr_type env (ex_id target)) (\<lambda>ty.
         res_bind
           (if is_linear ty
            then res_bind (constant_index idx_expr) (\<lambda>i. alias_subtree (array_member i) (ex_id e) (ex_id target) st)
            else consume_expression target st)
           (consume_expression idx_expr))))
     | EK_RangeIndex target _ _ \<Rightarrow> res_bind (visit_expression env target st) (consume_expression target)
     | EK_TupleIndex base i \<Rightarrow>
         res_bind (visit_expression env base st) (alias_subtree (tuple_member i) (ex_id e) (ex_id base))
     | EK_FieldAccess base field \<Rightarrow>
         res_bind (visit_expression env base st) (alias_subtree (struct_member field) (ex_id e) (ex_id base))
     | EK_BinaryOperator lhs _ rhs \<Rightarrow>
         res_bind (visit_expression env lhs st) (\<lambda>st.
         res_bind (visit_expression env rhs st) (\<lambda>st.
         res_bind (consume_expression lhs st) (consume_expression rhs)))
     | EK_UnaryOperator oper operand \<Rightarrow>
         res_bind (visit_expression env operand st) (\<lambda>st.
           if consuming_operator oper then consume_expression operand st else Inr st)
     | EK_Match cond variants \<Rightarrow>
         res_bind (visit_expression env cond st)
           (fold_res (\<lambda>(p, x) st. res_bind (push_pattern env p st) (visit_expression env x)) variants)
     | EK_Block (Block statements result) \<Rightarrow>
         res_bind (fold_res (\<lambda>(s, _). visit_statement env s) statements st) (\<lambda>st.
           case result of
             None \<Rightarrow> Inr st
           | Some x \<Rightarrow> res_bind (visit_expression env x st) (consume_expression x))
     | EK_Call _ callee args _ \<Rightarrow>
         fold_res (\<lambda>x st. res_bind (visit_expression env x st) (\<lambda>st.
             if consumes_args env callee then consume_expression x st else Inr st))
           (arg_expressions args) st
     | EK_If cond on_true on_false \<Rightarrow>
         res_bind (visit_expression env cond st) (\<lambda>st.
         res_bind (visit_expression env on_true st) (visit_expression env on_false))
     | EK_PipelineRef _ name declares_name _ \<Rightarrow>
         res_bind (if declares_name then push_new_name env name st else Inr st) (add_alias_name (ex_id e) name)
     | EK_MethodCall _ _ _ _ _ \<Rightarrow> Inl (LE_Bug ''method call should have been lowered to function by this point'')
     | EK_Null \<Rightarrow> Inl (LE_Bug ''Null expression created before linear check'')
     | _ \<Rightarrow> Inr st)"
| "visit_statement env s st =
     (case s of
        HS_Binding p _ value _ \<Rightarrow>
          res_bind (visit_expression env value st) (\<lambda>st.
          res_bind (consume_expression value st) (push_pattern env p))
      | HS_Register p clock reset initial value _ _ \<Rightarrow>
          res_bind (push_pattern env p st) (\<lambda>st.
          res_bind (fold_res (visit_expression env) (register_parts clock reset initial value) st) (consume_expression value))
      | HS_Declaration names \<Rightarrow> fold_res (push_new_name env) names st
      | HS_PipelineRegMarker (Some (RM_Condition cond)) \<Rightarrow> visit_expression env cond st
      | HS_Set target value \<Rightarrow>
          res_bind (visit_expression env target st) (\<lambda>st.
          res_bind (visit_expression env value st) (\<lambda>st.
          res_bind (consume_expression target st) (consume_expression value)))
      | _ \<Rightarrow> Inr st)"
  by pat_completeness auto

termination
proof (relation "measure (case_sum (\<lambda>(env, e, st). size e) (\<lambda>(env, s, st). size s))", goal_cases)
qed (simp_all, (auto dest!: kind_smaller simp: list_elem_smaller register_parts_smaller
    dest: arg_expressions_smaller
    intro: prod_fst_smaller [OF _ Suc_lessD] prod_snd_smaller)?)

declare visit_expression.simps [simp del] visit_statement.simps [simp del]

text \<open>
  All of \<open>check_linear_types\<close> before its last test. Its errors are those of the walk, or that something
  is unused.
\<close>

definition linear_walk :: "lower_env \<Rightarrow> name_id list \<Rightarrow> expression \<Rightarrow> lower_error + linear_state" where
  "linear_walk env inputs body =
     res_bind (fold_res (push_new_name env) inputs linear_new) (\<lambda>st.
     res_bind (visit_expression env body st) (consume_expression body))"

definition unused_message :: "item_reference \<times> mut_wire_witness \<Rightarrow> string" where
  "unused_message u =
     (case u of
        (IR_Name n, w) \<Rightarrow> show_name_id n @ motivation w
      | (IR_Anonymous _, w) \<Rightarrow> ''This has a field '' @ motivation w @ '' that'') @ '' is unused''"

definition check_linear_types :: "lower_env \<Rightarrow> name_id list \<Rightarrow> expression \<Rightarrow> lower_error + unit" where
  "check_linear_types env inputs body =
     res_bind (linear_walk env inputs body) (\<lambda>st.
     res_bind (check_unused st) (\<lambda>u.
       case u of None \<Rightarrow> Inr () | Some u \<Rightarrow> Inl (LE_Error (unused_message u))))"

end
