(* ===== verification/Linear_Sound.thy ===== *)
theory Linear_Sound
  imports Linear_Check Lower_Sound
begin

text \<open>
  What the linear check guarantees: the operations a body amounts to, in the order of the walk, and
  that an accepted body consumes every leaf of a linear resource exactly once.
\<close>

section \<open>A body as operations on resources\<close>

datatype linear_op =
    LO_Expression nat
  | LO_Name name_id
  | LO_Merge item_reference item_reference
  | LO_Tuple nat nat nat
  | LO_Array nat nat nat
  | LO_Struct nat nat ident
  | LO_Consume nat loc
  | LO_Fail lower_error

definition run_op :: "lower_env \<Rightarrow> linear_op \<Rightarrow> linear_state \<Rightarrow> lower_error + linear_state" where
  "run_op env oper st =
     (case oper of
        LO_Expression i \<Rightarrow> push_new_expression env i st
      | LO_Name n \<Rightarrow> push_new_name env n st
      | LO_Merge a b \<Rightarrow> merge a b st
      | LO_Tuple to base i \<Rightarrow> alias_subtree (tuple_member i) to base st
      | LO_Array to base i \<Rightarrow> alias_subtree (array_member i) to base st
      | LO_Struct to base field \<Rightarrow> alias_subtree (struct_member field) to base st
      | LO_Consume i l \<Rightarrow> consume_id i l st
      | LO_Fail e \<Rightarrow> Inl e)"

abbreviation consume_op :: "expression \<Rightarrow> linear_op" where
  "consume_op e \<equiv> LO_Consume (ex_id e) (ex_loc e)"

fun pattern_ops :: "hir_pattern \<Rightarrow> linear_op list" where
  "pattern_ops (HirPat i kind l) =
     (case kind of
        HPat_Name name pre_declared \<Rightarrow>
          (if pre_declared then [] else [LO_Expression i]) @ [LO_Merge (IR_Anonymous i) (IR_Name name)]
      | HPat_Tuple inner \<Rightarrow> concat (map pattern_ops inner)
      | HPat_Array inner \<Rightarrow> concat (map pattern_ops inner)
      | HPat_Type _ args \<Rightarrow> concat (map (\<lambda>arg. pattern_ops (pa_value arg)) args)
      | _ \<Rightarrow> [])"

text \<open>The use of an array by an index: a linear one is taken apart, another one is consumed.\<close>

definition index_ops :: "lower_env \<Rightarrow> expression \<Rightarrow> expression \<Rightarrow> expression \<Rightarrow> linear_op list" where
  "index_ops env e target idx_expr =
     (case expr_type env (ex_id target) of
        Inl err \<Rightarrow> [LO_Fail err]
      | Inr ty \<Rightarrow>
          if is_linear ty
          then (case constant_index idx_expr of
                  Inl err \<Rightarrow> [LO_Fail err]
                | Inr i \<Rightarrow> [LO_Array (ex_id e) (ex_id target) i])
          else [consume_op target])"

function expression_ops :: "lower_env \<Rightarrow> expression \<Rightarrow> linear_op list"
  and statement_ops :: "lower_env \<Rightarrow> hir_statement \<Rightarrow> linear_op list" where
  "expression_ops env e =
     (if produces_new_resource (ex_kind e) then [LO_Expression (ex_id e)] else []) @
     (case ex_kind e of
        EK_Identifier name \<Rightarrow> [LO_Merge (IR_Anonymous (ex_id e)) (IR_Name name)]
      | EK_TupleLiteral inner \<Rightarrow> concat (map (\<lambda>x. expression_ops env x @ [consume_op x]) inner)
      | EK_ArrayLiteral inner \<Rightarrow> concat (map (\<lambda>x. expression_ops env x @ [consume_op x]) inner)
      | EK_ArrayShorthandLiteral inner _ \<Rightarrow> expression_ops env inner @ [consume_op inner, consume_op inner]
      | EK_Index target idx_expr \<Rightarrow>
          expression_ops env target @ expression_ops env idx_expr @ index_ops env e target idx_expr @ [consume_op idx_expr]
      | EK_RangeIndex target _ _ \<Rightarrow> expression_ops env target @ [consume_op target]
      | EK_TupleIndex base i \<Rightarrow> expression_ops env base @ [LO_Tuple (ex_id e) (ex_id base) i]
      | EK_FieldAccess base field \<Rightarrow> expression_ops env base @ [LO_Struct (ex_id e) (ex_id base) field]
      | EK_BinaryOperator lhs _ rhs \<Rightarrow> expression_ops env lhs @ expression_ops env rhs @ [consume_op lhs, consume_op rhs]
      | EK_UnaryOperator oper operand \<Rightarrow>
          expression_ops env operand @ (if consuming_operator oper then [consume_op operand] else [])
      | EK_Match cond variants \<Rightarrow>
          expression_ops env cond @ concat (map (\<lambda>(p, x). pattern_ops p @ expression_ops env x) variants)
      | EK_Block (Block statements result) \<Rightarrow>
          concat (map (\<lambda>(s, _). statement_ops env s) statements) @
          (case result of None \<Rightarrow> [] | Some x \<Rightarrow> expression_ops env x @ [consume_op x])
      | EK_Call _ callee args _ \<Rightarrow>
          concat (map (\<lambda>x. expression_ops env x @ (if consumes_args env callee then [consume_op x] else [])) (arg_expressions args))
      | EK_If cond on_true on_false \<Rightarrow>
          expression_ops env cond @ expression_ops env on_true @ expression_ops env on_false
      | EK_PipelineRef _ name declares_name _ \<Rightarrow>
          (if declares_name then [LO_Name name] else []) @ [LO_Merge (IR_Anonymous (ex_id e)) (IR_Name name)]
      | EK_MethodCall _ _ _ _ _ \<Rightarrow> [LO_Fail (LE_Bug ''method call should have been lowered to function by this point'')]
      | EK_Null \<Rightarrow> [LO_Fail (LE_Bug ''Null expression created before linear check'')]
      | _ \<Rightarrow> [])"
| "statement_ops env s =
     (case s of
        HS_Binding p _ value _ \<Rightarrow> expression_ops env value @ consume_op value # pattern_ops p
      | HS_Register p clock reset initial value _ _ \<Rightarrow>
          pattern_ops p @ concat (map (expression_ops env) (register_parts clock reset initial value)) @ [consume_op value]
      | HS_Declaration names \<Rightarrow> map LO_Name names
      | HS_PipelineRegMarker (Some (RM_Condition cond)) \<Rightarrow> expression_ops env cond
      | HS_Set target value \<Rightarrow>
          expression_ops env target @ expression_ops env value @ [consume_op target, consume_op value]
      | _ \<Rightarrow> [])"
  by pat_completeness auto

termination
proof (relation "measure (case_sum (\<lambda>(env, e). size e) (\<lambda>(env, s). size s))", goal_cases)
qed (simp_all, (auto dest!: kind_smaller simp: list_elem_smaller register_parts_smaller
    dest: arg_expressions_smaller
    intro: prod_fst_smaller [OF _ Suc_lessD] prod_snd_smaller)?)

declare expression_ops.simps [simp del] statement_ops.simps [simp del]

abbreviation run_ops :: "lower_env \<Rightarrow> linear_op list \<Rightarrow> linear_state \<Rightarrow> lower_error + linear_state" where
  "run_ops env \<equiv> fold_res (run_op env)"

section \<open>The walk runs the operations\<close>

lemma run_ops_concat:
  "(\<And>x st. x \<in> set xs \<Longrightarrow> f x st = run_ops env (g x) st) \<Longrightarrow> fold_res f xs st = run_ops env (concat (map g xs)) st"
  by (induction xs arbitrary: st) (auto simp: fold_res_append res_bind_def split: sum.split)

lemma res_bind_assoc: "res_bind (res_bind r f) g = res_bind r (\<lambda>x. res_bind (f x) g)"
  by (cases r) simp_all

lemma res_bind_Inr_id [simp]: "res_bind r Inr = r"
  by (cases r) simp_all

lemma fold_res_points:
  "fold_res f [] = Inr"
  "fold_res f (x # xs) = (\<lambda>s. res_bind (f x s) (fold_res f xs))"
  "fold_res f (xs @ ys) = (\<lambda>s. res_bind (fold_res f xs s) (fold_res f ys))"
  by (auto simp: fold_res_append)

lemma run_op_simps:
  "run_op env (LO_Expression i) = push_new_expression env i"
  "run_op env (LO_Name n) = push_new_name env n"
  "run_op env (LO_Merge a b) = merge a b"
  "run_op env (LO_Tuple to base k) = alias_subtree (tuple_member k) to base"
  "run_op env (LO_Array to base k) = alias_subtree (array_member k) to base"
  "run_op env (LO_Struct to base field) = alias_subtree (struct_member field) to base"
  "run_op env (LO_Consume i l) = consume_id i l"
  "run_op env (LO_Fail e) = (\<lambda>st. Inl e)"
  by (auto simp: run_op_def)

lemmas run_simps = fold_res_points run_op_simps res_bind_assoc

lemma pattern_ops_run: "push_pattern env p = run_ops env (pattern_ops p)"
proof
  fix st
  show "push_pattern env p st = run_ops env (pattern_ops p) st"
  proof (induction env p st rule: push_pattern.induct)
    case (1 env i kind l st)
    then show ?case
      by (cases kind) (auto simp: run_simps intro!: run_ops_concat)
  qed
qed

lemma add_alias_name_merge: "add_alias_name i n = merge (IR_Anonymous i) (IR_Name n)"
  by (auto simp: add_alias_name_def)

lemma consume_expression_id: "consume_expression e = consume_id (ex_id e) (ex_loc e)"
  by (auto simp: consume_expression_def)

lemma index_run:
  "res_bind (expr_type env (ex_id target)) (\<lambda>ty.
     res_bind
       (if is_linear ty
        then res_bind (constant_index idx_expr) (\<lambda>i. alias_subtree (array_member i) (ex_id e) (ex_id target) st)
        else consume_expression target st) f) =
   res_bind (run_ops env (index_ops env e target idx_expr) st) f"
  by (auto simp: index_ops_def run_simps consume_expression_def split: sum.split)

text \<open>Every construct does to the resources what its operations say, and fails with the same error.\<close>

lemma walk_runs:
  "visit_expression env e = run_ops env (expression_ops env e)"
  "visit_statement env s = run_ops env (statement_ops env s)"
proof -
  have IH: "(\<forall>e. size e < n \<longrightarrow> visit_expression env e = run_ops env (expression_ops env e)) \<and>
    (\<forall>s. size s < n \<longrightarrow> visit_statement env s = run_ops env (statement_ops env s))" for n
  proof (induction n)
    case (Suc n)
    have e: "visit_expression env e st = run_ops env (expression_ops env e) st" if "size e = n" for e st
    proof -
      have IHe: "size x < size e \<Longrightarrow> visit_expression env x = run_ops env (expression_ops env x)" for x
        using Suc that by blast
      have IHs: "size x < size e \<Longrightarrow> visit_statement env x = run_ops env (statement_ops env x)" for x
        using Suc that by blast
      note unfolds = visit_expression.simps [of env e] expression_ops.simps [of env e] run_simps consume_expression_id
        produces_new_resource_def
      have list: "fold_res (\<lambda>x st. res_bind (visit_expression env x st) (f x)) xs =
          run_ops env (concat (map (\<lambda>x. expression_ops env x @ g x) xs))"
        if "\<forall>x\<in>set xs. size x < size e" "\<And>x. f x = run_ops env (g x)" for f g xs
        by (intro ext run_ops_concat) (use that IHe in \<open>simp add: run_simps\<close>)
      show ?thesis
      proof (cases "ex_kind e")
        case (EK_TupleLiteral inner)
        then have "\<forall>x\<in>set inner. size x < size e" using kind_smaller [OF EK_TupleLiteral] by (auto intro: list_elem_smaller)
        then show ?thesis
          using list [of inner consume_expression "\<lambda>x. [consume_op x]"] by (simp add: EK_TupleLiteral unfolds)
      next
        case (EK_ArrayLiteral inner)
        then have "\<forall>x\<in>set inner. size x < size e" using kind_smaller [OF EK_ArrayLiteral] by (auto intro: list_elem_smaller)
        then show ?thesis
          using list [of inner consume_expression "\<lambda>x. [consume_op x]"] by (simp add: EK_ArrayLiteral unfolds)
      next
        case (EK_Call kind callee args t)
        then have "\<forall>x\<in>set (arg_expressions args). size x < size e"
          using kind_smaller [OF EK_Call] by (auto dest: arg_expressions_smaller)
        then show ?thesis
          using list [of "arg_expressions args" consume_expression "\<lambda>x. [consume_op x]"]
            list [of "arg_expressions args" "\<lambda>x. Inr" "\<lambda>x. []"]
          by (cases "consumes_args env callee") (simp_all add: EK_Call unfolds)
      next
        case (EK_Match cond variants)
        have "fold_res (\<lambda>(p, x) st. res_bind (push_pattern env p st) (visit_expression env x)) variants =
            run_ops env (concat (map (\<lambda>(p, x). pattern_ops p @ expression_ops env x) variants))"
          using kind_smaller [OF EK_Match]
          by (intro ext run_ops_concat)
             (auto simp: run_simps pattern_ops_run intro!: arg_cong [where f = "res_bind _"] IHe intro: prod_snd_smaller [of _ _ variants _ "size cond"])
        then show ?thesis using IHe [of cond] kind_smaller [OF EK_Match] by (simp add: EK_Match unfolds)
      next
        case (EK_Block b)
        obtain ss r where b: "b = Block ss r" by (cases b)
        have "fold_res (\<lambda>(s, _). visit_statement env s) ss = run_ops env (concat (map (\<lambda>(s, _). statement_ops env s) ss))"
          using kind_smaller [OF EK_Block] b
          by (intro ext run_ops_concat) (auto intro!: IHs [THEN fun_cong] intro: prod_fst_smaller [OF _ Suc_lessD])
        then show ?thesis using IHe kind_smaller [OF EK_Block] by (cases r) (simp_all add: EK_Block b unfolds)
      next
        case (EK_Index target idx_expr)
        then show ?thesis using IHe kind_smaller [OF EK_Index] by (simp add: unfolds index_run)
      qed (auto simp: unfolds IHe add_alias_name_merge dest: kind_smaller)
    qed
    have st: "visit_statement env s st = run_ops env (statement_ops env s) st" if "size s = n" for s st
    proof -
      have IHe: "size x < size s \<Longrightarrow> visit_expression env x = run_ops env (expression_ops env x)" for x
        using Suc that by blast
      note unfolds = visit_statement.simps [of env s] statement_ops.simps [of env s] run_simps consume_expression_id pattern_ops_run
      show ?thesis
      proof (cases s)
        case (HS_Register p clock reset initial val ty attrs)
        have "fold_res (visit_expression env) (register_parts clock reset initial val) =
            run_ops env (concat (map (expression_ops env) (register_parts clock reset initial val)))"
          by (intro ext run_ops_concat IHe [THEN fun_cong]) (auto simp: HS_Register dest!: register_parts_smaller)
        then show ?thesis unfolding unfolds(1,2) by (simp add: HS_Register run_simps consume_expression_id pattern_ops_run)
      next
        case (HS_Declaration names)
        have "fold_res (push_new_name env) names = run_ops env (map LO_Name names)"
        proof
          fix st show "fold_res (push_new_name env) names st = run_ops env (map LO_Name names) st"
            by (induction names arbitrary: st) (auto simp: run_simps res_bind_def split: sum.split)
        qed
        then show ?thesis unfolding unfolds(1,2) by (simp add: HS_Declaration)
      next
        case (HS_PipelineRegMarker extra)
        then show ?thesis unfolding unfolds(1,2) using IHe
          by (cases extra) (auto simp: fold_res_points split: reg_marker_extra.split)
      qed (unfold unfolds(1,2), use IHe in \<open>simp_all add: run_simps consume_expression_id pattern_ops_run\<close>)
    qed
    show ?case using e st Suc by (metis ext less_Suc_eq)
  qed simp
  show "visit_expression env e = run_ops env (expression_ops env e)"
    using IH [of "Suc (size e)"] by blast
  show "visit_statement env s = run_ops env (statement_ops env s)"
    using IH [of "Suc (size s)"] by blast
qed

definition body_ops :: "lower_env \<Rightarrow> name_id list \<Rightarrow> expression \<Rightarrow> linear_op list" where
  "body_ops env inputs body = map LO_Name inputs @ expression_ops env body @ [consume_op body]"

section \<open>Leaves\<close>

fun leaves :: "linear_tree \<Rightarrow> nat list" where
  "leaves (LT_Leaf p) = [p]"
| "leaves (LT_Struct p fs) = concat (map (\<lambda>(_, t). leaves t) fs)"
| "leaves (LT_Tuple p ts) = concat (map leaves ts)"
| "leaves (LT_Array p ts) = concat (map leaves ts)"

text \<open>Using every leaf of a list once, from left to right; \<open>None\<close> is a leaf that was used before.\<close>

fun consume_leaves :: "loc \<Rightarrow> nat list \<Rightarrow> linear_heap \<Rightarrow> linear_heap option" where
  "consume_leaves l [] h = Some h"
| "consume_leaves l (p # ps) h =
     (case lh_usage h p of
        UI_Unlimited \<Rightarrow> consume_leaves l ps h
      | UI_Unused \<Rightarrow> consume_leaves l ps (h\<lparr>lh_usage := (lh_usage h)(p := UI_Consumed l)\<rparr>)
      | UI_Consumed prev \<Rightarrow> None)"

lemma consume_leaves_append:
  "consume_leaves l (ps @ qs) h = Option.bind (consume_leaves l ps h) (consume_leaves l qs)"
  by (induction ps arbitrary: h) (auto split: usage_info.split)

definition ok_option :: "'e + 'a \<Rightarrow> 'a option" where
  "ok_option r = (case r of Inl _ \<Rightarrow> None | Inr x \<Rightarrow> Some x)"

lemma ok_option_simps [simp]:
  "ok_option (Inr x) = Some x" "ok_option (Inl e) = None"
  "ok_option (in_part f r) = ok_option r"
  "ok_option (res_bind r g) = Option.bind (ok_option r) (\<lambda>x. ok_option (g x))"
  by (auto simp: ok_option_def in_part_def res_bind_def split: sum.split)

lemma try_consume_leaves:
  "ok_option (try_consume t l h) = consume_leaves l (leaves t) h"
  "ok_option (consume_fields fs l h) = consume_leaves l (concat (map (\<lambda>(_, t). leaves t) fs)) h"
  "ok_option (consume_members f i ts l h) = consume_leaves l (concat (map leaves ts)) h"
proof (induction t l h and fs l h and f i ts l h rule: try_consume_consume_fields_consume_members.induct)
  case (6 name t ts l h)
  then show ?case by (cases "try_consume t l h") (auto simp: consume_leaves_append in_part_def dest: sym)
next
  case (8 f i t ts l h)
  then show ?case by (cases "try_consume t l h") (auto simp: consume_leaves_append in_part_def dest: sym)
qed (auto split: usage_info.split)

lemma tree_unused_leaves:
  "tree_unused h t = None \<longleftrightarrow> (\<forall>p\<in>set (leaves t). lh_usage h p \<noteq> UI_Unused)"
  "fields_unused h fs = None \<longleftrightarrow> (\<forall>p\<in>set (concat (map (\<lambda>(_, t). leaves t) fs)). lh_usage h p \<noteq> UI_Unused)"
  "members_unused f i h ts = None \<longleftrightarrow> (\<forall>p\<in>set (concat (map leaves ts)). lh_usage h p \<noteq> UI_Unused)"
  by (induction h t and h fs and f i h ts rule: tree_unused_fields_unused_members_unused.induct)
    (simp_all add: ball_Un del: set_concat split: option.split, force+)

lemma unused_tree_None:
  "unused_tree h ts = Inr None \<Longrightarrow> (k, t) \<in> set ts \<Longrightarrow> p \<in> set (leaves t) \<Longrightarrow> lh_usage h p \<noteq> UI_Unused"
  by (induction h ts rule: unused_tree.induct)
    (auto simp: res_bind_Inr tree_unused_leaves(1) split: option.splits)

text \<open>The usage of a leaf and how often it is in what was consumed.\<close>

definition counted :: "linear_heap \<Rightarrow> nat list \<Rightarrow> bool" where
  "counted h used \<longleftrightarrow>
     (\<forall>p. (lh_usage h p = UI_Unused \<longrightarrow> count_list used p = 0) \<and>
          (\<forall>l. lh_usage h p = UI_Consumed l \<longrightarrow> count_list used p = 1) \<and>
          (lh_next h \<le> p \<longrightarrow> count_list used p = 0))"

lemma consume_leaves_counted:
  "consume_leaves l ps h = Some h' \<Longrightarrow> counted h used \<Longrightarrow> \<forall>p\<in>set ps. p < lh_next h \<Longrightarrow>
     counted h' (used @ ps) \<and> lh_next h' = lh_next h"
proof (induction ps arbitrary: h used)
  case (Cons p ps)
  show ?case
  proof (cases "lh_usage h p")
    case UI_Unlimited
    have "counted h (used @ [p])" using Cons.prems(2,3) UI_Unlimited by (auto simp: counted_def)
    then show ?thesis using Cons.IH [of h "used @ [p]"] Cons.prems UI_Unlimited by simp
  next
    case UI_Unused
    let ?h = "h\<lparr>lh_usage := (lh_usage h)(p := UI_Consumed l)\<rparr>"
    have "counted ?h (used @ [p])" using Cons.prems(2,3) UI_Unused by (auto simp: counted_def)
    then show ?thesis using Cons.IH [of ?h "used @ [p]"] Cons.prems UI_Unused by simp
  qed (use Cons.prems(1) in simp)
qed simp

section \<open>New resources\<close>

text \<open>What building a tree does to the heap: its leaves are new and unused or unlimited.\<close>

definition extends_heap :: "linear_heap \<Rightarrow> linear_heap \<Rightarrow> bool" where
  "extends_heap h h' \<longleftrightarrow>
     lh_next h \<le> lh_next h' \<and>
     (\<forall>p. lh_usage h' p = lh_usage h p \<or> (lh_next h \<le> p \<and> lh_usage h' p \<in> {UI_Unused, UI_Unlimited}))"

definition fresh_leaves :: "linear_heap \<Rightarrow> linear_heap \<Rightarrow> nat list \<Rightarrow> bool" where
  "fresh_leaves h h' ps \<longleftrightarrow> extends_heap h h' \<and> (\<forall>p\<in>set ps. lh_next h \<le> p \<and> p < lh_next h')"

lemma extends_refl: "extends_heap h h"
  by (simp add: extends_heap_def)

lemma extends_trans: "extends_heap h h' \<Longrightarrow> extends_heap h' h'' \<Longrightarrow> extends_heap h h''"
  unfolding extends_heap_def by (metis le_trans)

lemma new_node_extends: "new_node f h = (t, h') \<Longrightarrow> extends_heap h h' \<and> lh_usage h' = lh_usage h \<and> t = f (lh_next h)"
  by (auto simp: new_node_def extends_heap_def)

lemma fresh_nil: "fresh_leaves h h []"
  by (simp add: fresh_leaves_def extends_refl)

lemma fresh_append: "fresh_leaves h h1 ps \<Longrightarrow> fresh_leaves h1 h2 qs \<Longrightarrow> fresh_leaves h h2 (ps @ qs)"
proof -
  assume a: "fresh_leaves h h1 ps" "fresh_leaves h1 h2 qs"
  then have "extends_heap h h2" using extends_trans by (auto simp: fresh_leaves_def)
  moreover have "lh_next h \<le> lh_next h1" "lh_next h1 \<le> lh_next h2"
    using a by (simp_all add: fresh_leaves_def extends_heap_def)
  ultimately show ?thesis using a by (auto simp: fresh_leaves_def intro: le_trans less_le_trans)
qed

lemma fresh_extend: "fresh_leaves h h1 ps \<Longrightarrow> extends_heap h1 h2 \<Longrightarrow> fresh_leaves h h2 ps"
  using fresh_append [of h h1 ps h2 "[]"] by (simp add: fresh_leaves_def)

lemma fresh_subset: "fresh_leaves h h' ps \<Longrightarrow> set qs \<subseteq> set ps \<Longrightarrow> fresh_leaves h h' qs"
  by (auto simp: fresh_leaves_def)

lemma mapS_fresh:
  "mapS_res f xs h = Inr (ts, h') \<Longrightarrow>
     (\<And>x h t h'. x \<in> set xs \<Longrightarrow> f x h = Inr (t, h') \<Longrightarrow> fresh_leaves h h' (g t)) \<Longrightarrow>
     fresh_leaves h h' (concat (map g ts))"
proof (induction xs arbitrary: h ts)
  case (Cons x xs)
  then obtain t h1 ts' where "f x h = Inr (t, h1)" "mapS_res f xs h1 = Inr (ts', h')" "ts = t # ts'"
    by (auto simp: res_bind_Inr)
  moreover from this have "fresh_leaves h1 h' (concat (map g ts'))" using Cons.prems(2) by (intro Cons.IH) auto
  ultimately show ?case using Cons.prems(2) [of x h t h1] by (auto intro: fresh_append)
qed (simp add: fresh_nil)

lemma collect_fields_subset: "set (collect_fields ms) \<subseteq> set ms"
proof -
  have one: "set (AList.update k v acc) \<subseteq> insert (k, v) (set acc)" for k :: ident and v :: linear_tree and acc
    by (induction acc) auto
  have "set (fold (\<lambda>(k, v). AList.update k v) ms acc) \<subseteq> set acc \<union> set ms" for acc
    by (induction ms arbitrary: acc) (use one in \<open>fastforce+\<close>)
  then show ?thesis by (force simp: collect_fields_def)
qed

lemma build_fresh: "build_linear_tree ty h = Inr (t, h') \<Longrightarrow> fresh_leaves h h' (leaves t)"
proof (induction ty h arbitrary: t h' rule: build_linear_tree.induct)
  case (1 inner h)
  then obtain ts h1 where m: "mapS_res build_linear_tree inner h = Inr (ts, h1)"
    and n: "new_node (\<lambda>p. LT_Tuple p ts) h1 = (t, h')"
    by (auto simp: res_bind_Inr)
  have "fresh_leaves h h1 (concat (map leaves ts))" by (rule mapS_fresh [OF m]) (use 1(1) in blast)
  then show ?case using new_node_extends [OF n] by (auto intro: fresh_extend)
next
  case (2 name members h)
  then obtain ts h1 where m: "mapS_res (\<lambda>(name, ty) h. res_bind (build_linear_tree ty h) (\<lambda>(t, h). Inr ((name, t), h))) members h =
        Inr (ts, h1)"
    and n: "new_node (\<lambda>p. LT_Struct p (collect_fields ts)) h1 = (t, h')"
    by (auto simp: res_bind_Inr)
  have "fresh_leaves h h1 (concat (map (\<lambda>(_, t). leaves t) ts))"
    by (rule mapS_fresh [OF m]) (use 2(1) in \<open>auto simp: res_bind_Inr\<close>)
  then have "fresh_leaves h h1 (concat (map (\<lambda>(_, t). leaves t) (collect_fields ts)))"
    by (rule fresh_subset) (use collect_fields_subset in fastforce)
  then show ?case using new_node_extends [OF n] by (auto intro: fresh_extend)
next
  case (3 inner sz h)
  show ?case
  proof (cases "is_linear inner")
    case True
    then obtain n ts h1 where m: "mapS_res (\<lambda>_. build_linear_tree inner) [0..<n] h = Inr (ts, h1)"
      and n: "new_node (\<lambda>p. LT_Array p ts) h1 = (t, h')"
      and sz: "or_panic (int_to_usize sz) = Inr n"
      using 3(2) by (auto simp: res_bind_Inr)
    have "fresh_leaves h h1 (concat (map leaves ts))"
      by (rule mapS_fresh [OF m]) (use 3(1) [OF True sz] in blast)
    then show ?thesis using new_node_extends [OF n] by (auto intro: fresh_extend)
  next
    case False
    then show ?thesis using 3(2) by (auto simp: new_leaf_def fresh_leaves_def extends_heap_def split: if_splits)
  qed
qed (auto simp: new_leaf_def fresh_leaves_def extends_heap_def split: if_splits)

section \<open>Every linear leaf is used once\<close>

definition consumed_by :: "linear_op \<Rightarrow> linear_state \<Rightarrow> linear_tree list" where
  "consumed_by oper st =
     (case oper of
        LO_Consume i _ \<Rightarrow>
          (case consume_targets st [IR_Anonymous i] [] of Inl _ \<Rightarrow> [] | Inr ts \<Rightarrow> ts)
      | _ \<Rightarrow> [])"

text \<open>The trees that a run consumes, in order.\<close>

fun consumed_trees :: "lower_env \<Rightarrow> linear_op list \<Rightarrow> linear_state \<Rightarrow> linear_tree list" where
  "consumed_trees env [] st = []"
| "consumed_trees env (oper # ops) st =
     consumed_by oper st @
     (case run_op env oper st of Inl _ \<Rightarrow> [] | Inr st \<Rightarrow> consumed_trees env ops st)"

definition used_leaves :: "linear_tree list \<Rightarrow> nat list" where
  "used_leaves ts = concat (map leaves ts)"

lemma used_leaves_append [simp]: "used_leaves (xs @ ys) = used_leaves xs @ used_leaves ys"
  by (simp add: used_leaves_def)

definition accounted :: "linear_state \<Rightarrow> nat list \<Rightarrow> bool" where
  "accounted st used \<longleftrightarrow>
     counted (ls_heap st) used \<and> (\<forall>t\<in>snd ` set (ls_trees st). \<forall>p\<in>set (leaves t). p < lh_next (ls_heap st))"

lemma subtree_leaves:
  "tuple_member i t = Some s \<or> array_member i t = Some s \<or> struct_member field t = Some s \<Longrightarrow>
     set (leaves s) \<subseteq> set (leaves t)"
  by (auto simp: tuple_member_def array_member_def struct_member_def nth_opt_def
      split: linear_tree.splits if_splits dest!: map_of_SomeD nth_mem)

lemma tree_of_in: "tree_of st r = Some t \<Longrightarrow> t \<in> snd ` set (ls_trees st)"
  by (force simp: tree_of_def dest: map_of_SomeD)

lemma update_mem: "set (AList.update k v xs) \<subseteq> insert (k, v) (set xs)"
  by (induction xs) auto

lemma insert_accounted:
  assumes "accounted st used" and "\<forall>p\<in>set (leaves t). p < lh_next (ls_heap st)"
  shows "accounted (insert_tree r t st) used"
proof -
  have "\<forall>t'\<in>snd ` set (AList.update (ref_key r) t (ls_trees st)). t' = t \<or> t' \<in> snd ` set (ls_trees st)"
    using update_mem by fastforce
  then show ?thesis using assms by (auto simp: accounted_def insert_tree_def add_alias_def counted_def)
qed

lemma alias_accounted:
  assumes "alias_subtree idx to base st = Inr st'" and "accounted st used"
    and "\<And>t s. idx t = Some s \<Longrightarrow> set (leaves s) \<subseteq> set (leaves t)"
  shows "accounted st' used"
proof -
  obtain t s where "tree_of st (IR_Anonymous base) = Some t" "idx t = Some s" "st' = insert_tree (IR_Anonymous to) s st"
    using assms(1) by (auto simp: alias_subtree_def res_bind_Inr)
  moreover from this have "\<forall>p\<in>set (leaves s). p < lh_next (ls_heap st)"
    using assms(2,3) tree_of_in [of st _ t] unfolding accounted_def by blast
  ultimately show ?thesis using assms(2) by (simp add: insert_accounted)
qed

lemma merge_accounted:
  assumes "merge a b st = Inr st'" and "accounted st used"
  shows "accounted st' used"
proof -
  have new: "accounted (insert_tree r t st) used" if "tree_of st q = Some t" for q r t
    using tree_of_in [OF that] assms(2) by (intro insert_accounted) (auto simp: accounted_def)
  show ?thesis
    using assms new by (cases "tree_of st a"; cases "tree_of st b") (auto simp: merge_def intro: new split: if_splits)
qed

lemma push_type_accounted:
  assumes "push_type r ty st = Inr st'" and "accounted st used"
  shows "accounted st' used"
proof -
  obtain t h where b: "build_linear_tree ty (ls_heap st) = Inr (t, h)" and st': "st' = insert_tree r t (st\<lparr>ls_heap := h\<rparr>)"
    using assms(1) by (auto simp: push_type_def res_bind_Inr)
  note f = build_fresh [OF b]
  have "counted h used"
    unfolding counted_def
  proof (intro allI conjI impI)
    fix p l
    have u: "lh_usage h p = lh_usage (ls_heap st) p \<or> (lh_next (ls_heap st) \<le> p \<and> lh_usage h p \<in> {UI_Unused, UI_Unlimited})"
      and n: "lh_next (ls_heap st) \<le> lh_next h"
      using f by (simp_all add: fresh_leaves_def extends_heap_def)
    have c: "counted (ls_heap st) used" using assms(2) by (simp add: accounted_def)
    show "lh_usage h p = UI_Unused \<Longrightarrow> count_list used p = 0" using u c by (auto simp: counted_def)
    show "lh_usage h p = UI_Consumed l \<Longrightarrow> count_list used p = 1" using u c unfolding counted_def by (metis insertE singletonD usage_info.distinct(3,5))
    show "lh_next h \<le> p \<Longrightarrow> count_list used p = 0" using n c by (simp add: counted_def)
  qed
  then have "accounted (st\<lparr>ls_heap := h\<rparr>) used"
    using assms(2) f by (fastforce simp: accounted_def fresh_leaves_def extends_heap_def)
  then show ?thesis unfolding st' by (rule insert_accounted) (use f in \<open>simp add: fresh_leaves_def\<close>)
qed

lemma targets_in:
  "consume_targets st refs seen = Inr ts \<Longrightarrow> set ts \<subseteq> snd ` set (ls_trees st)"
proof (induction st refs seen arbitrary: ts rule: consume_targets.induct)
  case (2 st r refs seen)
  obtain t where t: "tree_of st r = Some t" using 2(2) by (auto split: option.splits)
  show ?case
  proof (cases "tree_ptr t \<in> set seen")
    case False
    then obtain ts' where ts': "consume_targets st (rev (lh_aliases (ls_heap st) (tree_ptr t)) @ refs) (tree_ptr t # seen) = Inr ts'"
      and "ts = t # ts'" using 2(2) t by (auto simp: res_bind_Inr)
    then show ?thesis using 2(1) [OF t False ts'] tree_of_in [OF t] by simp
  qed (use 2(2) t in simp)
qed simp

lemma consume_trees_counted:
  "consume_trees ts l h = Inr h' \<Longrightarrow> counted h used \<Longrightarrow> \<forall>t\<in>set ts. \<forall>p\<in>set (leaves t). p < lh_next h \<Longrightarrow>
     counted h' (used @ used_leaves ts) \<and> lh_next h' = lh_next h"
proof (induction ts arbitrary: h used)
  case (Cons t ts)
  obtain h1 where h1: "try_consume t l h = Inr h1" and rest: "consume_trees ts l h1 = Inr h'"
    using Cons.prems(1) by (auto simp: consume_trees_def res_bind_Inr split: sum.splits)
  have "consume_leaves l (leaves t) h = Some h1" using try_consume_leaves(1) [of t l h] h1 by simp
  then have "counted h1 (used @ leaves t) \<and> lh_next h1 = lh_next h"
    using consume_leaves_counted Cons.prems(2,3) by auto
  then show ?case using Cons.IH [OF rest, of "used @ leaves t"] Cons.prems(3) by (simp add: used_leaves_def)
qed (simp add: consume_trees_def used_leaves_def)

lemma run_op_accounted:
  assumes "run_op env oper st = Inr st'" and "accounted st used"
  shows "accounted st' (used @ used_leaves (consumed_by oper st))"
proof (cases oper)
  case (LO_Expression i)
  then show ?thesis using assms push_type_accounted
    by (auto simp: run_op_def consumed_by_def used_leaves_def push_new_expression_def res_bind_Inr split: option.splits)
next
  case (LO_Name n)
  then show ?thesis using assms push_type_accounted
    by (auto simp: run_op_def consumed_by_def used_leaves_def push_new_name_def res_bind_Inr split: option.splits)
next
  case (LO_Merge a b)
  then show ?thesis using assms merge_accounted by (auto simp: run_op_def consumed_by_def used_leaves_def)
next
  case (LO_Consume i l)
  then obtain ts h where ts: "consume_targets st [IR_Anonymous i] [] = Inr ts" and h: "consume_trees ts l (ls_heap st) = Inr h"
    and st': "st' = st\<lparr>ls_heap := h\<rparr>"
    using assms(1) by (auto simp: run_op_def consume_id_def res_bind_Inr)
  have below: "\<forall>t\<in>set ts. \<forall>p\<in>set (leaves t). p < lh_next (ls_heap st)"
    using targets_in [OF ts] assms(2) by (auto simp: accounted_def)
  have "counted h (used @ used_leaves ts) \<and> lh_next h = lh_next (ls_heap st)"
    by (rule consume_trees_counted [OF h _ below]) (use assms(2) in \<open>simp add: accounted_def\<close>)
  then show ?thesis using assms(2) st' ts LO_Consume by (simp add: accounted_def consumed_by_def)
next
  case (LO_Fail e)
  then show ?thesis using assms(1) by (simp add: run_op_def)
next
  case (LO_Tuple to base i)
  have "accounted st' used"
    by (rule alias_accounted [where idx = "tuple_member i", OF _ assms(2)])
      (use assms(1) LO_Tuple in \<open>auto simp: run_op_def dest: subtree_leaves [OF disjI1]\<close>)
  then show ?thesis by (simp add: LO_Tuple consumed_by_def used_leaves_def)
next
  case (LO_Array to base i)
  have "accounted st' used"
    by (rule alias_accounted [where idx = "array_member i", OF _ assms(2)])
      (use assms(1) LO_Array in \<open>auto simp: run_op_def dest: subtree_leaves [OF disjI2, OF disjI1]\<close>)
  then show ?thesis by (simp add: LO_Array consumed_by_def used_leaves_def)
next
  case (LO_Struct to base field)
  have "accounted st' used"
    by (rule alias_accounted [where idx = "struct_member field", OF _ assms(2)])
      (use assms(1) LO_Struct in \<open>auto simp: run_op_def dest: subtree_leaves [OF disjI2, OF disjI2]\<close>)
  then show ?thesis by (simp add: LO_Struct consumed_by_def used_leaves_def)
qed

lemma run_ops_accounted:
  "run_ops env ops st = Inr st' \<Longrightarrow> accounted st used \<Longrightarrow>
     accounted st' (used @ used_leaves (consumed_trees env ops st))"
proof (induction ops arbitrary: st used)
  case (Cons oper ops)
  then obtain st1 where st1: "run_op env oper st = Inr st1" and rest: "run_ops env ops st1 = Inr st'"
    by (auto simp: res_bind_Inr)
  show ?case
    using Cons.IH [OF rest run_op_accounted [OF st1 Cons.prems(2)]] st1 by simp
qed (simp add: used_leaves_def)

lemma linear_walk_ops: "linear_walk env inputs body = run_ops env (body_ops env inputs body) linear_new"
proof -
  have "fold_res (push_new_name env) inputs st = run_ops env (map LO_Name inputs) st" for st
    by (induction inputs arbitrary: st) (auto simp: run_simps res_bind_def split: sum.split)
  then show ?thesis by (simp add: linear_walk_def body_ops_def run_simps walk_runs consume_expression_id)
qed

text \<open>
  C4: Linear resources are used exactly once. When the check accepts a body, every leaf of every resource
  it knows is consumed once by the uses the body makes, in the order of the walk, unless the leaf
  is of a type without limit.
\<close>

theorem linear_used_once:
  assumes "check_linear_types env inputs body = Inr ()"
  shows "\<exists>st. linear_walk env inputs body = Inr st \<and>
    (\<forall>(k, t)\<in>set (ls_trees st). \<forall>p\<in>set (leaves t).
       lh_usage (ls_heap st) p = UI_Unlimited \<or>
       count_list (used_leaves (consumed_trees env (body_ops env inputs body) linear_new)) p = 1)"
proof -
  obtain st where st: "linear_walk env inputs body = Inr st" and unused: "check_unused st = Inr None"
    using assms by (fastforce simp: check_linear_types_def res_bind_Inr split: option.splits)
  let ?used = "used_leaves (consumed_trees env (body_ops env inputs body) linear_new)"
  have "accounted linear_new []" by (simp add: accounted_def linear_new_def counted_def)
  then have "accounted st ([] @ ?used)"
    using st unfolding linear_walk_ops by (intro run_ops_accounted)
  then have counted: "counted (ls_heap st) ?used" by (simp add: accounted_def)
  have "lh_usage (ls_heap st) p = UI_Unlimited \<or> count_list ?used p = 1"
    if "(k, t) \<in> set (ls_trees st)" "p \<in> set (leaves t)" for k t p
  proof -
    have "lh_usage (ls_heap st) p \<noteq> UI_Unused" using unused_tree_None unused that by (simp add: check_unused_def)
    then show ?thesis using counted by (cases "lh_usage (ls_heap st) p") (auto simp: counted_def)
  qed
  then show ?thesis using st by blast
qed

text \<open>Types without empty arrays, whose structs have distinct fields.\<close>

fun well_sized :: "concrete_type \<Rightarrow> bool" where
  "well_sized (CT_Tuple inner) = list_all well_sized inner"
| "well_sized (CT_Struct name members) = (distinct (map fst members) \<and> list_all (\<lambda>(_, t). well_sized t) members)"
| "well_sized (CT_Array inner sz) = (0 < sz \<and> well_sized inner)"
| "well_sized _ = True"

abbreviation has_unused :: "linear_heap \<Rightarrow> nat list \<Rightarrow> bool" where
  "has_unused h ps \<equiv> \<exists>p\<in>set ps. lh_usage h p = UI_Unused"

lemma mapS_unused:
  "mapS_res f xs h = Inr (ts, h') \<Longrightarrow>
     (\<And>x h t h'. x \<in> set xs \<Longrightarrow> f x h = Inr (t, h') \<Longrightarrow> fresh_leaves h h' (g t) \<and> (has_unused h' (g t) \<longleftrightarrow> P x)) \<Longrightarrow>
     has_unused h' (concat (map g ts)) \<longleftrightarrow> (\<exists>x\<in>set xs. P x)"
proof (induction xs arbitrary: h ts)
  case (Cons x xs)
  then obtain t h1 ts' where x: "f x h = Inr (t, h1)" and rest: "mapS_res f xs h1 = Inr (ts', h')" and ts: "ts = t # ts'"
    by (auto simp: res_bind_Inr)
  have one: "fresh_leaves h h1 (g t)" "has_unused h1 (g t) \<longleftrightarrow> P x" using Cons.prems(2) [OF _ x] by simp_all
  have "fresh_leaves h1 h' (concat (map g ts'))" by (rule mapS_fresh [OF rest]) (use Cons.prems(2) in auto)
  then have "\<forall>p\<in>set (g t). lh_usage h' p = lh_usage h1 p"
    using one(1) by (fastforce simp: fresh_leaves_def extends_heap_def)
  then have "has_unused h' (g t) \<longleftrightarrow> P x" using one(2) by metis
  moreover have "has_unused h' (concat (map g ts')) \<longleftrightarrow> (\<exists>x\<in>set xs. P x)"
    by (rule Cons.IH [OF rest]) (use Cons.prems(2) in auto)
  ultimately show ?case by (simp add: ts bex_Un del: set_concat)
qed simp

lemma fst_mapS:
  "mapS_res (\<lambda>(name, ty) h. res_bind (f ty h) (\<lambda>(t, h). Inr ((name, t), h))) ms h = Inr (ts, h') \<Longrightarrow> map fst ts = map fst ms"
  by (induction ms arbitrary: h ts) (auto simp: res_bind_Inr)

lemma collect_fields_distinct: "distinct (map fst ms) \<Longrightarrow> collect_fields ms = ms"
proof -
  have new: "k \<notin> set (map fst acc) \<Longrightarrow> AList.update k v acc = acc @ [(k, v)]" for k :: ident and v :: linear_tree and acc
    by (induction acc) auto
  have "distinct (map fst (acc @ ms)) \<Longrightarrow> fold (\<lambda>(k, v). AList.update k v) ms acc = acc @ ms" for acc
  proof (induction ms arbitrary: acc)
    case (Cons m ms)
    obtain k v where m: "m = (k, v)" by fastforce
    then have "AList.update k v acc = acc @ [(k, v)]" using Cons.prems by (intro new) auto
    then show ?case using Cons.IH [of "acc @ [(k, v)]"] Cons.prems by (simp add: m)
  qed simp
  from this [of "[]"] show "distinct (map fst ms) \<Longrightarrow> collect_fields ms = ms" by (simp add: collect_fields_def)
qed

text \<open>
  C5: What is tracked for a type. The tree of a value has a leaf that must be used exactly when the type
  is linear, for types without empty arrays.
\<close>

theorem linear_has_leaf:
  assumes "build_linear_tree ty h = Inr (t, h')" and "well_sized ty"
  shows "(\<exists>p\<in>set (leaves t). lh_usage h' p = UI_Unused) \<longleftrightarrow> is_linear ty"
  using assms
proof (induction ty h arbitrary: t h' rule: build_linear_tree.induct)
  case (1 inner h)
  then obtain ts h1 where m: "mapS_res build_linear_tree inner h = Inr (ts, h1)"
    and n: "new_node (\<lambda>p. LT_Tuple p ts) h1 = (t, h')"
    by (auto simp: res_bind_Inr)
  have "has_unused h1 (concat (map leaves ts)) \<longleftrightarrow> (\<exists>ty\<in>set inner. is_linear ty)"
    by (rule mapS_unused [OF m]) (use 1 build_fresh in \<open>auto simp: list_all_iff\<close>)
  then show ?case using new_node_extends [OF n] by (simp add: list_ex_iff)
next
  case (2 name members h)
  then obtain ts h1 where m: "mapS_res (\<lambda>(name, ty) h. res_bind (build_linear_tree ty h) (\<lambda>(t, h). Inr ((name, t), h))) members h =
        Inr (ts, h1)"
    and n: "new_node (\<lambda>p. LT_Struct p (collect_fields ts)) h1 = (t, h')"
    by (auto simp: res_bind_Inr)
  have same: "collect_fields ts = ts" using fst_mapS [OF m] 2(3) by (intro collect_fields_distinct) simp
  have "has_unused h1 (concat (map (\<lambda>(_, t). leaves t) ts)) \<longleftrightarrow> (\<exists>x\<in>set members. is_linear (snd x))"
    by (rule mapS_unused [OF m])
      (use 2(1,3) build_fresh in \<open>fastforce simp: res_bind_Inr list_all_iff split: prod.splits\<close>)
  then show ?case using new_node_extends [OF n] same by (auto simp: list_ex_iff split_beta)
next
  case (3 inner sz h)
  show ?case
  proof (cases "is_linear inner")
    case True
    then obtain n ts h1 where m: "mapS_res (\<lambda>_. build_linear_tree inner) [0..<n] h = Inr (ts, h1)"
      and n: "new_node (\<lambda>p. LT_Array p ts) h1 = (t, h')"
      and sz: "or_panic (int_to_usize sz) = Inr n"
      using 3(2) by (auto simp: res_bind_Inr)
    have "has_unused h1 (concat (map leaves ts)) \<longleftrightarrow> (\<exists>i\<in>set [0..<n]. is_linear inner)"
      by (rule mapS_unused [OF m]) (use 3(1) [OF True sz] 3(3) build_fresh in auto)
    moreover have "0 < n" using 3(3) sz by (auto simp: int_to_usize_def or_panic_def split: if_splits)
    ultimately show ?thesis using new_node_extends [OF n] True by auto
  next
    case False
    then show ?thesis using 3(2) by (auto simp: new_leaf_def)
  qed
qed (auto simp: new_leaf_def split: if_splits)

section \<open>Examples\<close>

definition ex_linear_env :: lower_env where
  "ex_linear_env = ex_env\<lparr>le_names := (\<lambda>_. Some (TV_Known KT_Backward [ex_bool_var]))\<rparr>"

definition ex_set :: "nat \<Rightarrow> hir_statement \<times> loc" where
  "ex_set i = (HS_Set (ex_var i 1) (Expr (EK_BoolLiteral True) (i + 1) loc_nowhere), loc_nowhere)"

definition ex_sets :: "(hir_statement \<times> loc) list \<Rightarrow> expression" where
  "ex_sets ss = Expr (EK_Block (Block ss None)) 40 loc_nowhere"

lemma ex_linear_checks:
  "check_linear_types ex_linear_env [ex_name 1] (ex_sets [ex_set 30]) = Inr ()"
  "check_linear_types ex_linear_env [ex_name 1] (ex_sets [ex_set 30, ex_set 32]) = Inl (LE_Error ''Use of consumed resource'')"
  "case check_linear_types ex_linear_env [ex_name 1] (ex_sets []) of Inl (LE_Error _) \<Rightarrow> True | _ \<Rightarrow> False"
  by code_simp+

theorem linear_used_once_witness:
  "\<exists>st t. linear_walk ex_linear_env [ex_name 1] (ex_sets [ex_set 30]) = Inr st \<and> tree_of st (IR_Name (ex_name 1)) = Some t \<and>
     leaves t = [0] \<and>
     count_list (used_leaves (consumed_trees ex_linear_env (body_ops ex_linear_env [ex_name 1] (ex_sets [ex_set 30])) linear_new)) 0 = 1"
proof -
  have "case linear_walk ex_linear_env [ex_name 1] (ex_sets [ex_set 30]) of
      Inr st \<Rightarrow> (case tree_of st (IR_Name (ex_name 1)) of
          Some t \<Rightarrow> leaves t = [0] \<and> lh_usage (ls_heap st) 0 \<noteq> UI_Unlimited | None \<Rightarrow> False)
    | Inl _ \<Rightarrow> False"
    by code_simp
  then obtain st t where st: "linear_walk ex_linear_env [ex_name 1] (ex_sets [ex_set 30]) = Inr st"
    "tree_of st (IR_Name (ex_name 1)) = Some t" "leaves t = [0]" "lh_usage (ls_heap st) 0 \<noteq> UI_Unlimited"
    by (auto split: sum.splits option.splits)
  have "t \<in> snd ` set (ls_trees st)" using tree_of_in st(2) by blast
  then show ?thesis using linear_used_once [OF ex_linear_checks(1)] st by fastforce
qed

theorem linear_has_leaf_witness:
  "\<exists>t h. build_linear_tree (CT_Tuple [CT_Single PT_Bool [], CT_Backward (CT_Single PT_Bool [])]) (ls_heap linear_new) = Inr (t, h) \<and>
     (\<exists>p\<in>set (leaves t). lh_usage h p = UI_Unused)"
proof -
  let ?ty = "CT_Tuple [CT_Single PT_Bool [], CT_Backward (CT_Single PT_Bool [])]"
  obtain t h where b: "build_linear_tree ?ty (ls_heap linear_new) = Inr (t, h)"
    by (simp add: new_leaf_def new_node_def)
  then show ?thesis using linear_has_leaf [OF b] by auto
qed

end
