(* ===== verification/Symbol_Table.thy ===== *)
theory Symbol_Table
  imports Hir_Items Patterns "HOL-Library.AList"
begin

text \<open>
  spade-hir, \<open>symbol_table.rs\<close>: the things and types a program names, the nested scopes that give
  paths their ids, declarations of variables, namespaces, aliases (\<open>use\<close>) and the lookups.

  A scope maps paths to name ids and the table maps the numbers of ids to things and to types, since
  \<open>NameID\<close> compares by number. The declarations of a scope are listed in the order they were made;
  the code iterates over a hash map of them. Locations are left out. Operations that may panic return
  \<open>None\<close> for it. Aliases can be cyclic, so the lookups that follow them take a bound on the nesting of
  calls: \<open>None\<close> is a lookup that does not return within it.
\<close>

section \<open>Things and types\<close>

record enum_variant =
  ev_name :: ident
  ev_output_type :: type_spec
  ev_option :: nat
  ev_params :: parameter_list
  ev_type_params :: "type_param list"

definition variant_unit_head :: "enum_variant \<Rightarrow> unit_head" where
  "variant_unit_head v =
     \<lparr>uh_name = ev_name v, uh_inputs = ev_params v, uh_output_type = Some (ev_output_type v),
      uh_unit_type_params = ev_type_params v, uh_scope_type_params = ev_type_params v,
      uh_unit_kind = UK_Function FK_Enum, uh_where_clauses = []\<rparr>"

record struct_callable =
  sc_name :: ident
  sc_self_type :: type_spec
  sc_params :: parameter_list
  sc_type_params :: "type_param list"

definition struct_unit_head :: "struct_callable \<Rightarrow> unit_head" where
  "struct_unit_head s =
     \<lparr>uh_name = sc_name s, uh_inputs = sc_params s, uh_output_type = Some (sc_self_type s),
      uh_unit_type_params = sc_type_params s, uh_scope_type_params = [],
      uh_unit_kind = UK_Function FK_Struct, uh_where_clauses = []\<rparr>"

datatype thing =
    TH_Struct struct_callable
  | TH_EnumVariant enum_variant
  | TH_Unit unit_head
  | TH_Variable ident
  | TH_Alias path path
  | TH_PipelineStage ident
  | TH_ComptimeConfig int
  | TH_Module ident
  | TH_Trait ident

definition kind_string :: "thing \<Rightarrow> string" where
  "kind_string t =
     (case t of
        TH_Struct _ \<Rightarrow> ''struct''
      | TH_Unit _ \<Rightarrow> ''unit''
      | TH_Variable _ \<Rightarrow> ''variable''
      | TH_EnumVariant _ \<Rightarrow> ''enum variant''
      | TH_Alias _ _ \<Rightarrow> ''alias''
      | TH_PipelineStage _ \<Rightarrow> ''pipeline stage''
      | TH_ComptimeConfig _ \<Rightarrow> ''$config''
      | TH_Trait _ \<Rightarrow> ''trait''
      | TH_Module _ \<Rightarrow> ''module'')"

text \<open>Where the name of a thing is defined: a \<open>todo!\<close> for stages and configuration values.\<close>

definition name_loc :: "thing \<Rightarrow> unit option" where
  "name_loc t = (case t of TH_PipelineStage _ \<Rightarrow> None | TH_ComptimeConfig _ \<Rightarrow> None | _ \<Rightarrow> Some ())"

record patternable =
  pt_kind :: patternable_kind
  pt_params :: parameter_list

datatype generic_parameter = GA_TypeName ident "trait_spec list" | GA_TypeWithMeta ident meta_type

definition generic_uint :: "ident \<Rightarrow> generic_parameter" where
  "generic_uint name = GA_TypeWithMeta name MT_Uint"

datatype declared_kind = DK_Struct bool | DK_Enum | DK_Primitive bool

definition normal_struct :: declared_kind where
  "normal_struct = DK_Struct False"

definition struct_port :: declared_kind where
  "struct_port = DK_Struct True"

fun declared_kind_name :: "declared_kind \<Rightarrow> string" where
  "declared_kind_name (DK_Struct port) = ''struct'' @ (if port then '' port'' else '''')"
| "declared_kind_name DK_Enum = ''enum''"
| "declared_kind_name (DK_Primitive _) = ''primitive''"

datatype type_symbol =
    TY_Declared "generic_parameter list" declared_kind
  | TY_GenericArg "trait_spec list"
  | TY_GenericMeta meta_type

datatype declaration_state = DS_Undefined name_id | DS_Undecleared name_id | DS_Defined loc

section \<open>Errors\<close>

datatype lookup_error =
    LK_NoSuchSymbol path
  | LK_NotAThing path
  | LK_NotATypeSymbol path thing
  | LK_NotAVariable path thing
  | LK_NotAUnit path thing
  | LK_NotAnEnumVariant path thing
  | LK_NotAPatternableType path thing
  | LK_NotAStruct path thing
  | LK_NotAValue path thing
  | LK_NotAComptimeValue path thing
  | LK_NotATrait path thing
  | LK_IsAType path

fun with_path :: "path \<Rightarrow> lookup_error \<Rightarrow> lookup_error" where
  "with_path p (LK_NoSuchSymbol _) = LK_NoSuchSymbol p"
| "with_path p (LK_NotAThing _) = LK_NotAThing p"
| "with_path p (LK_NotATypeSymbol _ t) = LK_NotATypeSymbol p t"
| "with_path p (LK_NotAVariable _ t) = LK_NotAVariable p t"
| "with_path p (LK_NotAUnit _ t) = LK_NotAUnit p t"
| "with_path p (LK_NotAnEnumVariant _ t) = LK_NotAnEnumVariant p t"
| "with_path p (LK_NotAPatternableType _ t) = LK_NotAPatternableType p t"
| "with_path p (LK_NotAStruct _ t) = LK_NotAStruct p t"
| "with_path p (LK_NotAValue _ t) = LK_NotAValue p t"
| "with_path p (LK_NotAComptimeValue _ t) = LK_NotAComptimeValue p t"
| "with_path p (LK_NotATrait _ t) = LK_NotATrait p t"
| "with_path p (LK_IsAType _) = LK_IsAType p"

text \<open>The reports of errors: message, label, label of what was found, help and suggested insertion.\<close>

record diagnostic =
  dg_message :: string
  dg_primary :: string
  dg_secondary :: "string option"
  dg_help :: "string option"
  dg_suggestion :: "string option"

definition plain_diagnostic :: "string \<Rightarrow> string \<Rightarrow> diagnostic" where
  "plain_diagnostic message label =
     \<lparr>dg_message = message, dg_primary = label, dg_secondary = None, dg_help = None, dg_suggestion = None\<rparr>"

definition expected_diagnostic :: "path \<Rightarrow> thing \<Rightarrow> string \<Rightarrow> diagnostic" where
  "expected_diagnostic p got expected =
     (plain_diagnostic (''Expected '' @ show_path p @ '' to be '' @ expected) (''Expected '' @ expected))
       \<lparr>dg_secondary := Some (show_path p @ '' is a '' @ kind_string got)\<rparr>"

definition value_suggestion :: "thing \<Rightarrow> string option" where
  "value_suggestion t =
     (case t of
        TH_EnumVariant v \<Rightarrow>
          Some (''('' @ join_strs '', '' (map (\<lambda>a. ''/* '' @ par_name a @ '' */'') (ev_params v)) @ '')'')
      | TH_Struct v \<Rightarrow>
          Some (''('' @ join_strs '', '' (map (\<lambda>a. ''/*'' @ par_name a @ ''*/'') (sc_params v)) @ '')'')
      | _ \<Rightarrow> None)"

fun lookup_diagnostic :: "lookup_error \<Rightarrow> diagnostic" where
  "lookup_diagnostic (LK_NoSuchSymbol p) =
     plain_diagnostic (''Use of undeclared name '' @ show_path p) ''Undeclared name''"
| "lookup_diagnostic (LK_NotAThing p) =
     plain_diagnostic (''Use of '' @ show_path p @ '' before it was decleared'') ''Undeclared name''"
| "lookup_diagnostic (LK_IsAType p) =
     plain_diagnostic (''Unexpected type '' @ show_path p) ''Unexpected type''"
| "lookup_diagnostic (LK_NotATypeSymbol p got) = expected_diagnostic p got ''a type''"
| "lookup_diagnostic (LK_NotAVariable p got) = expected_diagnostic p got ''a variable''"
| "lookup_diagnostic (LK_NotAUnit p got) = expected_diagnostic p got ''a unit''"
| "lookup_diagnostic (LK_NotAnEnumVariant p got) = expected_diagnostic p got ''an enum variant''"
| "lookup_diagnostic (LK_NotAPatternableType p got) = expected_diagnostic p got ''a patternable type''"
| "lookup_diagnostic (LK_NotAStruct p got) = expected_diagnostic p got ''a struct''"
| "lookup_diagnostic (LK_NotAValue p got) =
     (expected_diagnostic p got ''a value'')\<lparr>dg_suggestion := value_suggestion got\<rparr>"
| "lookup_diagnostic (LK_NotAComptimeValue p got) =
     (expected_diagnostic p got ''a compile time value'')
       \<lparr>dg_help := Some ''compile time values can be defined with $config <name> = value''\<rparr>"
| "lookup_diagnostic (LK_NotATrait p got) = expected_diagnostic p got ''a trait''"

section \<open>The table\<close>

record symtab =
  st_symbols :: "(path \<Rightarrow> name_id option) list"
  st_declarations :: "(ident \<times> declaration_state) list list"
  st_id_tracker :: id_tracker
  st_types :: "nat \<Rightarrow> type_symbol option"
  st_things :: "nat \<Rightarrow> thing option"
  st_namespace :: path
  st_base_namespace :: path

definition symtab_new :: symtab where
  "symtab_new =
     \<lparr>st_symbols = [\<lambda>_. None], st_declarations = [[]], st_id_tracker = tracker_new,
      st_types = (\<lambda>_. None), st_things = (\<lambda>_. None), st_namespace = [], st_base_namespace = []\<rparr>"

definition new_scope :: "symtab \<Rightarrow> symtab" where
  "new_scope st = st\<lparr>st_symbols := st_symbols st @ [\<lambda>_. None], st_declarations := st_declarations st @ [[]]\<rparr>"

definition close_scope :: "symtab \<Rightarrow> symtab" where
  "close_scope st = st\<lparr>st_symbols := butlast (st_symbols st), st_declarations := butlast (st_declarations st)\<rparr>"

definition current_scope :: "symtab \<Rightarrow> nat option" where
  "current_scope st = nat_minus (length (st_symbols st)) 1"

definition push_namespace :: "ident \<Rightarrow> symtab \<Rightarrow> symtab" where
  "push_namespace i st = st\<lparr>st_namespace := path_push_ident (st_namespace st) i\<rparr>"

definition pop_namespace :: "symtab \<Rightarrow> symtab option" where
  "pop_namespace st = map_option (\<lambda>p. st\<lparr>st_namespace := p\<rparr>) (path_pop (st_namespace st))"

definition current_namespace :: "symtab \<Rightarrow> path" where
  "current_namespace st = st_namespace st"

definition set_base_namespace :: "path \<Rightarrow> symtab \<Rightarrow> symtab" where
  "set_base_namespace p st = st\<lparr>st_base_namespace := p\<rparr>"

subsection \<open>Adding things and types\<close>

definition insert_symbol :: "nat \<Rightarrow> path \<Rightarrow> name_id \<Rightarrow> symtab \<Rightarrow> symtab option" where
  "insert_symbol index full_name n st =
     (if index < length (st_symbols st)
      then Some (st\<lparr>st_symbols := (st_symbols st)[index := (st_symbols st ! index)(full_name \<mapsto> n)]\<rparr>)
      else None)"

definition scope_index :: "nat \<Rightarrow> symtab \<Rightarrow> nat option" where
  "scope_index offset st = Option.bind (nat_minus (length (st_symbols st)) 1) (\<lambda>n. nat_minus n offset)"

definition add_thing_with_id_at_offset :: "nat \<Rightarrow> nat \<Rightarrow> path \<Rightarrow> thing \<Rightarrow> symtab \<Rightarrow> (name_id \<times> symtab) option" where
  "add_thing_with_id_at_offset offset i name item st =
     (let full_name = path_join (st_namespace st) name; name_id = NameID i full_name
      in if st_things st i \<noteq> None then None
         else if offset > length (st_symbols st) then None
         else Option.bind (scope_index offset st) (\<lambda>index.
           map_option (Pair name_id)
             (insert_symbol index full_name name_id (st\<lparr>st_things := (st_things st)(i \<mapsto> item)\<rparr>))))"

definition add_thing_with_name_id :: "name_id \<Rightarrow> thing \<Rightarrow> symtab \<Rightarrow> symtab" where
  "add_thing_with_name_id n item st = st\<lparr>st_things := (st_things st)(nid_num n \<mapsto> item)\<rparr>"

definition add_thing_with_id :: "nat \<Rightarrow> path \<Rightarrow> thing \<Rightarrow> symtab \<Rightarrow> (name_id \<times> symtab) option" where
  "add_thing_with_id i name item st = add_thing_with_id_at_offset 0 i name item st"

text \<open>The next id of the tracker.\<close>

definition draw_id :: "symtab \<Rightarrow> nat \<times> symtab" where
  "draw_id st = (case tracker_next (st_id_tracker st) of (i, t) \<Rightarrow> (i, st\<lparr>st_id_tracker := t\<rparr>))"

definition add_thing :: "path \<Rightarrow> thing \<Rightarrow> symtab \<Rightarrow> (name_id \<times> symtab) option" where
  "add_thing name item st = (case draw_id st of (i, st) \<Rightarrow> add_thing_with_id i name item st)"

definition add_thing_at_offset :: "nat \<Rightarrow> path \<Rightarrow> thing \<Rightarrow> symtab \<Rightarrow> (name_id \<times> symtab) option" where
  "add_thing_at_offset offset name item st =
     (case draw_id st of (i, st) \<Rightarrow> add_thing_with_id_at_offset offset i name item st)"

definition last_symbols :: "path \<Rightarrow> name_id \<Rightarrow> symtab \<Rightarrow> symtab option" where
  "last_symbols full_name n st =
     Option.bind (current_scope st) (\<lambda>index. insert_symbol index full_name n st)"

definition re_add_type :: "ident \<Rightarrow> name_id \<Rightarrow> symtab \<Rightarrow> symtab option" where
  "re_add_type name n st =
     (if st_types st (nid_num n) = None then None
      else last_symbols (path_join (st_namespace st) [name]) n st)"

definition add_type_with_id :: "nat \<Rightarrow> path \<Rightarrow> type_symbol \<Rightarrow> symtab \<Rightarrow> (name_id \<times> symtab) option" where
  "add_type_with_id i name t st =
     (let full_name = path_join (st_namespace st) name; name_id = NameID i full_name
      in if st_types st i \<noteq> None then None
         else map_option (Pair name_id) (last_symbols full_name name_id (st\<lparr>st_types := (st_types st)(i \<mapsto> t)\<rparr>)))"

definition add_type :: "path \<Rightarrow> type_symbol \<Rightarrow> symtab \<Rightarrow> (name_id \<times> symtab) option" where
  "add_type name t st = (case draw_id st of (i, st) \<Rightarrow> add_type_with_id i name t st)"

text \<open>Trait bounds of type parameters; the bug report of other types.\<close>

definition add_traits_to_generic :: "name_id \<Rightarrow> trait_spec list \<Rightarrow> symtab \<Rightarrow> (diagnostic + symtab) option" where
  "add_traits_to_generic n traits st =
     (case st_types st (nid_num n) of
        None \<Rightarrow> None
      | Some (TY_GenericArg existing) \<Rightarrow>
          Some (Inr (st\<lparr>st_types := (st_types st)(nid_num n \<mapsto> TY_GenericArg (existing @ traits))\<rparr>))
      | Some _ \<Rightarrow>
          Some (Inl (plain_diagnostic ''Attempted to add trait bounds to a non-generic type'' '''')))"

text \<open>An item may not have the name of another one in the outermost scope.\<close>

definition ensure_is_unique :: "path \<Rightarrow> symtab \<Rightarrow> (diagnostic + unit) option" where
  "ensure_is_unique name st =
     (let multiple = Inl (plain_diagnostic ''Multiple items with the same name''
            (show_path name @ '' is defined multiple times''))
      in if st_symbols st = [] then None
         else case hd (st_symbols st) (path_join (current_namespace st) name) of
           None \<Rightarrow> Some (Inr ())
         | Some i \<Rightarrow>
             (case st_things st (nid_num i) of
                Some t \<Rightarrow> map_option (\<lambda>_. multiple) (name_loc t)
              | None \<Rightarrow> Some (if st_types st (nid_num i) = None then Inr () else multiple)))"

definition when_unique ::
  "path \<Rightarrow> (symtab \<Rightarrow> (name_id \<times> symtab) option) \<Rightarrow> symtab \<Rightarrow> (diagnostic + name_id \<times> symtab) option" where
  "when_unique name add st =
     Option.bind (ensure_is_unique name st) (\<lambda>r.
       case r of Inl e \<Rightarrow> Some (Inl e) | Inr _ \<Rightarrow> map_option Inr (add st))"

definition add_unique_thing :: "path \<Rightarrow> thing \<Rightarrow> symtab \<Rightarrow> (diagnostic + name_id \<times> symtab) option" where
  "add_unique_thing name item st = when_unique name (add_thing name item) st"

definition add_unique_type :: "path \<Rightarrow> type_symbol \<Rightarrow> symtab \<Rightarrow> (diagnostic + name_id \<times> symtab) option" where
  "add_unique_type name t st = when_unique name (add_type name t) st"

text \<open>A path that starts with \<open>lib\<close> is relative to the base namespace.\<close>

definition add_alias_to :: "path \<Rightarrow> path \<Rightarrow> symtab \<Rightarrow> (diagnostic + name_id \<times> symtab) option" where
  "add_alias_to name target st =
     when_unique name
       (add_thing name (TH_Alias
          (case path_lib_relative target of
             Some lib_relative \<Rightarrow> path_join (st_base_namespace st) lib_relative
           | None \<Rightarrow> target)
          (current_namespace st))) st"

definition add_local_variable :: "ident \<Rightarrow> symtab \<Rightarrow> (name_id \<times> symtab) option" where
  "add_local_variable name st = add_thing [name] (TH_Variable name) st"

definition add_local_variable_at_offset :: "nat \<Rightarrow> ident \<Rightarrow> symtab \<Rightarrow> (name_id \<times> symtab) option" where
  "add_local_variable_at_offset offset name st = add_thing_at_offset offset [name] (TH_Variable name) st"

section \<open>Lookup\<close>

text \<open>The outermost scope, and the innermost scope that has a path.\<close>

definition root_lookup :: "symtab \<Rightarrow> path \<Rightarrow> name_id option option" where
  "root_lookup st p = (case st_symbols st of [] \<Rightarrow> None | root # _ \<Rightarrow> Some (root p))"

definition local_lookup :: "symtab \<Rightarrow> path \<Rightarrow> name_id option" where
  "local_lookup st p = find_map (\<lambda>tab. tab p) (rev (st_symbols st))"

definition alias_target :: "symtab \<Rightarrow> name_id option \<Rightarrow> (path \<times> path) option" where
  "alias_target st found =
     (case Option.bind found (\<lambda>n. st_things st (nid_num n)) of
        Some (TH_Alias alias_path in_namespace) \<Rightarrow> Some (alias_path, in_namespace)
      | _ \<Rightarrow> None)"

primrec try_lookup_id :: "nat \<Rightarrow> symtab \<Rightarrow> path \<Rightarrow> name_id option option" where
  "try_lookup_id 0 st name = None"
| "try_lookup_id (Suc n) st name =
     (case path_lib_relative name of
        Some lib_relative \<Rightarrow> root_lookup st (path_join (st_base_namespace st) lib_relative)
      | None \<Rightarrow>
          (case local_lookup st (path_join (st_namespace st) name) of
             Some i \<Rightarrow> Some (Some i)
           | None \<Rightarrow>
               if length name > 1
               then Option.bind (try_lookup_id n st [hd name]) (\<lambda>base.
                 case alias_target st base of
                   None \<Rightarrow> root_lookup st name
                 | Some (alias_path, in_namespace) \<Rightarrow>
                     let full_path = path_join alias_path (tl name);
                         path_in_namespace = path_join in_namespace full_path
                     in if path_in_namespace = name
                        then if full_path = name then Some None else try_lookup_id n st full_path
                        else if full_path = name then try_lookup_id n st path_in_namespace
                        else Option.bind (try_lookup_id n st path_in_namespace) (\<lambda>found.
                          case found of
                            Some i \<Rightarrow> Some (Some i)
                          | None \<Rightarrow> try_lookup_id n st full_path))
               else root_lookup st name))"

definition lookup_id :: "nat \<Rightarrow> symtab \<Rightarrow> path \<Rightarrow> (lookup_error + name_id) option" where
  "lookup_id n st name =
     map_option (\<lambda>found. case found of None \<Rightarrow> Inl (LK_NoSuchSymbol name) | Some i \<Rightarrow> Inr i) (try_lookup_id n st name)"

definition has_symbol :: "nat \<Rightarrow> symtab \<Rightarrow> path \<Rightarrow> bool option" where
  "has_symbol n st name = map_option (\<lambda>r. case r of Inr _ \<Rightarrow> True | Inl _ \<Rightarrow> False) (lookup_id n st name)"

text \<open>What is known of an id that is not a thing.\<close>

definition no_thing :: "symtab \<Rightarrow> path \<Rightarrow> name_id \<Rightarrow> lookup_error" where
  "no_thing st name i = (if st_types st (nid_num i) = None then LK_NotAThing name else LK_IsAType name)"

definition lookup_variable :: "nat \<Rightarrow> symtab \<Rightarrow> path \<Rightarrow> (lookup_error + name_id) option" where
  "lookup_variable n st name =
     map_option (\<lambda>r. res_bind r (\<lambda>i.
       case st_things st (nid_num i) of
         Some (TH_Variable _) \<Rightarrow> Inr i
       | Some other \<Rightarrow> Inl (LK_NotAVariable name other)
       | None \<Rightarrow> Inl (no_thing st name i))) (lookup_id n st name)"

definition try_lookup_variable :: "nat \<Rightarrow> symtab \<Rightarrow> path \<Rightarrow> (lookup_error + name_id option) option" where
  "try_lookup_variable n st name =
     map_option (\<lambda>found.
       case found of
         None \<Rightarrow> Inr None
       | Some i \<Rightarrow>
           (case st_things st (nid_num i) of
              Some (TH_Variable _) \<Rightarrow> Inr (Some i)
            | Some other \<Rightarrow> Inl (LK_NotAVariable name other)
            | None \<Rightarrow> if st_types st (nid_num i) = None then Inr None else Inl (LK_IsAType name)))
       (try_lookup_id n st name)"

primrec try_lookup_final_id :: "nat \<Rightarrow> symtab \<Rightarrow> path \<Rightarrow> name_id option option" where
  "try_lookup_final_id 0 st name = None"
| "try_lookup_final_id (Suc n) st name =
     Option.bind (try_lookup_id n st name) (\<lambda>found.
       case alias_target st found of
         None \<Rightarrow> Some found
       | Some (alias_path, in_namespace) \<Rightarrow>
           Option.bind (try_lookup_final_id n st alias_path) (\<lambda>final.
             case final of
               Some i \<Rightarrow> Some (Some i)
             | None \<Rightarrow> try_lookup_final_id n st (path_join in_namespace alias_path)))"

subsection \<open>Things of one kind\<close>

text \<open>
  The accessors come in pairs: by id, which panics when the thing is not of the kind, and by path, which
  follows aliases. Both are given how a thing is converted to the kind.
\<close>

definition thing_by_id :: "(thing \<Rightarrow> 'a option) \<Rightarrow> symtab \<Rightarrow> name_id \<Rightarrow> 'a option" where
  "thing_by_id conversion st i = Option.bind (st_things st (nid_num i)) conversion"

fun lookup_thing ::
  "(thing \<Rightarrow> 'a option) \<Rightarrow> (path \<Rightarrow> thing \<Rightarrow> lookup_error) \<Rightarrow> nat \<Rightarrow> symtab \<Rightarrow> path \<Rightarrow>
     (lookup_error + name_id \<times> 'a) option" where
  "lookup_thing conversion err 0 st name = None"
| "lookup_thing conversion err (Suc n) st name =
     Option.bind (lookup_id n st name) (\<lambda>r. case r of
       Inl e \<Rightarrow> Some (Inl e)
     | Inr i \<Rightarrow>
         (case st_things st (nid_num i) of
            None \<Rightarrow> Some (Inl (no_thing st name i))
          | Some t \<Rightarrow>
              (case conversion t of
                 Some x \<Rightarrow> Some (Inr (i, x))
               | None \<Rightarrow>
                   (case t of
                      TH_Alias alias_path in_namespace \<Rightarrow>
                        Option.bind (lookup_thing conversion err n st alias_path) (\<lambda>r. case r of
                          Inr x \<Rightarrow> Some (Inr x)
                        | Inl _ \<Rightarrow>
                            map_option (map_sum (with_path name) id)
                              (lookup_thing conversion err n st (path_join in_namespace alias_path)))
                    | _ \<Rightarrow> Some (Inl (err name t))))))"

definition as_unit :: "thing \<Rightarrow> unit_head option" where
  "as_unit t =
     (case t of
        TH_Unit h \<Rightarrow> Some h
      | TH_EnumVariant v \<Rightarrow> Some (variant_unit_head v)
      | TH_Struct s \<Rightarrow> Some (struct_unit_head s)
      | _ \<Rightarrow> None)"

definition as_enum_variant :: "thing \<Rightarrow> enum_variant option" where
  "as_enum_variant t = (case t of TH_EnumVariant v \<Rightarrow> Some v | _ \<Rightarrow> None)"

definition as_patternable :: "thing \<Rightarrow> patternable option" where
  "as_patternable t =
     (case t of
        TH_EnumVariant v \<Rightarrow> Some \<lparr>pt_kind = PK_Enum, pt_params = ev_params v\<rparr>
      | TH_Struct s \<Rightarrow> Some \<lparr>pt_kind = PK_Struct, pt_params = sc_params s\<rparr>
      | _ \<Rightarrow> None)"

definition as_struct :: "thing \<Rightarrow> struct_callable option" where
  "as_struct t = (case t of TH_Struct s \<Rightarrow> Some s | _ \<Rightarrow> None)"

definition as_comptime_config :: "thing \<Rightarrow> int option" where
  "as_comptime_config t = (case t of TH_ComptimeConfig val \<Rightarrow> Some val | _ \<Rightarrow> None)"

definition as_trait :: "thing \<Rightarrow> ident option" where
  "as_trait t = (case t of TH_Trait i \<Rightarrow> Some i | _ \<Rightarrow> None)"

definition unit_by_id :: "symtab \<Rightarrow> name_id \<Rightarrow> unit_head option" where
  "unit_by_id = thing_by_id as_unit"

definition enum_variant_by_id :: "symtab \<Rightarrow> name_id \<Rightarrow> enum_variant option" where
  "enum_variant_by_id = thing_by_id as_enum_variant"

definition patternable_by_id :: "symtab \<Rightarrow> name_id \<Rightarrow> patternable option" where
  "patternable_by_id = thing_by_id as_patternable"

definition struct_by_id :: "symtab \<Rightarrow> name_id \<Rightarrow> struct_callable option" where
  "struct_by_id = thing_by_id as_struct"

definition comptime_config_by_id :: "symtab \<Rightarrow> name_id \<Rightarrow> int option" where
  "comptime_config_by_id = thing_by_id as_comptime_config"

definition trait_by_id :: "symtab \<Rightarrow> name_id \<Rightarrow> ident option" where
  "trait_by_id = thing_by_id as_trait"

definition lookup_unit :: "nat \<Rightarrow> symtab \<Rightarrow> path \<Rightarrow> (lookup_error + name_id \<times> unit_head) option" where
  "lookup_unit = lookup_thing as_unit LK_NotAUnit"

definition lookup_enum_variant :: "nat \<Rightarrow> symtab \<Rightarrow> path \<Rightarrow> (lookup_error + name_id \<times> enum_variant) option" where
  "lookup_enum_variant = lookup_thing as_enum_variant LK_NotAnEnumVariant"

definition lookup_patternable_type :: "nat \<Rightarrow> symtab \<Rightarrow> path \<Rightarrow> (lookup_error + name_id \<times> patternable) option" where
  "lookup_patternable_type = lookup_thing as_patternable LK_NotAPatternableType"

definition lookup_struct :: "nat \<Rightarrow> symtab \<Rightarrow> path \<Rightarrow> (lookup_error + name_id \<times> struct_callable) option" where
  "lookup_struct = lookup_thing as_struct LK_NotAStruct"

definition lookup_comptime_config :: "nat \<Rightarrow> symtab \<Rightarrow> path \<Rightarrow> (lookup_error + name_id \<times> int) option" where
  "lookup_comptime_config = lookup_thing as_comptime_config LK_NotAComptimeValue"

definition lookup_trait :: "nat \<Rightarrow> symtab \<Rightarrow> path \<Rightarrow> (lookup_error + name_id \<times> ident) option" where
  "lookup_trait = lookup_thing as_trait LK_NotATrait"

definition type_symbol_by_id :: "symtab \<Rightarrow> name_id \<Rightarrow> type_symbol option" where
  "type_symbol_by_id st i = st_types st (nid_num i)"

text \<open>A symbol that is neither a type nor a thing panics here, like a lookup that does not return.\<close>

primrec lookup_type_symbol :: "nat \<Rightarrow> symtab \<Rightarrow> path \<Rightarrow> (lookup_error + name_id \<times> type_symbol) option" where
  "lookup_type_symbol 0 st name = None"
| "lookup_type_symbol (Suc n) st name =
     Option.bind (lookup_id n st name) (\<lambda>r. case r of
       Inl e \<Rightarrow> Some (Inl e)
     | Inr i \<Rightarrow>
         (case st_types st (nid_num i) of
            Some tsym \<Rightarrow> Some (Inr (i, tsym))
          | None \<Rightarrow>
              (case st_things st (nid_num i) of
                 Some (TH_Alias alias_path in_namespace) \<Rightarrow>
                   Option.bind (lookup_type_symbol n st alias_path) (\<lambda>r. case r of
                     Inr x \<Rightarrow> Some (Inr x)
                   | Inl _ \<Rightarrow> lookup_type_symbol n st (path_join in_namespace alias_path))
               | Some t \<Rightarrow> Some (Inl (LK_NotATypeSymbol name t))
               | None \<Rightarrow> None)))"

section \<open>Declarations\<close>

definition declare_in :: "nat \<Rightarrow> ident \<Rightarrow> declaration_state \<Rightarrow> symtab \<Rightarrow> symtab option" where
  "declare_in index i state st =
     (if index < length (st_declarations st)
      then Some (st\<lparr>st_declarations := (st_declarations st)[index := AList.update i state (st_declarations st ! index)]\<rparr>)
      else None)"

definition last_declarations :: "symtab \<Rightarrow> (ident \<times> declaration_state) list option" where
  "last_declarations st = (if st_declarations st = [] then None else Some (last (st_declarations st)))"

definition is_variable :: "thing option \<Rightarrow> bool" where
  "is_variable t = (case t of Some (TH_Variable _) \<Rightarrow> True | _ \<Rightarrow> False)"

text \<open>The path of one identifier is found without following aliases: one call is enough.\<close>

definition add_declaration :: "ident \<Rightarrow> symtab \<Rightarrow> (diagnostic + name_id \<times> symtab) option" where
  "add_declaration i st =
     (let declared_more_than_once =
            Inl (plain_diagnostic ''Variable declared more than once'' ''This variable has been declared more than once'')
      in Option.bind (try_lookup_id 1 st [i]) (\<lambda>found.
         if is_variable (Option.bind found (\<lambda>n. st_things st (nid_num n))) then Some declared_more_than_once
         else Option.bind (last_declarations st) (\<lambda>ds.
           if map_of ds i \<noteq> None then Some declared_more_than_once
           else Option.bind (add_local_variable i st) (\<lambda>(n, st).
             map_option (\<lambda>st. Inr (n, st)) (declare_in (length (st_declarations st) - 1) i (DS_Undefined n) st)))))"

text \<open>The id of an undeclared variable carries its path without the namespace.\<close>

definition add_undecleared_at_offset :: "nat \<Rightarrow> ident \<Rightarrow> symtab \<Rightarrow> (name_id \<times> symtab) option" where
  "add_undecleared_at_offset offset name st =
     (case draw_id st of
        (i, st) \<Rightarrow>
          let name_id = NameID i [name]; full_name = path_join (st_namespace st) [name]
          in Option.bind (scope_index offset st) (\<lambda>index.
             if index > length (st_symbols st) then None
             else Option.bind (insert_symbol index full_name name_id st) (\<lambda>st.
               map_option (Pair name_id) (declare_in index name (DS_Undecleared name_id) st))))"

definition get_declaration :: "ident \<Rightarrow> symtab \<Rightarrow> declaration_state option option" where
  "get_declaration i st = map_option (\<lambda>ds. map_of ds i) (last_declarations st)"

definition mark_declaration_defined :: "ident \<Rightarrow> loc \<Rightarrow> symtab \<Rightarrow> symtab option" where
  "mark_declaration_defined i definition_point st =
     Option.bind (last_declarations st) (\<lambda>ds.
       if map_of ds i = None then None
       else declare_in (length (st_declarations st) - 1) i (DS_Defined definition_point) st)"

definition is_undefined :: "declaration_state \<Rightarrow> bool" where
  "is_undefined state = (case state of DS_Undefined _ \<Rightarrow> True | DS_Undecleared _ \<Rightarrow> True | DS_Defined _ \<Rightarrow> False)"

definition get_undefined_declarations :: "symtab \<Rightarrow> (ident \<times> declaration_state) list option" where
  "get_undefined_declarations st = map_option (filter (\<lambda>(_, state). is_undefined state)) (last_declarations st)"

section \<open>Frozen tables\<close>

text \<open>A frozen table takes no symbols; new names are drawn from a copy of its tracker.\<close>

record frozen_symtab =
  fz_inner :: symtab
  fz_id_tracker :: id_tracker

definition freeze :: "symtab \<Rightarrow> frozen_symtab" where
  "freeze st = \<lparr>fz_inner = st, fz_id_tracker = st_id_tracker st\<rparr>"

definition frozen_new_name :: "path \<Rightarrow> frozen_symtab \<Rightarrow> name_id \<times> frozen_symtab" where
  "frozen_new_name description f =
     (case tracker_next (fz_id_tracker f) of (i, t) \<Rightarrow> (NameID i description, f\<lparr>fz_id_tracker := t\<rparr>))"

definition unfreeze :: "frozen_symtab \<Rightarrow> symtab" where
  "unfreeze f = (fz_inner f)\<lparr>st_id_tracker := fz_id_tracker f\<rparr>"

end
