(* ===== verification/Symbol_Sound.thy ===== *)
theory Symbol_Sound
  imports Symbol_Table
begin

text \<open>
  The symbol table is a stack of scopes: the ids it gives are fresh, a scope leaves no trace in what can
  be looked up after it is closed, and the names of variables follow static scoping. Lookups return when
  the aliases are not cyclic.
\<close>

section \<open>Programs of operations\<close>

text \<open>
  The operations with which a walk over a program changes the table, with what it does inside a scope
  and inside a namespace. An operation that reports an error ends the walk.
\<close>

datatype scope_op =
    SO_Thing path thing
  | SO_ThingAt nat path thing
  | SO_Type path type_symbol
  | SO_ReType ident name_id
  | SO_UniqueThing path thing
  | SO_UniqueType path type_symbol
  | SO_Alias path path
  | SO_Variable ident
  | SO_VariableAt nat ident
  | SO_Declare ident
  | SO_Undecleared nat ident
  | SO_Define ident loc
  | SO_Traits name_id "trait_spec list"
  | SO_Scope "scope_op list"
  | SO_Namespace ident "scope_op list"

definition keep :: "('a \<times> symtab) option \<Rightarrow> (diagnostic + symtab) option" where
  "keep r = map_option (Inr \<circ> snd) r"

definition keep_res :: "(diagnostic + 'a \<times> symtab) option \<Rightarrow> (diagnostic + symtab) option" where
  "keep_res r = map_option (map_sum id snd) r"

definition and_then :: "(diagnostic + symtab) option \<Rightarrow> (symtab \<Rightarrow> (diagnostic + symtab) option) \<Rightarrow> (diagnostic + symtab) option" where
  "and_then r f = Option.bind r (\<lambda>r. case r of Inl e \<Rightarrow> Some (Inl e) | Inr st \<Rightarrow> f st)"

fun run_scope_op :: "scope_op \<Rightarrow> symtab \<Rightarrow> (diagnostic + symtab) option"
  and run_scope_ops :: "scope_op list \<Rightarrow> symtab \<Rightarrow> (diagnostic + symtab) option" where
  "run_scope_op (SO_Thing p t) st = keep (add_thing p t st)"
| "run_scope_op (SO_ThingAt k p t) st = keep (add_thing_at_offset k p t st)"
| "run_scope_op (SO_Type p t) st = keep (add_type p t st)"
| "run_scope_op (SO_ReType i n) st = map_option Inr (re_add_type i n st)"
| "run_scope_op (SO_UniqueThing p t) st = keep_res (add_unique_thing p t st)"
| "run_scope_op (SO_UniqueType p t) st = keep_res (add_unique_type p t st)"
| "run_scope_op (SO_Alias p t) st = keep_res (add_alias_to p t st)"
| "run_scope_op (SO_Variable i) st = keep (add_local_variable i st)"
| "run_scope_op (SO_VariableAt k i) st = keep (add_local_variable_at_offset k i st)"
| "run_scope_op (SO_Declare i) st = keep_res (add_declaration i st)"
| "run_scope_op (SO_Undecleared k i) st = keep (add_undecleared_at_offset k i st)"
| "run_scope_op (SO_Define i l) st = map_option Inr (mark_declaration_defined i l st)"
| "run_scope_op (SO_Traits n ts) st = add_traits_to_generic n ts st"
| "run_scope_op (SO_Scope ops) st = and_then (run_scope_ops ops (new_scope st)) (\<lambda>st. Some (Inr (close_scope st)))"
| "run_scope_op (SO_Namespace i ops) st =
     and_then (run_scope_ops ops (push_namespace i st)) (\<lambda>st. map_option Inr (pop_namespace st))"
| "run_scope_ops [] st = Some (Inr st)"
| "run_scope_ops (a # ops) st = and_then (run_scope_op a st) (run_scope_ops ops)"

lemma and_then_Inr: "and_then r f = Some (Inr y) \<longleftrightarrow> (\<exists>st. r = Some (Inr st) \<and> f st = Some (Inr y))"
  by (cases r) (auto simp: and_then_def split: sum.split)

lemma keep_Inr: "keep r = Some (Inr st) \<longleftrightarrow> (\<exists>x. r = Some (x, st))"
  by (auto simp: keep_def)

lemma keep_res_Inr: "keep_res r = Some (Inr st) \<longleftrightarrow> (\<exists>x. r = Some (Inr (x, st)))"
proof
  assume "keep_res r = Some (Inr st)"
  then obtain x where "r = Some x" "map_sum id snd x = Inr st" by (auto simp: keep_res_def)
  then show "\<exists>x. r = Some (Inr (x, st))" by (cases x) auto
qed (auto simp: keep_res_def)

text \<open>How many scopes outwards an operation reaches.\<close>

fun confined :: "nat \<Rightarrow> scope_op \<Rightarrow> bool" where
  "confined d (SO_ThingAt k _ _) = (k \<le> d)"
| "confined d (SO_VariableAt k _) = (k \<le> d)"
| "confined d (SO_Undecleared k _) = (k \<le> d)"
| "confined d (SO_Scope ops) = list_all (confined (Suc d)) ops"
| "confined d (SO_Namespace _ ops) = list_all (confined d) ops"
| "confined d _ = True"

section \<open>What an operation keeps\<close>

abbreviation next_free :: "symtab \<Rightarrow> nat" where
  "next_free st \<equiv> tracker_peek (st_id_tracker st)"

definition preserves :: "nat \<Rightarrow> symtab \<Rightarrow> symtab \<Rightarrow> bool" where
  "preserves k st st' \<longleftrightarrow>
     length (st_symbols st') = length (st_symbols st) \<and> take k (st_symbols st') = take k (st_symbols st) \<and>
     length (st_declarations st') = length (st_declarations st) \<and>
     take k (st_declarations st') = take k (st_declarations st) \<and>
     next_free st \<le> next_free st' \<and>
     (\<forall>i. i < next_free st \<longrightarrow>
        st_things st' i = st_things st i \<and> (st_types st' i = None \<longleftrightarrow> st_types st i = None)) \<and>
     st_namespace st' = st_namespace st \<and> st_base_namespace st' = st_base_namespace st"

text \<open>The ids in use are those drawn; there is a scope.\<close>

definition symtab_wf :: "symtab \<Rightarrow> bool" where
  "symtab_wf st \<longleftrightarrow>
     st_symbols st \<noteq> [] \<and> length (st_declarations st) = length (st_symbols st) \<and>
     (\<forall>i. next_free st \<le> i \<longrightarrow> st_things st i = None \<and> st_types st i = None) \<and>
     (\<forall>tab\<in>set (st_symbols st). \<forall>n\<in>ran tab. nid_num n < next_free st)"

lemma preserves_refl: "preserves k st st"
  by (simp add: preserves_def)

lemma preserves_trans: "preserves k st st' \<Longrightarrow> preserves k st' st'' \<Longrightarrow> preserves k st st''"
  by (auto simp: preserves_def)

lemma draw_id_facts:
  "draw_id st = (i, st') \<Longrightarrow> i = next_free st \<and> st' = st\<lparr>st_id_tracker := \<lparr>next_id = Suc i\<rparr>\<rparr>"
  by (auto simp: draw_id_def tracker_next_def tracker_peek_def)

lemma draw_id_peek: "draw_id st = (next_free st, st\<lparr>st_id_tracker := \<lparr>next_id = Suc (next_free st)\<rparr>\<rparr>)"
  by (auto simp: draw_id_def tracker_next_def tracker_peek_def)

lemma insert_symbol_facts:
  "insert_symbol index p n st = Some st' \<longleftrightarrow>
     index < length (st_symbols st) \<and>
     st' = st\<lparr>st_symbols := (st_symbols st)[index := (st_symbols st ! index)(p \<mapsto> n)]\<rparr>"
  by (auto simp: insert_symbol_def)

lemma ran_update_subset: "ran (tab(p \<mapsto> n)) \<subseteq> insert n (ran tab)"
  by (auto simp: ran_def split: if_splits)


text \<open>The state after a thing or type was added.\<close>

lemma add_thing_at_offset_state:
  assumes "add_thing_at_offset offset name item st = Some (n, st')"
  shows "offset < length (st_symbols st) \<and> n = NameID (next_free st) (st_namespace st @ name) \<and>
    st' = st\<lparr>st_id_tracker := \<lparr>next_id = Suc (next_free st)\<rparr>, st_things := (st_things st)(next_free st \<mapsto> item),
      st_symbols := (st_symbols st)[length (st_symbols st) - 1 - offset :=
        (st_symbols st ! (length (st_symbols st) - 1 - offset))(st_namespace st @ name \<mapsto> n)]\<rparr>"
  using assms
  by (auto simp: add_thing_at_offset_def draw_id_peek add_thing_with_id_at_offset_def scope_index_def nat_minus_def
      insert_symbol_def path_join_append Let_def bind_eq_Some_conv split: if_splits)

lemma add_thing_offset: "add_thing name item = add_thing_at_offset 0 name item"
  by (auto simp: fun_eq_iff add_thing_def add_thing_at_offset_def add_thing_with_id_def)

lemma add_type_state:
  assumes "add_type name t st = Some (n, st')"
  shows "st_symbols st \<noteq> [] \<and> n = NameID (next_free st) (st_namespace st @ name) \<and>
    st' = st\<lparr>st_id_tracker := \<lparr>next_id = Suc (next_free st)\<rparr>, st_types := (st_types st)(next_free st \<mapsto> t),
      st_symbols := (st_symbols st)[length (st_symbols st) - 1 :=
        (st_symbols st ! (length (st_symbols st) - 1))(st_namespace st @ name \<mapsto> n)]\<rparr>"
  using assms
  by (auto simp: add_type_def draw_id_peek add_type_with_id_def last_symbols_def current_scope_def nat_minus_def
      insert_symbol_def path_join_append Let_def bind_eq_Some_conv split: if_splits)

lemma set_update_symbols:
  "index < length tabs \<Longrightarrow> tab \<in> set (tabs[index := (tabs ! index)(p \<mapsto> n)]) \<Longrightarrow> m \<in> ran tab \<Longrightarrow>
     m = n \<or> (\<exists>tab\<in>set tabs. m \<in> ran tab)"
  using set_update_subset_insert [of tabs index "(tabs ! index)(p \<mapsto> n)"] ran_update_subset [of "tabs ! index" p n]
  by fastforce

definition step_ok :: "nat \<Rightarrow> symtab \<Rightarrow> symtab \<Rightarrow> bool" where
  "step_ok k st st' \<longleftrightarrow> preserves k st st' \<and> symtab_wf st'"

lemma step_ok_refl: "symtab_wf st \<Longrightarrow> step_ok k st st"
  by (simp add: step_ok_def preserves_refl)

lemma step_ok_trans: "step_ok k st st' \<Longrightarrow> step_ok k st' st'' \<Longrightarrow> step_ok k st st''"
  by (auto simp: step_ok_def intro: preserves_trans)

lemma added_thing_ok:
  assumes "add_thing_at_offset offset name item st = Some (n, st')" and wf: "symtab_wf st"
    and k: "k + offset < length (st_symbols st)"
  shows "step_ok k st st'"
proof -
  let ?n = "length (st_symbols st) - 1 - offset"
  note st = add_thing_at_offset_state [OF assms(1)]
  have "?n < length (st_symbols st)" "k \<le> ?n" using k by auto
  moreover have "nid_num m < Suc (next_free st)" if "tab \<in> set (st_symbols st')" "m \<in> ran tab" for tab m
    using set_update_symbols [OF \<open>?n < _\<close>, of tab "st_namespace st @ name" n m] that st wf by (fastforce simp: symtab_wf_def)
  ultimately show ?thesis using st wf
    by (auto simp: step_ok_def preserves_def symtab_wf_def tracker_peek_def)
qed

lemma added_type_ok:
  assumes "add_type name t st = Some (n, st')" and wf: "symtab_wf st" and k: "k < length (st_symbols st)"
  shows "step_ok k st st'"
proof -
  let ?n = "length (st_symbols st) - 1"
  note st = add_type_state [OF assms(1)]
  have "?n < length (st_symbols st)" "k \<le> ?n" using k by auto
  moreover have "nid_num m < Suc (next_free st)" if "tab \<in> set (st_symbols st')" "m \<in> ran tab" for tab m
    using set_update_symbols [OF \<open>?n < _\<close>, of tab "st_namespace st @ name" n m] that st wf by (fastforce simp: symtab_wf_def)
  ultimately show ?thesis using st wf
    by (auto simp: step_ok_def preserves_def symtab_wf_def tracker_peek_def)
qed

lemma declare_in_ok:
  assumes "declare_in index i state st = Some st'" and "symtab_wf st" and "k \<le> index"
  shows "step_ok k st st'"
  using assms by (auto simp: declare_in_def step_ok_def preserves_def symtab_wf_def split: if_splits)

lemma when_unique_Inr: "when_unique name add st = Some (Inr r) \<Longrightarrow> add st = Some r"
  unfolding when_unique_def by (cases "ensure_is_unique name st") (auto split: sum.split_asm)

lemma re_add_type_ok:
  assumes "re_add_type i n st = Some st'" and wf: "symtab_wf st" and k: "k < length (st_symbols st)"
  shows "step_ok k st st'"
proof -
  let ?n = "length (st_symbols st) - 1"
  have n: "?n < length (st_symbols st)" "k \<le> ?n" using k by auto
  have known: "st_types st (nid_num n) \<noteq> None"
    and st: "st' = st\<lparr>st_symbols := (st_symbols st)[?n := (st_symbols st ! ?n)(st_namespace st @ [i] \<mapsto> n)]\<rparr>"
    using assms(1) by (auto simp: re_add_type_def last_symbols_def current_scope_def nat_minus_def insert_symbol_def
        path_join_append bind_eq_Some_conv split: if_splits)
  have "nid_num n < next_free st" using known wf by (metis symtab_wf_def not_le_imp_less)
  then have "nid_num m < next_free st" if "tab \<in> set (st_symbols st')" "m \<in> ran tab" for tab m
    using set_update_symbols [OF n(1), of tab "st_namespace st @ [i]" n m] that st wf by (fastforce simp: symtab_wf_def)
  then show ?thesis using st wf n by (auto simp: step_ok_def preserves_def symtab_wf_def)
qed

lemma undecleared_ok:
  assumes "add_undecleared_at_offset offset i st = Some (n, st')" and wf: "symtab_wf st"
    and k: "k + offset < length (st_symbols st)"
  shows "step_ok k st st'"
proof -
  let ?n = "length (st_symbols st) - 1 - offset"
  have n: "?n < length (st_symbols st)" "k \<le> ?n" using k by auto
  obtain st1 where num: "n = NameID (next_free st) [i]" and put: "declare_in ?n i (DS_Undecleared n) st1 = Some st'"
    and st1: "st1 = st\<lparr>st_id_tracker := \<lparr>next_id = Suc (next_free st)\<rparr>,
      st_symbols := (st_symbols st)[?n := (st_symbols st ! ?n)(st_namespace st @ [i] \<mapsto> n)]\<rparr>"
    using assms(1) by (auto simp: add_undecleared_at_offset_def draw_id_peek scope_index_def nat_minus_def insert_symbol_def
        path_join_append Let_def bind_eq_Some_conv split: if_splits)
  have "nid_num m < Suc (next_free st)" if "tab \<in> set (st_symbols st1)" "m \<in> ran tab" for tab m
    using set_update_symbols [OF n(1), of tab "st_namespace st @ [i]" n m] that st1 num wf by (fastforce simp: symtab_wf_def)
  then have "step_ok k st st1" using st1 wf n by (auto simp: step_ok_def preserves_def symtab_wf_def tracker_peek_def)
  moreover from this have "step_ok k st1 st'" by (intro declare_in_ok [OF put _ n(2)]) (simp add: step_ok_def)
  ultimately show ?thesis by (rule step_ok_trans)
qed

lemma add_declaration_state:
  assumes "add_declaration i st = Some (Inr (n, st'))"
  shows "\<exists>st1. add_local_variable i st = Some (n, st1) \<and>
    declare_in (length (st_declarations st1) - 1) i (DS_Undefined n) st1 = Some st'"
  using assms unfolding add_declaration_def Let_def bind_eq_Some_conv
  by (elim exE conjE) (auto simp: bind_eq_Some_conv simp del: try_lookup_id.simps One_nat_def split: if_split_asm)

lemma declaration_ok:
  assumes "add_declaration i st = Some (Inr (n, st'))" and wf: "symtab_wf st" and k: "k < length (st_symbols st)"
  shows "step_ok k st st'"
proof -
  obtain st1 where add: "add_local_variable i st = Some (n, st1)"
    and put: "declare_in (length (st_declarations st1) - 1) i (DS_Undefined n) st1 = Some st'"
    using add_declaration_state [OF assms(1)] by blast
  have one: "step_ok k st st1"
    using add wf k by (intro added_thing_ok) (auto simp: add_local_variable_def add_thing_offset)
  then have "step_ok k st1 st'"
    using k by (intro declare_in_ok [OF put]) (auto simp: step_ok_def preserves_def symtab_wf_def)
  then show ?thesis using one step_ok_trans by blast
qed


lemma scope_op_ok:
  "run_scope_op a st = Some (Inr st') \<Longrightarrow> symtab_wf st \<Longrightarrow> confined d a \<Longrightarrow> length (st_symbols st) = Suc (k + d) \<Longrightarrow>
     step_ok k st st'"
  "run_scope_ops ops st = Some (Inr st') \<Longrightarrow> symtab_wf st \<Longrightarrow> list_all (confined d) ops \<Longrightarrow>
     length (st_symbols st) = Suc (k + d) \<Longrightarrow> step_ok k st st'"
proof (induction a st and ops st arbitrary: d st' and d st' rule: run_scope_op_run_scope_ops.induct)
  case (12 i l st)
  then show ?case
    by (auto simp: mark_declaration_defined_def bind_eq_Some_conv symtab_wf_def split: if_splits intro!: declare_in_ok)
next
  case (13 n ts st)
  then show ?case
    by (auto simp: add_traits_to_generic_def step_ok_def preserves_def symtab_wf_def not_le split: option.splits type_symbol.splits if_splits)
next
  case (14 ops st)
  then obtain st1 where run: "run_scope_ops ops (new_scope st) = Some (Inr st1)" and st': "st' = close_scope st1"
    by (auto simp: and_then_Inr)
  have "symtab_wf (new_scope st)" using 14(3) by (auto simp: new_scope_def symtab_wf_def)
  then have ok: "step_ok k (new_scope st) st1" using 14 run by (intro 14(1) [of _ "Suc d"]) (auto simp: new_scope_def)
  then have "length (butlast (st_symbols st1)) = length (st_symbols st)" using 14(5)
    by (simp add: step_ok_def preserves_def new_scope_def)
  then have "butlast (st_symbols st1) \<noteq> []" using 14(5) by (metis list.size(3) nat.distinct(1))
  then have "step_ok k st st'" using ok 14(3,5)
    by (auto simp: step_ok_def preserves_def symtab_wf_def st' close_scope_def new_scope_def take_butlast dest: in_set_butlastD)
  then show ?case .
next
  case (15 i ops st)
  then obtain st1 where run: "run_scope_ops ops (push_namespace i st) = Some (Inr st1)" and st': "pop_namespace st1 = Some st'"
    by (auto simp: and_then_Inr)
  have "symtab_wf (push_namespace i st)" using 15(3) by (simp add: push_namespace_def symtab_wf_def)
  then have "step_ok k (push_namespace i st) st1" using 15 run by (intro 15(1) [of _ d]) (auto simp: push_namespace_def)
  then show ?case using st'
    by (auto simp: step_ok_def preserves_def symtab_wf_def pop_namespace_def push_namespace_def path_push_ident_def path_pop_def
        split: if_splits)
next
  case (17 a ops st)
  then obtain st1 where one: "run_scope_op a st = Some (Inr st1)" and rest: "run_scope_ops ops st1 = Some (Inr st')"
    by (auto simp: and_then_Inr)
  have "step_ok k st st1" using 17 one by auto
  moreover from this have "step_ok k st1 st'" using 17(2) [OF rest] 17 by (auto simp: step_ok_def preserves_def)
  ultimately show ?case by (rule step_ok_trans)
qed (auto simp: keep_Inr keep_res_Inr add_thing_offset add_local_variable_def add_local_variable_at_offset_def
    add_unique_thing_def add_unique_type_def add_alias_to_def step_ok_refl
    intro: added_thing_ok added_type_ok re_add_type_ok undecleared_ok declaration_ok dest!: when_unique_Inr)

section \<open>What a lookup depends on\<close>

definition same_view :: "symtab \<Rightarrow> symtab \<Rightarrow> bool" where
  "same_view st st' \<longleftrightarrow>
     st_symbols st' = st_symbols st \<and> st_namespace st' = st_namespace st \<and> st_base_namespace st' = st_base_namespace st \<and>
     (\<forall>tab\<in>set (st_symbols st). \<forall>n\<in>ran tab.
        st_things st' (nid_num n) = st_things st (nid_num n) \<and>
        (st_types st' (nid_num n) = None \<longleftrightarrow> st_types st (nid_num n) = None))"

lemma root_lookup_found: "root_lookup st p = Some (Some i) \<Longrightarrow> \<exists>tab\<in>set (st_symbols st). i \<in> ran tab"
  by (cases "st_symbols st") (auto simp: root_lookup_def intro: ranI)

lemma local_lookup_found: "local_lookup st p = Some i \<Longrightarrow> \<exists>tab\<in>set (st_symbols st). i \<in> ran tab"
  by (auto simp: local_lookup_def dest!: find_map_Some intro: ranI)

lemma lookup_found: "try_lookup_id n st p = Some (Some i) \<Longrightarrow> \<exists>tab\<in>set (st_symbols st). i \<in> ran tab"
proof (induction n arbitrary: p)
  case (Suc n)
  show ?case
  proof (cases "path_lib_relative p")
    case (Some q)
    then show ?thesis using Suc.prems by (simp add: root_lookup_found)
  next
    case global: None
    show ?thesis
    proof (cases "local_lookup st (path_join (st_namespace st) p)")
      case (Some j)
      then show ?thesis using Suc.prems global by (simp add: local_lookup_found)
    next
      case new: None
      show ?thesis
      proof (cases "try_lookup_id n st [hd p]")
        case None
        then show ?thesis using Suc.prems global new root_lookup_found by (simp split: if_split_asm)
      next
        case base: (Some base)
        show ?thesis
        proof (cases "alias_target st base")
          case None
          then show ?thesis using Suc.prems global new base root_lookup_found by (simp split: if_split_asm)
        next
          case target: (Some target)
          obtain alias_path ns where "target = (alias_path, ns)" by fastforce
          then have "root_lookup st p = Some (Some i) \<or> (\<exists>q. try_lookup_id n st q = Some (Some i))"
            using Suc.prems global new base target
            by (cases "try_lookup_id n st (path_join ns (path_join alias_path (tl p)))")
              (auto simp: Let_def split: if_split_asm option.split_asm)
          then show ?thesis using root_lookup_found Suc.IH by blast
        qed
      qed
    qed
  qed
qed simp

lemma alias_target_same:
  assumes "same_view st st'" and "\<And>i. found = Some i \<Longrightarrow> \<exists>tab\<in>set (st_symbols st). i \<in> ran tab"
  shows "alias_target st' found = alias_target st found"
proof (cases found)
  case (Some i)
  then have "st_things st' (nid_num i) = st_things st (nid_num i)" using assms unfolding same_view_def by blast
  then show ?thesis by (simp only: Some alias_target_def Option.bind.simps)
qed (simp add: alias_target_def)

lemma lookup_same_view: "same_view st st' \<Longrightarrow> try_lookup_id n st' p = try_lookup_id n st p"
proof (induction n arbitrary: p)
  case (Suc n)
  have same: "st_symbols st' = st_symbols st" "st_namespace st' = st_namespace st" "st_base_namespace st' = st_base_namespace st"
    using Suc.prems by (simp_all add: same_view_def)
  then have root: "root_lookup st' q = root_lookup st q" and local: "local_lookup st' q = local_lookup st q" for q
    by (simp_all add: root_lookup_def local_lookup_def)
  show ?case
  proof (cases "try_lookup_id n st [hd p]")
    case None
    show ?thesis unfolding try_lookup_id.simps same root local Suc.IH [OF Suc.prems] None Option.bind.simps ..
  next
    case (Some found)
    then have target: "alias_target st' found = alias_target st found"
      by (intro alias_target_same [OF Suc.prems]) (simp add: lookup_found)
    show ?thesis
      unfolding try_lookup_id.simps same root local Suc.IH [OF Suc.prems] Some Option.bind.simps target ..
  qed
qed simp

lemma lookup_id_same: "same_view st st' \<Longrightarrow> lookup_id n st' p = lookup_id n st p"
  by (simp add: lookup_id_def lookup_same_view)

lemma lookup_id_found: "lookup_id n st p = Some (Inr i) \<Longrightarrow> \<exists>tab\<in>set (st_symbols st). i \<in> ran tab"
  by (auto simp: lookup_id_def dest: lookup_found split: option.split_asm)

lemma same_thing:
  assumes "same_view st st'" and "\<exists>tab\<in>set (st_symbols st). i \<in> ran tab"
  shows "no_thing st' p i = no_thing st p i \<and> st_things st' (nid_num i) = st_things st (nid_num i)"
proof -
  have "st_things st' (nid_num i) = st_things st (nid_num i)" "(st_types st' (nid_num i) = None) = (st_types st (nid_num i) = None)"
    using assms unfolding same_view_def by blast+
  then show ?thesis by (simp only: no_thing_def simp_thms)
qed

lemma lookup_thing_same: "same_view st st' \<Longrightarrow> lookup_thing conversion err n st' p = lookup_thing conversion err n st p"
proof (induction n arbitrary: p)
  case (Suc n)
  have "no_thing st' p i = no_thing st p i \<and> st_things st' (nid_num i) = st_things st (nid_num i)"
    if "lookup_id n st p = Some (Inr i)" for i
    by (rule same_thing [OF Suc.prems lookup_id_found [OF that]])
  then show ?case
    by (cases "lookup_id n st p")
      (auto simp: lookup_id_same [OF Suc.prems] Suc.IH [OF Suc.prems] split: sum.split option.split thing.split)
qed simp

lemma scope_leaves_view:
  assumes "run_scope_op (SO_Scope ops) st = Some (Inr st')" and "symtab_wf st" and "list_all (confined 0) ops"
  shows "same_view st st' \<and> st_declarations st' = st_declarations st"
proof -
  obtain st1 where run: "run_scope_ops ops (new_scope st) = Some (Inr st1)" and st': "st' = close_scope st1"
    using assms(1) by (auto simp: and_then_Inr)
  have "symtab_wf (new_scope st)" using assms(2) by (auto simp: new_scope_def symtab_wf_def)
  then have "step_ok (length (st_symbols st)) (new_scope st) st1"
    using run assms(3) by (intro scope_op_ok(2) [of _ _ _ 0]) (auto simp: new_scope_def)
  then show ?thesis using assms(2)
    by (auto simp: step_ok_def preserves_def symtab_wf_def st' close_scope_def new_scope_def same_view_def butlast_conv_take)
qed

text \<open>
  C7: A closed scope leaves no trace. After the operations of a scope were made and the scope is closed, every
  path leads to the same id and the same thing as before, and the declarations of the outer scopes are
  unchanged, whatever the operations added, aliased or declared in it.
\<close>

theorem scope_restores:
  assumes "run_scope_op (SO_Scope ops) st = Some (Inr st')" and "symtab_wf st" and "list_all (confined 0) ops"
  shows "try_lookup_id n st' p = try_lookup_id n st p \<and> lookup_unit n st' p = lookup_unit n st p \<and>
    lookup_thing conversion err n st' p = lookup_thing conversion err n st p \<and>
    st_declarations st' = st_declarations st \<and> st_namespace st' = st_namespace st"
  using scope_leaves_view [OF assms]
  by (simp add: lookup_same_view lookup_unit_def lookup_thing_same) (simp add: same_view_def)

text \<open>
  C8: Ids are never given twice. Whatever a walk does, the ids of the things, types and symbols of the
  table stay below the next one to be drawn, so the next thing has an id no thing, type or symbol has,
  and adding it does not panic.
\<close>

theorem symbols_fresh:
  assumes "run_scope_ops ops st = Some (Inr st')" and "symtab_wf st"
    and "list_all (confined d) ops" and "d < length (st_symbols st)"
  shows "symtab_wf st' \<and>
    (\<exists>st''. add_thing name item st' = Some (NameID (next_free st') (st_namespace st' @ name), st'') \<and>
       (\<forall>tab\<in>set (st_symbols st'). \<forall>n\<in>ran tab. nid_num n \<noteq> next_free st'))"
proof -
  obtain k where k: "length (st_symbols st) = Suc (k + d)" using assms(4) by (metis less_imp_Suc_add add.commute)
  have wf: "symtab_wf st'" using scope_op_ok(2) [OF assms(1-3) k] by (simp add: step_ok_def)
  then have "st_things st' (next_free st') = None" "Suc 0 \<le> length (st_symbols st')" by (auto simp: symtab_wf_def Suc_le_eq)
  then have "\<exists>st''. add_thing name item st' = Some (NameID (next_free st') (st_namespace st' @ name), st'')"
    by (simp add: add_thing_def draw_id_peek add_thing_with_id_def add_thing_with_id_at_offset_def scope_index_def nat_minus_def
        insert_symbol_def path_join_append Let_def)
  then show ?thesis using wf by (fastforce simp: symtab_wf_def)
qed


section \<open>Static scoping\<close>

text \<open>A program that introduces and uses variables in nested blocks, run on a table.\<close>

datatype var_step = VS_Let ident | VS_Use ident | VS_Block "var_step list"

fun run_vars :: "var_step list \<Rightarrow> symtab \<Rightarrow> ((lookup_error + name_id) list \<times> symtab) option" where
  "run_vars [] st = Some ([], st)"
| "run_vars (VS_Let i # ps) st = Option.bind (add_local_variable i st) (\<lambda>(_, st). run_vars ps st)"
| "run_vars (VS_Use i # ps) st =
     Option.bind (lookup_variable 1 st [i]) (\<lambda>r. map_option (apfst ((#) r)) (run_vars ps st))"
| "run_vars (VS_Block b # ps) st =
     Option.bind (run_vars b (new_scope st)) (\<lambda>(rs, st). map_option (apfst ((@) rs)) (run_vars ps (close_scope st)))"

text \<open>
  Its meaning: an environment gives each identifier its innermost binding, variables are numbered in the
  order they are introduced, and a block keeps its bindings to itself.
\<close>

type_synonym var_env = "ident \<Rightarrow> lookup_error + name_id"

fun scoped :: "path \<Rightarrow> var_step list \<Rightarrow> var_env \<Rightarrow> nat \<Rightarrow> (lookup_error + name_id) list \<times> nat" where
  "scoped ns [] env k = ([], k)"
| "scoped ns (VS_Let i # ps) env k = scoped ns ps (env(i := Inr (NameID k (ns @ [i])))) (Suc k)"
| "scoped ns (VS_Use i # ps) env k = apfst ((#) (env i)) (scoped ns ps env k)"
| "scoped ns (VS_Block b # ps) env k =
     (case scoped ns b env k of (rs, k) \<Rightarrow> apfst ((@) rs) (scoped ns ps env k))"

fun var_names :: "var_step \<Rightarrow> ident list" where
  "var_names (VS_Let i) = [i]"
| "var_names (VS_Use i) = [i]"
| "var_names (VS_Block b) = concat (map var_names b)"

fun var_ops :: "var_step \<Rightarrow> scope_op list" where
  "var_ops (VS_Let i) = [SO_Variable i]"
| "var_ops (VS_Use i) = []"
| "var_ops (VS_Block b) = [SO_Scope (concat (map var_ops b))]"

lemma run_scope_append:
  "run_scope_ops (as @ bs) st = and_then (run_scope_ops as st) (run_scope_ops bs)"
  by (induction as arbitrary: st) (auto simp: and_then_def split: bind_splits sum.splits)

lemma and_then_Some [simp]: "and_then (Some (Inr st)) f = f st"
  by (simp add: and_then_def)

lemma run_vars_ops:
  "run_vars ps st = Some (rs, st') \<Longrightarrow> run_scope_ops (concat (map var_ops ps)) st = Some (Inr st')"
proof (induction ps st arbitrary: rs st' rule: run_vars.induct)
  case (4 b ps st)
  then obtain rs1 st1 rs2 where "run_vars b (new_scope st) = Some (rs1, st1)" "run_vars ps (close_scope st1) = Some (rs2, st')"
    by (auto simp: bind_eq_Some_conv)
  then show ?case using 4(1,2) by fastforce
qed (fastforce simp: bind_eq_Some_conv keep_def run_scope_append)+

lemma var_ops_confined: "list_all (confined d) (var_ops p)"
  by (induction p arbitrary: d) (auto simp: list_all_iff)

lemma single_lookup:
  assumes "symtab_wf st" and "i \<noteq> ''lib''"
  shows "try_lookup_id (Suc n) st [i] =
    Some (case local_lookup st (st_namespace st @ [i]) of Some x \<Rightarrow> Some x | None \<Rightarrow> hd (st_symbols st) [i])"
  using assms by (cases "st_symbols st") (auto simp: path_lib_relative_def path_join_append root_lookup_def symtab_wf_def split: option.split)

definition variable_in :: "symtab \<Rightarrow> var_env" where
  "variable_in st i = the (lookup_variable 1 st [i])"

lemma variable_returns:
  assumes "symtab_wf st" and "i \<noteq> ''lib''"
  shows "lookup_variable 1 st [i] = Some (variable_in st i)"
  unfolding variable_in_def lookup_variable_def lookup_id_def One_nat_def single_lookup [OF assms] option.map option.sel ..

lemma lookup_variable_same: "same_view st st' \<Longrightarrow> lookup_variable n st' p = lookup_variable n st p"
proof -
  assume same: "same_view st st'"
  have "no_thing st' p i = no_thing st p i \<and> st_things st' (nid_num i) = st_things st (nid_num i)"
    if "lookup_id n st p = Some (Inr i)" for i
    by (rule same_thing [OF same lookup_id_found [OF that]])
  then show ?thesis
    by (cases "lookup_id n st p")
      (auto simp: lookup_variable_def lookup_id_same [OF same] res_bind_def split: sum.split option.split thing.split)
qed

lemma new_scope_lookup: "lookup_variable n (new_scope st) p = lookup_variable n st p" if "symtab_wf st"
proof -
  have root: "root_lookup (new_scope st) q = root_lookup st q" for q
    using that by (cases "st_symbols st") (auto simp: root_lookup_def new_scope_def symtab_wf_def)
  have local: "local_lookup (new_scope st) q = local_lookup st q" for q by (simp add: local_lookup_def new_scope_def)
  have target: "alias_target (new_scope st) f = alias_target st f" for f by (simp add: alias_target_def new_scope_def)
  have same: "st_namespace (new_scope st) = st_namespace st" "st_base_namespace (new_scope st) = st_base_namespace st"
    by (simp_all add: new_scope_def)
  have "try_lookup_id n (new_scope st) p = try_lookup_id n st p"
  proof (induction n arbitrary: p)
    case (Suc n)
    show ?case unfolding try_lookup_id.simps root local target same Suc.IH ..
  qed simp
  moreover have "no_thing (new_scope st) = no_thing st" "st_things (new_scope st) = st_things st"
    by (simp_all add: fun_eq_iff no_thing_def new_scope_def)
  ultimately show ?thesis by (simp only: lookup_variable_def lookup_id_def)
qed


lemma close_scope_variables:
  assumes "symtab_wf st" and "run_vars b (new_scope st) = Some (rs, st1)"
  shows "variable_in (close_scope st1) = variable_in st \<and> step_ok 0 st (close_scope st1) \<and>
    st_things (close_scope st1) = st_things st1 \<and> next_free (close_scope st1) = next_free st1"
proof -
  let ?op = "SO_Scope (concat (map var_ops b))"
  have run: "run_scope_op ?op st = Some (Inr (close_scope st1))" using run_vars_ops [OF assms(2)] by simp
  have confined: "list_all (confined d) (concat (map var_ops b))" for d using var_ops_confined by (auto simp: list_all_iff)
  obtain d where "length (st_symbols st) = Suc (0 + d)" using assms(1) by (cases "st_symbols st") (auto simp: symtab_wf_def)
  then have "step_ok 0 st (close_scope st1)" using confined by (intro scope_op_ok(1) [OF run assms(1)]) auto
  moreover have "same_view st (close_scope st1)" using scope_leaves_view [OF run assms(1) confined] by simp
  ultimately show ?thesis by (auto simp: variable_in_def lookup_variable_same close_scope_def)
qed

lemma let_variables:
  assumes wf: "symtab_wf st"
  shows "\<exists>st'. add_local_variable j st = Some (NameID (next_free st) (st_namespace st @ [j]), st') \<and>
    (\<forall>i. i \<noteq> ''lib'' \<longrightarrow>
       variable_in st' i = (if i = j then Inr (NameID (next_free st) (st_namespace st @ [j])) else variable_in st i)) \<and>
    symtab_wf st' \<and> st_namespace st' = st_namespace st \<and> next_free st' = Suc (next_free st)"
proof -
  let ?n = "NameID (next_free st) (st_namespace st @ [j])"
  obtain tabs tab where tabs: "st_symbols st = tabs @ [tab]" using wf by (cases "st_symbols st" rule: rev_cases) (auto simp: symtab_wf_def)
  have "st_things st (next_free st) = None" using wf by (simp add: symtab_wf_def)
  then obtain st' where add: "add_local_variable j st = Some (?n, st')"
    by (auto simp: add_local_variable_def add_thing_def draw_id_peek add_thing_with_id_def add_thing_with_id_at_offset_def
        scope_index_def nat_minus_def insert_symbol_def path_join_append Let_def tabs)
  have st': "st' = st\<lparr>st_id_tracker := \<lparr>next_id = Suc (next_free st)\<rparr>, st_things := (st_things st)(next_free st \<mapsto> TH_Variable j),
      st_symbols := tabs @ [tab(st_namespace st @ [j] \<mapsto> ?n)]\<rparr>"
    using add_thing_at_offset_state [of 0 "[j]" "TH_Variable j" st ?n st'] add
    by (auto simp: add_local_variable_def add_thing_offset tabs)
  have ns: "st_namespace st' = st_namespace st" by (simp add: st')
  have ok: "step_ok 0 st st'" using add wf by (intro added_thing_ok) (auto simp: add_local_variable_def add_thing_offset tabs)
  have local: "local_lookup st' (st_namespace st @ [i]) = (if i = j then Some ?n else local_lookup st (st_namespace st @ [i]))" for i
    by (simp add: local_lookup_def st' tabs)
  have root: "hd (st_symbols st') [i] = hd (st_symbols st) [i]" if "i \<noteq> j" for i
    using that by (cases tabs) (auto simp: st' tabs)
  have "variable_in st' i = (if i = j then Inr ?n else variable_in st i)" if lib: "i \<noteq> ''lib''" for i
  proof (cases "i = j")
    case True
    have "try_lookup_id 1 st' [i] = Some (Some ?n)"
      using single_lookup [of st' i 0] ok lib local [of i] True by (simp add: step_ok_def st' del: try_lookup_id.simps)
    then show ?thesis using True
      by (simp add: variable_in_def lookup_variable_def lookup_id_def del: try_lookup_id.simps One_nat_def) (simp add: st')
  next
    case False
    then have same: "lookup_id 1 st' [i] = lookup_id 1 st [i]"
      using single_lookup [of st' i 0] single_lookup [of st i 0] ok wf lib local [of i] root [of i] ns
      by (simp add: lookup_id_def step_ok_def del: try_lookup_id.simps split: option.split)
    have "no_thing st' [i] m = no_thing st [i] m \<and> st_things st' (nid_num m) = st_things st (nid_num m)"
      if "lookup_id 1 st [i] = Some (Inr m)" for m
    proof -
      have "nid_num m < next_free st" using lookup_id_found [OF that] wf unfolding symtab_wf_def by blast
      then show ?thesis by (simp add: no_thing_def st')
    qed
    then show ?thesis using False
      by (cases "lookup_id 1 st [i]")
        (auto simp: variable_in_def lookup_variable_def same res_bind_def simp del: One_nat_def split: sum.split option.split thing.split)
  qed
  then show ?thesis using add ok by (auto simp: step_ok_def st' tracker_peek_def)
qed


text \<open>
  C6: Variables are scoped statically. Run on a well-formed table, a program of variable introductions, uses
  and blocks finds for every use the innermost binding that is in scope where the use is written, as an
  environment would give it, and the error of the surrounding table when there is none.
\<close>

theorem variables_static:
  assumes "symtab_wf st" and "''lib'' \<notin> set (concat (map var_names ps))"
  shows "\<exists>st'. run_vars ps st = Some (fst (scoped (st_namespace st) ps (variable_in st) (next_free st)), st')"
proof -
  have "\<exists>st'. run_vars ps st = Some (fst (scoped (st_namespace st) ps env k), st') \<and> symtab_wf st' \<and>
      st_namespace st' = st_namespace st \<and> next_free st' = snd (scoped (st_namespace st) ps env k)"
    if "symtab_wf st" "''lib'' \<notin> set (concat (map var_names ps))" "k = next_free st"
      "\<forall>i. i \<noteq> ''lib'' \<longrightarrow> variable_in st i = env i" for env k
    using that
  proof (induction "st_namespace st" ps env k arbitrary: st rule: scoped.induct)
    case (2 i ps env k)
    then obtain st1 where st1: "add_local_variable i st = Some (NameID k (st_namespace st @ [i]), st1)"
      "\<forall>j. j \<noteq> ''lib'' \<longrightarrow> variable_in st1 j = (env(i := Inr (NameID k (st_namespace st @ [i])))) j"
      "symtab_wf st1" "st_namespace st1 = st_namespace st" "next_free st1 = Suc k"
      using let_variables [of st i] by (auto simp: fun_upd_def)
    then show ?case using 2(1) [of st1] 2(3) by simp
  next
    case (3 i ps env k)
    have "i \<noteq> ''lib''" using 3(3) by auto
    then have "lookup_variable 1 st [i] = Some (env i)" using variable_returns [of st i] 3 by simp
    moreover obtain st1 where "run_vars ps st = Some (fst (scoped (st_namespace st) ps env k), st1)" "symtab_wf st1"
      "st_namespace st1 = st_namespace st" "next_free st1 = snd (scoped (st_namespace st) ps env k)"
      using 3(1) [of st] 3(2-) by auto
    ultimately show ?case by (simp del: One_nat_def)
  next
    case (4 b ps env k)
    obtain rs k1 where inner: "scoped (st_namespace st) b env k = (rs, k1)" by fastforce
    have new: "symtab_wf (new_scope st)" "st_namespace (new_scope st) = st_namespace st" "next_free (new_scope st) = next_free st"
      using 4(3) by (auto simp: new_scope_def symtab_wf_def)
    moreover have "variable_in (new_scope st) = variable_in st"
      by (simp add: fun_eq_iff variable_in_def new_scope_lookup [OF 4(3)])
    ultimately obtain st1 where st1: "run_vars b (new_scope st) = Some (rs, st1)" "next_free st1 = k1"
      using 4(1) [of "new_scope st"] 4(4-) inner by auto
    note close = close_scope_variables [OF 4(3) st1(1)]
    have closed: "symtab_wf (close_scope st1)" "st_namespace (close_scope st1) = st_namespace st"
      "next_free (close_scope st1) = k1" "\<forall>i. i \<noteq> ''lib'' \<longrightarrow> variable_in (close_scope st1) i = env i"
      using close 4(6) st1(2) by (simp_all add: step_ok_def preserves_def)
    moreover have "''lib'' \<notin> set (concat (map var_names ps))" using 4(4) by auto
    ultimately obtain st2 where "run_vars ps (close_scope st1) = Some (fst (scoped (st_namespace st) ps env k1), st2)"
      "symtab_wf st2" "st_namespace st2 = st_namespace st" "next_free st2 = snd (scoped (st_namespace st) ps env k1)"
      using 4(2) [OF inner [symmetric], of "close_scope st1"] by metis
    then show ?case by (simp add: st1 inner)
  qed auto
  from this [OF assms refl] show ?thesis by auto
qed


section \<open>Aliases\<close>

text \<open>
  Aliases are ranked when each one found under a single name leads, from the root and from its own
  namespace, to a path that starts with a name of smaller rank.
\<close>

definition aliases_ranked :: "symtab \<Rightarrow> (ident \<Rightarrow> nat) \<Rightarrow> bool" where
  "aliases_ranked st rank \<longleftrightarrow>
     (\<forall>i found alias_path ns.
        try_lookup_id 1 st [i] = Some found \<and> alias_target st found = Some (alias_path, ns) \<longrightarrow>
        alias_path \<noteq> [] \<and> rank (hd alias_path) < rank i \<and> rank (hd (ns @ alias_path)) < rank i)"

lemma root_lookup_returns: "st_symbols st \<noteq> [] \<Longrightarrow> \<exists>found. root_lookup st p = Some found"
  by (cases "st_symbols st") (auto simp: root_lookup_def)

lemma single_lookup_bound: "try_lookup_id (Suc n) st [i] = try_lookup_id 1 st [i]"
  by (simp split: option.split)

text \<open>
  C9: Lookups return. When the aliases are ranked, the lookup of a path makes at most two more nested calls
  than the rank of its first name, whatever the path.
\<close>

theorem lookup_returns:
  assumes "aliases_ranked st rank" and "st_symbols st \<noteq> []" and "rank (hd p) + 2 \<le> n"
  shows "\<exists>found. try_lookup_id n st p = Some found"
  using assms(3)
proof (induction n arbitrary: p)
  case (Suc n)
  note root = root_lookup_returns [OF assms(2)]
  show ?case
  proof (cases "path_lib_relative p = None \<and> local_lookup st (path_join (st_namespace st) p) = None \<and> length p > 1")
    case False
    then show ?thesis using root by (auto split: option.split)
  next
    case True
    then obtain m where n: "n = Suc m" using Suc.prems by (cases n) auto
    have "\<exists>base. try_lookup_id n st [hd p] = Some base"
      unfolding n using root by (auto split: option.split)
    then obtain base where base: "try_lookup_id n st [hd p] = Some base" by blast
    show ?thesis
    proof (cases "alias_target st base")
      case None
      then show ?thesis using True base root by simp
    next
      case (Some target)
      obtain alias_path ns where target: "target = (alias_path, ns)" by fastforce
      have "try_lookup_id 1 st [hd p] = Some base" using base single_lookup_bound n by metis
      then have heads: "alias_path \<noteq> []" "rank (hd alias_path) < rank (hd p)" "rank (hd (ns @ alias_path)) < rank (hd p)"
        using assms(1) Some target unfolding aliases_ranked_def by blast+
      then have "rank (hd (alias_path @ tl p)) + 2 \<le> n" "rank (hd (ns @ alias_path @ tl p)) + 2 \<le> n"
        using Suc.prems by (cases ns; simp)+
      then have "\<exists>found. try_lookup_id n st (alias_path @ tl p) = Some found"
        "\<exists>found. try_lookup_id n st (ns @ alias_path @ tl p) = Some found"
        using Suc.IH by blast+
      then show ?thesis using True base Some target
        by (auto simp: Let_def path_join_append split: option.split)
    qed
  qed
qed simp

text \<open>An alias that leads to itself: \<open>use a::a\<close>, with the module \<open>a\<close> of another scope.\<close>

definition ex_self_alias :: symtab where
  "ex_self_alias =
     (case add_alias_to [''a''] [''a'', ''a''] symtab_new of Some (Inr (_, st)) \<Rightarrow> st | _ \<Rightarrow> symtab_new)"

lemma ex_self_alias_parts:
  "st_symbols ex_self_alias = [[[''a''] \<mapsto> NameID 0 [''a'']]]" "st_namespace ex_self_alias = []"
  "st_things ex_self_alias 0 = Some (TH_Alias [''a'', ''a''] [])"
  by (simp_all add: ex_self_alias_def add_alias_to_def when_unique_def ensure_is_unique_def symtab_new_def current_namespace_def
      path_lib_relative_def add_thing_def draw_id_def tracker_new_def tracker_next_def add_thing_with_id_def
      add_thing_with_id_at_offset_def scope_index_def nat_minus_def insert_symbol_def path_join_append Let_def)

lemma self_alias_diverges: "try_lookup_id n ex_self_alias (''a'' # i # p) = None"
proof (induction n arbitrary: i p)
  case (Suc n)
  have missing: "local_lookup ex_self_alias (''a'' # i # p) = None"
    by (simp add: local_lookup_def ex_self_alias_parts)
  show ?case
  proof (cases n)
    case (Suc m)
    have base: "try_lookup_id n ex_self_alias [''a''] = Some (Some (NameID 0 [''a'']))"
      by (simp add: Suc path_lib_relative_def path_join_append ex_self_alias_parts local_lookup_def)
    have "try_lookup_id n ex_self_alias (''a'' # ''a'' # i # p) = None" by (rule Suc.IH)
    then show ?thesis
      by (simp add: path_lib_relative_def path_join_append ex_self_alias_parts(2) missing base alias_target_def
          ex_self_alias_parts(3) Let_def)
  qed (simp add: path_lib_relative_def path_join_append ex_self_alias_parts missing)
qed simp


section \<open>Examples\<close>

text \<open>The table \<open>mod\<close> names a namespace with one variable, \<open>x\<close>.\<close>

definition ex_table :: symtab where
  "ex_table =
     (case run_scope_ops [SO_Variable ''x'', SO_UniqueThing [''m''] (TH_Module ''m'')] (push_namespace ''top'' symtab_new) of
        Some (Inr st) \<Rightarrow> st
      | _ \<Rightarrow> symtab_new)"

abbreviation ex_scope :: "scope_op list" where
  "ex_scope \<equiv> [SO_Variable ''x'', SO_Declare ''y'', SO_Scope [SO_VariableAt 1 ''z''], SO_Alias [''n''] [''m'', ''x'']]"

lemma symtab_new_wf: "symtab_wf (push_namespace i symtab_new)"
  by (simp add: symtab_wf_def push_namespace_def symtab_new_def)

lemma ex_table_built:
  "run_scope_ops [SO_Variable ''x'', SO_UniqueThing [''m''] (TH_Module ''m'')] (push_namespace ''top'' symtab_new) =
     Some (Inr ex_table)"
proof -
  have "case run_scope_ops [SO_Variable ''x'', SO_UniqueThing [''m''] (TH_Module ''m'')] (push_namespace ''top'' symtab_new) of
      Some (Inr st) \<Rightarrow> True | _ \<Rightarrow> False"
    by code_simp
  then show ?thesis unfolding ex_table_def
    by (auto simp del: run_scope_ops.simps run_scope_op.simps split: option.split_asm sum.split_asm)
qed

lemma ex_table_wf: "symtab_wf ex_table"
  using scope_op_ok(2) [OF ex_table_built symtab_new_wf, of 0 0]
  by (simp add: push_namespace_def symtab_new_def step_ok_def)

lemma ex_scope_runs:
  "case run_scope_op (SO_Scope ex_scope) ex_table of
     Some (Inr st) \<Rightarrow> next_free st = 6 \<and> length (st_symbols st) = 1
   | _ \<Rightarrow> False"
  by code_simp

theorem scope_restores_witness:
  "\<exists>st'. run_scope_op (SO_Scope ex_scope) ex_table = Some (Inr st') \<and> next_free st' = 6 \<and>
     try_lookup_id 1 st' [''x''] = Some (Some (NameID 0 [''top'', ''x'']))"
proof -
  obtain st' where st': "run_scope_op (SO_Scope ex_scope) ex_table = Some (Inr st')" "next_free st' = 6"
    using ex_scope_runs by (auto simp del: run_scope_op.simps split: option.splits sum.splits)
  have "try_lookup_id 1 ex_table [''x''] = Some (Some (NameID 0 [''top'', ''x'']))" by code_simp
  then have "try_lookup_id 1 st' [''x''] = Some (Some (NameID 0 [''top'', ''x'']))"
    using scope_restores [OF st'(1) ex_table_wf, of 1 "[''x'']" as_unit LK_NotAUnit]
    by (simp del: try_lookup_id.simps lookup_thing.simps One_nat_def)
  then show ?thesis using st' by blast
qed

theorem symbols_fresh_witness:
  "\<exists>st''. add_thing [''w''] (TH_Variable ''w'') ex_table = Some (NameID 2 [''top'', ''w''], st'')"
proof -
  have "next_free ex_table = 2" "st_namespace ex_table = [''top'']" by code_simp+
  then show ?thesis
    using symbols_fresh [OF ex_table_built symtab_new_wf, of 0 "[''w'']" "TH_Variable ''w''"]
    by (simp add: push_namespace_def symtab_new_def)
qed

text \<open>\<open>{ let x; x } x y\<close>, with \<open>x\<close> known outside the block and \<open>y\<close> not.\<close>

abbreviation ex_vars :: "var_step list" where
  "ex_vars \<equiv> [VS_Block [VS_Let ''x'', VS_Use ''x''], VS_Use ''x'', VS_Use ''y'']"

theorem variables_static_witness:
  "\<exists>st'. run_vars ex_vars ex_table =
     Some ([Inr (NameID 2 [''top'', ''x'']), Inr (NameID 0 [''top'', ''x'']), Inl (LK_NoSuchSymbol [''y''])], st')"
proof -
  have "next_free ex_table = 2" "st_namespace ex_table = [''top'']" by code_simp+
  moreover have "variable_in ex_table ''x'' = Inr (NameID 0 [''top'', ''x''])" "variable_in ex_table ''y'' = Inl (LK_NoSuchSymbol [''y''])"
    by code_simp+
  ultimately show ?thesis using variables_static [OF ex_table_wf, of ex_vars] by (simp add: apfst_def)
qed

text \<open>\<open>use m::x as n\<close> is ranked by giving \<open>n\<close> a larger rank than the others.\<close>

definition ex_alias_table :: symtab where
  "ex_alias_table = (case add_alias_to [''n''] [''m'', ''x''] symtab_new of Some (Inr (_, st)) \<Rightarrow> st | _ \<Rightarrow> symtab_new)"

lemma ex_alias_parts:
  "st_symbols ex_alias_table = [[[''n''] \<mapsto> NameID 0 [''n'']]]" "st_namespace ex_alias_table = []"
  "st_base_namespace ex_alias_table = []"
  "st_things ex_alias_table = [0 \<mapsto> TH_Alias [''m'', ''x''] []]"
  by (simp_all add: ex_alias_table_def add_alias_to_def when_unique_def ensure_is_unique_def symtab_new_def current_namespace_def
      path_lib_relative_def add_thing_def draw_id_def tracker_new_def tracker_next_def add_thing_with_id_def
      add_thing_with_id_at_offset_def scope_index_def nat_minus_def insert_symbol_def path_join_append Let_def)

theorem lookup_returns_witness: "\<exists>found. try_lookup_id 3 ex_alias_table [''n'', ''y''] = Some found"
proof (rule lookup_returns)
  show "aliases_ranked ex_alias_table (\<lambda>i. if i = ''n'' then 1 else 0)"
    unfolding aliases_ranked_def
    by (auto simp: path_lib_relative_def path_join_append local_lookup_def root_lookup_def ex_alias_parts alias_target_def
        split: if_splits list.splits)
qed (simp_all add: ex_alias_parts)

text \<open>What the code does with a second item of the name of a configuration value, a variable called
  \<open>lib\<close>, and a type that is named like a variable that is only declared later.\<close>

lemma config_redefinition_panics:
  "\<exists>n st. add_unique_thing [''X''] (TH_ComptimeConfig 1) symtab_new = Some (Inr (n, st)) \<and>
     add_unique_thing [''X''] (TH_Variable ''X'') st = None"
proof -
  have "case add_unique_thing [''X''] (TH_ComptimeConfig 1) symtab_new of
      Some (Inr (n, st)) \<Rightarrow> add_unique_thing [''X''] (TH_Variable ''X'') st = None | _ \<Rightarrow> False"
    by (simp add: add_unique_thing_def when_unique_def ensure_is_unique_def symtab_new_def current_namespace_def add_thing_def
        draw_id_def tracker_new_def tracker_next_def add_thing_with_id_def add_thing_with_id_at_offset_def scope_index_def
        nat_minus_def insert_symbol_def path_join_append name_loc_def Let_def)
  then show ?thesis by (auto split: option.splits sum.splits)
qed

lemma lib_variable_lost:
  "\<exists>n st. add_local_variable ''lib'' symtab_new = Some (n, st) \<and>
     lookup_variable 1 st [''lib''] = Some (Inl (LK_NoSuchSymbol [''lib'']))"
proof -
  have "case add_local_variable ''lib'' symtab_new of
      Some (n, st) \<Rightarrow> lookup_variable 1 st [''lib''] = Some (Inl (LK_NoSuchSymbol [''lib''])) | _ \<Rightarrow> False"
    by (simp add: symtab_new_def add_local_variable_def add_thing_def draw_id_def tracker_new_def tracker_next_def
        add_thing_with_id_def add_thing_with_id_at_offset_def scope_index_def nat_minus_def insert_symbol_def path_join_append
        lookup_variable_def lookup_id_def path_lib_relative_def root_lookup_def Let_def)
  then show ?thesis by (auto split: option.splits)
qed

lemma undecleared_type_panics:
  "\<exists>n st. add_undecleared_at_offset 0 i symtab_new = Some (n, st) \<and> (i \<noteq> ''lib'' \<longrightarrow> lookup_type_symbol k st [i] = None)"
proof -
  have "case add_undecleared_at_offset 0 i symtab_new of
      Some (n, st) \<Rightarrow> i \<noteq> ''lib'' \<longrightarrow> lookup_type_symbol k st [i] = None | _ \<Rightarrow> False"
  proof (cases k)
    case (Suc m)
    then show ?thesis
      by (cases m) (simp_all add: symtab_new_def add_undecleared_at_offset_def draw_id_def tracker_new_def tracker_next_def
        scope_index_def nat_minus_def insert_symbol_def declare_in_def path_join_append lookup_id_def path_lib_relative_def
        local_lookup_def Let_def)
  qed (simp add: symtab_new_def add_undecleared_at_offset_def draw_id_def tracker_new_def tracker_next_def
        scope_index_def nat_minus_def insert_symbol_def declare_in_def path_join_append Let_def)
  then show ?thesis by (auto split: option.splits)
qed

end
