(* ===== verification/Vcd.thy ===== *)
theory Vcd
  imports Type_Lowering Verilog
begin

text \<open>
  vcd-translate, \<open>translation.rs\<close>: the text of a waveform value by its Spade type. The values of a
  wire are those of the \<open>vcd\<close> crate, the most significant first. The functions that append to a
  string return what they append; a panic (an empty value, a slice out of range, a subtraction below
  zero, a size that does not fit \<open>usize\<close>) is \<open>None\<close>.
\<close>

datatype vcd_value = V0 | V1 | VX | VZ

datatype 'a maybe_value = MV_Value 'a | MV_Undef | MV_HighImpedance

definition maybe_map :: "('a \<Rightarrow> 'b) \<Rightarrow> 'a maybe_value \<Rightarrow> 'b maybe_value" where
  "maybe_map f m =
     (case m of
        MV_Value t \<Rightarrow> MV_Value (f t) | MV_Undef \<Rightarrow> MV_Undef | MV_HighImpedance \<Rightarrow> MV_HighImpedance)"

definition write_maybe :: "('a \<Rightarrow> string) \<Rightarrow> 'a maybe_value \<Rightarrow> string" where
  "write_maybe show_value m =
     (case m of
        MV_Value v \<Rightarrow> show_value v | MV_Undef \<Rightarrow> ''UNDEF'' | MV_HighImpedance \<Rightarrow> ''HIGHIMP'')"

definition to_usize :: "nat \<Rightarrow> nat option" where
  "to_usize n = (if n < 2 ^ 64 then Some n else None)"

section \<open>Integers\<close>

text \<open>The loop keeps up to 64 bits in a \<open>u64\<close>, which shifts drop bits from, before adding them.\<close>

fun translate_uint_loop ::
  "vcd_value list \<Rightarrow> bool \<Rightarrow> nat \<Rightarrow> nat \<Rightarrow> nat \<Rightarrow> nat maybe_value" where
  "translate_uint_loop [] flip result acc_bits part = MV_Value (result * 2 ^ acc_bits + part)"
| "translate_uint_loop (v # vs) flip result acc_bits part =
     (let (result, acc_bits, part) =
            (if acc_bits = 64 then (result * 2 ^ acc_bits + part, 0, 0) else (result, acc_bits, part))
      in if v = VX then MV_Undef
         else if v = VZ then MV_HighImpedance
         else let part = (part * 2) mod 2 ^ 64 + (if v = (if flip then V0 else V1) then 1 else 0)
              in translate_uint_loop vs flip result (acc_bits + 1) part)"

definition translate_uint :: "vcd_value list \<Rightarrow> bool \<Rightarrow> nat maybe_value" where
  "translate_uint value flip = translate_uint_loop value flip 0 0 0"

definition translate_signed_int :: "vcd_value list \<Rightarrow> int maybe_value option" where
  "translate_signed_int value =
     (if VX \<in> set value then Some MV_Undef
      else if VZ \<in> set value then Some MV_HighImpedance
      else case value of
             [] \<Rightarrow> None
           | v # rest \<Rightarrow>
               let negative = (v = V1);
                   uint_val = translate_uint rest negative
               in Some (if negative then maybe_map (\<lambda>n. - int (n + 1)) uint_val
                        else maybe_map int uint_val))"

definition translate_unsigned_int :: "vcd_value list \<Rightarrow> nat maybe_value" where
  "translate_unsigned_int value =
     (if VX \<in> set value then MV_Undef
      else if VZ \<in> set value then MV_HighImpedance
      else translate_uint value False)"

section \<open>Values\<close>

text \<open>The consecutive slices of a value for fields of the given sizes.\<close>

fun take_fields :: "nat list \<Rightarrow> vcd_value list \<Rightarrow> vcd_value list list option" where
  "take_fields [] value = Some []"
| "take_fields (n # ns) value =
     (if n \<le> length value then map_option ((#) (take n value)) (take_fields ns (drop n value)) else None)"

definition field_values ::
  "concrete_type list \<Rightarrow> vcd_value list \<Rightarrow> vcd_value list list option" where
  "field_values tys value =
     Option.bind (mapM_opt (\<lambda>t. Option.bind (mir_size t) to_usize) tys) (\<lambda>sizes. take_fields sizes value)"

definition extend_value :: "nat \<Rightarrow> vcd_value list \<Rightarrow> vcd_value list" where
  "extend_value n value =
     replicate n (case hd value of V0 \<Rightarrow> V0 | V1 \<Rightarrow> V0 | VX \<Rightarrow> VX | VZ \<Rightarrow> VZ) @ value"

definition show_bit :: "vcd_value \<Rightarrow> string" where
  "show_bit v =
     (case v of V0 \<Rightarrow> ''false'' | V1 \<Rightarrow> ''true'' | VX \<Rightarrow> ''UNDEF'' | VZ \<Rightarrow> ''HIGHIMP'')"

lemma zip_smaller: "(t, v) \<in> set (zip ts vs) \<Longrightarrow> size t < Suc (size_list size ts)"
  by (meson set_zip_leftD size_list_estimation' less_Suc_eq_le order.refl)

lemma zip_members_smaller:
  "(t, v) \<in> set (zip (map snd ms) vs) \<Longrightarrow> size t < Suc (size_list (size_prod size_a size) ms)"
proof -
  assume "(t, v) \<in> set (zip (map snd ms) vs)"
  then have "t \<in> snd ` set ms" by (auto dest: set_zip_leftD)
  then obtain n where "(n, t) \<in> set ms" by auto
  then have "size_prod size_a size (n, t) \<le> size_list (size_prod size_a size) ms"
    by (rule size_list_estimation') simp
  then show ?thesis by simp
qed

lemma zip_option_smaller:
  assumes "k < length options" and "(t, v) \<in> set (zip (map snd (snd (options ! k))) vs)"
  shows "size t < Suc (size_list (size_prod size_a (size_list (size_prod size_b size))) options)"
proof -
  have "size t < Suc (size_list (size_prod size_b size) (snd (options ! k)))"
    using assms(2) by (rule zip_members_smaller)
  moreover have "size_prod size_a (size_list (size_prod size_b size)) (options ! k)
      \<le> size_list (size_prod size_a (size_list (size_prod size_b size))) options"
    using assms(1) by (intro size_list_estimation' [OF _ order.refl]) simp
  ultimately show ?thesis by (cases "options ! k") simp
qed

function translate_inner :: "concrete_type \<Rightarrow> vcd_value list \<Rightarrow> string option" where
  "translate_inner t in_value =
     (case Option.bind (mir_size t) to_usize of
        None \<Rightarrow> None
      | Some type_size \<Rightarrow>
          (case nat_minus type_size (length in_value) of
             None \<Rightarrow> None
           | Some missing_values \<Rightarrow>
               if type_size < length in_value then Some []
               else if type_size = 0 then Some []
               else if in_value = [] then None
               else let value = extend_value missing_values in_value
                    in case t of
                         CT_Tuple members \<Rightarrow>
                           Option.bind (field_values members value) (\<lambda>vs.
                             map_option (\<lambda>texts. ''('' @ join_strs '','' texts @ '')'')
                               (mapM_opt (\<lambda>(t, v). translate_inner t v) (zip members vs)))
                       | CT_Struct _ members \<Rightarrow>
                           Option.bind (field_values (map snd members) value) (\<lambda>vs.
                             map_option
                               (\<lambda>texts. ''{'' @ join_strs '',''
                                  (map2 (\<lambda>n text. n @ '':'' @ text) (map fst members) texts) @ ''}'')
                               (mapM_opt (\<lambda>(t, v). translate_inner t v) (zip (map snd members) vs)))
                       | CT_Array member sz \<Rightarrow>
                           Option.bind (field_values (replicate (nat sz) member) value) (\<lambda>vs.
                             map_option (\<lambda>texts. ''['' @ join_strs '','' texts @ '']'')
                               (mapM_opt (\<lambda>v. translate_inner member v) vs))
                       | CT_Enum options \<Rightarrow>
                           let tag = tag_size (length options)
                           in if length value < tag then None
                              else (case translate_uint (take tag value) False of
                                      MV_Value variant \<Rightarrow>
                                        if 2 ^ 64 \<le> variant then None
                                        else if length options \<le> variant then Some ''?TAG?''
                                        else Option.bind
                                               (field_values (map snd (snd (options ! variant))) (drop tag value))
                                               (\<lambda>vs. Option.bind (path_tail (nid_path (fst (options ! variant))))
                                               (\<lambda>name. map_option
                                                 (\<lambda>texts. name @ ''('' @ join_strs '','' texts @ '')'')
                                                 (mapM_opt (\<lambda>(t, v). translate_inner t v)
                                                   (zip (map snd (snd (options ! variant))) vs))))
                                    | MV_Undef \<Rightarrow> Some ''UNDEF''
                                    | MV_HighImpedance \<Rightarrow> Some ''HIGHIMP'')
                       | CT_Single base params \<Rightarrow>
                           (case base of
                              PT_Bool \<Rightarrow> Some (show_bit (hd value))
                            | PT_Bit \<Rightarrow> Some (show_bit (hd value))
                            | PT_Clock \<Rightarrow> Some (show_bit (hd value))
                            | PT_Int \<Rightarrow> map_option (write_maybe show_int) (translate_signed_int value)
                            | PT_Uint \<Rightarrow> Some (write_maybe show_nat (translate_unsigned_int value))
                            | PT_Memory \<Rightarrow> Some ''memory''
                            | PT_InOut \<Rightarrow> (case params of [member] \<Rightarrow> translate_inner member in_value | _ \<Rightarrow> None)
                            | PT_Void \<Rightarrow> Some ''void'')
                       | CT_Integer _ \<Rightarrow> None
                       | CT_Backward member \<Rightarrow> translate_inner member in_value
                       | CT_Wire member \<Rightarrow> translate_inner member in_value))"
  by pat_completeness auto
termination
  by (relation "measure (size \<circ> fst)")
    (auto dest: zip_smaller zip_members_smaller zip_option_smaller simp: not_le)

declare translate_inner.simps [simp del]

definition translate_value :: "concrete_type \<Rightarrow> vcd_value list \<Rightarrow> string option" where
  "translate_value ty value = translate_inner ty value"

definition value_from_char :: "char \<Rightarrow> vcd_value option" where
  "value_from_char c =
     (if c = CHR ''x'' \<or> c = CHR ''X'' then Some VX
      else if c = CHR ''z'' \<or> c = CHR ''Z'' then Some VZ
      else if c = CHR ''0'' then Some V0
      else if c = CHR ''1'' then Some V1
      else None)"

definition value_from_str :: "string \<Rightarrow> vcd_value list option" where
  "value_from_str s = mapM_opt value_from_char s"

section \<open>What integers mean\<close>

definition vcd_bits :: "bits \<Rightarrow> vcd_value list" where
  "vcd_bits bs = map (\<lambda>b. if b then V1 else V0) bs"

fun bits_value :: "bits \<Rightarrow> nat" where
  "bits_value [] = 0"
| "bits_value (b # bs) = of_bool b * 2 ^ length bs + bits_value bs"

text \<open>Two's complement: the first bit counts negatively.\<close>

definition signed_value :: "bits \<Rightarrow> int" where
  "signed_value bs =
     int (bits_value (tl bs)) - (if hd bs then 2 ^ length (tl bs) else 0)"

lemma bits_value_less: "bits_value bs < 2 ^ length bs"
  by (induction bs) auto

lemma bits_value_Not: "bits_value (map Not bs) + bits_value bs + 1 = 2 ^ length bs"
  by (induction bs) auto

lemma vcd_bits_known: "VX \<notin> set (vcd_bits bs)" "VZ \<notin> set (vcd_bits bs)"
  by (auto simp: vcd_bits_def)

lemma translate_uint_loop_value:
  assumes "part < 2 ^ acc_bits" and "acc_bits \<le> 64"
  shows "translate_uint_loop (vcd_bits bs) flip result acc_bits part =
    MV_Value ((result * 2 ^ acc_bits + part) * 2 ^ length bs + bits_value (map (\<lambda>b. b \<noteq> flip) bs))"
  using assms
proof (induction bs arbitrary: result acc_bits part)
  case (Cons b bs)
  obtain r a p where rap:
    "(if acc_bits = 64 then (result * 2 ^ acc_bits + part, 0, 0) else (result, acc_bits, part)) = (r, a, p)"
    by (metis surj_pair)
  then have p: "p < 2 ^ a" "a < 64" and total: "r * 2 ^ a + p = result * 2 ^ acc_bits + part"
    using Cons.prems by (auto split: if_splits)
  have "2 ^ Suc a \<le> (2 :: nat) ^ 64" using p(2) by (intro power_increasing) auto
  then have m: "p * 2 mod 2 ^ 64 = p * 2" using p(1) by simp
  let ?bit = "of_bool (b \<noteq> flip) :: nat"
  have "translate_uint_loop (vcd_bits (b # bs)) flip result acc_bits part =
      translate_uint_loop (vcd_bits bs) flip r (a + 1) (p * 2 + ?bit)"
    using rap m by (cases b; cases flip) (simp_all add: vcd_bits_def)
  also have "\<dots> = MV_Value ((r * 2 ^ (a + 1) + (p * 2 + ?bit)) * 2 ^ length bs +
      bits_value (map (\<lambda>b. b \<noteq> flip) bs))"
    using p by (intro Cons.IH) auto
  also have "r * 2 ^ (a + 1) + (p * 2 + ?bit) = (r * 2 ^ a + p) * 2 + ?bit" by simp
  also have "\<dots> = (result * 2 ^ acc_bits + part) * 2 + ?bit" by (simp only: total)
  finally show ?case by (simp add: algebra_simps)
qed (simp add: vcd_bits_def)

lemma translate_uint_bits: "translate_uint (vcd_bits bs) False = MV_Value (bits_value bs)"
  "translate_uint (vcd_bits bs) True = MV_Value (bits_value (map Not bs))"
  using translate_uint_loop_value [of 0 0 bs False 0] translate_uint_loop_value [of 0 0 bs True 0]
  by (simp_all add: translate_uint_def)

lemma translate_unsigned_bits: "translate_unsigned_int (vcd_bits bs) = MV_Value (bits_value bs)"
  by (simp add: translate_unsigned_int_def vcd_bits_known translate_uint_bits)

lemma translate_signed_bits:
  assumes "bs \<noteq> []"
  shows "translate_signed_int (vcd_bits bs) = Some (MV_Value (signed_value bs))"
proof -
  obtain b rest where bs: "bs = b # rest" using assms by (cases bs) auto
  have "int (bits_value (map Not rest) + bits_value rest + 1) = 2 ^ length rest"
    by (simp only: bits_value_Not) simp
  then have neg: "- int (bits_value (map Not rest) + 1) = int (bits_value rest) - 2 ^ length rest" by simp
  have "vcd_bits bs = (if b then V1 else V0) # vcd_bits rest" by (simp add: bs vcd_bits_def)
  then show ?thesis
    using vcd_bits_known [of bs] neg
    by (cases b) (simp_all add: translate_signed_int_def bs signed_value_def maybe_map_def translate_uint_bits)
qed

section \<open>What values mean\<close>

text \<open>
  \<open>depicts t bs text\<close>: the bits \<open>bs\<close> are a value of type \<open>t\<close>, laid out as the compiler lays it
  out, and \<open>text\<close> writes that value. A row is the bits of a member with its text. The members of an
  array come last element first, as they do in its bits.
\<close>

inductive depicts :: "concrete_type \<Rightarrow> bits \<Rightarrow> string \<Rightarrow> bool" where
  depicts_void: "mir_size t = Some 0 \<Longrightarrow> depicts t [] []"
| depicts_bit:
    "base = PT_Bool \<or> base = PT_Bit \<or> base = PT_Clock \<Longrightarrow>
     depicts (CT_Single base ps) [b] (if b then ''true'' else ''false'')"
| depicts_int:
    "bs \<noteq> [] \<Longrightarrow> depicts (CT_Single PT_Int [CT_Integer (int (length bs))]) bs (show_int (signed_value bs))"
| depicts_uint:
    "bs \<noteq> [] \<Longrightarrow> depicts (CT_Single PT_Uint [CT_Integer (int (length bs))]) bs (show_nat (bits_value bs))"
| depicts_tuple:
    "list_all2 (\<lambda>t row. depicts t (fst row) (snd row)) ts rows \<Longrightarrow> concat (map fst rows) \<noteq> [] \<Longrightarrow>
     depicts (CT_Tuple ts) (concat (map fst rows)) (''('' @ join_strs '','' (map snd rows) @ '')'')"
| depicts_struct:
    "list_all2 (\<lambda>m row. depicts (snd m) (fst row) (snd row)) ms rows \<Longrightarrow> concat (map fst rows) \<noteq> [] \<Longrightarrow>
     depicts (CT_Struct n ms) (concat (map fst rows))
       (''{'' @ join_strs '','' (map2 (\<lambda>n text. n @ '':'' @ text) (map fst ms) (map snd rows)) @ ''}'')"
| depicts_array:
    "list_all (\<lambda>row. depicts t (fst row) (snd row)) rows \<Longrightarrow> concat (map fst rows) \<noteq> [] \<Longrightarrow>
     depicts (CT_Array t (int (length rows))) (concat (map fst rows)) (''['' @ join_strs '','' (map snd rows) @ '']'')"
| depicts_enum:
    "k < length options \<Longrightarrow> length options \<le> 2 ^ 64 \<Longrightarrow> length tag = tag_size (length options) \<Longrightarrow> bits_value tag = k \<Longrightarrow>
     list_all2 (\<lambda>m row. depicts (snd m) (fst row) (snd row)) (snd (options ! k)) rows \<Longrightarrow>
     path_tail (nid_path (fst (options ! k))) = Some name \<Longrightarrow>
     bs = tag @ concat (map fst rows) @ padding \<Longrightarrow> bs \<noteq> [] \<Longrightarrow>
     mir_size (CT_Enum options) = Some (length bs) \<Longrightarrow>
     depicts (CT_Enum options) bs (name @ ''('' @ join_strs '','' (map snd rows) @ '')'')"
| depicts_wire: "depicts t bs text \<Longrightarrow> depicts (CT_Wire t) bs text"
| depicts_inout: "depicts t bs text \<Longrightarrow> depicts (CT_Single PT_InOut [t]) bs text"

lemma vcd_bits_append: "vcd_bits (xs @ ys) = vcd_bits xs @ vcd_bits ys"
  and length_vcd_bits [simp]: "length (vcd_bits xs) = length xs"
  and vcd_bits_Nil: "vcd_bits xs = [] \<longleftrightarrow> xs = []"
  and take_vcd_bits: "take n (vcd_bits xs) = vcd_bits (take n xs)"
  and drop_vcd_bits: "drop n (vcd_bits xs) = vcd_bits (drop n xs)"
  by (simp_all add: vcd_bits_def take_map drop_map)

lemma mapM_sizes:
  "list_all2 (\<lambda>t row. mir_size t = Some (length (fst row))) ts rows \<Longrightarrow>
     mapM_opt mir_size ts = Some (map (length \<circ> fst) rows)"
  by (induction rule: list_all2_induct) auto

lemma field_values_rows:
  "list_all2 (\<lambda>t row. mir_size t = Some (length (fst row))) ts rows \<Longrightarrow>
     length (concat (map fst rows)) < 2 ^ 64 \<Longrightarrow>
     field_values ts (vcd_bits (concat (map fst rows) @ padding)) = Some (map (vcd_bits \<circ> fst) rows)"
proof (induction arbitrary: padding rule: list_all2_induct)
  case (Cons t ts row rows)
  have "field_values ts (vcd_bits (concat (map fst rows) @ padding)) = Some (map (vcd_bits \<circ> fst) rows)"
    using Cons by auto
  moreover have "to_usize (length (fst row)) = Some (length (fst row))"
    using Cons.prems by (simp add: to_usize_def)
  ultimately show ?case
    using Cons.hyps(1)
    by (auto simp: field_values_def bind_eq_Some_conv vcd_bits_append take_vcd_bits drop_vcd_bits
        vcd_bits_Nil [THEN iffD2, OF refl] comp_def split: option.splits)
qed (simp add: field_values_def)

lemma mapM_rows:
  "list_all2 (\<lambda>t row. translate_inner t (vcd_bits (fst row)) = Some (snd row)) ts rows \<Longrightarrow>
     mapM_opt (\<lambda>(t, v). translate_inner t v) (zip ts (map (vcd_bits \<circ> fst) rows)) = Some (map snd rows)"
  by (induction rule: list_all2_induct) auto

lemma depicts_size: "depicts t bs text \<Longrightarrow> mir_size t = Some (length bs)"
proof (induction rule: depicts.induct)
  case (depicts_tuple ts rows)
  then have "list_all2 (\<lambda>t row. mir_size t = Some (length (fst row))) ts rows"
    by (auto elim: list_all2_mono)
  then show ?case by (simp add: mir_size_tuple mapM_sizes length_concat comp_def)
next
  case (depicts_struct ms rows n)
  then have "list_all2 (\<lambda>t row. mir_size t = Some (length (fst row))) (map snd ms) rows"
    by (auto simp: list.rel_map elim: list_all2_mono)
  then have "mapM_opt mir_size (map snd ms) = Some (map (length \<circ> fst) rows)" by (rule mapM_sizes)
  moreover have "mapM_opt (\<lambda>(_, t). mir_size t) ms = mapM_opt mir_size (map snd ms)"
    by (induction ms) (auto split: option.splits)
  ultimately show ?case by (simp add: mir_size_struct length_concat comp_def)
next
  case (depicts_array t rows)
  then have all: "\<forall>row\<in>set rows. mir_size t = Some (length (fst row))" and "rows \<noteq> []"
    by (auto simp: list_all_iff)
  then obtain n where n: "mir_size t = Some n" by (cases rows) auto
  then have "length (concat (map fst rows)) = n * length rows"
    using all by (induction rows) auto
  then show ?case using n by (simp add: mir_size_array to_biguint_def)
qed (auto simp: mir_size_def to_biguint_def)

definition sized :: "concrete_type \<Rightarrow> vcd_value list \<Rightarrow> bool" where
  "sized t v \<longleftrightarrow> mir_size t = Some (length v) \<and> v \<noteq> [] \<and> length v < 2 ^ 64"

lemma sized_bits: "mir_size t = Some (length bs) \<Longrightarrow> bs \<noteq> [] \<Longrightarrow> length bs < 2 ^ 64 \<Longrightarrow> sized t (vcd_bits bs)"
  by (simp add: sized_def vcd_bits_Nil)

lemma sized_step:
  "sized t v \<Longrightarrow> Option.bind (mir_size t) to_usize = Some (length v)"
  "sized t v \<Longrightarrow> v \<noteq> []"
  "nat_minus (length v) (length v) = Some 0" "extend_value 0 v = v"
  by (simp_all add: sized_def to_usize_def nat_minus_def extend_value_def)

text \<open>The translation of a value of exactly the width of its type, by type.\<close>

lemma translate_by_type:
  "sized (CT_Tuple ts) v \<Longrightarrow> translate_inner (CT_Tuple ts) v =
     Option.bind (field_values ts v) (\<lambda>vs. map_option (\<lambda>texts. ''('' @ join_strs '','' texts @ '')'')
       (mapM_opt (\<lambda>(t, v). translate_inner t v) (zip ts vs)))"
  "sized (CT_Struct n ms) v \<Longrightarrow> translate_inner (CT_Struct n ms) v =
     Option.bind (field_values (map snd ms) v) (\<lambda>vs. map_option
       (\<lambda>texts. ''{'' @ join_strs '','' (map2 (\<lambda>n text. n @ '':'' @ text) (map fst ms) texts) @ ''}'')
       (mapM_opt (\<lambda>(t, v). translate_inner t v) (zip (map snd ms) vs)))"
  "sized (CT_Array t sz) v \<Longrightarrow> translate_inner (CT_Array t sz) v =
     Option.bind (field_values (replicate (nat sz) t) v) (\<lambda>vs. map_option (\<lambda>texts. ''['' @ join_strs '','' texts @ '']'')
       (mapM_opt (\<lambda>v. translate_inner t v) vs))"
  "sized (CT_Single PT_Int ps) v \<Longrightarrow> translate_inner (CT_Single PT_Int ps) v =
     map_option (write_maybe show_int) (translate_signed_int v)"
  "sized (CT_Single PT_Uint ps) v \<Longrightarrow> translate_inner (CT_Single PT_Uint ps) v =
     Some (write_maybe show_nat (translate_unsigned_int v))"
  "sized (CT_Single PT_InOut [t]) v \<Longrightarrow> translate_inner (CT_Single PT_InOut [t]) v = translate_inner t v"
  "sized (CT_Wire t) v \<Longrightarrow> translate_inner (CT_Wire t) v = translate_inner t v"
  by (subst translate_inner.simps; simp add: sized_step)+

lemma translate_enum:
  assumes "sized (CT_Enum options) v" and "v = vcd_bits tag @ rest"
    and "length tag = tag_size (length options)" and "bits_value tag = k" and "k < length options"
    and "k < 2 ^ 64"
  shows "translate_inner (CT_Enum options) v =
    Option.bind (field_values (map snd (snd (options ! k))) rest) (\<lambda>vs.
      Option.bind (path_tail (nid_path (fst (options ! k)))) (\<lambda>name.
        map_option (\<lambda>texts. name @ ''('' @ join_strs '','' texts @ '')'')
          (mapM_opt (\<lambda>(t, v). translate_inner t v) (zip (map snd (snd (options ! k))) vs))))"
proof -
  have "take (length tag) v = vcd_bits tag" "drop (length tag) v = rest" "length tag \<le> length v"
    using assms(2) by simp_all
  then show ?thesis
    using assms(3-) by (subst translate_inner.simps) (simp add: sized_step(1,2) [OF assms(1)] sized_step(3,4) translate_uint_bits)
qed

lemma translate_bit:
  "base = PT_Bool \<or> base = PT_Bit \<or> base = PT_Clock \<Longrightarrow>
     translate_inner (CT_Single base ps) (vcd_bits [b]) = Some (if b then ''true'' else ''false'')"
  by (subst translate_inner.simps)
    (auto simp: mir_size_def to_usize_def nat_minus_def extend_value_def vcd_bits_def show_bit_def)

lemma rows_short:
  "row \<in> set rows \<Longrightarrow> length (fst row) \<le> length (concat (map fst rows))"
  by (induction rows) auto

text \<open>The rows of a value translate to their texts.\<close>

lemma rows_translate:
  assumes "list_all2 (\<lambda>t row. depicts t (fst row) (snd row) \<and>
      (length (fst row) < 2 ^ 64 \<longrightarrow> translate_inner t (vcd_bits (fst row)) = Some (snd row))) ts rows"
    and "length (concat (map fst rows)) < 2 ^ 64"
  shows "\<exists>vs. field_values ts (vcd_bits (concat (map fst rows) @ padding)) = Some vs \<and>
    mapM_opt (\<lambda>(t, v). translate_inner t v) (zip ts vs) = Some (map snd rows)"
proof -
  have "list_all2 (\<lambda>t row. mir_size t = Some (length (fst row))) ts rows"
    using assms(1) by (auto elim!: list_all2_mono dest: depicts_size)
  moreover have "list_all2 (\<lambda>t row. translate_inner t (vcd_bits (fst row)) = Some (snd row)) ts rows"
    using assms(1)
  proof (rule list.rel_mono_strong)
    fix t row
    assume "row \<in> set rows" and "depicts t (fst row) (snd row) \<and>
      (length (fst row) < 2 ^ 64 \<longrightarrow> translate_inner t (vcd_bits (fst row)) = Some (snd row))"
    then show "translate_inner t (vcd_bits (fst row)) = Some (snd row)"
      using rows_short [of row rows] assms(2) by auto
  qed
  ultimately show ?thesis
    using field_values_rows [OF _ assms(2)] mapM_rows by blast
qed

lemma field_values_length: "field_values ts v = Some vs \<Longrightarrow> length vs = length ts"
proof -
  have "take_fields ns v = Some vs \<Longrightarrow> length vs = length ns" for ns v vs
    by (induction ns v arbitrary: vs rule: take_fields.induct) (auto split: if_splits)
  then show "field_values ts v = Some vs \<Longrightarrow> length vs = length ts"
    by (auto simp: field_values_def bind_eq_Some_conv dest: mapM_opt_length)
qed

lemma mapM_replicate:
  "length vs = n \<Longrightarrow>
     mapM_opt (\<lambda>(t, v). f t v) (zip (replicate n t) vs) = mapM_opt (\<lambda>v. f t v) vs"
  by (induction vs arbitrary: n) (auto split: option.splits)

lemma translate_void: "mir_size t = Some 0 \<Longrightarrow> translate_inner t [] = Some []"
  by (simp add: translate_inner.simps to_usize_def nat_minus_def)

lemma depicts_translates:
  "depicts t bs text \<Longrightarrow> length bs < 2 ^ 64 \<Longrightarrow> translate_inner t (vcd_bits bs) = Some text"
proof (induction rule: depicts.induct)
  case (depicts_void t)
  then show ?case by (simp add: translate_inner.simps to_usize_def nat_minus_def vcd_bits_def)
next
  case (depicts_bit base ps b)
  then show ?case by (simp add: translate_bit)
next
  case (depicts_int bs)
  have "sized (CT_Single PT_Int [CT_Integer (int (length bs))]) (vcd_bits bs)"
    using depicts_int by (intro sized_bits) (simp_all add: mir_size_def to_biguint_def)
  then show ?case using depicts_int.hyps by (simp add: translate_by_type(4) translate_signed_bits write_maybe_def)
next
  case (depicts_uint bs)
  have "sized (CT_Single PT_Uint [CT_Integer (int (length bs))]) (vcd_bits bs)"
    using depicts_uint by (intro sized_bits) (simp_all add: mir_size_def to_biguint_def)
  then show ?case by (simp add: translate_by_type(5) translate_unsigned_bits write_maybe_def)
next
  case (depicts_tuple ts rows)
  have "depicts (CT_Tuple ts) (concat (map fst rows)) (''('' @ join_strs '','' (map snd rows) @ '')'')"
    by (intro depicts.depicts_tuple list_all2_mono [OF depicts_tuple.IH] depicts_tuple.hyps(1)) simp
  then have "sized (CT_Tuple ts) (vcd_bits (concat (map fst rows)))"
    using depicts_tuple by (intro sized_bits depicts_size) auto
  moreover obtain vs where "field_values ts (vcd_bits (concat (map fst rows))) = Some vs"
    "mapM_opt (\<lambda>(t, v). translate_inner t v) (zip ts vs) = Some (map snd rows)"
    using rows_translate [of ts rows "[]"] depicts_tuple.IH depicts_tuple.prems by auto
  ultimately show ?case by (simp add: translate_by_type(1))
next
  case (depicts_struct ms rows n)
  have "depicts (CT_Struct n ms) (concat (map fst rows))
      (''{'' @ join_strs '','' (map2 (\<lambda>n text. n @ '':'' @ text) (map fst ms) (map snd rows)) @ ''}'')"
    by (intro depicts.depicts_struct list_all2_mono [OF depicts_struct.IH] depicts_struct.hyps(1)) simp
  then have "sized (CT_Struct n ms) (vcd_bits (concat (map fst rows)))"
    using depicts_struct by (intro sized_bits depicts_size) auto
  moreover obtain vs where "field_values (map snd ms) (vcd_bits (concat (map fst rows))) = Some vs"
    "mapM_opt (\<lambda>(t, v). translate_inner t v) (zip (map snd ms) vs) = Some (map snd rows)"
    using rows_translate [of "map snd ms" rows "[]"] depicts_struct.IH depicts_struct.prems
    by (auto simp: list.rel_map)
  ultimately show ?case by (simp add: translate_by_type(2))
next
  case (depicts_array t rows)
  have "depicts (CT_Array t (int (length rows))) (concat (map fst rows)) (''['' @ join_strs '','' (map snd rows) @ '']'')"
    by (rule depicts.depicts_array [OF _ depicts_array.hyps(1)]) (use depicts_array.IH in \<open>simp add: list_all_iff\<close>)
  then have "sized (CT_Array t (int (length rows))) (vcd_bits (concat (map fst rows)))"
    using depicts_array by (intro sized_bits depicts_size) auto
  moreover have "list_all2 (\<lambda>t row. depicts t (fst row) (snd row) \<and>
      (length (fst row) < 2 ^ 64 \<longrightarrow> translate_inner t (vcd_bits (fst row)) = Some (snd row)))
    (replicate (length rows) t) rows"
    using depicts_array.IH by (simp add: list_all2_conv_all_nth list_all_length)
  then obtain vs where "field_values (replicate (length rows) t) (vcd_bits (concat (map fst rows))) = Some vs"
    and "mapM_opt (\<lambda>(t, v). translate_inner t v) (zip (replicate (length rows) t) vs) = Some (map snd rows)"
    using rows_translate [of _ rows "[]"] depicts_array.prems by force
  ultimately show ?case
    using field_values_length [of "replicate (length rows) t"] by (simp add: translate_by_type(3) mapM_replicate)
next
  case (depicts_enum k options tag rows name bs padding)
  have "sized (CT_Enum options) (vcd_bits bs)"
    using depicts_enum by (intro sized_bits) auto
  moreover have "k < 2 ^ 64" using depicts_enum.hyps(1,2) by simp
  moreover have "vcd_bits bs = vcd_bits tag @ vcd_bits (concat (map fst rows) @ padding)"
    by (simp only: depicts_enum.hyps(6) vcd_bits_append)
  moreover obtain vs where "field_values (map snd (snd (options ! k))) (vcd_bits (concat (map fst rows) @ padding)) = Some vs"
    "mapM_opt (\<lambda>(t, v). translate_inner t v) (zip (map snd (snd (options ! k))) vs) = Some (map snd rows)"
    using rows_translate [of "map snd (snd (options ! k))" rows padding] depicts_enum.IH depicts_enum.hyps(6) depicts_enum.prems
    by (auto simp: list.rel_map)
  ultimately show ?case
    using translate_enum [of options _ tag _ k] depicts_enum.hyps by simp
next
  case (depicts_wire t bs s)
  show ?case
  proof (cases "bs = []")
    case True
    then show ?thesis using depicts_wire translate_void [of t] translate_void [of "CT_Wire t"]
      by (auto dest!: depicts_size simp: mir_size_def vcd_bits_def)
  next
    case False
    then have "sized (CT_Wire t) (vcd_bits bs)"
      using depicts_wire by (intro sized_bits) (auto dest: depicts_size simp: mir_size_def)
    then show ?thesis using depicts_wire by (simp add: translate_by_type(7))
  qed
next
  case (depicts_inout t bs s)
  show ?case
  proof (cases "bs = []")
    case True
    then show ?thesis using depicts_inout translate_void [of t] translate_void [of "CT_Single PT_InOut [t]"]
      by (auto dest!: depicts_size simp: mir_size_def vcd_bits_def)
  next
    case False
    moreover obtain u where "to_mir_type t = Some u" "ty_size u = length bs"
      using depicts_size [OF depicts_inout.hyps] by (auto simp: mir_size_def)
    ultimately have "sized (CT_Single PT_InOut [t]) (vcd_bits bs)"
      using depicts_inout.prems by (intro sized_bits) (simp_all add: mir_size_def)
    then show ?thesis using depicts_inout by (simp add: translate_by_type(6))
  qed
qed


definition example_pair :: concrete_type where
  "example_pair = CT_Tuple [CT_Single PT_Int [CT_Integer 4], CT_Single PT_Bool []]"

lemma example_depicts: "depicts example_pair [True, True, False, True, True] ''(-3,true)''"
proof -
  have "depicts (CT_Single PT_Int [CT_Integer (int (length [True, True, False, True]))])
      [True, True, False, True] (show_int (signed_value [True, True, False, True]))"
    by (rule depicts_int) simp
  moreover have "show_int (signed_value [True, True, False, True]) = ''-3''" by code_simp
  ultimately have "depicts (CT_Single PT_Int [CT_Integer 4]) [True, True, False, True] ''-3''" by simp
  moreover have "depicts (CT_Single PT_Bool []) [True] ''true''"
    using depicts_bit [of PT_Bool "[]" True] by simp
  ultimately have "depicts example_pair (concat (map fst [([True, True, False, True], ''-3''), ([True], ''true'')]))
      (''('' @ join_strs '','' (map snd [([True, True, False, True], ''-3''), ([True], ''true'')]) @ '')'')"
    unfolding example_pair_def by (intro depicts_tuple) simp_all
  then show ?thesis by simp
qed


text \<open>
  A value with more bits than its type is meant to be shown as nothing, but the subtraction that
  comes first overflows.
\<close>
lemma wide_value_panics: "translate_value (CT_Single PT_Bool []) [V0, V1] = None"
  by (simp add: translate_value_def translate_inner.simps mir_size_def to_usize_def nat_minus_def)

text \<open>The elements of an array are shown from the last to the first: the array is the bits of the
  expression \<open>[1, 2]\<close> of two-bit integers, the first element in the least significant bits as the
  generated code places them.\<close>
lemma array_shown_backwards:
  "translate_value (CT_Array (CT_Single PT_Uint [CT_Integer 2]) 2)
     (vcd_bits (concat (rev [[False, True], [True, False]]))) = Some ''[2,1]''"
proof -
  let ?rows = "[([True, False], ''2''), ([False, True], ''1'')] :: (bits \<times> string) list"
  have "show_nat 2 = ''2''" "show_nat 1 = ''1''" by code_simp+
  then have "list_all (\<lambda>row. depicts (CT_Single PT_Uint [CT_Integer 2]) (fst row) (snd row)) ?rows"
    using depicts_uint [of "[True, False]"] depicts_uint [of "[False, True]"] by simp
  then have "depicts (CT_Array (CT_Single PT_Uint [CT_Integer 2]) (int (length ?rows)))
      (concat (map fst ?rows)) (''['' @ join_strs '','' (map snd ?rows) @ '']'')"
    by (rule depicts_array) simp
  from depicts_translates [OF this] show ?thesis by (simp add: translate_value_def)
qed

end
