(* ===== verification/Spec2Isabelle.thy ===== *)
theory Spec2Isabelle
  imports
    WL_Infer
    Mir_Eval Mir_Diff Mir_Alias Mir_Gating Mir_Codegen
    Usefulness_Sound Pattern_Sound Substitution Hir_Items
    Constraints Type_Concrete
    Pipeline_Sound Linear_Sound Symbol_Sound
    Vcd
begin

text \<open>
  The Spade compiler: a model of its middle and back end.

  Spade is a hardware description language. Its compiler parses a program (spade-parser), resolves
  names (spade-ast-lowering) to a typed tree, the HIR (spade-hir), infers types
  (spade-typeinference), lowers units to the MIR, a list of statements over named values
  (spade-hir-lowering), transforms the MIR and prints it as Verilog (spade-mir). vcd-translate reads
  the waveforms of simulations back by the types of the program.

  Conventions. A panic of the source (\<open>unwrap\<close>, \<open>expect\<close>, \<open>unreachable!\<close>, an index out of bounds, an
  unsigned subtraction that goes below zero) is \<open>None\<close>, or the error \<open>LE_Panic\<close> where the code
  returns errors too; a \<open>Result\<close> is a sum with the error on the left. A \<open>Loc<T>\<close> is its
  content, with the location kept where something depends on it. Big integers are \<open>int\<close> and \<open>nat\<close>; machine
  integers are kept at their width where the code can reach it. The state that the code mutates
  (trackers of ids, maps, lists of statements) is passed along and returned.

  The theories.

  \<^item> Prelude, Common: panics and errors over lists, decimal text, paths, name ids, locations and the
    trackers of ids (spade-common), an interface \<open>id_source\<close> of the trackers.
  \<^item> Spade_Types: primitive and concrete types, and the lattice of meta types with the meet that
    unification computes (spade-types).
  \<^item> WL_Range, WL_Affine, WL_Infer: word length inference (spade-wordlength-inference). Ranges and
    affine forms are sound approximations (the interface \<open>range_method\<close>), the solver of \<open>Inferer::infer\<close>
    terminates after one pass per equation, its ranges hold every solution of the equations, and the
    check of \<open>infer_and_check\<close> accepts only what fits the integer types.
  \<^item> Hir, Hir_Items: the HIR (expressions, patterns, statements, items) with its printing, and the
    matching of arguments with parameters (param_util.rs): exact results and exact errors.
  \<^item> Patterns, Usefulness, Usefulness_Sound: the exhaustiveness check of matches (pattern.rs,
    usefulness.rs): it returns, accepts only exhaustive matches, and reports patterns that are missing,
    for types without integers; with integers and opaque types it is shown to accept too much.
  \<^item> Type_Lowering, Statement_List, Pattern_Lowering, Pattern_Sound: the MIR types of concrete types,
    the lists of statements that lowering emits (statement_list.rs, name_map.rs), and the lowering of
    patterns (lib.rs): the condition of a pattern holds exactly for the values it matches.
  \<^item> Substitution: the names of the variables of a pipeline in each of its stages (substitution.rs):
    the register that a stage names holds the value of as many cycles ago as stages have passed.
  \<^item> Mir_Types, Mir, Mir_Names: MIR types and sizes, names, operators, statements, entities, their
    printing, unique instance names, predictable renaming and Verilog names (spade-mir: types.rs,
    lib.rs, unit_name.rs, renaming.rs, codegen/util.rs).
  \<^item> Mir_Eval: evaluation of constant statements (eval.rs): it is typed and its two renderings agree.
  \<^item> Mir_Diff: comparison of entities (diff.rs), sound and complete for renumbering.
  \<^item> Mir_Alias, Mir_Gating, Mir_Wal: the passes that flatten aliases, gate option registers and add
    traced signals (aliasing.rs, auto_clock_gating.rs, wal.rs); the first two keep the values of the
    entity and every name unique.
  \<^item> Verilog, Mir_Expr_Code, Mir_Field_Code, Mir_Codegen: the text of the generated Verilog
    (codegen/mod.rs), with the bits that indices, enum members, array ranges, memory ports and match
    patterns select.
  \<^item> Vcd: the text of a waveform value by its type (vcd-translate).

  Bounds and fuel. No definition has fuel: loops that need a measure are \<open>function\<close>s with a
  termination proof, and \<open>flatten_aliases\<close>, which may run forever on a cycle of aliases, is a partial
  function that is proved to return when no value is an alias of itself.

  Not modelled. The parser, name resolution and type inference; the lowering of expressions, calls and
  whole units; the statements of pipeline bodies; the linear type check and the compilation driver. The
  Verilog layout crate, rendered diagnostics of assertions, and the foreign interfaces are outside the
  program's own code or pure input and output.
\<close>

end
